(* ===== verification/Go_Base.thy ===== *)
theory Go_Base
  imports Main "HOL-Library.Word" "HOL-Library.AList" "HOL-Library.Char_ord"
    "HOL-Library.List_Lexorder"
begin

text \<open>
  What the Go code of the repository uses of the language and of the packages
  \<^verbatim>\<open>errors\<close>, \<^verbatim>\<open>fmt\<close>, \<^verbatim>\<open>strings\<close>, \<^verbatim>\<open>strconv\<close>, \<^verbatim>\<open>io\<close> and \<^verbatim>\<open>time\<close>:

  \<^item> a call has three outcomes (\<open>res\<close>): a value, a returned \<open>error\<close>, or a panic;
  \<^item> errors are values (\<open>go_error\<close>) with their message, the error they wrap, and the sentinels
    the code compares with;
  \<^item> a \<^verbatim>\<open>map[string]string\<close> is an association list, in the order a \<^verbatim>\<open>range\<close> loop happens to
    visit it, read with \<open>map_of\<close> (the order is unspecified in Go: theorems hold for every order);
  \<^item> strings are lists of 8-bit characters as in Go, \<^verbatim>\<open>[]byte\<close> is \<open>byte list\<close>;
  \<^item> a \<^verbatim>\<open>time.Time\<close> is its number of nanoseconds; \<^verbatim>\<open>time.Now()\<close> is an argument of the operation;
  \<^item> \<^verbatim>\<open>int\<close> and \<^verbatim>\<open>int64\<close> are \<open>int\<close>, with the wrap-around \<open>i64\<close> written out where the code
    can reach it.

  The lemmas the components share are at the end of each section, in the simpset or in the
  collections \<open>go_string\<close> and \<open>go_map\<close>.
\<close>

named_theorems go_string
named_theorems go_map
named_theorems go_io

section \<open>Basic types\<close>

type_synonym byte = "8 word"
type_synonym bytes = "byte list"
type_synonym smap = "(string \<times> string) list"
type_synonym time = int
type_synonym duration = int

definition bytes_of :: "string \<Rightarrow> bytes" where
  "bytes_of s = map (\<lambda>c. word_of_nat (of_char c)) s"

definition string_of :: "bytes \<Rightarrow> string" where
  "string_of bs = map (\<lambda>b. char_of (unat b)) bs"

lemma length_bytes_of [simp]: "length (bytes_of s) = length s"
  by (simp add: bytes_of_def)

lemma length_string_of [simp]: "length (string_of bs) = length bs"
  by (simp add: string_of_def)

lemma bytes_of_append [simp]: "bytes_of (s @ t) = bytes_of s @ bytes_of t"
  by (simp add: bytes_of_def)

lemma unat_byte_less [simp]: "unat (b :: byte) < 256"
  using unsigned_less [of b, where ?'a = nat] by simp

lemma unat_byte_mod [simp]: "unat (b :: byte) mod 256 = unat b"
  by simp

lemma unat_byte_of_char [simp]: "unat (word_of_nat (of_char c) :: byte) = of_char c"
  by (simp add: unsigned_of_nat take_bit_eq_mod)

lemma string_of_bytes_of [simp]: "string_of (bytes_of s) = s"
  by (simp add: string_of_def bytes_of_def comp_def)

lemma bytes_of_string_of [simp]: "bytes_of (string_of bs) = bs"
  by (simp add: string_of_def bytes_of_def comp_def)

section \<open>Errors and outcomes\<close>

datatype go_error =
    ErrNew string
  | ErrWrap string go_error
  | ErrEOF
  | ErrUnexpectedEOF
  | ErrNotExist string
  | ErrKMS (kms_op: string) (kms_key: string) (kms_err: go_error) (kms_retryable: bool)

text \<open>\<open>ErrWrap s e\<close> is \<^verbatim>\<open>fmt.Errorf("s%w", e)\<close>; \<open>ErrKMS\<close> is a pointer to the struct
  \<^verbatim>\<open>kms.KMSError\<close>, whose \<^verbatim>\<open>Error\<close> method gives the message here.\<close>

primrec error_msg :: "go_error \<Rightarrow> string" where
  "error_msg (ErrNew s) = s"
| "error_msg (ErrWrap s e) = s @ error_msg e"
| "error_msg ErrEOF = ''EOF''"
| "error_msg ErrUnexpectedEOF = ''unexpected EOF''"
| "error_msg (ErrNotExist s) = s @ '': no such file or directory''"
| "error_msg (ErrKMS op key e r) =
     (if key \<noteq> '''' then ''kms '' @ op @ '' failed for key '' @ key @ '': '' @ error_msg e
      else ''kms '' @ op @ '' failed: '' @ error_msg e)"

datatype 'a res = Ok 'a | Err go_error | Panic string

primrec is_Ok :: "'a res \<Rightarrow> bool" where
  "is_Ok (Ok x) = True"
| "is_Ok (Err e) = False"
| "is_Ok (Panic s) = False"

primrec the_ok :: "'a res \<Rightarrow> 'a" where
  "the_ok (Ok x) = x"

primrec res_bind :: "'a res \<Rightarrow> ('a \<Rightarrow> 'b res) \<Rightarrow> 'b res" where
  "res_bind (Ok x) f = f x"
| "res_bind (Err e) f = Err e"
| "res_bind (Panic s) f = Panic s"

text \<open>\<open>wrap_err s r\<close> is the idiom \<^verbatim>\<open>if err != nil { return fmt.Errorf("s: %w", err) }\<close>: an error is
  wrapped, a value and a panic pass through.\<close>

primrec wrap_err :: "string \<Rightarrow> 'a res \<Rightarrow> 'a res" where
  "wrap_err s (Ok x) = Ok x"
| "wrap_err s (Err e) = Err (ErrWrap s e)"
| "wrap_err s (Panic p) = Panic p"

lemma is_Ok_iff: "is_Ok r \<longleftrightarrow> (\<exists>x. r = Ok x)"
  by (cases r) auto

lemma res_bind_Ok [simp]: "res_bind r f = Ok y \<longleftrightarrow> (\<exists>x. r = Ok x \<and> f x = Ok y)"
  by (cases r) auto

lemma wrap_err_Ok [simp]: "wrap_err s r = Ok x \<longleftrightarrow> r = Ok x"
  by (cases r) auto

lemma wrap_err_Panic [simp]: "wrap_err s r = Panic p \<longleftrightarrow> r = Panic p"
  by (cases r) auto

definition nil_deref :: "'a res" where
  "nil_deref = Panic ''invalid memory address or nil pointer dereference''"

text \<open>Sequencing of calls over a state.\<close>

definition rs_bind :: "'a res \<times> 's \<Rightarrow> ('a \<Rightarrow> 's \<Rightarrow> 'b res \<times> 's) \<Rightarrow> 'b res \<times> 's" where
  "rs_bind rs f = (case rs of (Ok x, s) \<Rightarrow> f x s | (Err e, s) \<Rightarrow> (Err e, s) | (Panic p, s) \<Rightarrow> (Panic p, s))"

definition rs_wrap :: "string \<Rightarrow> 'a res \<times> 's \<Rightarrow> 'a res \<times> 's" where
  "rs_wrap msg rs = (wrap_err msg (fst rs), snd rs)"

lemma rs_bind_simps [simp]:
  "rs_bind (Ok x, s) f = f x s" "rs_bind (Err e, s) f = (Err e, s)" "rs_bind (Panic p, s) f = (Panic p, s)"
  by (simp_all add: rs_bind_def)

lemma rs_wrap_simps [simp]:
  "rs_wrap msg (Ok x, s) = (Ok x, s)" "rs_wrap msg (Err e, s) = (Err (ErrWrap msg e), s)" "rs_wrap msg (Panic p, s) = (Panic p, s)"
  by (simp_all add: rs_wrap_def)

lemma rs_bind_Ok: "rs_bind rs f = (Ok y, s') \<longleftrightarrow> (\<exists>x s. rs = (Ok x, s) \<and> f x s = (Ok y, s'))"
  by (cases rs; cases "fst rs") (auto simp: rs_bind_def)

lemma rs_wrap_Ok: "rs_wrap msg rs = (Ok x, s) \<longleftrightarrow> rs = (Ok x, s)"
  by (cases rs; cases "fst rs") auto

section \<open>Integers\<close>

definition i64 :: "int \<Rightarrow> int" where
  "i64 x = (x + 2 ^ 63) mod 2 ^ 64 - 2 ^ 63"

definition in_i64 :: "int \<Rightarrow> bool" where
  "in_i64 x \<longleftrightarrow> - (2 ^ 63) \<le> x \<and> x < 2 ^ 63"

lemma i64_id [simp]: "in_i64 x \<Longrightarrow> i64 x = x"
  by (simp add: in_i64_def i64_def)

lemma in_i64_i64 [simp]: "in_i64 (i64 x)"
proof -
  have "0 \<le> (x + 2 ^ 63) mod (2 ^ 64 :: int)" "(x + 2 ^ 63) mod (2 ^ 64 :: int) < 2 ^ 64"
    by simp_all
  then show ?thesis unfolding i64_def in_i64_def by simp
qed

section \<open>Package strings\<close>

definition HasPrefix :: "string \<Rightarrow> string \<Rightarrow> bool" where
  "HasPrefix s p \<longleftrightarrow> take (length p) s = p"

definition HasSuffix :: "string \<Rightarrow> string \<Rightarrow> bool" where
  "HasSuffix s p \<longleftrightarrow> length p \<le> length s \<and> drop (length s - length p) s = p"

definition TrimPrefix :: "string \<Rightarrow> string \<Rightarrow> string" where
  "TrimPrefix s p = (if HasPrefix s p then drop (length p) s else s)"

definition TrimSuffix :: "string \<Rightarrow> string \<Rightarrow> string" where
  "TrimSuffix s p = (if HasSuffix s p then take (length s - length p) s else s)"

text \<open>\<^verbatim>\<open>strings.Index\<close>: the position of the first occurrence, -1 when there is none.\<close>

fun Index :: "string \<Rightarrow> string \<Rightarrow> int" where
  "Index [] p = (if p = [] then 0 else -1)"
| "Index (c # s) p =
     (if HasPrefix (c # s) p then 0
      else (let i = Index s p in if i < 0 then -1 else i + 1))"

definition Contains :: "string \<Rightarrow> string \<Rightarrow> bool" where
  "Contains s p \<longleftrightarrow> 0 \<le> Index s p"

text \<open>\<^verbatim>\<open>strings.Split\<close> for a non-empty separator (the only use in the code).\<close>

function split_aux :: "string \<Rightarrow> string \<Rightarrow> string \<Rightarrow> string list" where
  "split_aux sep acc [] = [rev acc]"
| "split_aux sep acc (c # s) =
     (if sep \<noteq> [] \<and> HasPrefix (c # s) sep
      then rev acc # split_aux sep [] (drop (length sep) (c # s))
      else split_aux sep (c # acc) s)"
  by pat_completeness auto
termination
  by (relation "measure (\<lambda>(sep, acc, s). length s)") auto

definition Split :: "string \<Rightarrow> string \<Rightarrow> string list" where
  "Split s sep = split_aux sep [] s"

text \<open>\<^verbatim>\<open>strings.SplitN(s, sep, 2)\<close>.\<close>

definition SplitN2 :: "string \<Rightarrow> string \<Rightarrow> string list" where
  "SplitN2 s sep =
     (let i = Index s sep in
      if i < 0 then [s] else [take (nat i) s, drop (nat i + length sep) s])"

text \<open>\<^verbatim>\<open>strings.ToLower\<close> on ASCII text (header names, user agents); other bytes are kept.\<close>

definition lower_char :: "char \<Rightarrow> char" where
  "lower_char c =
     (let n = of_char c :: nat in if 65 \<le> n \<and> n \<le> 90 then char_of (n + 32) else c)"

definition ToLower :: "string \<Rightarrow> string" where
  "ToLower s = map lower_char s"

text \<open>\<^verbatim>\<open>strings.ReplaceAll(s, c, "")\<close> for a one-byte \<open>c\<close>.\<close>

definition RemoveAll_char :: "string \<Rightarrow> char \<Rightarrow> string" where
  "RemoveAll_char s c = filter (\<lambda>x. x \<noteq> c) s"

definition is_space :: "char \<Rightarrow> bool" where
  "is_space c = ((of_char c :: nat) \<in> {9, 10, 11, 12, 13, 32})"

definition TrimSpace :: "string \<Rightarrow> string" where
  "TrimSpace s = rev (dropWhile is_space (rev (dropWhile is_space s)))"

lemma HasPrefix_append [simp, go_string]: "HasPrefix (p @ s) p"
  by (simp add: HasPrefix_def)

lemma HasPrefix_iff [go_string]: "HasPrefix s p \<longleftrightarrow> (\<exists>t. s = p @ t)"
  unfolding HasPrefix_def by (metis append_eq_conv_conj append_take_drop_id)

lemma HasPrefix_Nil [simp]: "HasPrefix s []"
  by (simp add: HasPrefix_def)

lemma HasSuffix_append [simp, go_string]: "HasSuffix (s @ p) p"
  by (simp add: HasSuffix_def)

lemma HasSuffix_iff [go_string]: "HasSuffix s p \<longleftrightarrow> (\<exists>t. s = t @ p)"
  unfolding HasSuffix_def
  by (metis append_eq_conv_conj append_take_drop_id diff_add_inverse2 le_add2 length_append)

lemma TrimPrefix_append [simp, go_string]: "TrimPrefix (p @ s) p = s"
  by (simp add: TrimPrefix_def)

lemma TrimSuffix_append [simp, go_string]: "TrimSuffix (s @ p) p = s"
  by (simp add: TrimSuffix_def)

lemma Index_ge: "-1 \<le> Index s p"
  by (induction s p rule: Index.induct) (auto simp: Let_def)

lemma Index_Some_prefix:
  "0 \<le> Index s p \<Longrightarrow> HasPrefix (drop (nat (Index s p)) s) p"
proof (induction s p rule: Index.induct)
  case (1 p)
  then show ?case by (auto split: if_splits)
next
  case (2 c s p)
  then show ?case
    by (auto simp: Let_def nat_add_distrib split: if_splits)
qed

lemma Index_less_length: "0 \<le> Index s p \<Longrightarrow> nat (Index s p) + length p \<le> length s"
proof -
  assume "0 \<le> Index s p"
  then obtain t where t: "drop (nat (Index s p)) s = p @ t"
    using Index_Some_prefix HasPrefix_iff by blast
  show ?thesis
  proof (cases "nat (Index s p) \<le> length s")
    case True
    then show ?thesis using arg_cong [OF t, of length] by simp
  next
    case False
    have "nat (Index s p) \<le> length s"
      by (induction s p rule: Index.induct) (auto simp: Let_def)
    with False show ?thesis by simp
  qed
qed

lemma Index_neg_iff: "Index s p < 0 \<longleftrightarrow> (\<nexists>t u. s = t @ p @ u)"
proof (induction s p rule: Index.induct)
  case (1 p)
  then show ?case by auto
next
  case (2 c s p)
  have *: "(\<exists>t u. c # s = t @ p @ u) \<longleftrightarrow> HasPrefix (c # s) p \<or> (\<exists>t u. s = t @ p @ u)"
    by (auto simp: HasPrefix_iff Cons_eq_append_conv)
  show ?case
  proof (cases "HasPrefix (c # s) p")
    case True
    then show ?thesis using * by auto
  next
    case False
    then show ?thesis using "2.IH" * Index_ge [of s p] by (auto simp: Let_def)
  qed
qed

lemma Contains_iff [go_string]: "Contains s p \<longleftrightarrow> (\<exists>t u. s = t @ p @ u)"
  using Index_neg_iff [of s p] by (auto simp: Contains_def not_less [symmetric])

section \<open>Package strconv and the verbs of fmt\<close>

definition is_digit :: "char \<Rightarrow> bool" where
  "is_digit c \<longleftrightarrow> (48 :: nat) \<le> of_char c \<and> of_char c \<le> (57 :: nat)"

definition digit_val :: "char \<Rightarrow> nat" where
  "digit_val c = of_char c - 48"

definition digit_char :: "nat \<Rightarrow> char" where
  "digit_char d = (if d < 10 then char_of (48 + d) else char_of (87 + d))"

fun parse_dec :: "nat \<Rightarrow> string \<Rightarrow> nat option" where
  "parse_dec acc [] = Some acc"
| "parse_dec acc (c # s) =
     (if is_digit c then parse_dec (10 * acc + digit_val c) s else None)"

definition err_syntax :: go_error where
  "err_syntax = ErrNew ''strconv: invalid syntax''"

definition err_range :: go_error where
  "err_range = ErrNew ''strconv: value out of range''"

text \<open>\<^verbatim>\<open>strconv.ParseInt(s, 10, 64)\<close>, and \<^verbatim>\<open>strconv.Atoi\<close> on a 64-bit platform: an optional sign,
  at least one decimal digit and nothing else, and the value in range.\<close>

definition ParseInt :: "string \<Rightarrow> int res" where
  "ParseInt s =
     (if s = [] then Err err_syntax
      else let neg = (hd s = CHR ''-'');
               ds = (if hd s = CHR ''-'' \<or> hd s = CHR ''+'' then tl s else s)
           in if ds = [] then Err err_syntax
              else case parse_dec 0 ds of
                     None \<Rightarrow> Err err_syntax
                   | Some n \<Rightarrow>
                       let v = (if neg then - int n else int n)
                       in if in_i64 v then Ok v else Err err_range)"

fun dec_digits :: "nat \<Rightarrow> string" where
  "dec_digits n =
     (if n < 10 then [digit_char n] else dec_digits (n div 10) @ [digit_char (n mod 10)])"

declare dec_digits.simps [simp del]

text \<open>\<^verbatim>\<open>strconv.FormatInt(x, 10)\<close>, \<^verbatim>\<open>strconv.Itoa\<close> and the verb \<^verbatim>\<open>%d\<close>.\<close>

definition FormatInt :: "int \<Rightarrow> string" where
  "FormatInt x = (if x < 0 then CHR ''-'' # dec_digits (nat (- x)) else dec_digits (nat x))"

fun hex_digits :: "nat \<Rightarrow> string" where
  "hex_digits n =
     (if n < 16 then [digit_char n] else hex_digits (n div 16) @ [digit_char (n mod 16)])"

declare hex_digits.simps [simp del]

text \<open>The verb \<^verbatim>\<open>%x\<close> on an \<^verbatim>\<open>int64\<close>.\<close>

definition FormatHex :: "int \<Rightarrow> string" where
  "FormatHex x = (if x < 0 then CHR ''-'' # hex_digits (nat (- x)) else hex_digits (nat x))"

definition dquote :: "string \<Rightarrow> string" where
  "dquote s = CHR 0x22 # s @ [CHR 0x22]"

lemma digit_char_digit [simp]:
  assumes "d < 10"
  shows "is_digit (digit_char d)" and "digit_val (digit_char d) = d"
proof -
  have "(of_char (digit_char d) :: nat) = 48 + d"
    using assms by (simp add: digit_char_def)
  then show "is_digit (digit_char d)" and "digit_val (digit_char d) = d"
    using assms by (simp_all add: is_digit_def digit_val_def)
qed

lemma parse_dec_append:
  "parse_dec a (s @ t) = (case parse_dec a s of None \<Rightarrow> None | Some b \<Rightarrow> parse_dec b t)"
  by (induction a s rule: parse_dec.induct) auto

lemma parse_dec_digits [simp]: "parse_dec 0 (dec_digits n) = Some n"
proof (induction n rule: dec_digits.induct)
  case (1 n)
  show ?case
  proof (cases "n < 10")
    case True
    then show ?thesis by (simp add: dec_digits.simps [of n])
  next
    case False
    with "1.IH" show ?thesis
      by (simp add: dec_digits.simps [of n] parse_dec_append)
  qed
qed

lemma dec_digits_not_Nil [simp]: "dec_digits n \<noteq> []"
  by (subst dec_digits.simps) simp

lemma dec_digits_digits: "c \<in> set (dec_digits n) \<Longrightarrow> is_digit c"
proof (induction n rule: dec_digits.induct)
  case (1 n)
  then show ?case by (subst (asm) dec_digits.simps) (auto split: if_splits)
qed

lemma hd_dec_digits_digit: "is_digit (hd (dec_digits n))"
  by (rule dec_digits_digits [OF hd_in_set]) simp

lemma hd_dec_digits [simp]:
  "hd (dec_digits n) \<noteq> CHR ''-''" "hd (dec_digits n) \<noteq> CHR ''+''"
  using hd_dec_digits_digit [of n] by (auto simp: is_digit_def)

text \<open>Printing and parsing an \<^verbatim>\<open>int64\<close> is a round trip.\<close>

lemma ParseInt_FormatInt: "in_i64 x \<Longrightarrow> ParseInt (FormatInt x) = Ok x"
  by (cases "x < 0") (simp_all add: ParseInt_def FormatInt_def)

lemma ParseInt_in_range: "ParseInt s = Ok x \<Longrightarrow> in_i64 x"
  by (auto simp: ParseInt_def Let_def split: if_splits option.splits)

lemma FormatInt_not_Nil [simp]: "FormatInt x \<noteq> []"
  by (simp add: FormatInt_def)

section \<open>Package time\<close>

definition second :: duration where
  "second = 1000000000"

definition minute :: duration where
  "minute = 60 * second"

definition hour :: duration where
  "hour = 60 * minute"

definition duration_units :: "(string \<times> int) list" where
  "duration_units =
     [(''ns'', 1), (''us'', 1000), ([CHR 0xC2, CHR 0xB5, CHR ''s''], 1000),
      ([CHR 0xCE, CHR 0xBC, CHR ''s''], 1000), (''ms'', 1000000), (''s'', 1000000000),
      (''m'', 60000000000), (''h'', 3600000000000)]"

definition digits_val :: "string \<Rightarrow> int" where
  "digits_val s = foldl (\<lambda>a c. 10 * a + int (digit_val c)) 0 s"

definition not_num :: "char \<Rightarrow> bool" where
  "not_num c \<longleftrightarrow> c \<noteq> CHR ''.'' \<and> \<not> is_digit c"

text \<open>One round of the loop of \<^verbatim>\<open>time.ParseDuration\<close>: digits, an optional fraction, a unit. The
  fraction is scaled exactly, where Go multiplies in \<^verbatim>\<open>float64\<close> before it truncates.\<close>

definition duration_term :: "string \<Rightarrow> (int \<times> string) option" where
  "duration_term s =
     (let ip = takeWhile is_digit s; s1 = dropWhile is_digit s;
          dot = (s1 \<noteq> [] \<and> hd s1 = CHR ''.'');
          fp = (if dot then takeWhile is_digit (tl s1) else []);
          s2 = (if dot then dropWhile is_digit (tl s1) else s1);
          u = takeWhile not_num s2; s3 = dropWhile not_num s2
      in if (ip = [] \<and> fp = []) \<or> digits_val ip > 2 ^ 63 \<or> u = [] then None
         else case map_of duration_units u of
                None \<Rightarrow> None
              | Some unit \<Rightarrow>
                  let v = digits_val ip * unit + digits_val fp * unit div 10 ^ length fp
                  in if v > 2 ^ 63 then None else Some (v, s3))"

lemma length_duration_term: "duration_term s = Some (v, s') \<Longrightarrow> length s' < length s"
proof -
  assume *: "duration_term s = Some (v, s')"
  define s1 where "s1 = dropWhile is_digit s"
  define s2 where "s2 = (if s1 \<noteq> [] \<and> hd s1 = CHR ''.'' then dropWhile is_digit (tl s1) else s1)"
  have "s' = dropWhile not_num s2" "takeWhile not_num s2 \<noteq> []"
    using * unfolding duration_term_def Let_def s1_def s2_def
    by (auto split: if_splits option.splits)
  then have "length s' < length s2"
    by (metis length_append length_greater_0_conv less_add_same_cancel2 takeWhile_dropWhile_id)
  moreover have "length s2 \<le> length s1"
    unfolding s2_def using length_dropWhile_le [of is_digit "tl s1"] by (cases s1) auto
  moreover have "length s1 \<le> length s"
    unfolding s1_def by (rule length_dropWhile_le)
  ultimately show ?thesis by simp
qed

function duration_sum :: "int \<Rightarrow> string \<Rightarrow> int option" where
  "duration_sum d s =
     (if s = [] then Some d
      else case duration_term s of
             None \<Rightarrow> None
           | Some (v, s') \<Rightarrow> if d + v > 2 ^ 63 then None else duration_sum (d + v) s')"
  by pat_completeness auto
termination
  by (relation "measure (\<lambda>(d, s). length s)") (auto simp: length_duration_term)

declare duration_sum.simps [simp del]

definition ParseDuration :: "string \<Rightarrow> duration res" where
  "ParseDuration orig =
     (let neg = (orig \<noteq> [] \<and> hd orig = CHR ''-'');
          s = (if orig \<noteq> [] \<and> (hd orig = CHR ''-'' \<or> hd orig = CHR ''+'') then tl orig else orig);
          invalid = Err (ErrNew (''time: invalid duration '' @ dquote orig))
      in if s = ''0'' then Ok 0
         else if s = '''' then invalid
         else case duration_sum 0 s of
                None \<Rightarrow> invalid
              | Some d \<Rightarrow>
                  if neg then Ok (- d)
                  else if d > 2 ^ 63 - 1 then invalid else Ok d)"

lemma ParseDuration_not_Panic [simp]: "ParseDuration s \<noteq> Panic p"
  by (auto simp: ParseDuration_def Let_def split: option.splits)

text \<open>\<^verbatim>\<open>t.UTC().Format(time.RFC3339)\<close>: the civil date of a day number, counted in eras of 400 years
  that start on the first of March.\<close>

definition civil_date :: "int \<Rightarrow> int \<times> int \<times> int" where
  "civil_date days =
     (let z = days + 719468; era = z div 146097; doe = z mod 146097;
          yoe = (doe - doe div 1460 + doe div 36524 - doe div 146096) div 365;
          doy = doe - (365 * yoe + yoe div 4 - yoe div 100);
          mp = (5 * doy + 2) div 153;
          d = doy - (153 * mp + 2) div 5 + 1;
          m = (if mp < 10 then mp + 3 else mp - 9)
      in (yoe + era * 400 + (if m \<le> 2 then 1 else 0), m, d))"

definition pad_num :: "nat \<Rightarrow> int \<Rightarrow> string" where
  "pad_num n x = (let s = FormatInt x in replicate (n - length s) (CHR ''0'') @ s)"

definition FormatRFC3339 :: "time \<Rightarrow> string" where
  "FormatRFC3339 t =
     (let secs = t div second; days = secs div 86400; r = secs mod 86400;
          (y, m, d) = civil_date days
      in pad_num 4 y @ ''-'' @ pad_num 2 m @ ''-'' @ pad_num 2 d @ ''T'' @
         pad_num 2 (r div 3600) @ '':'' @ pad_num 2 (r mod 3600 div 60) @ '':'' @ pad_num 2 (r mod 60) @ ''Z'')"

section \<open>Maps from strings to strings\<close>

definition sm_get :: "smap \<Rightarrow> string \<Rightarrow> string" where
  "sm_get m k = (case map_of m k of None \<Rightarrow> '''' | Some v \<Rightarrow> v)"

text \<open>\<open>sm_merge m e\<close> is the loop \<^verbatim>\<open>for k, v := range e { m[k] = v }\<close>.\<close>

definition sm_merge :: "smap \<Rightarrow> smap \<Rightarrow> smap" where
  "sm_merge m e = fold (\<lambda>(k, v) m. AList.update k v m) e m"

definition wf_smap :: "smap \<Rightarrow> bool" where
  "wf_smap m \<longleftrightarrow> distinct (map fst m)"

lemma sm_get_update [simp, go_map]:
  "sm_get (AList.update k v m) k' = (if k = k' then v else sm_get m k')"
  by (simp add: sm_get_def AList.update_conv')

lemma sm_get_delete [simp, go_map]:
  "sm_get (AList.delete k m) k' = (if k = k' then '''' else sm_get m k')"
  by (simp add: sm_get_def AList.delete_conv')

lemma sm_merge_Nil [simp]: "sm_merge m [] = m"
  by (simp add: sm_merge_def)

lemma sm_merge_Cons [simp]: "sm_merge m ((k, v) # e) = sm_merge (AList.update k v m) e"
  by (simp add: sm_merge_def)

lemma wf_smap_Cons: "wf_smap ((k, v) # e) \<longleftrightarrow> map_of e k = None \<and> wf_smap e"
  by (auto simp: wf_smap_def map_of_eq_None_iff)

lemma map_of_sm_merge [go_map]:
  "wf_smap e \<Longrightarrow> map_of (sm_merge m e) = map_of m ++ map_of e"
proof (induction e arbitrary: m)
  case Nil
  then show ?case by simp
next
  case (Cons kv e)
  obtain k v where kv: "kv = (k, v)" by (cases kv)
  with Cons.prems have "map_of e k = None" and "wf_smap e"
    by (simp_all add: wf_smap_Cons)
  then show ?case
    using Cons.IH [of "AList.update k v m"]
    by (auto simp: kv AList.update_conv' fun_eq_iff map_add_def split: option.splits)
qed

lemma wf_smap_update [simp, intro]: "wf_smap m \<Longrightarrow> wf_smap (AList.update k v m)"
  by (simp add: wf_smap_def AList.distinct_update)

lemma wf_smap_delete [simp, intro]: "wf_smap m \<Longrightarrow> wf_smap (AList.delete k m)"
  by (simp add: wf_smap_def AList.distinct_delete)

lemma wf_smap_merge [simp, intro]: "wf_smap m \<Longrightarrow> wf_smap (sm_merge m e)"
  by (induction e arbitrary: m) auto

section \<open>Readers\<close>

text \<open>
  A reader that is drained: the bytes it delivers, and the error it ends with (\<open>None\<close> is
  \<^verbatim>\<open>io.EOF\<close>). How the bytes are cut into single \<^verbatim>\<open>Read\<close> calls is part of the theories whose
  code depends on it.
\<close>

record reader =
  rd_data :: bytes
  rd_err :: "go_error option"

definition bytes_reader :: "bytes \<Rightarrow> reader" where
  "bytes_reader bs = \<lparr>rd_data = bs, rd_err = None\<rparr>"

definition ReadAll :: "reader \<Rightarrow> bytes res" where
  "ReadAll r = (case rd_err r of None \<Rightarrow> Ok (rd_data r) | Some e \<Rightarrow> Err e)"

text \<open>\<^verbatim>\<open>io.ReadFull(r, buf)\<close> with a buffer of \<open>n\<close> bytes: what was read, and the error.\<close>

definition ReadFull :: "reader \<Rightarrow> nat \<Rightarrow> bytes \<times> go_error option" where
  "ReadFull r n =
     (if n \<le> length (rd_data r) then (take n (rd_data r), None)
      else (rd_data r,
            case rd_err r of
              Some e \<Rightarrow> Some e
            | None \<Rightarrow> Some (if rd_data r = [] then ErrEOF else ErrUnexpectedEOF)))"

lemma rd_bytes_reader [simp]:
  "rd_data (bytes_reader bs) = bs" "rd_err (bytes_reader bs) = None"
  by (simp_all add: bytes_reader_def)

lemma ReadAll_bytes_reader [simp, go_io]: "ReadAll (bytes_reader bs) = Ok bs"
  by (simp add: ReadAll_def)

lemma ReadAll_Ok [go_io]: "ReadAll r = Ok bs \<longleftrightarrow> rd_err r = None \<and> rd_data r = bs"
  by (auto simp: ReadAll_def split: option.splits)

lemma ReadAll_not_Panic [simp]: "ReadAll r \<noteq> Panic s"
  by (auto simp: ReadAll_def split: option.splits)

lemma ReadFull_exact [go_io]: "ReadFull (bytes_reader bs) (length bs) = (bs, None)"
  by (simp add: ReadFull_def)

end
