(* ===== verification/Config.thy ===== *)
theory Config
  imports Go_Base
begin

text \<open>
  \<^verbatim>\<open>internal/config/config.go\<close>: the configuration structures the components are built from, the
  assembly of a configuration by \<^verbatim>\<open>Load\<close> and its validation. A pointer to a structure is an
  \<open>option\<close>. Reading the file (viper) and the environment (envconfig) are arguments of \<open>Load\<close>.
\<close>

record server_config =
  sv_Listen :: string
  sv_ReadTimeout :: duration
  sv_WriteTimeout :: duration
  sv_IdleTimeout :: duration
  sv_MaxBodySize :: int

record s3_config =
  s3c_Region :: string
  s3c_VirtualHost :: bool
  s3c_PathStyle :: bool
  s3c_ServicePath :: string
  s3c_IgnoreUnknownHeaders :: bool

record azure_storage_config =
  az_AccountName :: string
  az_AccountKey :: string
  az_ContainerName :: string
  az_Endpoint :: string
  az_UseSAS :: bool
  az_SASToken :: string

record bucket_config =
  bc_RealName :: string
  bc_Prefix :: string
  bc_Region :: string
  bc_Endpoint :: string
  bc_AccessKey :: string
  bc_SecretKey :: string
  bc_KMSKeyID :: string
  bc_KMSEncryptionContext :: smap

record s3_storage_config =
  ss_Endpoint :: string
  ss_Region :: string
  ss_AccessKey :: string
  ss_SecretKey :: string
  ss_Profile :: string
  ss_UsePathStyle :: bool
  ss_DisableSSL :: bool
  ss_BucketMapping :: smap
  ss_BucketConfigs :: "(string \<times> bucket_config option) list"

record filesystem_config =
  fc_BaseDir :: string

record storage_config =
  sc_Provider :: string
  sc_Azure :: "azure_storage_config option"
  sc_S3 :: "s3_storage_config option"
  sc_FileSystem :: "filesystem_config option"

record auth_config =
  ac_Type :: string
  ac_Identity :: string
  ac_Credential :: string
  ac_AWSAccessKeyID :: string
  ac_AWSSecretAccessKey :: string

record local_key_config =
  lk_MasterKey :: string

record kms_key_config =
  kk_Enabled :: bool
  kk_DefaultKeyID :: string
  kk_KeySpec :: string
  kk_Region :: string
  kk_EncryptionContext :: smap
  kk_DataKeyCacheTTL :: string
  kk_ValidateKeys :: bool
  kk_EnableKeyRotation :: bool

record azure_kv_config =
  ak_VaultURL :: string
  ak_ClientID :: string
  ak_ClientSecret :: string
  ak_TenantID :: string
  ak_KeySize :: int
  ak_DataKeyCacheTTL :: string

record custom_key_config =
  ck_MasterKey :: string
  ck_MasterKeyFile :: string
  ck_KeyDerivationSalt :: string
  ck_DataKeyCacheTTL :: string

text \<open>A value of type \<^verbatim>\<open>interface{}\<close>, by the dynamic types the code creates or asks for:
  \<open>AnyStringMap\<close> is a \<^verbatim>\<open>map[string]string\<close>, \<open>AnyMap\<close> a \<^verbatim>\<open>map[string]interface{}\<close>.\<close>

datatype any =
    AnyString string
  | AnyInt int
  | AnyBool bool
  | AnyStringMap smap
  | AnyMap "(string \<times> any) list"
  | AnyNil

text \<open>The assertions \<^verbatim>\<open>m[k].(string)\<close> and \<^verbatim>\<open>m[k].(map[string]interface{})\<close>, with \<open>None\<close> for \<^verbatim>\<open>ok == false\<close>.\<close>

definition as_string :: "(string \<times> any) list \<Rightarrow> string \<Rightarrow> string option" where
  "as_string m k = (case map_of m k of Some (AnyString s) \<Rightarrow> Some s | _ \<Rightarrow> None)"

definition as_map :: "(string \<times> any) list \<Rightarrow> string \<Rightarrow> (string \<times> any) list option" where
  "as_map m k = (case map_of m k of Some (AnyMap a) \<Rightarrow> Some a | _ \<Rightarrow> None)"

record provider_config =
  pc_Type :: string
  pc_Config :: "(string \<times> any) list"

record encryption_policy =
  ep_BucketPattern :: string
  ep_Algorithm :: string
  ep_KeyProvider :: string
  ep_Mandatory :: bool

record encryption_config =
  ec_Enabled :: bool
  ec_Algorithm :: string
  ec_KeyProvider :: string
  ec_Local :: "local_key_config option"
  ec_KMS :: "kms_key_config option"
  ec_AzureKV :: "azure_kv_config option"
  ec_Custom :: "custom_key_config option"
  ec_KeyProviders :: "(string \<times> provider_config) list"
  ec_Policies :: "encryption_policy list"

record app_config =
  cf_Server :: server_config
  cf_S3 :: s3_config
  cf_Storage :: storage_config
  cf_Auth :: auth_config
  cf_Encryption :: encryption_config

definition validate :: "app_config \<Rightarrow> unit res" where
  "validate cfg =
     (let st = cf_Storage cfg; p = sc_Provider st in
      if p = '''' then Err (ErrNew ''storage provider is required'')
      else if p = ''azure'' \<or> p = ''azureblob'' then
        (case sc_Azure st of
           None \<Rightarrow> Err (ErrNew ''azure storage config is required'')
         | Some az \<Rightarrow>
             if az_AccountName az = '''' \<or> az_AccountKey az = ''''
             then if \<not> az_UseSAS az \<or> az_SASToken az = ''''
                  then Err (ErrNew ''azure account name and key or SAS token are required'')
                  else Ok ()
             else Ok ())
      else if p = ''s3'' then
        (case sc_S3 st of
           None \<Rightarrow> Err (ErrNew ''s3 storage config is required'')
         | Some s3 \<Rightarrow>
             if ss_Endpoint s3 \<noteq> ''''
             then if ss_Profile s3 = '''' \<and> ss_AccessKey s3 = '''' \<and> ss_SecretKey s3 = ''''
                  then Err (ErrNew ''s3 credentials are required for custom endpoint: specify profile or access/secret keys'')
                  else Ok ()
             else Ok ())
      else if p = ''filesystem'' then
        (case sc_FileSystem st of
           None \<Rightarrow> Err (ErrNew ''filesystem storage config is required'')
         | Some _ \<Rightarrow> Ok ())
      else Err (ErrNew (''unsupported storage provider: '' @ p)))"

text \<open>\<^verbatim>\<open>Load\<close>: \<open>read_file\<close> and \<open>unmarshal\<close> stand for viper, \<open>process_env\<close> for envconfig, \<open>zero_cfg\<close> for the
  zero value of the structure.\<close>

definition aws_env_precedence :: "app_config \<Rightarrow> app_config" where
  "aws_env_precedence cfg =
     (let a = cf_Auth cfg;
          a1 = (if ac_AWSAccessKeyID a \<noteq> '''' then a\<lparr>ac_Identity := ac_AWSAccessKeyID a\<rparr> else a);
          a2 = (if ac_AWSSecretAccessKey a1 \<noteq> '''' then a1\<lparr>ac_Credential := ac_AWSSecretAccessKey a1\<rparr> else a1)
      in cfg\<lparr>cf_Auth := a2\<rparr>)"

definition Load ::
  "(string \<Rightarrow> 'f res) \<Rightarrow> ('f \<Rightarrow> app_config \<Rightarrow> app_config res) \<Rightarrow> (app_config \<Rightarrow> app_config res)
     \<Rightarrow> app_config \<Rightarrow> string \<Rightarrow> app_config res" where
  "Load read_file unmarshal process_env zero_cfg configFile =
     res_bind
       (if configFile \<noteq> '''' then
          res_bind (wrap_err ''failed to read config file: '' (read_file configFile)) (\<lambda>f.
            wrap_err ''failed to unmarshal config: '' (unmarshal f zero_cfg))
        else Ok zero_cfg) (\<lambda>cfg.
     res_bind (wrap_err ''failed to process env vars: '' (process_env cfg)) (\<lambda>cfg.
     let cfg = aws_env_precedence cfg in
     res_bind (wrap_err ''config validation failed: '' (validate cfg)) (\<lambda>_. Ok cfg)))"

text \<open>What a loaded configuration guarantees to the code that builds the backends: the structure of
  the selected provider is there.\<close>

definition storage_ready :: "app_config \<Rightarrow> bool" where
  "storage_ready cfg \<longleftrightarrow>
     (let st = cf_Storage cfg in
      (sc_Provider st \<in> {''azure'', ''azureblob''} \<and> sc_Azure st \<noteq> None)
      \<or> (sc_Provider st = ''s3'' \<and> sc_S3 st \<noteq> None)
      \<or> (sc_Provider st = ''filesystem'' \<and> sc_FileSystem st \<noteq> None))"

lemma validate_ready: "validate cfg = Ok () \<Longrightarrow> storage_ready cfg"
  by (auto simp: validate_def storage_ready_def Let_def split: if_splits option.splits)

lemma validate_not_Panic: "validate cfg \<noteq> Panic s"
  by (auto simp: validate_def Let_def split: option.splits)

lemma Load_Ok:
  assumes "Load read_file unmarshal process_env zero_cfg f = Ok cfg"
  shows "storage_ready cfg"
    and "ac_AWSAccessKeyID (cf_Auth cfg) \<noteq> '''' \<Longrightarrow> ac_Identity (cf_Auth cfg) = ac_AWSAccessKeyID (cf_Auth cfg)"
    and "ac_AWSSecretAccessKey (cf_Auth cfg) \<noteq> '''' \<Longrightarrow> ac_Credential (cf_Auth cfg) = ac_AWSSecretAccessKey (cf_Auth cfg)"
proof -
  obtain cfg0 where cfg: "cfg = aws_env_precedence cfg0" and v: "validate cfg = Ok ()"
    using assms by (auto simp: Load_def Let_def split: if_splits)
  show "storage_ready cfg" using v by (rule validate_ready)
  show "ac_AWSAccessKeyID (cf_Auth cfg) \<noteq> '''' \<Longrightarrow> ac_Identity (cf_Auth cfg) = ac_AWSAccessKeyID (cf_Auth cfg)"
    by (auto simp: cfg aws_env_precedence_def Let_def)
  show "ac_AWSSecretAccessKey (cf_Auth cfg) \<noteq> '''' \<Longrightarrow> ac_Credential (cf_Auth cfg) = ac_AWSSecretAccessKey (cf_Auth cfg)"
    by (auto simp: cfg aws_env_precedence_def Let_def)
qed

end
