(* ===== verification/Go_UTF8.thy ===== *)
theory Go_UTF8
  imports Go_Base
begin

text \<open>
  What the code uses of \<^verbatim>\<open>unicode/utf8\<close> through \<^verbatim>\<open>encoding/json\<close>: a Go string is any sequence of bytes, and a rune is
  decoded from it by the ranges of the UTF-8 standard; where no rune can be decoded, one byte is consumed and stands for
  U+FFFD. Strings and metadata for which this never happens are \<open>valid_utf8\<close> and \<open>utf8_smap\<close>.
\<close>

section \<open>Decoding\<close>

text \<open>The ranges of the bytes that follow a first byte, \<^verbatim>\<open>None\<close> for a byte that begins no rune.\<close>

definition rune_tail :: "nat \<Rightarrow> (nat \<times> nat) list option" where
  "rune_tail n =
     (if n < 128 then Some []
      else if n < 194 then None
      else if n < 224 then Some [(128, 191)]
      else if n = 224 then Some [(160, 191), (128, 191)]
      else if n = 237 then Some [(128, 159), (128, 191)]
      else if n < 240 then Some [(128, 191), (128, 191)]
      else if n = 240 then Some [(144, 191), (128, 191), (128, 191)]
      else if n < 244 then Some [(128, 191), (128, 191), (128, 191)]
      else if n = 244 then Some [(128, 143), (128, 191), (128, 191)]
      else None)"

text \<open>The length of the rune a string begins with; 0 when it begins with none.\<close>

fun rune_len :: "string \<Rightarrow> nat" where
  "rune_len [] = 0"
| "rune_len (c # s) =
     (case rune_tail (of_char c) of
        None \<Rightarrow> 0
      | Some rs \<Rightarrow>
          if list_all2 (\<lambda>(lo, hi) d. lo \<le> of_char d \<and> of_char d \<le> hi) rs (take (length rs) s) then Suc (length rs) else 0)"

definition rune_error :: string where
  "rune_error = [CHR 0xEF, CHR 0xBF, CHR 0xBD]"

fun to_valid :: "string \<Rightarrow> string" where
  "to_valid [] = []"
| "to_valid (c # s) =
     (let n = rune_len (c # s) in (if n = 0 then rune_error else take n (c # s)) @ to_valid (drop (n - 1) s))"

fun valid_utf8 :: "string \<Rightarrow> bool" where
  "valid_utf8 [] = True"
| "valid_utf8 (c # s) = (let n = rune_len (c # s) in n \<noteq> 0 \<and> valid_utf8 (drop (n - 1) s))"

definition utf8_smap :: "smap \<Rightarrow> bool" where
  "utf8_smap m \<longleftrightarrow> (\<forall>(k, v) \<in> set m. valid_utf8 k \<and> valid_utf8 v)"

definition ascii :: "string \<Rightarrow> bool" where
  "ascii s \<longleftrightarrow> (\<forall>c \<in> set s. of_char c < (128 :: nat))"

section \<open>Lemmas\<close>

lemmas rune_simps = rune_len.simps to_valid.simps(2) valid_utf8.simps(2)

declare rune_simps [simp del]

lemma rune_len_ascii [simp]: "of_char c < (128 :: nat) \<Longrightarrow> rune_len (c # s) = 1"
  by (simp add: rune_tail_def rune_len.simps)

lemma rune_len_one: "rune_len (c # s) = 1 \<Longrightarrow> of_char c < (128 :: nat)"
  by (auto simp: rune_tail_def rune_len.simps split: option.splits if_splits)

lemma rune_len_take:
  assumes "rune_len s \<noteq> 0"
  shows "rune_len (take (rune_len s) s @ t) = rune_len s" and "rune_len s \<le> length s"
proof -
  obtain c u where s: "s = c # u" using assms by (cases s) (auto simp: rune_len.simps)
  obtain rs where rs: "rune_tail (of_char c) = Some rs" "list_all2 (\<lambda>(lo, hi) d. lo \<le> of_char d \<and> of_char d \<le> hi) rs (take (length rs) u)"
    using assms by (auto simp: s rune_len.simps split: option.splits if_splits)
  moreover from rs(2) have "length rs \<le> length u" by (auto dest: list_all2_lengthD)
  ultimately show "rune_len (take (rune_len s) s @ t) = rune_len s" "rune_len s \<le> length s"
    by (simp_all add: s rune_len.simps)
qed

lemma to_valid_valid: "valid_utf8 s \<Longrightarrow> to_valid s = s"
proof (induction s rule: valid_utf8.induct)
  case (2 c s)
  let ?n = "rune_len (c # s)"
  have n: "?n \<noteq> 0" "valid_utf8 (drop (?n - 1) s)" using "2.prems" by (simp_all add: Let_def rune_simps(3,4))
  have "take ?n (c # s) @ drop (?n - 1) s = c # s" using n(1) by (cases ?n) (simp_all)
  then show ?case using "2.IH" [OF refl n(2)] n(1) by (simp add: Let_def rune_simps(3,4))
qed simp

lemma ascii_Cons [simp]: "ascii (c # s) \<longleftrightarrow> of_char c < (128 :: nat) \<and> ascii s"
  by (simp add: ascii_def)

lemma ascii_Nil [simp]: "ascii []"
  by (simp add: ascii_def)

lemma ascii_append [simp]: "ascii (s @ t) \<longleftrightarrow> ascii s \<and> ascii t"
  by (auto simp: ascii_def)

lemma ascii_valid: "ascii s \<Longrightarrow> valid_utf8 s"
  by (induction s) (simp_all add: Let_def rune_simps(3,4))

lemma dec_digits_ascii [simp]: "ascii (dec_digits n)"
proof (induction n rule: dec_digits.induct)
  case (1 n)
  have "n mod 10 < 80" by (rule less_trans [of _ 10]) simp_all
  then show ?case using 1 by (subst dec_digits.simps) (simp add: digit_char_def)
qed

lemma FormatInt_ascii [simp]: "ascii (FormatInt x)"
  by (simp add: FormatInt_def)

lemma ascii_take: "ascii s \<Longrightarrow> ascii (take n s)"
  by (auto simp: ascii_def dest: in_set_takeD)

text \<open>Making a string valid brings in no ASCII string that was not there.\<close>

lemma to_valid_ascii: "ascii (to_valid s) \<Longrightarrow> to_valid s = s"
proof (induction s rule: to_valid.induct)
  case (2 c s)
  let ?n = "rune_len (c # s)"
  have n: "?n \<noteq> 0" "ascii (take ?n (c # s))" "ascii (to_valid (drop (?n - 1) s))"
    using "2.prems" by (auto simp: Let_def rune_simps(3) rune_error_def split: if_splits)
  then have "?n = 1" by (cases ?n) simp_all
  then show ?case using "2.IH" [OF refl n(3)] by (simp add: Let_def rune_simps(3))
qed simp

lemma to_valid_eq_ascii: "ascii t \<Longrightarrow> to_valid s = t \<longleftrightarrow> s = t"
  using to_valid_ascii to_valid_valid ascii_valid by metis

lemma utf8_smap_Nil [simp]: "utf8_smap []"
  by (simp add: utf8_smap_def)

lemma utf8_smap_Cons [simp]: "utf8_smap ((k, v) # m) \<longleftrightarrow> valid_utf8 k \<and> valid_utf8 v \<and> utf8_smap m"
  by (auto simp: utf8_smap_def)

lemma utf8_smap_update [simp, intro]:
  "utf8_smap m \<Longrightarrow> valid_utf8 k \<Longrightarrow> valid_utf8 v \<Longrightarrow> utf8_smap (AList.update k v m)"
  by (induction m) auto

lemma utf8_smap_merge [simp, intro]: "utf8_smap m \<Longrightarrow> utf8_smap e \<Longrightarrow> utf8_smap (sm_merge m e)"
  by (induction e arbitrary: m) (auto simp: case_prod_unfold)

end
