(* ===== verification/Go_Crypto.thy ===== *)
theory Go_Crypto
  imports Go_UTF8
begin

text \<open>
  The packages \<^verbatim>\<open>encoding/hex\<close>, \<^verbatim>\<open>encoding/base64\<close>, \<^verbatim>\<open>crypto/sha256\<close>, \<^verbatim>\<open>crypto/hmac\<close>,
  \<^verbatim>\<open>crypto/md5\<close>, \<^verbatim>\<open>crypto/aes\<close> and \<^verbatim>\<open>crypto/cipher\<close> (GCM) of the Go standard library, as far
  as the proxy uses them, as executable functions on bytes: SHA-256 (FIPS 180-4), HMAC (RFC 2104),
  MD5 (RFC 1321), AES with 128, 192 and 256 bit keys (FIPS 197) and GCM with 96-bit nonces and
  128-bit tags (NIST SP 800-38D). Random bytes (\<^verbatim>\<open>crypto/rand\<close>) are arguments of the operations
  that draw them.

  The locale \<open>aead\<close> states what the proxy relies on of \<^verbatim>\<open>cipher.AEAD\<close>; it is interpreted on AES-GCM.
\<close>

unbundle bit_operations_syntax

section \<open>Package encoding/hex\<close>

definition hex_encode :: "bytes \<Rightarrow> string" where
  "hex_encode bs =
     concat (map (\<lambda>b. [digit_char (unat b div 16), digit_char (unat b mod 16)]) bs)"

definition hex_val :: "char \<Rightarrow> nat option" where
  "hex_val c =
     (let n = of_char c :: nat in
      if 48 \<le> n \<and> n \<le> 57 then Some (n - 48)
      else if 97 \<le> n \<and> n \<le> 102 then Some (n - 87)
      else if 65 \<le> n \<and> n \<le> 70 then Some (n - 55)
      else None)"

lemma hex_encode_eq_Nil [simp]: "hex_encode bs = [] \<longleftrightarrow> bs = []"
  by (cases bs) (simp_all add: hex_encode_def)

fun hex_decode :: "string \<Rightarrow> bytes option" where
  "hex_decode [] = Some []"
| "hex_decode [c] = None"
| "hex_decode (c # d # s) =
     (case (hex_val c, hex_val d) of
        (Some a, Some b) \<Rightarrow> map_option ((#) (word_of_nat (16 * a + b))) (hex_decode s)
      | _ \<Rightarrow> None)"

lemma hex_val_digit_char [simp]: "d < 16 \<Longrightarrow> hex_val (digit_char d) = Some d"
  by (auto simp: hex_val_def digit_char_def Let_def)

lemma hex_decode_encode [simp]: "hex_decode (hex_encode bs) = Some bs"
proof (induction bs)
  case Nil
  then show ?case by (simp add: hex_encode_def)
next
  case (Cons b bs)
  have "unat b div 16 < 16"
    using unat_byte_less [of b] by (intro less_mult_imp_div_less) simp
  then show ?case
    using Cons by (simp add: hex_encode_def)
qed

section \<open>Package encoding/base64 (StdEncoding)\<close>

definition b64_char :: "nat \<Rightarrow> char" where
  "b64_char i =
     char_of (if i < 26 then 65 + i else if i < 52 then 71 + i else if i < 62 then i - 4
              else if i = 62 then 43 else 47 :: nat)"

definition b64_val :: "char \<Rightarrow> nat option" where
  "b64_val c =
     (let n = of_char c :: nat in
      if 65 \<le> n \<and> n \<le> 90 then Some (n - 65)
      else if 97 \<le> n \<and> n \<le> 122 then Some (n - 71)
      else if 48 \<le> n \<and> n \<le> 57 then Some (n + 4)
      else if n = 43 then Some 62 else if n = 47 then Some 63 else None)"

fun b64_encode :: "bytes \<Rightarrow> string" where
  "b64_encode [] = []"
| "b64_encode [a] =
     [b64_char (unat a div 4), b64_char (unat a mod 4 * 16), CHR ''='', CHR ''='']"
| "b64_encode [a, b] =
     [b64_char (unat a div 4), b64_char (unat a mod 4 * 16 + unat b div 16),
      b64_char (unat b mod 16 * 4), CHR ''='']"
| "b64_encode (a # b # c # bs) =
     [b64_char (unat a div 4), b64_char (unat a mod 4 * 16 + unat b div 16),
      b64_char (unat b mod 16 * 4 + unat c div 64), b64_char (unat c mod 64)] @ b64_encode bs"

fun b64_quads :: "string \<Rightarrow> bytes option" where
  "b64_quads [] = Some []"
| "b64_quads (w # x # y # z # s) =
     (case (b64_val w, b64_val x) of
        (Some a, Some b) \<Rightarrow>
          if y = CHR ''=''
          then (if z = CHR ''='' \<and> s = [] then Some [word_of_nat (a * 4 + b div 16)] else None)
          else (case b64_val y of
                  None \<Rightarrow> None
                | Some c \<Rightarrow>
                    if z = CHR ''=''
                    then (if s = []
                          then Some [word_of_nat (a * 4 + b div 16),
                                     word_of_nat (b mod 16 * 16 + c div 4)]
                          else None)
                    else (case b64_val z of
                            None \<Rightarrow> None
                          | Some d \<Rightarrow>
                              map_option
                                (\<lambda>r. word_of_nat (a * 4 + b div 16)
                                   # word_of_nat (b mod 16 * 16 + c div 4)
                                   # word_of_nat (c mod 4 * 64 + d) # r)
                                (b64_quads s)))
      | _ \<Rightarrow> None)"
| "b64_quads _ = None"

text \<open>The decoder skips carriage returns and line feeds.\<close>

definition b64_decode :: "string \<Rightarrow> bytes res" where
  "b64_decode s =
     (case b64_quads (filter (\<lambda>c. c \<noteq> CHR 0x0A \<and> c \<noteq> CHR 0x0D) s) of
        Some bs \<Rightarrow> Ok bs
      | None \<Rightarrow> Err (ErrNew ''illegal base64 data''))"

lemma b64_val_char [simp]: "i < 64 \<Longrightarrow> b64_val (b64_char i) = Some i"
  by (auto simp: b64_val_def b64_char_def Let_def)

lemma b64_char_not_special [simp]:
  assumes "i < 64"
  shows "b64_char i \<noteq> CHR ''=''" "b64_char i \<noteq> CHR 0x0A" "b64_char i \<noteq> CHR 0x0D"
proof -
  have "b64_val (b64_char i) \<noteq> None" using assms by simp
  then show "b64_char i \<noteq> CHR ''=''" "b64_char i \<noteq> CHR 0x0A" "b64_char i \<noteq> CHR 0x0D"
    by (auto simp: b64_val_def Let_def)
qed

lemma byte_div_less [simp]:
  "unat (b :: byte) div 4 < 64" "unat (b :: byte) div 16 < 16" "unat (b :: byte) div 64 < 4"
  by (rule less_mult_imp_div_less, simp)+

lemma b64_bounds:
  fixes a b :: byte
  shows "unat a mod 4 * 16 + unat b div 16 < 64" "unat a mod 4 * 16 < 64"
    "unat a mod 16 * 4 + unat b div 64 < 64" "unat a mod 16 * 4 < 64"
proof -
  have "unat a mod 4 \<le> 3" "unat a mod 16 \<le> 15" "unat b div 16 \<le> 15" "unat b div 64 \<le> 3"
    using byte_div_less [of b] mod_less_divisor [of 4 "unat a"] mod_less_divisor [of 16 "unat a"]
    by linarith+
  then show "unat a mod 4 * 16 + unat b div 16 < 64" "unat a mod 4 * 16 < 64"
    "unat a mod 16 * 4 + unat b div 64 < 64" "unat a mod 16 * 4 < 64"
    by linarith+
qed

lemma b64_quads_encode: "b64_quads (b64_encode bs) = Some bs"
  by (induction bs rule: b64_encode.induct)
     (simp_all add: b64_bounds del: of_nat_add of_nat_mult)

lemma b64_encode_no_newline: "\<forall>c \<in> set (b64_encode bs). c \<noteq> CHR 0x0A \<and> c \<noteq> CHR 0x0D"
  by (induction bs rule: b64_encode.induct) (simp_all add: b64_bounds)

lemma b64_char_ascii [simp]: "of_char (b64_char i) < (128 :: nat)"
  by (auto simp: b64_char_def)

lemma ascii_b64_encode [simp]: "ascii (b64_encode bs)"
  by (induction bs rule: b64_encode.induct) simp_all

lemma b64_decode_encode [simp]: "b64_decode (b64_encode bs) = Ok bs"
proof -
  have "filter (\<lambda>c. c \<noteq> CHR 0x0A \<and> c \<noteq> CHR 0x0D) (b64_encode bs) = b64_encode bs"
    using b64_encode_no_newline [of bs] by (auto intro: filter_True)
  then show ?thesis by (simp add: b64_decode_def b64_quads_encode)
qed

lemma b64_encode_eq_Nil [simp]: "b64_encode bs = [] \<longleftrightarrow> bs = []"
  by (cases bs rule: b64_encode.cases) simp_all

lemma b64_decode_not_Panic [simp]: "b64_decode s \<noteq> Panic p"
  by (simp add: b64_decode_def split: option.splits)

section \<open>Bytes and words\<close>

definition be_word32 :: "bytes \<Rightarrow> 32 word" where
  "be_word32 bs = fold (\<lambda>b w. push_bit 8 w OR ucast b) bs 0"

definition word32_be :: "32 word \<Rightarrow> bytes" where
  "word32_be w = map (\<lambda>i. ucast (drop_bit i w)) [24, 16, 8, 0]"

definition be_bytes :: "nat \<Rightarrow> nat \<Rightarrow> bytes" where
  "be_bytes k n = map (\<lambda>i. word_of_nat (n div 256 ^ i)) (rev [0..<k])"

definition le_bytes :: "nat \<Rightarrow> nat \<Rightarrow> bytes" where
  "le_bytes k n = map (\<lambda>i. word_of_nat (n div 256 ^ i)) [0..<k]"

definition rotr32 :: "nat \<Rightarrow> 32 word \<Rightarrow> 32 word" where
  "rotr32 n w = drop_bit n w OR push_bit (32 - n) w"

definition rotl32 :: "nat \<Rightarrow> 32 word \<Rightarrow> 32 word" where
  "rotl32 n w = push_bit n w OR drop_bit (32 - n) w"

function chunks_of :: "nat \<Rightarrow> 'a list \<Rightarrow> 'a list list" where
  "chunks_of n xs =
     (if n = 0 \<or> xs = [] then [] else take n xs # chunks_of n (drop n xs))"
  by pat_completeness auto
termination
  by (relation "measure (\<lambda>(n, xs). length xs)") auto

declare chunks_of.simps [simp del]

lemma concat_chunks_of: "0 < n \<Longrightarrow> concat (chunks_of n xs) = xs"
proof (induction n xs rule: chunks_of.induct)
  case (1 n xs)
  then show ?case by (subst chunks_of.simps) simp
qed

section \<open>Package crypto/sha256 and crypto/hmac\<close>

text \<open>The round constants, eight 32-bit words to a numeral.\<close>

definition split_words :: "int \<Rightarrow> 32 word list" where
  "split_words x = map (\<lambda>i. word_of_int (x div 2 ^ (32 * i))) (rev [0..<8])"

definition sha256_k :: "32 word list" where
  "sha256_k = concat (map split_words [
    0x428a2f9871374491b5c0fbcfe9b5dba53956c25b59f111f1923f82a4ab1c5ed5,
    0xd807aa9812835b01243185be550c7dc372be5d7480deb1fe9bdc06a7c19bf174,
    0xe49b69c1efbe47860fc19dc6240ca1cc2de92c6f4a7484aa5cb0a9dc76f988da,
    0x983e5152a831c66db00327c8bf597fc7c6e00bf3d5a7914706ca635114292967,
    0x27b70a852e1b21384d2c6dfc53380d13650a7354766a0abb81c2c92e92722c85,
    0xa2bfe8a1a81a664bc24b8b70c76c51a3d192e819d6990624f40e3585106aa070,
    0x19a4c1161e376c082748774c34b0bcb5391c0cb34ed8aa4a5b9cca4f682e6ff3,
    0x748f82ee78a5636f84c878148cc7020890befffaa4506cebbef9a3f7c67178f2])"

definition sha256_init :: "32 word list" where
  "sha256_init = [0x6a09e667, 0xbb67ae85, 0x3c6ef372, 0xa54ff53a,
    0x510e527f, 0x9b05688c, 0x1f83d9ab, 0x5be0cd19]"

text \<open>Message padding of both hashes: the bit \<open>1\<close>, zeros, and the bit length in eight bytes.\<close>

definition md_pad :: "(nat \<Rightarrow> nat \<Rightarrow> bytes) \<Rightarrow> bytes \<Rightarrow> bytes" where
  "md_pad enc m =
     m @ [0x80] @ replicate ((119 - length m mod 64) mod 64) 0 @ enc 8 (8 * length m)"

fun sha256_schedule :: "nat \<Rightarrow> 32 word list \<Rightarrow> 32 word list" where
  "sha256_schedule 0 w = w"
| "sha256_schedule (Suc k) w =
     (let n = length w; a = w ! (n - 15); b = w ! (n - 2);
          s0 = rotr32 7 a XOR rotr32 18 a XOR drop_bit 3 a;
          s1 = rotr32 17 b XOR rotr32 19 b XOR drop_bit 10 b
      in sha256_schedule k (w @ [w ! (n - 16) + s0 + w ! (n - 7) + s1]))"

fun sha256_round :: "32 word list \<Rightarrow> 32 word \<times> 32 word \<Rightarrow> 32 word list" where
  "sha256_round [a, b, c, d, e, f, g, h] (k, w) =
     (let t1 = h + (rotr32 6 e XOR rotr32 11 e XOR rotr32 25 e)
                 + ((e AND f) XOR (NOT e AND g)) + k + w;
          t2 = (rotr32 2 a XOR rotr32 13 a XOR rotr32 22 a)
                 + ((a AND b) XOR (a AND c) XOR (b AND c))
      in [t1 + t2, a, b, c, d + t1, e, f, g])"
| "sha256_round s kw = s"

definition sha256_block :: "32 word list \<Rightarrow> bytes \<Rightarrow> 32 word list" where
  "sha256_block h blk =
     map2 (+) h
       (foldl sha256_round h
          (zip sha256_k (sha256_schedule 48 (map be_word32 (chunks_of 4 blk)))))"

definition sha256 :: "bytes \<Rightarrow> bytes" where
  "sha256 m =
     concat (map word32_be (foldl sha256_block sha256_init (chunks_of 64 (md_pad be_bytes m))))"

lemma length_sha256_round [simp]: "length (sha256_round s kw) = length s"
  by (induction s kw rule: sha256_round.induct) (simp_all add: Let_def)

lemma length_foldl_sha256_round [simp]: "length (foldl sha256_round s kws) = length s"
  by (induction kws arbitrary: s) simp_all

lemma length_sha256_block [simp]: "length (sha256_block h blk) = length h"
  by (simp add: sha256_block_def)

lemma length_foldl_sha256_block [simp]: "length (foldl sha256_block h blks) = length h"
  by (induction blks arbitrary: h) simp_all

lemma length_word32_be [simp]: "length (word32_be w) = 4"
  by (simp add: word32_be_def)

lemma length_sha256 [simp]: "length (sha256 m) = 32"
  by (simp add: sha256_def length_concat comp_def sum_list_triv sha256_init_def)

lemma sha256_not_Nil [simp]: "sha256 m \<noteq> []"
  using length_sha256 [of m] by (metis length_greater_0_conv zero_less_numeral)

definition hmac_sha256 :: "bytes \<Rightarrow> bytes \<Rightarrow> bytes" where
  "hmac_sha256 key m =
     (let k0 = (if length key > 64 then sha256 key else key);
          k = k0 @ replicate (64 - length k0) 0
      in sha256 (map (\<lambda>b. b XOR 0x5c) k @ sha256 (map (\<lambda>b. b XOR 0x36) k @ m)))"

section \<open>Package crypto/md5\<close>

definition md5_k :: "32 word list" where
  "md5_k = [
    0xd76aa478, 0xe8c7b756, 0x242070db, 0xc1bdceee, 0xf57c0faf, 0x4787c62a,
    0xa8304613, 0xfd469501, 0x698098d8, 0x8b44f7af, 0xffff5bb1, 0x895cd7be,
    0x6b901122, 0xfd987193, 0xa679438e, 0x49b40821, 0xf61e2562, 0xc040b340,
    0x265e5a51, 0xe9b6c7aa, 0xd62f105d, 0x02441453, 0xd8a1e681, 0xe7d3fbc8,
    0x21e1cde6, 0xc33707d6, 0xf4d50d87, 0x455a14ed, 0xa9e3e905, 0xfcefa3f8,
    0x676f02d9, 0x8d2a4c8a, 0xfffa3942, 0x8771f681, 0x6d9d6122, 0xfde5380c,
    0xa4beea44, 0x4bdecfa9, 0xf6bb4b60, 0xbebfbc70, 0x289b7ec6, 0xeaa127fa,
    0xd4ef3085, 0x04881d05, 0xd9d4d039, 0xe6db99e5, 0x1fa27cf8, 0xc4ac5665,
    0xf4292244, 0x432aff97, 0xab9423a7, 0xfc93a039, 0x655b59c3, 0x8f0ccc92,
    0xffeff47d, 0x85845dd1, 0x6fa87e4f, 0xfe2ce6e0, 0xa3014314, 0x4e0811a1,
    0xf7537e82, 0xbd3af235, 0x2ad7d2bb, 0xeb86d391]"

definition md5_shift :: "nat \<Rightarrow> nat" where
  "md5_shift i =
     [[7, 12, 17, 22], [5, 9, 14, 20], [4, 11, 16, 23], [6, 10, 15, 21]] ! (i div 16) ! (i mod 4)"

fun md5_round :: "32 word list \<Rightarrow> 32 word list \<Rightarrow> nat \<Rightarrow> 32 word list" where
  "md5_round m [a, b, c, d] i =
     (let (f, g) =
            (if i < 16 then ((b AND c) OR (NOT b AND d), i)
             else if i < 32 then ((d AND b) OR (NOT d AND c), (5 * i + 1) mod 16)
             else if i < 48 then (b XOR c XOR d, (3 * i + 5) mod 16)
             else (c XOR (b OR NOT d), (7 * i) mod 16))
      in [d, b + rotl32 (md5_shift i) (a + f + md5_k ! i + m ! g), b, c])"
| "md5_round m s i = s"

definition md5_block :: "32 word list \<Rightarrow> bytes \<Rightarrow> 32 word list" where
  "md5_block h blk =
     map2 (+) h (foldl (md5_round (map (be_word32 \<circ> rev) (chunks_of 4 blk))) h [0..<64])"

definition md5 :: "bytes \<Rightarrow> bytes" where
  "md5 m =
     concat (map (rev \<circ> word32_be)
       (foldl md5_block [0x67452301, 0xefcdab89, 0x98badcfe, 0x10325476]
          (chunks_of 64 (md_pad le_bytes m))))"

section \<open>Package crypto/aes\<close>

definition xtime :: "byte \<Rightarrow> byte" where
  "xtime b = push_bit 1 b XOR (if bit b 7 then 0x1b else 0)"

fun gmul_aux :: "nat \<Rightarrow> byte \<Rightarrow> byte \<Rightarrow> byte" where
  "gmul_aux 0 a b = 0"
| "gmul_aux (Suc n) a b =
     (if bit b 0 then a else 0) XOR gmul_aux n (xtime a) (drop_bit 1 b)"

definition gmul :: "byte \<Rightarrow> byte \<Rightarrow> byte" where
  "gmul = gmul_aux 8"

definition ginv :: "byte \<Rightarrow> byte" where
  "ginv a = (let b = ((\<lambda>x. gmul (gmul x x) a) ^^ 6) a in gmul b b)"

definition rotl8 :: "nat \<Rightarrow> byte \<Rightarrow> byte" where
  "rotl8 n b = push_bit n b OR drop_bit (8 - n) b"

definition sbox :: "byte \<Rightarrow> byte" where
  "sbox a = (let b = ginv a
             in b XOR rotl8 1 b XOR rotl8 2 b XOR rotl8 3 b XOR rotl8 4 b XOR 0x63)"

definition xor_bytes :: "bytes \<Rightarrow> bytes \<Rightarrow> bytes" where
  "xor_bytes a b = map2 (XOR) a b"

text \<open>Key expansion: the words of the schedule, \<open>nk\<close> words of key first.\<close>

fun aes_expand :: "nat \<Rightarrow> nat \<Rightarrow> byte \<Rightarrow> bytes list \<Rightarrow> bytes list" where
  "aes_expand 0 nk rc w = w"
| "aes_expand (Suc k) nk rc w =
     (let i = length w;
          t = last w;
          u = (if i mod nk = 0 then xor_bytes (map sbox (tl t @ [hd t])) [rc, 0, 0, 0]
               else if nk > 6 \<and> i mod nk = 4 then map sbox t else t);
          rc' = (if i mod nk = 0 then xtime rc else rc)
      in aes_expand k nk rc' (w @ [xor_bytes (w ! (i - nk)) u]))"

definition aes_round_keys :: "bytes \<Rightarrow> bytes list" where
  "aes_round_keys key =
     (let nk = length key div 4
      in map concat (chunks_of 4 (aes_expand (4 * (nk + 7) - nk) nk 1 (chunks_of 4 key))))"

definition aes_shift_rows :: "bytes \<Rightarrow> bytes" where
  "aes_shift_rows s = map (\<lambda>i. s ! ((5 * i) mod 16)) [0..<16]"

fun aes_mix_column :: "bytes \<Rightarrow> bytes" where
  "aes_mix_column [a, b, c, d] =
     [gmul 2 a XOR gmul 3 b XOR c XOR d, a XOR gmul 2 b XOR gmul 3 c XOR d,
      a XOR b XOR gmul 2 c XOR gmul 3 d, gmul 3 a XOR b XOR c XOR gmul 2 d]"
| "aes_mix_column s = s"

definition aes_round :: "bytes \<Rightarrow> bytes \<Rightarrow> bytes" where
  "aes_round s k =
     xor_bytes (concat (map aes_mix_column (chunks_of 4 (aes_shift_rows (map sbox s))))) k"

definition aes_encrypt_block :: "bytes \<Rightarrow> bytes \<Rightarrow> bytes" where
  "aes_encrypt_block key blk =
     (let rks = aes_round_keys key
      in xor_bytes (aes_shift_rows (map sbox
           (foldl aes_round (xor_bytes blk (hd rks)) (butlast (tl rks))))) (last rks))"

section \<open>Package crypto/cipher: GCM\<close>

definition be_word128 :: "bytes \<Rightarrow> 128 word" where
  "be_word128 bs = fold (\<lambda>b w. push_bit 8 w OR ucast b) bs 0"

definition word128_be :: "128 word \<Rightarrow> bytes" where
  "word128_be w = map (\<lambda>i. ucast (drop_bit (8 * i) w)) (rev [0..<16])"

fun gf128_mul_aux :: "nat \<Rightarrow> 128 word \<Rightarrow> 128 word \<Rightarrow> 128 word \<Rightarrow> 128 word" where
  "gf128_mul_aux 0 x v z = z"
| "gf128_mul_aux (Suc n) x v z =
     gf128_mul_aux n x
       (drop_bit 1 v XOR (if bit v 0 then 0xe1000000000000000000000000000000 else 0))
       (if bit x n then z XOR v else z)"

definition gf128_mul :: "128 word \<Rightarrow> 128 word \<Rightarrow> 128 word" where
  "gf128_mul x y = gf128_mul_aux 128 x y 0"

definition pad16 :: "bytes \<Rightarrow> bytes" where
  "pad16 bs = bs @ replicate ((16 - length bs mod 16) mod 16) 0"

definition ghash :: "128 word \<Rightarrow> bytes \<Rightarrow> 128 word" where
  "ghash h bs =
     fold (\<lambda>blk y. gf128_mul (y XOR be_word128 blk) h) (chunks_of 16 bs) 0"

text \<open>\<open>keystream key nonce n\<close>: the first \<open>n\<close> bytes of the counter mode key stream; the first
  block of plaintext uses counter 2, counter 1 is for the tag.\<close>

definition counter_block :: "bytes \<Rightarrow> nat \<Rightarrow> bytes" where
  "counter_block nonce i = nonce @ be_bytes 4 i"

definition keystream :: "bytes \<Rightarrow> bytes \<Rightarrow> nat \<Rightarrow> bytes" where
  "keystream key nonce n =
     take n (concat (map (\<lambda>i. aes_encrypt_block key (counter_block nonce (i + 2)))
       [0..<(n + 15) div 16]))"

definition pad_to :: "nat \<Rightarrow> bytes \<Rightarrow> bytes" where
  "pad_to n bs = take n bs @ replicate (n - length bs) 0"

definition gcm_crypt :: "bytes \<Rightarrow> bytes \<Rightarrow> bytes \<Rightarrow> bytes" where
  "gcm_crypt key nonce bs = xor_bytes bs (pad_to (length bs) (keystream key nonce (length bs)))"

definition gcm_tag :: "bytes \<Rightarrow> bytes \<Rightarrow> bytes \<Rightarrow> bytes \<Rightarrow> bytes" where
  "gcm_tag key nonce c aad =
     (let h = be_word128 (aes_encrypt_block key (replicate 16 0));
          s = ghash h (pad16 aad @ pad16 c @ be_bytes 8 (8 * length aad) @ be_bytes 8 (8 * length c))
      in pad_to 16 (xor_bytes (aes_encrypt_block key (counter_block nonce 1)) (word128_be s)))"

definition gcm_seal :: "bytes \<Rightarrow> bytes \<Rightarrow> bytes \<Rightarrow> bytes \<Rightarrow> bytes" where
  "gcm_seal key nonce pt aad =
     (let c = gcm_crypt key nonce pt in c @ gcm_tag key nonce c aad)"

definition gcm_open :: "bytes \<Rightarrow> bytes \<Rightarrow> bytes \<Rightarrow> bytes \<Rightarrow> bytes option" where
  "gcm_open key nonce ct aad =
     (if length ct < 16 then None
      else let c = take (length ct - 16) ct; t = drop (length ct - 16) ct
           in if t = gcm_tag key nonce c aad then Some (gcm_crypt key nonce c) else None)"

lemma length_xor_bytes [simp]: "length (xor_bytes a b) = min (length a) (length b)"
  by (simp add: xor_bytes_def)

lemma xor_bytes_cancel: "length a \<le> length k \<Longrightarrow> xor_bytes (xor_bytes a k) k = a"
proof (induction a arbitrary: k)
  case Nil
  then show ?case by (simp add: xor_bytes_def)
next
  case (Cons x a)
  then obtain y k' where "k = y # k'" by (cases k) auto
  with Cons show ?case by (simp add: xor_bytes_def xor.assoc)
qed

lemma length_pad_to [simp]: "length (pad_to n bs) = n"
  by (simp add: pad_to_def)

lemma length_gcm_crypt [simp]: "length (gcm_crypt key nonce bs) = length bs"
  by (simp add: gcm_crypt_def)

lemma gcm_crypt_invol [simp]: "gcm_crypt key nonce (gcm_crypt key nonce bs) = bs"
proof -
  have "length (xor_bytes bs (pad_to (length bs) (keystream key nonce (length bs)))) = length bs"
    by simp
  then show ?thesis
    by (simp add: gcm_crypt_def xor_bytes_cancel)
qed

lemma length_gcm_tag [simp]: "length (gcm_tag key nonce c aad) = 16"
  by (simp add: gcm_tag_def Let_def)

lemma length_gcm_seal [simp]: "length (gcm_seal key nonce pt aad) = length pt + 16"
  by (simp add: gcm_seal_def Let_def)

lemma gcm_open_seal [simp]: "gcm_open key nonce (gcm_seal key nonce pt aad) aad = Some pt"
  by (simp add: gcm_open_def gcm_seal_def Let_def)

subsection \<open>The interface cipher.AEAD\<close>

text \<open>
  \<^verbatim>\<open>aes.NewCipher\<close> accepts keys of 16, 24 and 32 bytes; \<^verbatim>\<open>Seal\<close> and \<^verbatim>\<open>Open\<close> panic on a nonce
  that is not 12 bytes long, and \<^verbatim>\<open>Open\<close> returns an error when authentication fails.
\<close>

definition NonceSize :: nat where
  "NonceSize = 12"

definition valid_aes_key :: "bytes \<Rightarrow> bool" where
  "valid_aes_key key \<longleftrightarrow> length key \<in> {16, 24, 32}"

definition NewCipher :: "bytes \<Rightarrow> bytes res" where
  "NewCipher key =
     (if valid_aes_key key then Ok key
      else Err (ErrNew (''crypto/aes: invalid key size '' @ FormatInt (int (length key)))))"

definition gcm_Seal :: "bytes \<Rightarrow> bytes \<Rightarrow> bytes \<Rightarrow> bytes \<Rightarrow> bytes res" where
  "gcm_Seal key nonce pt aad =
     (if length nonce = NonceSize then Ok (gcm_seal key nonce pt aad)
      else Panic ''crypto/cipher: incorrect nonce length given to GCM'')"

definition gcm_Open :: "bytes \<Rightarrow> bytes \<Rightarrow> bytes \<Rightarrow> bytes \<Rightarrow> bytes res" where
  "gcm_Open key nonce ct aad =
     (if length nonce = NonceSize
      then (case gcm_open key nonce ct aad of
              Some pt \<Rightarrow> Ok pt
            | None \<Rightarrow> Err (ErrNew ''cipher: message authentication failed''))
      else Panic ''crypto/cipher: incorrect nonce length given to GCM'')"

lemma NewCipher_Ok [simp]: "NewCipher key = Ok k \<longleftrightarrow> valid_aes_key key \<and> k = key"
  by (auto simp: NewCipher_def)

lemma NewCipher_not_Panic [simp]: "NewCipher key \<noteq> Panic s"
  by (simp add: NewCipher_def)

lemma NewCipher_valid [simp]: "valid_aes_key key \<Longrightarrow> NewCipher key = Ok key"
  by simp

text \<open>What the proxy relies on: opening what was sealed under the same key, nonce and associated
  data gives the plaintext back, and a sealed text is one tag longer.\<close>

locale aead =
  fixes seal :: "bytes \<Rightarrow> bytes \<Rightarrow> bytes \<Rightarrow> bytes \<Rightarrow> bytes res"
    and opn :: "bytes \<Rightarrow> bytes \<Rightarrow> bytes \<Rightarrow> bytes \<Rightarrow> bytes res"
    and nonce_size :: nat
    and tag_size :: nat
  assumes seal_ok: "length n = nonce_size \<Longrightarrow> \<exists>c. seal k n p a = Ok c"
    and open_seal: "seal k n p a = Ok c \<Longrightarrow> opn k n c a = Ok p"
    and length_seal: "seal k n p a = Ok c \<Longrightarrow> length c = length p + tag_size"
    and seal_nonce: "seal k n p a = Ok c \<Longrightarrow> length n = nonce_size"
    and open_nonce: "opn k n c a = Ok p \<Longrightarrow> length n = nonce_size"
begin

text \<open>The layout \<^verbatim>\<open>nonce || ciphertext\<close> that every key provider uses for a wrapped key.\<close>

lemma open_prefixed:
  assumes "seal k n p a = Ok c"
  shows "nonce_size \<le> length (n @ c)"
    and "opn k (take nonce_size (n @ c)) (drop nonce_size (n @ c)) a = Ok p"
  using seal_nonce [OF assms] open_seal [OF assms] by simp_all

lemma seal_obtain:
  assumes "length n = nonce_size"
  obtains c where "seal k n p a = Ok c" and "opn k n c a = Ok p"
    and "length c = length p + tag_size"
  using seal_ok [OF assms] open_seal length_seal by blast

end

interpretation gcm: aead gcm_Seal gcm_Open NonceSize 16
  by unfold_locales (auto simp: gcm_Seal_def gcm_Open_def split: if_splits)

end
