(* ===== verification/TTL_Cache.thy ===== *)
theory TTL_Cache
  imports Go_Base
begin

text \<open>
  The contract of a cache whose entries expire, as its users rely on it. The proxy has several:
  the data key cache of \<^verbatim>\<open>internal/kms/cache.go\<close>, the metadata cache of
  \<^verbatim>\<open>internal/storage/s3.go\<close>, the hot object cache of \<^verbatim>\<open>internal/cache/cache.go\<close>, the DNS cache of
  \<^verbatim>\<open>internal/transport/http.go\<close>, which has no removal. They differ in
  what happens at the very nanosecond of expiry, so the contract leaves that instant open: an entry
  is served strictly before \<open>t + ttl\<close> and not served strictly after it. \<open>ok\<close> says for which keys
  and values a store takes effect.

  The lemmas inside the locale are about the lookup-then-compute idiom of the clients.
\<close>

locale ttl_store =
  fixes get :: "'c \<Rightarrow> time \<Rightarrow> 'k \<Rightarrow> 'v option"
    and put :: "'c \<Rightarrow> time \<Rightarrow> 'k \<Rightarrow> 'v \<Rightarrow> 'c"
    and ttl :: "'c \<Rightarrow> duration"
    and ok :: "'k \<Rightarrow> 'v \<Rightarrow> bool"
  assumes get_put_same:
      "ok k v \<Longrightarrow> t' < t + ttl c \<Longrightarrow> get (put c t k v) t' k = Some v"
    and get_put_expired:
      "ok k v \<Longrightarrow> t + ttl c < t' \<Longrightarrow> get (put c t k v) t' k = None"
    and get_put_other: "k' \<noteq> k \<Longrightarrow> get (put c t k v) t' k' = get c t' k'"
    and get_mono: "t \<le> t' \<Longrightarrow> get c t' k = Some v \<Longrightarrow> get c t k = Some v"
    and ttl_put: "ttl (put c t k v) = ttl c"
begin

text \<open>A hit is never a value stored under another key and never an expired one.\<close>

lemma get_put_hit:
  assumes "ok k v" and "get (put c t k v) t' k = Some w"
  shows "w = v \<and> t' \<le> t + ttl c"
proof -
  have le: "t' \<le> t + ttl c"
  proof (rule ccontr)
    assume "\<not> t' \<le> t + ttl c"
    then have "get (put c t k v) t' k = None"
      by (intro get_put_expired assms(1)) simp
    with assms(2) show False by simp
  qed
  have "get (put c t k v) (t + ttl c - 1) k = Some v"
    using assms(1) by (intro get_put_same) auto
  moreover have "get (put c t k v) (t + ttl c - 1) k = Some w" if "t + ttl c - 1 < t'"
    using get_mono [of "t + ttl c - 1" t' "put c t k v" k w] assms(2) that by simp
  moreover have "get (put c t k v) t' k = Some v" if "t' < t + ttl c"
    using assms(1) that by (rule get_put_same)
  ultimately have "w = v"
    using assms(2) by (cases "t' < t + ttl c") auto
  with le show ?thesis by simp
qed

text \<open>An entry that is not served any more is not served later either.\<close>

lemma get_None_mono: "t \<le> t' \<Longrightarrow> get c t k = None \<Longrightarrow> get c t' k = None"
  using get_mono by (metis option.exhaust)

end

text \<open>A cache from which a key can also be removed.\<close>

locale ttl_cache = ttl_store get put ttl ok
  for get :: "'c \<Rightarrow> time \<Rightarrow> 'k \<Rightarrow> 'v option"
    and put :: "'c \<Rightarrow> time \<Rightarrow> 'k \<Rightarrow> 'v \<Rightarrow> 'c"
    and del :: "'c \<Rightarrow> 'k \<Rightarrow> 'c"
    and ttl :: "'c \<Rightarrow> duration"
    and ok :: "'k \<Rightarrow> 'v \<Rightarrow> bool" +
  assumes get_del_same: "get (del c k) t k = None"
    and get_del_other: "k' \<noteq> k \<Longrightarrow> get (del c k) t k' = get c t k'"
    and ttl_del: "ttl (del c k) = ttl c"
begin

text \<open>A store to another key, or its removal, commutes with a lookup; so a value stays available
  through any run of operations on other keys.\<close>

lemma get_after_others:
  assumes "\<forall>op \<in> set ops. (case op of Inl (t, k', v) \<Rightarrow> k' \<noteq> k | Inr k' \<Rightarrow> k' \<noteq> k)"
  shows "get (foldl (\<lambda>c op. case op of Inl (t, k', v) \<Rightarrow> put c t k' v | Inr k' \<Rightarrow> del c k') c ops) t' k
       = get c t' k"
  using assms
proof (induction ops arbitrary: c)
  case Nil
  then show ?case by simp
next
  case (Cons op ops)
  have "get (case op of Inl (t, k', v) \<Rightarrow> put c t k' v | Inr k' \<Rightarrow> del c k') t' k = get c t' k"
    using Cons.prems by (auto split: sum.splits prod.splits simp: get_put_other get_del_other)
  with Cons show ?case by simp
qed

end

end
