(* ===== verification/KMS_Cache.thy ===== *)
theory KMS_Cache
  imports Go_Crypto TTL_Cache
begin

text \<open>
  \<^verbatim>\<open>internal/kms/cache.go\<close>: the data key cache. Byte slices are shared in the code: the slice
  \<^verbatim>\<open>PlaintextKey\<close> of a cached \<^verbatim>\<open>DataKey\<close> is the one handed to the callers, and clearing it in one
  place clears it everywhere. So slices of key material are addresses into a \<open>heap\<close> of byte arrays.
  A nil pointer (receiver, entry, data key, slice) is \<open>None\<close>. Each method holds the cache's mutex
  from start to end, so a concurrent execution is a sequence of these operations (\<open>cache_step\<close>).
\<close>

section \<open>Heap of byte slices\<close>

record heap =
  h_mem :: "nat \<Rightarrow> bytes"
  h_next :: nat

definition h_alloc :: "heap \<Rightarrow> bytes \<Rightarrow> nat \<times> heap" where
  "h_alloc h bs = (h_next h, h\<lparr>h_mem := (h_mem h)(h_next h := bs), h_next := Suc (h_next h)\<rparr>)"

definition h_zero :: "heap \<Rightarrow> nat \<Rightarrow> heap" where
  "h_zero h a = h\<lparr>h_mem := (h_mem h)(a := replicate (length (h_mem h a)) 0)\<rparr>"

definition zeroed :: "bytes \<Rightarrow> bool" where
  "zeroed bs \<longleftrightarrow> list_all (\<lambda>b. b = 0) bs"

lemma zeroed_replicate [simp]: "zeroed (replicate n 0)"
  by (simp add: zeroed_def list_all_iff)

lemma zeroed_iff: "zeroed bs \<longleftrightarrow> bs = replicate (length bs) 0"
  unfolding zeroed_def list_all_iff by (metis replicate_eqI in_set_replicate)

lemma h_mem_zero [simp]:
  "h_mem (h_zero h a) b = (if b = a then replicate (length (h_mem h a)) 0 else h_mem h b)"
  by (simp add: h_zero_def)

lemma zeroed_h_zero [simp]: "zeroed (h_mem h b) \<Longrightarrow> zeroed (h_mem (h_zero h a) b)"
  by simp

lemma length_h_mem_zero [simp]: "length (h_mem (h_zero h a) b) = length (h_mem h b)"
  by simp

lemma h_next_zero [simp]: "h_next (h_zero h a) = h_next h"
  by (simp add: h_zero_def)

section \<open>Data keys and the cache\<close>

record data_key =
  dk_KeyID :: string
  dk_PlaintextKey :: "nat option"
  dk_CiphertextBlob :: bytes
  dk_EncryptionContext :: smap
  dk_CreatedAt :: time

record cache_entry =
  ce_dataKey :: "data_key option"
  ce_expiresAt :: time

record data_key_cache =
  dc_cache :: "(string \<times> cache_entry option) list"
  dc_ttl :: duration
  dc_stopped :: bool


definition NewDataKeyCache :: "duration \<Rightarrow> data_key_cache" where
  "NewDataKeyCache ttl =
     \<lparr>dc_cache = [], dc_ttl = (if ttl \<le> 0 then 5 * minute else ttl), dc_stopped = False\<rparr>"

definition clearSensitiveData :: "heap \<Rightarrow> data_key option \<Rightarrow> heap" where
  "clearSensitiveData h dk =
     (case dk of
        None \<Rightarrow> h
      | Some d \<Rightarrow> (case dk_PlaintextKey d of None \<Rightarrow> h | Some a \<Rightarrow> h_zero h a))"

text \<open>The data key an entry of the map holds, where both pointers are non-nil.\<close>

definition entry_key :: "cache_entry option \<Rightarrow> data_key option" where
  "entry_key e = (case e of None \<Rightarrow> None | Some ce \<Rightarrow> ce_dataKey ce)"

definition DataKeyCache_Get :: "data_key_cache option \<Rightarrow> time \<Rightarrow> string \<Rightarrow> data_key option" where
  "DataKeyCache_Get c now key =
     (case c of
        None \<Rightarrow> None
      | Some c \<Rightarrow>
          if key = '''' then None
          else (case map_of (dc_cache c) key of
                  None \<Rightarrow> None
                | Some None \<Rightarrow> None
                | Some (Some entry) \<Rightarrow>
                    if now > ce_expiresAt entry then None else ce_dataKey entry))"

definition DataKeyCache_Put ::
  "data_key_cache option \<Rightarrow> heap \<Rightarrow> time \<Rightarrow> string \<Rightarrow> data_key option
     \<Rightarrow> data_key_cache option \<times> heap" where
  "DataKeyCache_Put c h now key dataKey =
     (case (c, dataKey) of
        (Some c, Some dk) \<Rightarrow>
          if key = '''' then (Some c, h)
          else
            let h' = (case map_of (dc_cache c) key of
                        Some e \<Rightarrow> clearSensitiveData h (entry_key e)
                      | None \<Rightarrow> h);
                entry = \<lparr>ce_dataKey = Some dk, ce_expiresAt = now + dc_ttl c\<rparr>
            in (Some (c\<lparr>dc_cache := AList.update key (Some entry) (dc_cache c)\<rparr>), h')
      | _ \<Rightarrow> (c, h))"

definition DataKeyCache_Delete ::
  "data_key_cache option \<Rightarrow> heap \<Rightarrow> string \<Rightarrow> data_key_cache option \<times> heap" where
  "DataKeyCache_Delete c h key =
     (case c of
        None \<Rightarrow> (None, h)
      | Some c \<Rightarrow>
          if key = '''' then (Some c, h)
          else
            let h' = (case map_of (dc_cache c) key of
                        Some e \<Rightarrow> clearSensitiveData h (entry_key e)
                      | None \<Rightarrow> h)
            in (Some (c\<lparr>dc_cache := AList.delete key (dc_cache c)\<rparr>), h'))"

definition clear_entries :: "heap \<Rightarrow> (string \<times> cache_entry option) list \<Rightarrow> heap" where
  "clear_entries h es = fold (\<lambda>(k, e) h. clearSensitiveData h (entry_key e)) es h"

definition DataKeyCache_Clear :: "data_key_cache option \<Rightarrow> heap \<Rightarrow> data_key_cache option \<times> heap" where
  "DataKeyCache_Clear c h =
     (case c of
        None \<Rightarrow> (None, h)
      | Some c \<Rightarrow> (Some (c\<lparr>dc_cache := []\<rparr>), clear_entries h (dc_cache c)))"

definition DataKeyCache_Size :: "data_key_cache option \<Rightarrow> nat" where
  "DataKeyCache_Size c = (case c of None \<Rightarrow> 0 | Some c \<Rightarrow> length (dc_cache c))"

text \<open>Whether \<^verbatim>\<open>cleanup\<close> drops an entry: a nil one, or one past its expiry.\<close>

definition stale :: "time \<Rightarrow> cache_entry option \<Rightarrow> bool" where
  "stale now e = (case e of None \<Rightarrow> True | Some entry \<Rightarrow> now > ce_expiresAt entry)"

definition DataKeyCache_cleanup :: "data_key_cache option \<Rightarrow> heap \<Rightarrow> time \<Rightarrow> data_key_cache option \<times> heap" where
  "DataKeyCache_cleanup c h now =
     (case c of
        None \<Rightarrow> (None, h)
      | Some c \<Rightarrow>
          (Some (c\<lparr>dc_cache := filter (\<lambda>(k, e). \<not> stale now e) (dc_cache c)\<rparr>),
           clear_entries h (filter (\<lambda>(k, e). stale now e) (dc_cache c))))"

definition DataKeyCache_Close :: "data_key_cache option \<Rightarrow> heap \<Rightarrow> data_key_cache option \<times> heap" where
  "DataKeyCache_Close c h =
     (case c of
        None \<Rightarrow> (None, h)
      | Some c \<Rightarrow>
          if dc_stopped c then (Some c, h)
          else (Some (c\<lparr>dc_stopped := True, dc_cache := []\<rparr>), clear_entries h (dc_cache c)))"

text \<open>The cache key: the key ID and the encryption context, hashed in the order the \<^verbatim>\<open>range\<close> loop
  visits the context.\<close>

definition cache_key_input :: "string \<Rightarrow> smap \<Rightarrow> string" where
  "cache_key_input keyID ctx = keyID @ concat (map (\<lambda>(k, v). k @ v) ctx)"

definition buildDataKeyCacheKey :: "string \<Rightarrow> smap \<Rightarrow> string" where
  "buildDataKeyCacheKey keyID ctx =
     (if keyID = '''' then '''' else hex_encode (sha256 (bytes_of (cache_key_input keyID ctx))))"

fun serialize_aux :: "bool \<Rightarrow> string \<Rightarrow> smap \<Rightarrow> string" where
  "serialize_aux first result [] = result"
| "serialize_aux first result ((k, v) # ctx) =
     serialize_aux False ((if first then result else result @ '','') @ k @ ''='' @ v) ctx"

definition serializeEncryptionContext :: "smap \<Rightarrow> string" where
  "serializeEncryptionContext ctx = (if ctx = [] then '''' else serialize_aux True '''' ctx)"

section \<open>The cache as a TTL cache\<close>

text \<open>A non-nil cache together with the heap, with the operations a client calls.\<close>

definition dkc_get :: "data_key_cache \<times> heap \<Rightarrow> time \<Rightarrow> string \<Rightarrow> data_key option" where
  "dkc_get ch t k = DataKeyCache_Get (Some (fst ch)) t k"

definition dkc_put ::
  "data_key_cache \<times> heap \<Rightarrow> time \<Rightarrow> string \<Rightarrow> data_key \<Rightarrow> data_key_cache \<times> heap" where
  "dkc_put ch t k dk =
     (case DataKeyCache_Put (Some (fst ch)) (snd ch) t k (Some dk) of (c, h) \<Rightarrow> (the c, h))"

definition dkc_del :: "data_key_cache \<times> heap \<Rightarrow> string \<Rightarrow> data_key_cache \<times> heap" where
  "dkc_del ch k = (case DataKeyCache_Delete (Some (fst ch)) (snd ch) k of (c, h) \<Rightarrow> (the c, h))"

lemmas dkc_defs = dkc_get_def dkc_put_def dkc_del_def DataKeyCache_Get_def DataKeyCache_Put_def
  DataKeyCache_Delete_def Let_def

interpretation dkc: ttl_cache dkc_get dkc_put dkc_del "\<lambda>ch. dc_ttl (fst ch)" "\<lambda>k dk. k \<noteq> ''''"
  by unfold_locales
     (auto simp: dkc_defs AList.update_conv' AList.delete_conv' split: option.splits if_splits)

lemma DataKeyCache_Put_eq:
  "DataKeyCache_Put (Some c) h t k (Some dk) =
     (Some (fst (dkc_put (c, h) t k dk)), snd (dkc_put (c, h) t k dk))"
  by (simp add: dkc_put_def DataKeyCache_Put_def Let_def)

lemma DataKeyCache_Get_eq: "DataKeyCache_Get (Some c) t k = dkc_get (c, h) t k"
  by (simp add: dkc_get_def)

section \<open>Clearing of key material\<close>

definition refs :: "(string \<times> cache_entry option) list \<Rightarrow> nat set" where
  "refs es = {a. \<exists>k e d. (k, e) \<in> set es \<and> entry_key e = Some d \<and> dk_PlaintextKey d = Some a}"

lemma clearSensitiveData_mem:
  "h_mem (clearSensitiveData h dk) a =
     (if \<exists>d. dk = Some d \<and> dk_PlaintextKey d = Some a
      then replicate (length (h_mem h a)) 0 else h_mem h a)"
  by (auto simp: clearSensitiveData_def split: option.splits)

lemma clear_entries_Nil [simp]: "clear_entries h [] = h"
  by (simp add: clear_entries_def)

lemma clear_entries_Cons [simp]:
  "clear_entries h ((k, e) # es) = clear_entries (clearSensitiveData h (entry_key e)) es"
  by (simp add: clear_entries_def)

lemma refs_Nil [simp]: "refs [] = {}"
  by (simp add: refs_def)

lemma refs_Cons:
  "refs ((k, e) # es) = {a. \<exists>d. entry_key e = Some d \<and> dk_PlaintextKey d = Some a} \<union> refs es"
  by (auto simp: refs_def)

lemma h_mem_clear_entries:
  "h_mem (clear_entries h es) a =
     (if a \<in> refs es then replicate (length (h_mem h a)) 0 else h_mem h a)"
proof (induction es arbitrary: h)
  case Nil
  then show ?case by simp
next
  case (Cons ke es)
  obtain k e where "ke = (k, e)" by (cases ke)
  with Cons [of "clearSensitiveData h (entry_key e)"] show ?case
    by (auto simp: clearSensitiveData_mem refs_Cons)
qed

lemma h_next_clear [simp]: "h_next (clearSensitiveData h dk) = h_next h"
  by (simp add: clearSensitiveData_def split: option.splits)

lemma h_next_clear_entries [simp]: "h_next (clear_entries h es) = h_next h"
  by (induction es arbitrary: h) auto

section \<open>Executions\<close>

text \<open>
  A state is the cache, the heap and, as history, the set of slices ever stored. The steps are the
  cache's operations, the tick of \<^verbatim>\<open>cleanupLoop\<close> (one that is due when \<^verbatim>\<open>stopChan\<close> closes may still
  be served), a client allocating a slice and a client clearing one, as the envelope encryptor does.
  \<^verbatim>\<open>Close\<close> signals \<^verbatim>\<open>stopChan\<close> before it takes the mutex, so its first half is a step of its own
  (\<open>step_signal\<close>); its second half does what \<^verbatim>\<open>Clear\<close> does.
\<close>

type_synonym cstate = "data_key_cache \<times> heap \<times> nat set"

definition dk_slice :: "data_key \<Rightarrow> nat set" where
  "dk_slice dk = set_option (dk_PlaintextKey dk)"

inductive cache_step :: "cstate \<Rightarrow> cstate \<Rightarrow> bool" where
  step_put: "DataKeyCache_Put (Some c) h now key (Some dk) = (Some c', h')
     \<Longrightarrow> \<forall>a \<in> dk_slice dk. a < h_next h
     \<Longrightarrow> cache_step (c, h, S) (c', h', if key = '''' then S else S \<union> dk_slice dk)"
| step_delete: "DataKeyCache_Delete (Some c) h key = (Some c', h')
     \<Longrightarrow> cache_step (c, h, S) (c', h', S)"
| step_clear: "DataKeyCache_Clear (Some c) h = (Some c', h') \<Longrightarrow> cache_step (c, h, S) (c', h', S)"
| step_tick: "DataKeyCache_cleanup (Some c) h now = (Some c', h')
     \<Longrightarrow> cache_step (c, h, S) (c', h', S)"
| step_close: "DataKeyCache_Close (Some c) h = (Some c', h') \<Longrightarrow> cache_step (c, h, S) (c', h', S)"
| step_signal: "cache_step (c, h, S) (c\<lparr>dc_stopped := True\<rparr>, h, S)"
| step_alloc: "h_alloc h bs = (a, h') \<Longrightarrow> cache_step (c, h, S) (c, h', S)"
| step_zero: "cache_step (c, h, S) (c, h_zero h a, S)"

inductive cache_reach :: "cstate \<Rightarrow> bool" where
  reach_new: "cache_reach (NewDataKeyCache ttl, h, {})"
| reach_step: "cache_reach s \<Longrightarrow> cache_step s t \<Longrightarrow> cache_reach t"

inductive_cases cache_step_cases: "cache_step (c, h, S) t"

text \<open>The invariant: map keys are distinct, slices are allocated, and a slice that was ever stored
  is still referenced by the map or is all zero.\<close>

definition cache_inv :: "cstate \<Rightarrow> bool" where
  "cache_inv s =
     (case s of (c, h, S) \<Rightarrow>
        distinct (map fst (dc_cache c))
        \<and> (\<forall>a \<in> S. a < h_next h)
        \<and> (\<forall>a \<in> S. a \<in> refs (dc_cache c) \<or> zeroed (h_mem h a)))"

lemma in_refs_delete:
  assumes "distinct (map fst es)" and "a \<in> refs es"
  shows "a \<in> refs (AList.delete k es)
    \<or> (\<exists>e d. map_of es k = Some e \<and> entry_key e = Some d \<and> dk_PlaintextKey d = Some a)"
proof -
  from assms(2) obtain k' e d where
    "(k', e) \<in> set es" "entry_key e = Some d" "dk_PlaintextKey d = Some a"
    by (auto simp: refs_def)
  moreover have "map_of es k' = Some e"
    using assms(1) calculation(1) by simp
  moreover have "(k', e) \<in> set (AList.delete k es)" if "k' \<noteq> k"
    using calculation(1) that by (auto simp: AList.delete_eq)
  ultimately show ?thesis by (cases "k' = k") (auto simp: refs_def)
qed

lemma in_refs_update:
  assumes "distinct (map fst es)"
  shows "a \<in> refs (AList.update k e es) \<longleftrightarrow>
    a \<in> refs (AList.delete k es) \<or> (\<exists>d. entry_key e = Some d \<and> dk_PlaintextKey d = Some a)"
proof -
  have d: "distinct (map fst (AList.update k e es))" "distinct (map fst (AList.delete k es))"
    using assms by (simp_all add: AList.distinct_update AList.distinct_delete)
  have *: "(k', e') \<in> set (AList.update k e es) \<longleftrightarrow>
      (k', e') \<in> set (AList.delete k es) \<or> (k' = k \<and> e' = e)" for k' e'
    using d by (auto simp: map_of_eq_Some_iff [symmetric] AList.update_conv' AList.delete_conv'
        split: if_splits)
  show ?thesis unfolding refs_def mem_Collect_eq * by metis
qed

lemma refs_filter_split: "refs es = refs (filter P es) \<union> refs (filter (\<lambda>x. \<not> P x) es)"
  unfolding refs_def by fastforce

lemma distinct_keys_filter: "distinct (map fst es) \<Longrightarrow> distinct (map fst (filter P es))"
  by (induction es) auto

lemma map_of_filter_snd:
  "distinct (map fst es) \<Longrightarrow>
     map_of (filter (\<lambda>x. P (snd x)) es) k = (case map_of es k of Some v \<Rightarrow> if P v then Some v else None | None \<Rightarrow> None)"
  by (induction es) (auto split: option.splits simp: map_of_eq_None_iff image_iff)

lemma dc_cache_Put:
  assumes "DataKeyCache_Put (Some c) h now key (Some dk) = (Some c', h')" and "key \<noteq> ''''"
  shows "\<exists>e. dc_cache c' = AList.update key e (dc_cache c) \<and> entry_key e = Some dk"
    and "h' = (case map_of (dc_cache c) key of Some e \<Rightarrow> clearSensitiveData h (entry_key e) | None \<Rightarrow> h)"
  using assms by (auto simp: DataKeyCache_Put_def Let_def entry_key_def split: if_splits)

lemma zeroed_clear: "zeroed (h_mem h a) \<Longrightarrow> zeroed (h_mem (clearSensitiveData h dk) a)"
  by (simp add: clearSensitiveData_mem)

lemma zeroed_clear_entries: "zeroed (h_mem h a) \<Longrightarrow> zeroed (h_mem (clear_entries h es) a)"
  by (simp add: h_mem_clear_entries)

lemma removed_ref_zeroed:
  assumes "distinct (map fst es)" and "a \<in> refs es \<or> zeroed (h_mem h a)"
  shows "a \<in> refs (AList.delete k es) \<or>
    zeroed (h_mem (case map_of es k of Some e \<Rightarrow> clearSensitiveData h (entry_key e) | None \<Rightarrow> h) a)"
  using in_refs_delete [OF assms(1), of a k] assms(2)
  by (auto simp: clearSensitiveData_mem split: option.splits)

lemma cache_inv_put:
  assumes inv: "cache_inv (c, h, S)"
    and put: "DataKeyCache_Put (Some c) h now key (Some dk) = (Some c', h')"
    and alloc: "\<forall>a \<in> dk_slice dk. a < h_next h"
  shows "cache_inv (c', h', if key = '''' then S else S \<union> dk_slice dk)"
proof (cases "key = ''''")
  case True
  with put inv show ?thesis by (simp add: DataKeyCache_Put_def)
next
  case False
  obtain e where e: "dc_cache c' = AList.update key e (dc_cache c)" "entry_key e = Some dk"
    using dc_cache_Put [OF put False] by blast
  have h': "h' = (case map_of (dc_cache c) key of
      Some e \<Rightarrow> clearSensitiveData h (entry_key e) | None \<Rightarrow> h)"
    using dc_cache_Put [OF put False] by blast
  have "h_next h' = h_next h" by (simp add: h' split: option.splits)
  moreover have "a \<in> refs (dc_cache c') \<or> zeroed (h_mem h' a)" if "a \<in> S \<union> dk_slice dk" for a
    using that inv removed_ref_zeroed [of "dc_cache c" a h key]
    by (auto simp: cache_inv_def e in_refs_update h' dk_slice_def)
  ultimately show ?thesis
    using inv alloc False by (auto simp: cache_inv_def e AList.distinct_update)
qed

lemma cache_inv_delete:
  assumes inv: "cache_inv (c, h, S)"
    and del: "DataKeyCache_Delete (Some c) h key = (Some c', h')"
  shows "cache_inv (c', h', S)"
proof (cases "key = ''''")
  case True
  with del inv show ?thesis by (simp add: DataKeyCache_Delete_def)
next
  case False
  have c': "dc_cache c' = AList.delete key (dc_cache c)"
    and h': "h' = (case map_of (dc_cache c) key of
      Some e \<Rightarrow> clearSensitiveData h (entry_key e) | None \<Rightarrow> h)"
    using del False by (auto simp: DataKeyCache_Delete_def Let_def)
  have "h_next h' = h_next h" by (simp add: h' split: option.splits)
  moreover have "a \<in> refs (dc_cache c') \<or> zeroed (h_mem h' a)" if "a \<in> S" for a
    using that inv removed_ref_zeroed [of "dc_cache c" a h key]
    by (auto simp: cache_inv_def c' h')
  ultimately show ?thesis
    using inv by (auto simp: cache_inv_def c' AList.distinct_delete)
qed

lemma cache_inv_tick:
  assumes inv: "cache_inv (c, h, S)"
    and tick: "DataKeyCache_cleanup (Some c) h now = (Some c', h')"
  shows "cache_inv (c', h', S)"
proof -
  let ?st = "\<lambda>x. stale now (snd x)"
  have c': "dc_cache c' = filter (\<lambda>x. \<not> ?st x) (dc_cache c)"
    and h': "h' = clear_entries h (filter ?st (dc_cache c))"
    using tick by (auto simp: DataKeyCache_cleanup_def case_prod_unfold)
  have "a \<in> refs (dc_cache c') \<or> zeroed (h_mem h' a)" if "a \<in> S" for a
  proof -
    have "a \<in> refs (dc_cache c) \<or> zeroed (h_mem h a)"
      using inv that by (simp add: cache_inv_def)
    then consider "a \<in> refs (filter ?st (dc_cache c))" | "a \<in> refs (dc_cache c')"
      | "zeroed (h_mem h a)"
      using refs_filter_split [of "dc_cache c" ?st] unfolding c' by blast
    then show ?thesis by cases (auto simp: h' h_mem_clear_entries)
  qed
  with inv show ?thesis
    by (simp add: cache_inv_def c' h' distinct_keys_filter)
qed

lemma cache_inv_step:
  assumes "cache_step s t" and "cache_inv s"
  shows "cache_inv t"
  using assms
proof (induction rule: cache_step.induct)
  case (step_put c h now key dk c' h' S)
  show ?case by (rule cache_inv_put [OF step_put.prems step_put.hyps])
next
  case (step_delete c h key c' h' S)
  show ?case by (rule cache_inv_delete [OF step_delete.prems step_delete.hyps])
next
  case (step_clear c h c' h' S)
  then show ?case
    by (auto simp: cache_inv_def DataKeyCache_Clear_def h_mem_clear_entries split: if_splits)
next
  case (step_tick c h now c' h' S)
  show ?case by (rule cache_inv_tick [OF step_tick.prems step_tick.hyps])
next
  case (step_close c h c' h' S)
  then show ?case
    by (auto simp: cache_inv_def DataKeyCache_Close_def h_mem_clear_entries split: if_splits)
next
  case (step_signal c h S)
  then show ?case by (simp add: cache_inv_def)
next
  case (step_alloc h bs a h' c S)
  then show ?case by (auto simp: cache_inv_def h_alloc_def split: if_splits)
next
  case (step_zero c h S a)
  then show ?case by (auto simp: cache_inv_def)
qed

lemma cache_inv_reach: "cache_reach s \<Longrightarrow> cache_inv s"
proof (induction rule: cache_reach.induct)
  case (reach_new ttl h)
  then show ?case by (simp add: cache_inv_def NewDataKeyCache_def)
next
  case (reach_step s t)
  then show ?case by (blast intro: cache_inv_step)
qed


section \<open>Properties\<close>

text \<open>A concrete run: one slice is allocated and stored under the key \<open>k\<close> at time 0.\<close>

definition demo_heap :: heap where
  "demo_heap = \<lparr>h_mem = (\<lambda>_. []), h_next = 0\<rparr>"

definition demo_dk :: data_key where
  "demo_dk = \<lparr>dk_KeyID = ''alias/k'', dk_PlaintextKey = Some 0, dk_CiphertextBlob = [9],
     dk_EncryptionContext = [], dk_CreatedAt = 0\<rparr>"

definition demo_cache :: data_key_cache where
  "demo_cache = \<lparr>dc_cache = [(''k'', Some \<lparr>ce_dataKey = Some demo_dk, ce_expiresAt = 5 * minute\<rparr>)],
     dc_ttl = 5 * minute, dc_stopped = False\<rparr>"

definition demo_heap1 :: heap where
  "demo_heap1 = snd (h_alloc demo_heap [7, 7])"

lemmas demo_defs = demo_heap_def demo_dk_def demo_cache_def demo_heap1_def h_alloc_def

lemma demo_reach: "cache_reach (demo_cache, demo_heap1, {0})"
proof -
  have "cache_reach (NewDataKeyCache 0, demo_heap, {})"
    by (rule reach_new)
  then have "cache_reach (NewDataKeyCache 0, demo_heap1, {})"
    by (rule reach_step) (rule step_alloc [where a = 0 and bs = "[7, 7]"], simp add: demo_defs)
  moreover have "cache_step (NewDataKeyCache 0, demo_heap1, {})
      (demo_cache, demo_heap1, if ''k'' = '''' then {} else {} \<union> dk_slice demo_dk)"
    by (rule step_put [where now = 0])
       (simp_all add: demo_defs DataKeyCache_Put_def NewDataKeyCache_def dk_slice_def)
  ultimately show ?thesis
    by (auto intro: reach_step simp: dk_slice_def demo_dk_def)
qed

text \<open>C20: no key material is forgotten in memory. In every execution of the data key cache, under
  any interleaving of its operations, the cleanup ticks and the clients, a plaintext slice that was
  ever stored is still referenced by an entry of the cache or holds only zeros.\<close>

theorem cached_key_material_tracked:
  assumes "cache_reach (c, h, S)" and "a \<in> S"
  shows "a \<in> refs (dc_cache c) \<or> zeroed (h_mem h a)"
  using cache_inv_reach [OF assms(1)] assms(2) by (simp add: cache_inv_def)

theorem cached_key_material_tracked_witness:
  "0 \<in> refs (dc_cache demo_cache) \<or> zeroed (h_mem demo_heap1 0)"
  by (rule cached_key_material_tracked [OF demo_reach]) simp

text \<open>C34: \<^verbatim>\<open>Close\<close> on a running cache empties it and zeroes every plaintext slice that was ever stored
  in it, and a second \<^verbatim>\<open>Close\<close> changes nothing.\<close>

theorem Close_zeroes_everything:
  assumes "cache_reach (c, h, S)" and "\<not> dc_stopped c"
    and "DataKeyCache_Close (Some c) h = (c', h')"
  shows "DataKeyCache_Size c' = 0 \<and> (\<forall>a \<in> S. zeroed (h_mem h' a))
    \<and> DataKeyCache_Close c' h' = (c', h')"
proof -
  have c': "c' = Some (c\<lparr>dc_stopped := True, dc_cache := []\<rparr>)" and h': "h' = clear_entries h (dc_cache c)"
    using assms(2,3) by (simp_all add: DataKeyCache_Close_def)
  have "\<forall>a \<in> S. a \<in> refs (dc_cache c) \<or> zeroed (h_mem h a)"
    using cache_inv_reach [OF assms(1)] by (simp add: cache_inv_def)
  then have "\<forall>a \<in> S. zeroed (h_mem h' a)"
    by (auto simp: h' h_mem_clear_entries split: if_splits)
  then show ?thesis by (simp add: c' DataKeyCache_Size_def DataKeyCache_Close_def)
qed

theorem Close_zeroes_everything_witness:
  "DataKeyCache_Size (fst (DataKeyCache_Close (Some demo_cache) demo_heap1)) = 0
   \<and> zeroed (h_mem (snd (DataKeyCache_Close (Some demo_cache) demo_heap1)) 0)"
  using Close_zeroes_everything [OF demo_reach _ prod.collapse [symmetric]]
  by (simp add: demo_cache_def)

text \<open>The cleanup tick is invisible to lookups and only drops what they no longer serve. After
  \<^verbatim>\<open>cleanup\<close> at time \<open>now\<close> every lookup from then on gives what it gave before, no entry left in the
  cache is past its expiry, and the slices of the dropped entries are zero.\<close>

theorem cleanup_correct:
  assumes "distinct (map fst (dc_cache c))"
    and "DataKeyCache_cleanup (Some c) h now = (Some c', h')"
  shows "(\<forall>t \<ge> now. \<forall>k. DataKeyCache_Get (Some c') t k = DataKeyCache_Get (Some c) t k)
    \<and> (\<forall>(k, e) \<in> set (dc_cache c'). \<exists>entry. e = Some entry \<and> now \<le> ce_expiresAt entry)
    \<and> (\<forall>a \<in> refs (dc_cache c) - refs (dc_cache c'). zeroed (h_mem h' a))"
proof -
  have c': "dc_cache c' = filter (\<lambda>x. \<not> stale now (snd x)) (dc_cache c)"
    and h': "h' = clear_entries h (filter (\<lambda>x. stale now (snd x)) (dc_cache c))"
    using assms(2) by (auto simp: DataKeyCache_cleanup_def case_prod_unfold)
  have "DataKeyCache_Get (Some c') t k = DataKeyCache_Get (Some c) t k" if "now \<le> t" for t k
    using that map_of_filter_snd [OF assms(1), of "\<lambda>e. \<not> stale now e" k]
    by (auto simp: DataKeyCache_Get_def c' stale_def split: option.splits)
  moreover have "\<forall>(k, e) \<in> set (dc_cache c'). \<exists>entry. e = Some entry \<and> now \<le> ce_expiresAt entry"
    by (auto simp: c' stale_def split: option.splits)
  moreover have "\<forall>a \<in> refs (dc_cache c) - refs (dc_cache c'). zeroed (h_mem h' a)"
    using refs_filter_split [of "dc_cache c" "\<lambda>x. stale now (snd x)"]
    by (auto simp: c' h' h_mem_clear_entries)
  ultimately show ?thesis by blast
qed

theorem cleanup_correct_witness:
  "DataKeyCache_Get (fst (DataKeyCache_cleanup (Some demo_cache) demo_heap1 (6 * minute))) (6 * minute) ''k''
     = DataKeyCache_Get (Some demo_cache) (6 * minute) ''k''
   \<and> zeroed (h_mem (snd (DataKeyCache_cleanup (Some demo_cache) demo_heap1 (6 * minute))) 0)"
  using cleanup_correct [of demo_cache demo_heap1 "6 * minute"
      "demo_cache\<lparr>dc_cache := []\<rparr>" "h_zero demo_heap1 0"]
  by (simp add: DataKeyCache_cleanup_def demo_cache_def demo_dk_def stale_def minute_def second_def
      entry_key_def clearSensitiveData_def refs_Cons)

text \<open>The cache key does not determine the key ID. The hash input has no separators, so a key ID
  with one context pair shares its cache entry with the longer key ID that ends in the pair's name.\<close>

theorem cache_key_collision:
  "buildDataKeyCacheKey (c # keyID) [(k, v)] = buildDataKeyCacheKey (c # keyID @ k) [(v, '''')]"
  by (simp add: buildDataKeyCacheKey_def cache_key_input_def)

end
