(* ===== verification/KMS_Manager.thy ===== *)
theory KMS_Manager
  imports KMS_Cache Config
begin

text \<open>
  \<^verbatim>\<open>internal/kms/manager.go\<close>, \<^verbatim>\<open>config.go\<close> and \<^verbatim>\<open>errors.go\<close>: the KMS manager. The AWS KMS client is
  code outside the repository: a \<open>kms_client\<close> holds one function per API call the manager makes.
  Each function takes the number of calls made before, so that the service may answer the same
  request differently over time. \<open>cl_WithContext\<close> is what the client does with the \<^verbatim>\<open>context.Context\<close> of a call before it sends
  anything; the manager passes on the context it is given (\<open>gctx\<close>), the calls of the other operations have a context from their caller. A decryption request may name the key (\<open>None\<close> when it does not). The heap of key slices and the number of calls made are the
  \<open>kworld\<close>; an operation returns its outcome together with the changed manager and world. \<open>now\<close> is
  the clock at the start of an operation, \<open>now'\<close> the clock after the last answer of the service.
\<close>

section \<open>Errors (errors.go)\<close>

definition ErrKMSNotEnabled :: go_error where
  "ErrKMSNotEnabled = ErrNew ''kms encryption is not enabled''"

definition ErrKeyNotFound :: go_error where
  "ErrKeyNotFound = ErrNew ''kms key not found''"

definition ErrKeyDisabled :: go_error where
  "ErrKeyDisabled = ErrNew ''kms key is disabled''"

definition WrapError :: "string \<Rightarrow> string \<Rightarrow> go_error option \<Rightarrow> bool \<Rightarrow> go_error option" where
  "WrapError op keyID err retryable =
     (case err of None \<Rightarrow> None | Some e \<Rightarrow> Some (ErrKMS op keyID e retryable))"

definition KMSError_Unwrap :: "go_error \<Rightarrow> go_error option" where
  "KMSError_Unwrap e = (case e of ErrKMS op k e' r \<Rightarrow> Some e' | _ \<Rightarrow> None)"

text \<open>\<^verbatim>\<open>errors.As(err, &kmsErr)\<close>: the first \<^verbatim>\<open>*KMSError\<close> of the chain of wrapped errors.\<close>

primrec as_KMSError :: "go_error \<Rightarrow> (string \<times> string \<times> go_error \<times> bool) option" where
  "as_KMSError (ErrNew s) = None"
| "as_KMSError (ErrWrap s e) = as_KMSError e"
| "as_KMSError ErrEOF = None"
| "as_KMSError ErrUnexpectedEOF = None"
| "as_KMSError (ErrNotExist s) = None"
| "as_KMSError (ErrKMS op k e r) = Some (op, k, e, r)"

definition IsKMSError :: "go_error option \<Rightarrow> bool" where
  "IsKMSError err = (case err of None \<Rightarrow> False | Some e \<Rightarrow> as_KMSError e \<noteq> None)"

definition IsRetryableError :: "go_error option \<Rightarrow> bool" where
  "IsRetryableError err =
     (case err of
        None \<Rightarrow> False
      | Some e \<Rightarrow> (case as_KMSError e of Some (op, k, e', r) \<Rightarrow> r | None \<Rightarrow> False))"

section \<open>The client and the manager (manager.go)\<close>

record key_metadata =
  km_KeyId :: "string option"
  km_Arn :: "string option"
  km_Description :: "string option"
  km_KeySpec :: string
  km_KeyState :: string
  km_KeyUsage :: string

record generate_out =
  go_Plaintext :: bytes
  go_CiphertextBlob :: bytes

record decrypt_out =
  do_Plaintext :: bytes
  do_KeyId :: "string option"

datatype go_context = NilContext | LiveContext

record kms_client =
  cl_WithContext :: "go_context \<Rightarrow> unit res"
  cl_DescribeKey :: "nat \<Rightarrow> string \<Rightarrow> key_metadata option res"
  cl_GenerateDataKey :: "nat \<Rightarrow> string \<Rightarrow> string \<Rightarrow> smap \<Rightarrow> generate_out option res"
  cl_Decrypt :: "nat \<Rightarrow> bytes \<Rightarrow> smap \<Rightarrow> string option \<Rightarrow> decrypt_out option res"
  cl_GetKeyRotationStatus :: "nat \<Rightarrow> string \<Rightarrow> bool res"
  cl_EnableKeyRotation :: "nat \<Rightarrow> string \<Rightarrow> unit res"

record kms_config =
  kc_Enabled :: bool
  kc_DefaultKeyID :: string
  kc_KeySpec :: string
  kc_Region :: string
  kc_EncryptionContext :: smap
  kc_DataKeyCacheTTL :: duration
  kc_ValidateKeys :: bool
  kc_EnableKeyRotation :: bool

record key_info =
  ki_KeyID :: string
  ki_Arn :: string
  ki_KeySpec :: string
  ki_Enabled :: bool
  ki_Description :: string
  ki_LastValidated :: time
  ki_SupportsEncrypt :: bool
  ki_SupportsDecrypt :: bool

record bucket_kms_config =
  bk_KeyID :: string
  bk_EncryptionContext :: smap
  bk_OverrideDefault :: bool

record manager =
  mg_client :: "kms_client option"
  mg_config :: "kms_config option"
  mg_keyCache :: "(string \<times> key_info) list option"
  mg_dataKeyCache :: "data_key_cache option"

record kworld =
  kw_heap :: heap
  kw_calls :: nat

definition kw_call :: "kworld \<Rightarrow> kworld" where
  "kw_call w = w\<lparr>kw_calls := Suc (kw_calls w)\<rparr>"

definition Manager_IsEnabled :: "manager option \<Rightarrow> bool" where
  "Manager_IsEnabled m =
     (case m of
        None \<Rightarrow> False
      | Some m \<Rightarrow>
          (case mg_config m of
             None \<Rightarrow> False
           | Some cfg \<Rightarrow> kc_Enabled cfg \<and> mg_client m \<noteq> None))"

definition str_or_empty :: "string option \<Rightarrow> string" where
  "str_or_empty s = (case s of None \<Rightarrow> '''' | Some t \<Rightarrow> t)"

definition key_info_of :: "key_metadata \<Rightarrow> time \<Rightarrow> key_info" where
  "key_info_of km now =
     (let usable = (km_KeyUsage km = ''ENCRYPT_DECRYPT'') in
      \<lparr>ki_KeyID = str_or_empty (km_KeyId km), ki_Arn = str_or_empty (km_Arn km),
       ki_KeySpec = km_KeySpec km, ki_Enabled = (km_KeyState km = ''Enabled''),
       ki_Description = str_or_empty (km_Description km), ki_LastValidated = now,
       ki_SupportsEncrypt = usable, ki_SupportsDecrypt = usable\<rparr>)"

text \<open>The hit of \<^verbatim>\<open>ValidateKey\<close> in its one hour cache.\<close>

definition keyCache_hit :: "manager \<Rightarrow> time \<Rightarrow> string \<Rightarrow> key_info option" where
  "keyCache_hit m now keyID =
     (case mg_keyCache m of
        None \<Rightarrow> None
      | Some kc \<Rightarrow>
          (case map_of kc keyID of
             None \<Rightarrow> None
           | Some info \<Rightarrow> if now - ki_LastValidated info < hour then Some info else None))"

definition Manager_ValidateKey ::
  "manager option \<Rightarrow> kworld \<Rightarrow> time \<Rightarrow> time \<Rightarrow> string
     \<Rightarrow> key_info res \<times> manager option \<times> kworld" where
  "Manager_ValidateKey mo w now now' keyID =
     (if \<not> Manager_IsEnabled mo then (Err (ErrNew ''kms is not enabled''), mo, w)
      else if keyID = '''' then (Err (ErrNew ''keyID cannot be empty''), mo, w)
      else
        let m = the mo; cl = the (mg_client m) in
        case keyCache_hit m now keyID of
          Some info \<Rightarrow> (Ok info, mo, w)
        | None \<Rightarrow>
            let w1 = kw_call w in
            (case cl_DescribeKey cl (kw_calls w) keyID of
               Err e \<Rightarrow> (Err (ErrWrap (''failed to describe key '' @ keyID @ '': '') e), mo, w1)
             | Panic p \<Rightarrow> (Panic p, mo, w1)
             | Ok None \<Rightarrow> (Err (ErrNew (''key metadata is nil for key '' @ keyID)), mo, w1)
             | Ok (Some km) \<Rightarrow>
                 let info = key_info_of km now' in
                 if \<not> ki_Enabled info
                 then (Err (ErrNew (''key '' @ keyID @ '' is not enabled (state: '' @ km_KeyState km @ '')'')), mo, w1)
                 else if \<not> ki_SupportsEncrypt info
                 then (Err (ErrNew (''key '' @ keyID @ '' does not support encryption'')), mo, w1)
                 else
                   let w2 = kw_call w1 in
                   (case cl_GenerateDataKey cl (kw_calls w1) keyID ''AES_256'' [] of
                      Err e \<Rightarrow> (Err (ErrWrap (''insufficient permissions for key '' @ keyID @ '': '') e), mo, w2)
                    | Panic p \<Rightarrow> (Panic p, mo, w2)
                    | Ok _ \<Rightarrow>
                        (case mg_keyCache m of
                           None \<Rightarrow> (Panic ''assignment to entry in nil map'', mo, w2)
                         | Some kc \<Rightarrow>
                             (Ok info, Some (m\<lparr>mg_keyCache := Some (AList.update keyID info kc)\<rparr>), w2)))))"

text \<open>\<^verbatim>\<open>New\<close>: \<open>load\<close> stands for \<^verbatim>\<open>config.LoadDefaultConfig\<close> and \<^verbatim>\<open>kms.NewFromConfig\<close>, which give
  the client for a region.\<close>

definition Manager_New ::
  "(string \<Rightarrow> kms_client res) \<Rightarrow> kworld \<Rightarrow> time \<Rightarrow> time \<Rightarrow> kms_config option \<Rightarrow> manager option res \<times> kworld" where
  "Manager_New load w now now' cfg =
     (case cfg of
        None \<Rightarrow> (Err (ErrNew ''kms config is nil''), w)
      | Some c \<Rightarrow>
          if \<not> kc_Enabled c
          then (Ok (Some \<lparr>mg_client = None, mg_config = Some c, mg_keyCache = None, mg_dataKeyCache = None\<rparr>), w)
          else
            (case load (kc_Region c) of
               Err e \<Rightarrow> (Err (ErrWrap ''failed to load AWS config: '' e), w)
             | Panic p \<Rightarrow> (Panic p, w)
             | Ok cl \<Rightarrow>
                 let m = Some \<lparr>mg_client = Some cl, mg_config = Some c, mg_keyCache = Some [],
                               mg_dataKeyCache = Some (NewDataKeyCache (kc_DataKeyCacheTTL c))\<rparr>
                 in if kc_ValidateKeys c \<and> kc_DefaultKeyID c \<noteq> ''''
                    then (case Manager_ValidateKey m w now now' (kc_DefaultKeyID c) of
                            (Ok _, m', w') \<Rightarrow> (Ok m', w')
                          | (Err e, _, w') \<Rightarrow> (Err (ErrWrap ''failed to validate default KMS key: '' e), w')
                          | (Panic p, _, w') \<Rightarrow> (Panic p, w'))
                    else (Ok m, w)))"

definition Manager_GetEncryptionHeaders ::
  "manager option \<Rightarrow> bucket_kms_config option \<Rightarrow> smap option" where
  "Manager_GetEncryptionHeaders mo bucketConfig =
     (if \<not> Manager_IsEnabled mo then None
      else
        let cfg = the (mg_config (the mo));
            headers = [(''x-amz-server-side-encryption'', ''aws:kms'')];
            (keyID, encContext) =
              (case bucketConfig of
                 None \<Rightarrow> (kc_DefaultKeyID cfg, kc_EncryptionContext cfg)
               | Some b \<Rightarrow>
                   if bk_KeyID b \<noteq> ''''
                   then (bk_KeyID b,
                         if bk_OverrideDefault b \<or> length (bk_EncryptionContext b) > 0
                         then bk_EncryptionContext b else kc_EncryptionContext cfg)
                   else (kc_DefaultKeyID cfg, kc_EncryptionContext cfg));
            headers = (if keyID \<noteq> ''''
                       then AList.update ''x-amz-server-side-encryption-aws-kms-key-id'' keyID headers
                       else headers);
            contextStr = serializeEncryptionContext encContext
        in Some (if length encContext > 0 \<and> contextStr \<noteq> ''''
                 then AList.update ''x-amz-server-side-encryption-context'' contextStr headers
                 else headers))"

definition Manager_GenerateDataKey ::
  "go_context \<Rightarrow> manager option \<Rightarrow> kworld \<Rightarrow> time \<Rightarrow> time \<Rightarrow> string \<Rightarrow> smap
     \<Rightarrow> data_key res \<times> manager option \<times> kworld" where
  "Manager_GenerateDataKey gctx mo w now now' keyID ctx =
     (if \<not> Manager_IsEnabled mo then (Err (ErrNew ''kms is not enabled''), mo, w)
      else if keyID = '''' then (Err (ErrNew ''keyID cannot be empty''), mo, w)
      else
        let m = the mo; cl = the (mg_client m); cacheKey = buildDataKeyCacheKey keyID ctx in
        case DataKeyCache_Get (mg_dataKeyCache m) now cacheKey of
          Some dk \<Rightarrow> (Ok dk, mo, w)
        | None \<Rightarrow>
            let w1 = kw_call w in
            (case res_bind (cl_WithContext cl gctx) (\<lambda>_. cl_GenerateDataKey cl (kw_calls w) keyID ''AES_256'' ctx) of
               Err e \<Rightarrow> (Err (ErrWrap ''failed to generate data key: '' e), mo, w1)
             | Panic p \<Rightarrow> (Panic p, mo, w1)
             | Ok None \<Rightarrow> (Err (ErrNew ''invalid response from KMS: missing data key''), mo, w1)
             | Ok (Some r) \<Rightarrow>
                 if go_Plaintext r = [] \<or> go_CiphertextBlob r = []
                 then (Err (ErrNew ''invalid response from KMS: missing data key''), mo, w1)
                 else
                   let (a, h1) = h_alloc (kw_heap w1) (go_Plaintext r);
                       dk = \<lparr>dk_KeyID = keyID, dk_PlaintextKey = Some a,
                             dk_CiphertextBlob = go_CiphertextBlob r,
                             dk_EncryptionContext = ctx, dk_CreatedAt = now'\<rparr>;
                       (c', h2) = DataKeyCache_Put (mg_dataKeyCache m) h1 now' cacheKey (Some dk)
                   in (Ok dk, Some (m\<lparr>mg_dataKeyCache := c'\<rparr>), w1\<lparr>kw_heap := h2\<rparr>)))"

definition Manager_DecryptDataKey ::
  "go_context \<Rightarrow> manager option \<Rightarrow> kworld \<Rightarrow> time \<Rightarrow> bytes \<Rightarrow> smap \<Rightarrow> data_key res \<times> kworld" where
  "Manager_DecryptDataKey gctx mo w now' ciphertextBlob ctx =
     (if \<not> Manager_IsEnabled mo then (Err (ErrNew ''kms is not enabled''), w)
      else if ciphertextBlob = [] then (Err (ErrNew ''ciphertextBlob cannot be empty''), w)
      else
        let cl = the (mg_client (the mo)); w1 = kw_call w in
        case res_bind (cl_WithContext cl gctx) (\<lambda>_. cl_Decrypt cl (kw_calls w) ciphertextBlob ctx None) of
          Err e \<Rightarrow> (Err (ErrWrap ''failed to decrypt data key: '' e), w1)
        | Panic p \<Rightarrow> (Panic p, w1)
        | Ok None \<Rightarrow> (Err (ErrNew ''invalid response from KMS: missing plaintext''), w1)
        | Ok (Some r) \<Rightarrow>
            if do_Plaintext r = []
            then (Err (ErrNew ''invalid response from KMS: missing plaintext''), w1)
            else
              let (a, h1) = h_alloc (kw_heap w1) (do_Plaintext r)
              in (Ok \<lparr>dk_KeyID = str_or_empty (do_KeyId r), dk_PlaintextKey = Some a,
                      dk_CiphertextBlob = ciphertextBlob, dk_EncryptionContext = ctx,
                      dk_CreatedAt = now'\<rparr>, w1\<lparr>kw_heap := h1\<rparr>))"

definition Manager_GetKeyRotationStatus ::
  "manager option \<Rightarrow> kworld \<Rightarrow> string \<Rightarrow> bool res \<times> kworld" where
  "Manager_GetKeyRotationStatus mo w keyID =
     (if \<not> Manager_IsEnabled mo then (Err (ErrNew ''kms is not enabled''), w)
      else if keyID = '''' then (Err (ErrNew ''keyID cannot be empty''), w)
      else (wrap_err ''failed to get key rotation status: ''
              (cl_GetKeyRotationStatus (the (mg_client (the mo))) (kw_calls w) keyID), kw_call w))"

definition Manager_EnableKeyRotation ::
  "manager option \<Rightarrow> kworld \<Rightarrow> string \<Rightarrow> unit res \<times> kworld" where
  "Manager_EnableKeyRotation mo w keyID =
     (if \<not> Manager_IsEnabled mo then (Err (ErrNew ''kms is not enabled''), w)
      else if keyID = '''' then (Err (ErrNew ''keyID cannot be empty''), w)
      else (wrap_err ''failed to enable key rotation: ''
              (cl_EnableKeyRotation (the (mg_client (the mo))) (kw_calls w) keyID), kw_call w))"

definition Manager_Close :: "manager option \<Rightarrow> kworld \<Rightarrow> manager option \<times> kworld" where
  "Manager_Close mo w =
     (case mo of
        None \<Rightarrow> (None, w)
      | Some m \<Rightarrow>
          let (c', h') = DataKeyCache_Close (mg_dataKeyCache m) (kw_heap w)
          in (Some (m\<lparr>mg_dataKeyCache := c', mg_keyCache := None\<rparr>), w\<lparr>kw_heap := h'\<rparr>))"

section \<open>From the application's configuration (config.go)\<close>

definition ConfigFromAppConfig :: "kms_key_config option \<Rightarrow> kms_config" where
  "ConfigFromAppConfig cfg =
     (case cfg of
        None \<Rightarrow>
          \<lparr>kc_Enabled = False, kc_DefaultKeyID = '''', kc_KeySpec = '''', kc_Region = '''',
           kc_EncryptionContext = [], kc_DataKeyCacheTTL = 0, kc_ValidateKeys = False,
           kc_EnableKeyRotation = False\<rparr>
      | Some c \<Rightarrow>
          \<lparr>kc_Enabled = kk_Enabled c, kc_DefaultKeyID = kk_DefaultKeyID c,
           kc_KeySpec = (if kk_KeySpec c = ''AES_128'' then ''AES_128'' else ''AES_256''),
           kc_Region = kk_Region c, kc_EncryptionContext = kk_EncryptionContext c,
           kc_DataKeyCacheTTL =
             (case ParseDuration (kk_DataKeyCacheTTL c) of Ok d \<Rightarrow> d | _ \<Rightarrow> 5 * minute),
           kc_ValidateKeys = kk_ValidateKeys c,
           kc_EnableKeyRotation = kk_EnableKeyRotation c\<rparr>)"

definition BucketConfigFromAppConfig :: "bucket_config option \<Rightarrow> bucket_kms_config option" where
  "BucketConfigFromAppConfig cfg =
     (case cfg of
        None \<Rightarrow> None
      | Some c \<Rightarrow>
          if bc_KMSKeyID c = '''' then None
          else Some \<lparr>bk_KeyID = bc_KMSKeyID c, bk_EncryptionContext = bc_KMSEncryptionContext c,
                     bk_OverrideDefault = (length (bc_KMSEncryptionContext c) > 0)\<rparr>)"


section \<open>Facts about the operations\<close>

lemma IsEnabled_obtain:
  assumes "Manager_IsEnabled mo"
  obtains m cfg cl where "mo = Some m" "mg_config m = Some cfg" "kc_Enabled cfg" "mg_client m = Some cl"
  using assms by (auto simp: Manager_IsEnabled_def split: option.splits)

lemma IsEnabled_upd [simp]:
  "Manager_IsEnabled (Some (m\<lparr>mg_dataKeyCache := c\<rparr>)) = Manager_IsEnabled (Some m)"
  "Manager_IsEnabled (Some (m\<lparr>mg_keyCache := kc\<rparr>)) = Manager_IsEnabled (Some m)"
  by (simp_all add: Manager_IsEnabled_def split: option.splits)

lemma buildDataKeyCacheKey_not_Nil [simp]: "keyID \<noteq> '''' \<Longrightarrow> buildDataKeyCacheKey keyID ctx \<noteq> ''''"
  by (simp add: buildDataKeyCacheKey_def)

lemma kw_call_simps [simp]:
  "kw_heap (kw_call w) = kw_heap w" "kw_calls (kw_call w) = Suc (kw_calls w)"
  by (simp_all add: kw_call_def)

lemma GenerateDataKey_hit:
  assumes "Manager_IsEnabled (Some m)" and "keyID \<noteq> ''''"
    and "DataKeyCache_Get (mg_dataKeyCache m) now (buildDataKeyCacheKey keyID ctx) = Some dk"
  shows "Manager_GenerateDataKey gctx (Some m) w now now' keyID ctx = (Ok dk, Some m, w)"
  using assms by (simp add: Manager_GenerateDataKey_def Let_def)

text \<open>What a successful call that missed the cache leaves behind: a fresh slice with the service's
  key, stored under the cache key.\<close>

lemma GenerateDataKey_miss:
  fixes now' :: time
  assumes en: "Manager_IsEnabled (Some m)" and k: "keyID \<noteq> ''''"
    and cl: "mg_client m = Some cl" and c: "mg_dataKeyCache m = Some c"
    and miss: "DataKeyCache_Get (Some c) now (buildDataKeyCacheKey keyID ctx) = None"
    and live: "cl_WithContext cl gctx = Ok ()"
    and r: "cl_GenerateDataKey cl (kw_calls w) keyID ''AES_256'' ctx = Ok (Some r)"
    and ne: "go_Plaintext r \<noteq> []" "go_CiphertextBlob r \<noteq> []"
  defines "a \<equiv> h_next (kw_heap w)"
  defines "dk \<equiv> \<lparr>dk_KeyID = keyID, dk_PlaintextKey = Some a,
     dk_CiphertextBlob = go_CiphertextBlob r, dk_EncryptionContext = ctx, dk_CreatedAt = now'\<rparr>"
  defines "ch \<equiv> dkc_put (c, snd (h_alloc (kw_heap w) (go_Plaintext r))) now' (buildDataKeyCacheKey keyID ctx) dk"
  shows "Manager_GenerateDataKey gctx (Some m) w now now' keyID ctx =
    (Ok dk, Some (m\<lparr>mg_dataKeyCache := Some (fst ch)\<rparr>), (kw_call w)\<lparr>kw_heap := snd ch\<rparr>)"
  using assms by (simp add: Manager_GenerateDataKey_def h_alloc_def DataKeyCache_Put_eq Let_def)

text \<open>A slice that no entry refers to survives a store.\<close>

lemma dkc_put_mem:
  assumes "a \<notin> refs (dc_cache c)"
  shows "h_mem (snd (dkc_put (c, h) t k dk)) a = h_mem h a"
proof -
  have "entry_key e \<noteq> Some d \<or> dk_PlaintextKey d \<noteq> Some a" if "map_of (dc_cache c) k = Some e" for e d
    using assms map_of_SomeD [OF that] unfolding refs_def by blast
  then show ?thesis
    by (auto simp: dkc_put_def DataKeyCache_Put_def Let_def clearSensitiveData_mem split: option.splits)
qed

text \<open>The service vouches for a key: it was described as enabled and for encryption, the trial that followed gave a data key, and
  the entry is what was described. The invariant of the key cache: the service vouched for every entry.\<close>

definition vouched :: "kms_client \<Rightarrow> string \<Rightarrow> key_info \<Rightarrow> bool" where
  "vouched cl keyID info \<longleftrightarrow>
     (\<exists>n km out. cl_DescribeKey cl n keyID = Ok (Some km) \<and> km_KeyState km = ''Enabled'' \<and> km_KeyUsage km = ''ENCRYPT_DECRYPT''
        \<and> cl_GenerateDataKey cl (Suc n) keyID ''AES_256'' [] = Ok out
        \<and> ki_KeyID info = str_or_empty (km_KeyId km) \<and> ki_Arn info = str_or_empty (km_Arn km) \<and> ki_KeySpec info = km_KeySpec km
        \<and> ki_Description info = str_or_empty (km_Description km)
        \<and> ki_Enabled info \<and> ki_SupportsEncrypt info \<and> ki_SupportsDecrypt info)"

definition keyCache_inv :: "kms_client \<Rightarrow> manager \<Rightarrow> bool" where
  "keyCache_inv cl m \<longleftrightarrow> mg_client m = Some cl
     \<and> (\<forall>kc k info. mg_keyCache m = Some kc \<longrightarrow> map_of kc k = Some info \<longrightarrow> vouched cl k info)"

text \<open>What \<^verbatim>\<open>ValidateKey\<close> does without a hit in its cache.\<close>

definition accepts_key :: "kms_client \<Rightarrow> nat \<Rightarrow> string \<Rightarrow> bool" where
  "accepts_key cl n keyID \<longleftrightarrow>
     (\<exists>km out. cl_DescribeKey cl n keyID = Ok (Some km) \<and> km_KeyState km = ''Enabled'' \<and> km_KeyUsage km = ''ENCRYPT_DECRYPT''
        \<and> cl_GenerateDataKey cl (Suc n) keyID ''AES_256'' [] = Ok out)"

lemma ValidateKey_accepts:
  assumes "Manager_IsEnabled (Some m)" and "keyID \<noteq> ''''" and "mg_client m = Some cl" and "keyCache_hit m now keyID = None"
    and "accepts_key cl (kw_calls w) keyID" and "mg_keyCache m = Some kc"
  shows "\<exists>info w'. vouched cl keyID info \<and> ki_LastValidated info = now'
    \<and> Manager_ValidateKey (Some m) w now now' keyID = (Ok info, Some (m\<lparr>mg_keyCache := Some (AList.update keyID info kc)\<rparr>), w')"
proof -
  obtain km out where k: "cl_DescribeKey cl (kw_calls w) keyID = Ok (Some km)" "km_KeyState km = ''Enabled''"
    "km_KeyUsage km = ''ENCRYPT_DECRYPT''" "cl_GenerateDataKey cl (Suc (kw_calls w)) keyID ''AES_256'' [] = Ok out"
    using assms(5) by (auto simp: accepts_key_def)
  have "vouched cl keyID (key_info_of km now')"
    unfolding vouched_def by (rule exI [of _ "kw_calls w"], rule exI [of _ km], rule exI [of _ out]) (simp add: k key_info_of_def)
  moreover have "ki_LastValidated (key_info_of km now') = now'" "ki_Enabled (key_info_of km now')" "ki_SupportsEncrypt (key_info_of km now')"
    by (simp_all add: key_info_of_def Let_def k)
  ultimately show ?thesis using assms k by (auto simp: Manager_ValidateKey_def Let_def)
qed

lemma ValidateKey_refuses:
  assumes "Manager_IsEnabled (Some m)" and "keyID \<noteq> ''''" and "mg_client m = Some cl" and "keyCache_hit m now keyID = None"
    and "\<not> accepts_key cl (kw_calls w) keyID"
  shows "\<exists>r w'. (\<forall>info. r \<noteq> Ok info) \<and> Manager_ValidateKey (Some m) w now now' keyID = (r, Some m, w')"
proof -
  have "ki_Enabled (key_info_of km now') \<longleftrightarrow> km_KeyState km = ''Enabled''"
    "ki_SupportsEncrypt (key_info_of km now') \<longleftrightarrow> km_KeyUsage km = ''ENCRYPT_DECRYPT''" for km
    by (simp_all add: key_info_of_def Let_def)
  then show ?thesis using assms by (auto simp: Manager_ValidateKey_def accepts_key_def Let_def split: res.split option.split)
qed

section \<open>Properties\<close>

text \<open>A concrete service: key \<open>k\<close> is enabled, a data key is 32 bytes \<open>n + 1\<close> for the \<open>n\<close>-th call and its
  blob is the same bytes with a marker in front, bound to no context.\<close>

definition demo_client :: kms_client where
  "demo_client =
     \<lparr>cl_WithContext = (\<lambda>c. case c of NilContext \<Rightarrow> Panic ''cannot create context from nil parent'' | LiveContext \<Rightarrow> Ok ()),
      cl_DescribeKey = (\<lambda>n k. Ok (Some \<lparr>km_KeyId = Some k, km_Arn = None, km_Description = None,
        km_KeySpec = ''SYMMETRIC_DEFAULT'', km_KeyState = ''Enabled'', km_KeyUsage = ''ENCRYPT_DECRYPT''\<rparr>)),
      cl_GenerateDataKey = (\<lambda>n k spec ctx. Ok (Some \<lparr>go_Plaintext = replicate 32 (of_nat n + 1),
        go_CiphertextBlob = 0xA5 # replicate 32 (of_nat n + 1)\<rparr>)),
      cl_Decrypt = (\<lambda>n blob ctx kid. Ok (Some \<lparr>do_Plaintext = tl blob, do_KeyId = None\<rparr>)),
      cl_GetKeyRotationStatus = (\<lambda>n k. Ok True),
      cl_EnableKeyRotation = (\<lambda>n k. Ok ())\<rparr>"

definition demo_config :: kms_config where
  "demo_config =
     \<lparr>kc_Enabled = True, kc_DefaultKeyID = ''k'', kc_KeySpec = ''AES_256'', kc_Region = ''eu-west-1'',
      kc_EncryptionContext = [], kc_DataKeyCacheTTL = 5 * minute, kc_ValidateKeys = False,
      kc_EnableKeyRotation = False\<rparr>"

definition demo_manager :: manager where
  "demo_manager = \<lparr>mg_client = Some demo_client, mg_config = Some demo_config, mg_keyCache = Some [],
     mg_dataKeyCache = Some (NewDataKeyCache (5 * minute))\<rparr>"

definition demo_world :: kworld where
  "demo_world = \<lparr>kw_heap = demo_heap, kw_calls = 0\<rparr>"

lemma demo_enabled [simp]: "Manager_IsEnabled (Some demo_manager)"
  by (simp add: Manager_IsEnabled_def demo_manager_def demo_config_def)


definition demo_gen :: "data_key res \<times> manager option \<times> kworld" where
  "demo_gen = Manager_GenerateDataKey LiveContext (Some demo_manager) demo_world 0 0 ''k'' []"

lemma demo_gen_Ok:
  obtains dk mo' w' where "demo_gen = (Ok dk, mo', w')"
  by (simp add: demo_gen_def Manager_GenerateDataKey_def Let_def demo_manager_def demo_client_def
      h_alloc_def case_prod_unfold Manager_IsEnabled_def demo_config_def
      DataKeyCache_Get_def NewDataKeyCache_def)


text \<open>C28: validation is sound and complete, and its cache is never poisoned. From a manager for whose cached keys the service has vouched,
  \<^verbatim>\<open>ValidateKey\<close> returns only a key that the service described as enabled and for encryption and for which it
  gave a data key, validated less than an hour ago or just now; without an entry in the cache it returns exactly
  when the service describes the key so and gives a data key in this call; and the service has vouched for
  whatever the cache holds afterwards.\<close>

theorem ValidateKey_sound:
  assumes "keyCache_inv cl m" and "Manager_IsEnabled (Some m)" and "keyID \<noteq> ''''" and "mg_keyCache m \<noteq> None"
    and "Manager_ValidateKey (Some m) w now now' keyID = (r, mo', w')"
  shows "(\<exists>m'. mo' = Some m' \<and> keyCache_inv cl m')
    \<and> (\<forall>info. r = Ok info \<longrightarrow> vouched cl keyID info \<and> (now - ki_LastValidated info < hour \<or> ki_LastValidated info = now'))
    \<and> (keyCache_hit m now keyID = None \<longrightarrow> ((\<exists>info. r = Ok info) \<longleftrightarrow> accepts_key cl (kw_calls w) keyID))"
proof (cases "keyCache_hit m now keyID")
  case None
  have cl: "mg_client m = Some cl" using assms(1) by (simp add: keyCache_inv_def)
  show ?thesis
  proof (cases "accepts_key cl (kw_calls w) keyID")
    case True
    obtain kc where kc: "mg_keyCache m = Some kc" using assms(4) by auto
    from ValidateKey_accepts [OF assms(2,3) cl None True kc, of now'] obtain info where "vouched cl keyID info"
      "ki_LastValidated info = now'" "r = Ok info" "mo' = Some (m\<lparr>mg_keyCache := Some (AList.update keyID info kc)\<rparr>)"
      using assms(5) by auto
    then show ?thesis using assms(1) kc True by (auto simp: keyCache_inv_def AList.update_conv')
  next
    case False
    then show ?thesis using ValidateKey_refuses [OF assms(2,3) cl None False, of now'] assms(1,5) by auto
  qed
next
  case (Some info)
  then have "vouched cl keyID info" "now - ki_LastValidated info < hour"
    using assms(1) by (auto simp: keyCache_inv_def keyCache_hit_def split: option.splits if_splits)
  moreover have "r = Ok info" "mo' = Some m" using assms(2,3,5) Some by (auto simp: Manager_ValidateKey_def Let_def)
  ultimately show ?thesis using assms(1) Some by auto
qed

theorem ValidateKey_sound_witness:
  "\<exists>info mo' w'. Manager_ValidateKey (Some demo_manager) demo_world 0 1 ''k'' = (Ok info, mo', w') \<and> vouched demo_client ''k'' info
     \<and> accepts_key demo_client 0 ''k''"
proof -
  have i: "keyCache_inv demo_client demo_manager" "mg_keyCache demo_manager \<noteq> None" "keyCache_hit demo_manager 0 ''k'' = None"
    by (simp_all add: keyCache_inv_def demo_manager_def keyCache_hit_def)
  have a: "accepts_key demo_client (kw_calls demo_world) ''k''" by (simp add: accepts_key_def demo_client_def)
  obtain r mo' w' where v: "Manager_ValidateKey (Some demo_manager) demo_world 0 1 ''k'' = (r, mo', w')" by (metis prod.collapse)
  note sound = ValidateKey_sound [OF i(1) demo_enabled _ i(2) v]
  then obtain info where "r = Ok info" using i(3) a by auto
  with sound v a show ?thesis by (auto simp: demo_world_def)
qed

text \<open>A manager that was closed still claims to be enabled, and validating a usable key on it
  panics: \<^verbatim>\<open>Close\<close> sets the key cache to nil and \<^verbatim>\<open>ValidateKey\<close> assigns into it.\<close>

theorem ValidateKey_after_Close_panics:
  assumes "Manager_IsEnabled (Some m)" and "mg_client m = Some cl" and "keyID \<noteq> ''''"
    and "cl_DescribeKey cl (kw_calls w) keyID = Ok (Some km)"
    and "km_KeyState km = ''Enabled''" and "km_KeyUsage km = ''ENCRYPT_DECRYPT''"
    and "cl_GenerateDataKey cl (Suc (kw_calls w)) keyID ''AES_256'' [] = Ok g"
    and "Manager_Close (Some m) w = (mo', w')"
  shows "Manager_IsEnabled mo'
    \<and> fst (Manager_ValidateKey mo' w' now now' keyID) = Panic ''assignment to entry in nil map''"
proof -
  obtain c' h' where mo': "mo' = Some (m\<lparr>mg_dataKeyCache := c', mg_keyCache := None\<rparr>)"
    and w': "w' = w\<lparr>kw_heap := h'\<rparr>"
    using assms(8) by (auto simp: Manager_Close_def split: prod.splits)
  have en: "Manager_IsEnabled mo'" using assms(1) by (simp add: mo')
  then show ?thesis
    using assms(2-7)
    by (simp add: Manager_ValidateKey_def mo' w' Let_def keyCache_hit_def key_info_of_def)
qed

theorem ValidateKey_after_Close_panics_witness:
  "fst (Manager_ValidateKey (fst (Manager_Close (Some demo_manager) demo_world))
     (snd (Manager_Close (Some demo_manager) demo_world)) 0 0 ''k'') = Panic ''assignment to entry in nil map''"
  using ValidateKey_after_Close_panics [of demo_manager demo_client "''k''" demo_world,
      OF demo_enabled _ _ _ _ _ _ prod.collapse [symmetric]]
  by (simp add: demo_manager_def demo_client_def)

end
