(* ===== verification/KMS_Envelope.thy ===== *)
theory KMS_Envelope
  imports KMS_Manager
begin

text \<open>
  \<^verbatim>\<open>internal/kms/envelope.go\<close>: envelope encryption with KMS data keys. \<open>rnd\<close> is the outcome of reading
  \<^verbatim>\<open>rand.Reader\<close> (of the i-th read for a stream). \<^verbatim>\<open>e == nil || e.manager == nil\<close> is \<open>mo = None\<close>. The
  GCM object keeps the key it was built from, so it is represented by a copy of the key bytes. The
  deferred clearing of the data key runs on every path after \<^verbatim>\<open>GenerateDataKey\<close>; it acts on the slice
  in the heap, which the data key cache may share. The code passes a nil \<^verbatim>\<open>context.Context\<close> to the manager (\<open>NilContext\<close>).
\<close>

definition rand_read :: "nat \<Rightarrow> bytes res \<Rightarrow> bytes res" where
  "rand_read n r = res_bind r (\<lambda>bs. Ok (pad_to n bs))"

lemma rand_read_Ok [simp]: "rand_read n (Ok bs) = Ok (pad_to n bs)"
  by (simp add: rand_read_def)

lemma length_rand_read: "rand_read n r = Ok bs \<Longrightarrow> length bs = n"
  by (auto simp: rand_read_def)

record encrypted_data =
  ed_CiphertextBlob :: bytes
  ed_EncryptedData :: bytes
  ed_Nonce :: bytes
  ed_EncryptionContext :: smap

definition NewEnvelopeEncryptor :: "manager option \<Rightarrow> manager option" where
  "NewEnvelopeEncryptor m = (case m of None \<Rightarrow> None | Some mg \<Rightarrow> Some mg)"

text \<open>The bytes of the data key's slice, and the deferred loop that clears them.\<close>

definition key_bytes :: "heap \<Rightarrow> data_key \<Rightarrow> bytes" where
  "key_bytes h dk = (case dk_PlaintextKey dk of None \<Rightarrow> [] | Some a \<Rightarrow> h_mem h a)"

definition zero_key :: "data_key \<Rightarrow> kworld \<Rightarrow> kworld" where
  "zero_key dk w =
     (case dk_PlaintextKey dk of None \<Rightarrow> w | Some a \<Rightarrow> w\<lparr>kw_heap := h_zero (kw_heap w) a\<rparr>)"

definition seal_with_key :: "bytes \<Rightarrow> bytes res \<Rightarrow> bytes \<Rightarrow> (bytes \<times> bytes) res" where
  "seal_with_key key rnd plaintext =
     res_bind (wrap_err ''failed to create cipher: '' (NewCipher key)) (\<lambda>k.
     res_bind (wrap_err ''failed to generate nonce: '' (rand_read NonceSize rnd)) (\<lambda>nonce.
     res_bind (gcm_Seal k nonce plaintext []) (\<lambda>ct. Ok (nonce, ct))))"

definition EnvelopeEncryptor_Encrypt ::
  "manager option \<Rightarrow> kworld \<Rightarrow> time \<Rightarrow> time \<Rightarrow> bytes res \<Rightarrow> bytes \<Rightarrow> string \<Rightarrow> smap
     \<Rightarrow> encrypted_data res \<times> manager option \<times> kworld" where
  "EnvelopeEncryptor_Encrypt mo w now now' rnd plaintext keyID ctx =
     (if mo = None then (Err (ErrNew ''envelope encryptor not initialized''), mo, w)
      else if \<not> Manager_IsEnabled mo then (Err ErrKMSNotEnabled, mo, w)
      else if plaintext = [] then (Err (ErrNew ''plaintext cannot be empty''), mo, w)
      else if keyID = '''' then (Err (ErrNew ''keyID cannot be empty''), mo, w)
      else
        case Manager_GenerateDataKey NilContext mo w now now' keyID ctx of
          (Err e, mo', w') \<Rightarrow> (Err (ErrWrap ''failed to generate data key: '' e), mo', w')
        | (Panic p, mo', w') \<Rightarrow> (Panic p, mo', w')
        | (Ok dk, mo', w') \<Rightarrow>
            (res_bind (seal_with_key (key_bytes (kw_heap w') dk) rnd plaintext) (\<lambda>(nonce, ct).
               Ok \<lparr>ed_CiphertextBlob = dk_CiphertextBlob dk, ed_EncryptedData = ct,
                   ed_Nonce = nonce, ed_EncryptionContext = ctx\<rparr>),
             mo', zero_key dk w'))"

definition open_with_key :: "bytes \<Rightarrow> encrypted_data \<Rightarrow> bytes res" where
  "open_with_key key ed =
     res_bind (wrap_err ''failed to create cipher: '' (NewCipher key)) (\<lambda>k.
     if length (ed_Nonce ed) \<noteq> NonceSize
     then Err (ErrNew (''invalid nonce size: expected '' @ FormatInt (int NonceSize) @
                       '', got '' @ FormatInt (int (length (ed_Nonce ed)))))
     else wrap_err ''failed to decrypt data: '' (gcm_Open k (ed_Nonce ed) (ed_EncryptedData ed) []))"

definition EnvelopeEncryptor_Decrypt ::
  "manager option \<Rightarrow> kworld \<Rightarrow> time \<Rightarrow> encrypted_data option \<Rightarrow> bytes res \<times> kworld" where
  "EnvelopeEncryptor_Decrypt mo w now' encrypted =
     (if mo = None then (Err (ErrNew ''envelope encryptor not initialized''), w)
      else if \<not> Manager_IsEnabled mo then (Err ErrKMSNotEnabled, w)
      else
        case encrypted of
          None \<Rightarrow> (Err (ErrNew ''encrypted data cannot be nil''), w)
        | Some ed \<Rightarrow>
            if ed_CiphertextBlob ed = [] \<or> ed_EncryptedData ed = [] \<or> ed_Nonce ed = []
            then (Err (ErrNew ''invalid encrypted data: missing required fields''), w)
            else
              (case Manager_DecryptDataKey NilContext mo w now' (ed_CiphertextBlob ed) (ed_EncryptionContext ed) of
                 (Err e, w') \<Rightarrow> (Err (ErrWrap ''failed to decrypt data key: '' e), w')
               | (Panic p, w') \<Rightarrow> (Panic p, w')
               | (Ok dk, w') \<Rightarrow> (open_with_key (key_bytes (kw_heap w') dk) ed, zero_key dk w')))"

section \<open>The stream encryptor\<close>

text \<open>
  A writer is what it has received and the number of calls made to it; \<open>orc\<close> says for each call
  whether it succeeds or writes only a prefix and fails. A file or a connection is such a writer.
\<close>

type_synonym write_oracle = "nat \<Rightarrow> (nat \<times> go_error) option"

record writer =
  wr_out :: bytes
  wr_calls :: nat

definition writer_Write :: "write_oracle \<Rightarrow> writer \<Rightarrow> bytes \<Rightarrow> go_error option \<times> writer" where
  "writer_Write orc w bs =
     (case orc (wr_calls w) of
        None \<Rightarrow> (None, \<lparr>wr_out = wr_out w @ bs, wr_calls = Suc (wr_calls w)\<rparr>)
      | Some (k, e) \<Rightarrow> (Some e, \<lparr>wr_out = wr_out w @ take k bs, wr_calls = Suc (wr_calls w)\<rparr>))"

definition chunk_header :: "nat \<Rightarrow> bytes" where
  "chunk_header chunkLen =
     [of_nat (drop_bit 24 chunkLen), of_nat (drop_bit 16 chunkLen), of_nat (drop_bit 8 chunkLen),
      of_nat chunkLen]"

definition writeChunk ::
  "write_oracle \<Rightarrow> writer option \<Rightarrow> bytes \<Rightarrow> bytes \<Rightarrow> unit res \<times> writer option" where
  "writeChunk orc w nonce ciphertext =
     (case w of
        None \<Rightarrow> (Err (ErrNew ''writer cannot be nil''), None)
      | Some wr \<Rightarrow>
          let chunkLen = length nonce + length ciphertext in
          if chunkLen > 16 * 1024 * 1024
          then (Err (ErrNew (''chunk size too large: '' @ FormatInt (int chunkLen) @ '' bytes'')), w)
          else
            (case writer_Write orc wr (chunk_header chunkLen) of
               (Some e, w1) \<Rightarrow> (Err e, Some w1)
             | (None, w1) \<Rightarrow>
                 (case writer_Write orc w1 nonce of
                    (Some e, w2) \<Rightarrow> (Err e, Some w2)
                  | (None, w2) \<Rightarrow>
                      (case writer_Write orc w2 ciphertext of
                         (Some e, w3) \<Rightarrow> (Err e, Some w3)
                       | (None, w3) \<Rightarrow> (Ok (), Some w3)))))"

record stream_encryptor =
  se_writer :: "writer option"
  se_dataKey :: "data_key option"
  se_gcm :: "bytes option"
  se_chunkSize :: nat
  se_buffer :: bytes
  se_draws :: nat

text \<open>\<^verbatim>\<open>se_draws\<close> counts the reads of \<^verbatim>\<open>rand.Reader\<close>; the other fields are the code's.\<close>

definition EnvelopeEncryptor_NewStreamEncryptor ::
  "manager option \<Rightarrow> kworld \<Rightarrow> time \<Rightarrow> time \<Rightarrow> writer option \<Rightarrow> string \<Rightarrow> smap
     \<Rightarrow> stream_encryptor res \<times> manager option \<times> kworld" where
  "EnvelopeEncryptor_NewStreamEncryptor mo w now now' wr keyID ctx =
     (if mo = None then (Err (ErrNew ''envelope encryptor not initialized''), mo, w)
      else if \<not> Manager_IsEnabled mo then (Err ErrKMSNotEnabled, mo, w)
      else if wr = None then (Err (ErrNew ''writer cannot be nil''), mo, w)
      else if keyID = '''' then (Err (ErrNew ''keyID cannot be empty''), mo, w)
      else
        case Manager_GenerateDataKey NilContext mo w now now' keyID ctx of
          (Err e, mo', w') \<Rightarrow> (Err (ErrWrap ''failed to generate data key: '' e), mo', w')
        | (Panic p, mo', w') \<Rightarrow> (Panic p, mo', w')
        | (Ok dk, mo', w') \<Rightarrow>
            (res_bind (wrap_err ''failed to create cipher: '' (NewCipher (key_bytes (kw_heap w') dk))) (\<lambda>k.
               Ok \<lparr>se_writer = wr, se_dataKey = Some dk, se_gcm = Some k,
                   se_chunkSize = 64 * 1024, se_buffer = [], se_draws = 0\<rparr>),
             mo', w'))"

definition StreamEncryptor_encryptChunk ::
  "write_oracle \<Rightarrow> (nat \<Rightarrow> bytes res) \<Rightarrow> stream_encryptor \<Rightarrow> bytes \<Rightarrow> unit res \<times> stream_encryptor" where
  "StreamEncryptor_encryptChunk orc rnd s chunk =
     (case se_gcm s of
        None \<Rightarrow> (Err (ErrNew ''stream encryptor not properly initialized''), s)
      | Some key \<Rightarrow>
          if chunk = [] then (Ok (), s)
          else
            let s1 = s\<lparr>se_draws := Suc (se_draws s)\<rparr> in
            case rand_read NonceSize (rnd (se_draws s)) of
              Err e \<Rightarrow> (Err (ErrWrap ''failed to generate nonce: '' e), s1)
            | Panic p \<Rightarrow> (Panic p, s1)
            | Ok nonce \<Rightarrow>
                (case gcm_Seal key nonce chunk [] of
                   Err e \<Rightarrow> (Err e, s1)
                 | Panic p \<Rightarrow> (Panic p, s1)
                 | Ok ciphertext \<Rightarrow>
                     (case writeChunk orc (se_writer s1) nonce ciphertext of
                        (r, w') \<Rightarrow> (wrap_err ''failed to write encrypted chunk: '' r, s1\<lparr>se_writer := w'\<rparr>))))"

text \<open>The loop of \<^verbatim>\<open>Write\<close>. The constructor sets the chunk size to 64 KiB; for a chunk size of zero,
  which it never sets, the code's loop would not end and the model stops.\<close>

function StreamEncryptor_flush ::
  "write_oracle \<Rightarrow> (nat \<Rightarrow> bytes res) \<Rightarrow> stream_encryptor \<Rightarrow> unit res \<times> stream_encryptor" where
  "StreamEncryptor_flush orc rnd s =
     (if 0 < se_chunkSize s \<and> se_chunkSize s \<le> length (se_buffer s)
      then (case StreamEncryptor_encryptChunk orc rnd s (take (se_chunkSize s) (se_buffer s)) of
              (Ok _, s') \<Rightarrow>
                StreamEncryptor_flush orc rnd (s'\<lparr>se_buffer := drop (se_chunkSize s) (se_buffer s)\<rparr>)
            | (Err e, s') \<Rightarrow> (Err e, s')
            | (Panic p, s') \<Rightarrow> (Panic p, s'))
      else (Ok (), s))"
  by pat_completeness auto
termination
  by (relation "measure (\<lambda>(orc, rnd, s). length (se_buffer s))") auto

declare StreamEncryptor_flush.simps [simp del]

definition StreamEncryptor_Write ::
  "write_oracle \<Rightarrow> (nat \<Rightarrow> bytes res) \<Rightarrow> stream_encryptor option \<Rightarrow> bytes
     \<Rightarrow> nat \<times> unit res \<times> stream_encryptor option" where
  "StreamEncryptor_Write orc rnd so p =
     (case so of
        None \<Rightarrow> (0, Err (ErrNew ''stream encryptor not initialized''), None)
      | Some s \<Rightarrow>
          if p = [] then (0, Ok (), so)
          else
            (case StreamEncryptor_flush orc rnd (s\<lparr>se_buffer := se_buffer s @ p\<rparr>) of
               (r, s') \<Rightarrow> (length p, r, Some s')))"

text \<open>\<open>closer\<close> is the outcome of the writer's \<^verbatim>\<open>Close\<close> when it implements \<^verbatim>\<open>io.Closer\<close>.\<close>

definition StreamEncryptor_Close ::
  "write_oracle \<Rightarrow> (nat \<Rightarrow> bytes res) \<Rightarrow> unit res option \<Rightarrow> stream_encryptor option \<Rightarrow> kworld
     \<Rightarrow> unit res \<times> stream_encryptor option \<times> kworld" where
  "StreamEncryptor_Close orc rnd closer so w =
     (case so of
        None \<Rightarrow> (Ok (), None, w)
      | Some s \<Rightarrow>
          (case (if se_buffer s \<noteq> []
                 then (case StreamEncryptor_encryptChunk orc rnd s (se_buffer s) of
                         (Ok _, s') \<Rightarrow> (Ok (), s'\<lparr>se_buffer := []\<rparr>)
                       | (r, s') \<Rightarrow> (r, s'))
                 else (Ok (), s)) of
             (Ok _, s') \<Rightarrow>
               let w' = (case se_dataKey s' of None \<Rightarrow> w | Some dk \<Rightarrow> zero_key dk w)
               in (case closer of None \<Rightarrow> Ok () | Some r \<Rightarrow> r, Some s', w')
           | (r, s') \<Rightarrow> (r, Some s', w)))"


section \<open>Facts about envelopes\<close>

lemma seal_with_key_Ok:
  "seal_with_key key rnd p = Ok (nonce, ct) \<longleftrightarrow>
     valid_aes_key key \<and> rand_read NonceSize rnd = Ok nonce \<and> gcm_Seal key nonce p [] = Ok ct"
  by (auto simp: seal_with_key_def)

lemma open_with_key_seal:
  assumes "seal_with_key key rnd p = Ok (nonce, ct)"
    and "ed_Nonce ed = nonce" and "ed_EncryptedData ed = ct"
  shows "open_with_key key ed = Ok p"
  using assms gcm.open_seal [of key nonce p "[]" ct] gcm.seal_nonce [of key nonce p "[]" ct]
  by (simp add: seal_with_key_Ok open_with_key_def)

lemma seal_with_key_valid:
  assumes "valid_aes_key key"
  obtains nonce ct where "seal_with_key key (Ok bs) p = Ok (nonce, ct)"
    and "length nonce = NonceSize" and "length ct = length p + 16"
proof -
  obtain ct where "gcm_Seal key (pad_to NonceSize bs) p [] = Ok ct" "length ct = length p + 16"
    using gcm.seal_obtain [of "pad_to NonceSize bs"] by (metis length_pad_to)
  then show thesis using that assms by (simp add: seal_with_key_Ok)
qed

text \<open>The documented behaviour of KMS that envelope encryption relies on: \<^verbatim>\<open>GenerateDataKey\<close> gives keys
  of the size that was asked for, and \<^verbatim>\<open>Decrypt\<close> of a data key's blob under its encryption context
  gives the key, at any later time.\<close>

definition kms_service :: "kms_client \<Rightarrow> bool" where
  "kms_service cl \<longleftrightarrow>
     (\<forall>n keyID ctx r. cl_GenerateDataKey cl n keyID ''AES_256'' ctx = Ok (Some r) \<longrightarrow>
        length (go_Plaintext r) = 32 \<and> go_CiphertextBlob r \<noteq> []
        \<and> (\<forall>n'. \<exists>kid. cl_Decrypt cl n' (go_CiphertextBlob r) ctx None
                 = Ok (Some \<lparr>do_Plaintext = go_Plaintext r, do_KeyId = kid\<rparr>)))"

lemma kms_serviceD:
  assumes "kms_service cl" and "cl_GenerateDataKey cl n keyID ''AES_256'' ctx = Ok (Some r)"
  shows "length (go_Plaintext r) = 32" and "go_CiphertextBlob r \<noteq> []" and "go_Plaintext r \<noteq> []"
    and "\<exists>kid. cl_Decrypt cl n' (go_CiphertextBlob r) ctx None
           = Ok (Some \<lparr>do_Plaintext = go_Plaintext r, do_KeyId = kid\<rparr>)"
  using assms unfolding kms_service_def by fastforce+

lemma DecryptDataKey_service:
  assumes "Manager_IsEnabled (Some m)" and "mg_client m = Some cl" and "kms_service cl"
    and "cl_GenerateDataKey cl n keyID ''AES_256'' ctx = Ok (Some r)" and "cl_WithContext cl LiveContext = Ok ()"
  obtains dk w' where "Manager_DecryptDataKey LiveContext (Some m) w t (go_CiphertextBlob r) ctx = (Ok dk, w')"
    and "key_bytes (kw_heap w') dk = go_Plaintext r"
proof -
  obtain kid where "cl_Decrypt cl (kw_calls w) (go_CiphertextBlob r) ctx None
      = Ok (Some \<lparr>do_Plaintext = go_Plaintext r, do_KeyId = kid\<rparr>)"
    using kms_serviceD(4) [OF assms(3,4)] by blast
  then show thesis
    using that assms(1,2,5) kms_serviceD(2,3) [OF assms(3,4)]
    by (simp add: Manager_DecryptDataKey_def Let_def h_alloc_def key_bytes_def)
qed

text \<open>Slices referenced by the data key cache are allocated.\<close>

definition refs_allocated :: "manager option \<Rightarrow> kworld \<Rightarrow> bool" where
  "refs_allocated mo w \<longleftrightarrow>
     (\<forall>m c. mo = Some m \<longrightarrow> mg_dataKeyCache m = Some c \<longrightarrow> (\<forall>a \<in> refs (dc_cache c). a < h_next (kw_heap w)))"

text \<open>The documented use of contexts: a call with a live one is sent, and a nil one, from which the client would derive others, panics.\<close>

definition sdk_contexts :: "kms_client \<Rightarrow> bool" where
  "sdk_contexts cl \<longleftrightarrow> cl_WithContext cl LiveContext = Ok () \<and> (\<exists>q. cl_WithContext cl NilContext = Panic q)"

text \<open>A data key that was generated with a live context is in the cache, with the service's bytes.\<close>

lemma generate_live:
  assumes m: "Manager_IsEnabled (Some m)" "mg_client m = Some cl" "mg_dataKeyCache m = Some c"
    and fresh: "refs_allocated (Some m) w"
    and miss: "DataKeyCache_Get (Some c) t0 (buildDataKeyCacheKey keyID ctx) = None"
    and gen: "Manager_GenerateDataKey LiveContext (Some m) w t0 t1 keyID ctx = (Ok dk, mo1, w1)"
  obtains r c1 where
    "cl_GenerateDataKey cl (kw_calls w) keyID ''AES_256'' ctx = Ok (Some r)" "go_CiphertextBlob r \<noteq> []"
    "dk_CiphertextBlob dk = go_CiphertextBlob r" "dk_PlaintextKey dk \<noteq> None" "key_bytes (kw_heap w1) dk = go_Plaintext r"
    "mo1 = Some (m\<lparr>mg_dataKeyCache := Some c1\<rparr>)" "keyID \<noteq> ''''"
    "\<forall>t < t1 + dc_ttl c. DataKeyCache_Get (Some c1) t (buildDataKeyCacheKey keyID ctx) = Some dk"
proof -
  have k: "keyID \<noteq> ''''" using gen by (auto simp: Manager_GenerateDataKey_def split: if_splits)
  obtain r where live: "cl_WithContext cl LiveContext = Ok ()"
    and r: "cl_GenerateDataKey cl (kw_calls w) keyID ''AES_256'' ctx = Ok (Some r)" "go_Plaintext r \<noteq> []" "go_CiphertextBlob r \<noteq> []"
    using gen m miss k
    by (cases "cl_WithContext cl LiveContext") (auto simp: Manager_GenerateDataKey_def Let_def split: res.splits option.splits if_splits)
  define ch where "ch = dkc_put (c, snd (h_alloc (kw_heap w) (go_Plaintext r))) t1 (buildDataKeyCacheKey keyID ctx) dk"
  have g: "dk = \<lparr>dk_KeyID = keyID, dk_PlaintextKey = Some (h_next (kw_heap w)), dk_CiphertextBlob = go_CiphertextBlob r,
      dk_EncryptionContext = ctx, dk_CreatedAt = t1\<rparr>"
    "mo1 = Some (m\<lparr>mg_dataKeyCache := Some (fst ch)\<rparr>)" "w1 = (kw_call w)\<lparr>kw_heap := snd ch\<rparr>"
    using GenerateDataKey_miss [OF m(1) k m(2,3) miss live r] gen unfolding ch_def by auto
  have "h_next (kw_heap w) \<notin> refs (dc_cache c)" using fresh m(3) unfolding refs_allocated_def by blast
  then have "h_mem (snd ch) (h_next (kw_heap w)) = go_Plaintext r" unfolding ch_def by (simp add: dkc_put_mem h_alloc_def)
  then have "key_bytes (kw_heap w1) dk = go_Plaintext r" using g(1,3) by (simp add: key_bytes_def)
  moreover have "DataKeyCache_Get (Some (fst ch)) t (buildDataKeyCacheKey keyID ctx) = Some dk" if "t < t1 + dc_ttl c" for t
    using dkc.get_put_same [where k = "buildDataKeyCacheKey keyID ctx" and v = dk and t' = t and t = t1
        and c = "(c, snd (h_alloc (kw_heap w) (go_Plaintext r)))"] k that
    by (simp add: ch_def dkc_get_def)
  ultimately show thesis using that [of r "fst ch"] r g(1,2) k by simp
qed

lemma Encrypt_hit:
  assumes "Manager_IsEnabled (Some m)" and "DataKeyCache_Get (mg_dataKeyCache m) t2 (buildDataKeyCacheKey keyID ctx) = Some dk"
    and "p \<noteq> []" and "keyID \<noteq> ''''"
  shows "EnvelopeEncryptor_Encrypt (Some m) w t2 t3 rnd p keyID ctx =
    (res_bind (seal_with_key (key_bytes (kw_heap w) dk) rnd p) (\<lambda>(nonce, ct).
       Ok \<lparr>ed_CiphertextBlob = dk_CiphertextBlob dk, ed_EncryptedData = ct, ed_Nonce = nonce, ed_EncryptionContext = ctx\<rparr>),
     Some m, zero_key dk w)"
  using assms GenerateDataKey_hit [OF assms(1,4,2)] by (simp add: EnvelopeEncryptor_Encrypt_def)

section \<open>Properties of envelopes\<close>

lemma zeroed_zero_key: "zeroed (key_bytes (kw_heap (zero_key dk w)) dk)"
proof (cases "dk_PlaintextKey dk")
  case None
  then show ?thesis by (simp add: key_bytes_def zeroed_def)
next
  case (Some a)
  then show ?thesis by (simp add: key_bytes_def zero_key_def)
qed


lemma demo_kms_service: "kms_service demo_client" "sdk_contexts demo_client"
  by (simp_all add: kms_service_def sdk_contexts_def demo_client_def)

lemma demo_refs_allocated: "refs_allocated (Some demo_manager) demo_world"
  by (simp add: refs_allocated_def demo_manager_def NewDataKeyCache_def)

lemma demo_miss:
  "DataKeyCache_Get (Some (NewDataKeyCache (5 * minute))) 0 (buildDataKeyCacheKey ''k'' []) = None"
  by (simp add: DataKeyCache_Get_def NewDataKeyCache_def)

lemma demo_fields:
  "mg_client demo_manager = Some demo_client" "mg_dataKeyCache demo_manager = Some (NewDataKeyCache (5 * minute))"
  "t < 60 \<Longrightarrow> t < 0 + dc_ttl (NewDataKeyCache (5 * minute))"
  by (simp_all add: demo_manager_def NewDataKeyCache_def minute_def second_def)

lemma demo_generate:
  obtains dk mo' w' where "Manager_GenerateDataKey LiveContext (Some demo_manager) demo_world 0 0 ''k'' [] = (Ok dk, mo', w')"
  using demo_gen_Ok that by (metis demo_gen_def)


text \<open>The second encryption under a cached data key uses the all-zero key. An \<^verbatim>\<open>Encrypt\<close> clears the
  data key's slice on return, the data key cache still holds that slice, and a second \<^verbatim>\<open>Encrypt\<close> for the
  same key and context within the cache's TTL seals its plaintext under 32 zero bytes.\<close>

theorem second_Encrypt_uses_zero_key:
  assumes "Manager_IsEnabled (Some m)" and "mg_client m = Some cl" and "mg_dataKeyCache m = Some c"
    and "refs_allocated (Some m) w"
    and "DataKeyCache_Get (Some c) t0 (buildDataKeyCacheKey keyID ctx) = None"
    and "Manager_GenerateDataKey LiveContext (Some m) w t0 t1 keyID ctx = (Ok dk, mo1, w1)" and "kms_service cl"
    and "EnvelopeEncryptor_Encrypt mo1 w1 t2 t3 rnd p keyID ctx = (Ok ed, mo2, w2)"
    and "t2 < t1 + dc_ttl c" and "t4 < t1 + dc_ttl c" and "p2 \<noteq> []"
  shows "\<exists>ed2. fst (EnvelopeEncryptor_Encrypt mo2 w2 t4 t5 (Ok bs) p2 keyID ctx) = Ok ed2
    \<and> ed_EncryptedData ed2 = gcm_seal (replicate 32 0) (pad_to NonceSize bs) p2 []"
proof -
  obtain r c1 where r: "cl_GenerateDataKey cl (kw_calls w) keyID ''AES_256'' ctx = Ok (Some r)"
    and dk: "dk_PlaintextKey dk \<noteq> None" "key_bytes (kw_heap w1) dk = go_Plaintext r"
    and mo1: "mo1 = Some (m\<lparr>mg_dataKeyCache := Some c1\<rparr>)" and k: "keyID \<noteq> ''''"
    and hit: "\<forall>t < t1 + dc_ttl c. DataKeyCache_Get (Some c1) t (buildDataKeyCacheKey keyID ctx) = Some dk"
    by (rule generate_live [OF assms(1-6)]) (rule that)
  have p: "p \<noteq> []" using assms(8) by (auto simp: EnvelopeEncryptor_Encrypt_def split: if_splits)
  let ?m = "m\<lparr>mg_dataKeyCache := Some c1\<rparr>"
  have en: "Manager_IsEnabled (Some ?m)" using assms(1) by simp
  have w2: "mo2 = Some ?m" "w2 = zero_key dk w1"
    using Encrypt_hit [of ?m t2 keyID ctx dk p w1 t3 rnd] hit [rule_format, OF assms(9)] en k p assms(8) by (simp_all add: mo1)
  have key: "key_bytes (kw_heap w2) dk = replicate 32 0"
    using kms_serviceD(1) [OF assms(7) r] dk by (auto simp: w2 zero_key_def key_bytes_def)
  have v: "valid_aes_key (replicate 32 0)" by (simp add: valid_aes_key_def)
  show ?thesis
    using Encrypt_hit [of ?m t4 keyID ctx dk p2 w2 t5 "Ok bs"] hit [rule_format, OF assms(10)] en k assms(11) v
    by (simp add: w2(1) key seal_with_key_def gcm_Seal_def)
qed

theorem second_Encrypt_uses_zero_key_witness:
  "\<exists>dk mo1 w1 ed w2 ed2. Manager_GenerateDataKey LiveContext (Some demo_manager) demo_world 0 0 ''k'' [] = (Ok dk, mo1, w1)
     \<and> EnvelopeEncryptor_Encrypt mo1 w1 1 1 (Ok [1, 2]) [65] ''k'' [] = (Ok ed, mo1, w2)
     \<and> fst (EnvelopeEncryptor_Encrypt mo1 w2 2 2 (Ok [3]) [66] ''k'' []) = Ok ed2
     \<and> ed_EncryptedData ed2 = gcm_seal (replicate 32 0) (pad_to NonceSize [3]) [66] []"
proof -
  obtain dk mo1 w1 where g: "Manager_GenerateDataKey LiveContext (Some demo_manager) demo_world 0 0 ''k'' [] = (Ok dk, mo1, w1)"
    by (rule demo_generate)
  obtain r c1 where r: "cl_GenerateDataKey demo_client (kw_calls demo_world) ''k'' ''AES_256'' [] = Ok (Some r)"
    and key: "key_bytes (kw_heap w1) dk = go_Plaintext r" and mo1: "mo1 = Some (demo_manager\<lparr>mg_dataKeyCache := Some c1\<rparr>)"
    and hit: "\<forall>t < 0 + dc_ttl (NewDataKeyCache (5 * minute)). DataKeyCache_Get (Some c1) t (buildDataKeyCacheKey ''k'' []) = Some dk"
    by (rule generate_live [OF demo_enabled demo_fields(1,2) demo_refs_allocated demo_miss g]) (rule that)
  have t: "1 < 0 + dc_ttl (NewDataKeyCache (5 * minute))" "2 < 0 + dc_ttl (NewDataKeyCache (5 * minute))" using demo_fields(3) by simp_all
  have "valid_aes_key (key_bytes (kw_heap w1) dk)" using kms_serviceD(1) [OF demo_kms_service(1) r] key by (simp add: valid_aes_key_def)
  then obtain nonce ct where "seal_with_key (key_bytes (kw_heap w1) dk) (Ok [1, 2]) [65] = Ok (nonce, ct)" by (rule seal_with_key_valid)
  then obtain ed w2 where e: "EnvelopeEncryptor_Encrypt mo1 w1 1 1 (Ok [1, 2]) [65] ''k'' [] = (Ok ed, mo1, w2)"
    using Encrypt_hit [of "demo_manager\<lparr>mg_dataKeyCache := Some c1\<rparr>" 1 "''k''" "[]" dk "[65]" w1 1 "Ok [1, 2]"] hit [rule_format, OF t(1)]
    by (simp add: mo1)
  have "\<exists>ed2. fst (EnvelopeEncryptor_Encrypt mo1 w2 2 2 (Ok [3]) [66] ''k'' []) = Ok ed2
     \<and> ed_EncryptedData ed2 = gcm_seal (replicate 32 0) (pad_to NonceSize [3]) [66] []"
    by (rule second_Encrypt_uses_zero_key [OF demo_enabled demo_fields(1,2) demo_refs_allocated demo_miss g demo_kms_service(1) e t]) simp
  with g e show ?thesis by blast
qed


section \<open>The format of an encrypted stream\<close>

text \<open>A reference reader of the format \<^verbatim>\<open>writeChunk\<close> documents: four bytes of length, the nonce, the
  sealed chunk. It gives the concatenated plaintexts, or nothing when the bytes are not such a stream.\<close>

definition header_len :: "bytes \<Rightarrow> nat" where
  "header_len hs = foldl (\<lambda>a b. 256 * a + unat b) 0 hs"

function read_stream :: "bytes \<Rightarrow> bytes \<Rightarrow> bytes option" where
  "read_stream key bs =
     (if bs = [] then Some []
      else if length bs < 4 then None
      else
        let n = header_len (take 4 bs); body = take n (drop 4 bs) in
        if length (drop 4 bs) < n \<or> n < NonceSize then None
        else
          case gcm_Open key (take NonceSize body) (drop NonceSize body) [] of
            Ok p \<Rightarrow> map_option ((@) p) (read_stream key (drop (4 + n) bs))
          | _ \<Rightarrow> None)"
  by pat_completeness auto
termination
  by (relation "measure (\<lambda>(key, bs). length bs)") auto

declare read_stream.simps [simp del]

definition frame :: "bytes \<Rightarrow> bytes \<Rightarrow> bytes" where
  "frame nonce ct = chunk_header (length nonce + length ct) @ nonce @ ct"

lemma unat_of_nat_byte: "unat (of_nat n :: byte) = n mod 256"
  by (simp add: unsigned_of_nat take_bit_eq_mod)

lemma header_len_chunk_header:
  assumes "n < 2 ^ 32"
  shows "header_len (chunk_header n) = n"
proof -
  have h: "header_len (chunk_header n) =
      256 * (256 * (256 * (n div 2 ^ 24 mod 256) + n div 2 ^ 16 mod 256) + n div 2 ^ 8 mod 256) + n mod 256"
    by (simp add: header_len_def chunk_header_def unat_of_nat_byte drop_bit_eq_div)
  have *: "n div 2 ^ 16 div 256 = n div 2 ^ 24" "n div 2 ^ 8 div 256 = n div 2 ^ 16"
    "n div 256 = n div 2 ^ 8"
    by (simp_all add: div_mult2_eq [symmetric])
  have "n div 2 ^ 24 mod 256 = n div 2 ^ 24"
    using assms by (simp add: div_less_iff_less_mult)
  then have "256 * (n div 2 ^ 24 mod 256) + n div 2 ^ 16 mod 256 = n div 2 ^ 16"
    using mult_div_mod_eq [of 256 "n div 2 ^ 16", unfolded *] by simp
  moreover have "256 * (n div 2 ^ 16) + n div 2 ^ 8 mod 256 = n div 2 ^ 8"
    using mult_div_mod_eq [of 256 "n div 2 ^ 8", unfolded *] by simp
  moreover have "256 * (n div 2 ^ 8) + n mod 256 = n"
    using mult_div_mod_eq [of 256 n, unfolded *] by simp
  ultimately show ?thesis unfolding h by metis
qed

lemma length_chunk_header [simp]: "length (chunk_header n) = 4"
  by (simp add: chunk_header_def)

lemma read_stream_frame:
  assumes "gcm_Seal key nonce p [] = Ok ct" and "length nonce + length ct < 2 ^ 32"
  shows "read_stream key (frame nonce ct @ rest) = map_option ((@) p) (read_stream key rest)"
proof -
  have n: "length nonce = NonceSize" using gcm.seal_nonce [OF assms(1)] .
  have h: "header_len (chunk_header (NonceSize + length ct)) = NonceSize + length ct"
    using header_len_chunk_header assms(2) n by simp
  have o: "gcm_Open key nonce ct [] = Ok p" using gcm.open_seal [OF assms(1)] .
  have "chunk_header k \<noteq> []" for k by (simp add: chunk_header_def)
  then show ?thesis
    by (subst read_stream.simps) (simp add: frame_def n h o Let_def)
qed

lemma read_stream_append:
  "read_stream key xs = Some d \<Longrightarrow> read_stream key (xs @ ys) = map_option ((@) d) (read_stream key ys)"
proof (induction key xs arbitrary: d rule: read_stream.induct)
  case (1 key bs)
  show ?case
  proof (cases "bs = []")
    case True
    with 1 show ?thesis by (simp add: read_stream.simps [of key "[]"] option.map_id0 [unfolded id_def])
  next
    case False
    define n where "n = header_len (take 4 bs)"
    define body where "body = take n (drop 4 bs)"
    have len: "4 \<le> length bs" "n \<le> length bs - 4" "\<not> n < NonceSize"
      using 1(2) False
      by (auto simp: read_stream.simps [of key bs] n_def Let_def split: if_splits)
    obtain p d' where o: "gcm_Open key (take NonceSize body) (drop NonceSize body) [] = Ok p"
      and d': "read_stream key (drop (4 + n) bs) = Some d'" "d = p @ d'"
      using 1(2) False len
      by (auto simp: read_stream.simps [of key bs] n_def body_def Let_def split: if_splits res.splits)
    have IH: "read_stream key (drop (4 + n) bs @ ys) = map_option ((@) d') (read_stream key ys)"
      using 1(1) [OF False _ n_def body_def _ o] len d'(1) by simp
    have "take 4 (bs @ ys) = take 4 bs" "take n (drop 4 (bs @ ys)) = body"
      "drop (4 + n) (bs @ ys) = drop (4 + n) bs @ ys"
      using len by (simp_all add: body_def)
    moreover have "\<not> length (drop 4 (bs @ ys)) < n" using len by simp
    moreover have "(@) d = (@) p \<circ> (@) d'" by (auto simp: d'(2))
    ultimately show ?thesis
      using False len IH o
      by (subst read_stream.simps)
         (simp add: Let_def n_def [symmetric] option.map_comp)
  qed
qed

section \<open>Properties of the stream encryptor\<close>

text \<open>The state of a stream after \<open>data\<close> was written to it: what is in the writer decrypts, and with the
  bytes still buffered it is the data.\<close>

definition stream_inv :: "bytes \<Rightarrow> stream_encryptor \<Rightarrow> bytes \<Rightarrow> bool" where
  "stream_inv key s data \<longleftrightarrow>
     se_gcm s = Some key \<and> 0 < se_chunkSize s \<and> se_chunkSize s \<le> 64 * 1024
     \<and> length (se_buffer s) < se_chunkSize s
     \<and> (\<exists>w d. se_writer s = Some w \<and> read_stream key (wr_out w) = Some d \<and> d @ se_buffer s = data)"

lemma writeChunk_ok:
  assumes "\<forall>i. orc i = None" and "length nonce + length ct \<le> 16 * 1024 * 1024"
  shows "writeChunk orc (Some w) nonce ct =
    (Ok (), Some \<lparr>wr_out = wr_out w @ frame nonce ct, wr_calls = wr_calls w + 3\<rparr>)"
  using assms by (simp add: writeChunk_def writer_Write_def frame_def Let_def)

lemma encryptChunk_ok:
  assumes orc: "\<forall>i. orc i = None" and rnd: "\<forall>i. is_Ok (rnd i)"
    and s: "se_gcm s = Some key" "se_writer s = Some w" "read_stream key (wr_out w) = Some d"
    and ch: "chunk \<noteq> []" "length chunk \<le> 64 * 1024"
  obtains w' where "StreamEncryptor_encryptChunk orc rnd s chunk =
      (Ok (), s\<lparr>se_draws := Suc (se_draws s), se_writer := Some w'\<rparr>)"
    and "read_stream key (wr_out w') = Some (d @ chunk)"
proof -
  obtain bs where bs: "rnd (se_draws s) = Ok bs" using rnd by (auto simp: is_Ok_iff)
  define nonce where "nonce = pad_to NonceSize bs"
  obtain ct where ct: "gcm_Seal key nonce chunk [] = Ok ct" "length ct = length chunk + 16"
    by (rule gcm.seal_obtain [of nonce]) (simp add: nonce_def)
  have n: "length nonce = 12" by (simp add: nonce_def NonceSize_def)
  have "read_stream key (frame nonce ct) = Some chunk"
    using read_stream_frame [OF ct(1), of "[]"] ct(2) ch(2) n by (simp add: read_stream.simps [of key "[]"])
  then have "read_stream key (wr_out w @ frame nonce ct) = Some (d @ chunk)"
    using read_stream_append [OF s(3)] by simp
  moreover have "writeChunk orc (Some w) nonce ct =
      (Ok (), Some \<lparr>wr_out = wr_out w @ frame nonce ct, wr_calls = wr_calls w + 3\<rparr>)"
    using ct(2) ch(2) n by (intro writeChunk_ok orc) simp
  ultimately show thesis
    using that s ch(1) bs ct(1) by (simp add: StreamEncryptor_encryptChunk_def nonce_def Let_def)
qed


lemma flush_ok:
  assumes orc: "\<forall>i. orc i = None" and rnd: "\<forall>i. is_Ok (rnd i)"
  shows "se_gcm s = Some key \<Longrightarrow> 0 < se_chunkSize s \<Longrightarrow> se_chunkSize s \<le> 64 * 1024 \<Longrightarrow>
    se_writer s = Some w \<Longrightarrow> read_stream key (wr_out w) = Some d \<Longrightarrow>
    \<exists>s'. StreamEncryptor_flush orc rnd s = (Ok (), s') \<and> stream_inv key s' (d @ se_buffer s)
      \<and> se_dataKey s' = se_dataKey s"
proof (induction "length (se_buffer s)" arbitrary: s w d rule: less_induct)
  case less
  show ?case
  proof (cases "se_chunkSize s \<le> length (se_buffer s)")
    case False
    then show ?thesis using less.prems
      by (subst StreamEncryptor_flush.simps) (auto simp: stream_inv_def)
  next
    case True
    define chunk where "chunk = take (se_chunkSize s) (se_buffer s)"
    have "chunk \<noteq> []" "length chunk \<le> 64 * 1024" using True less.prems by (auto simp: chunk_def)
    then obtain w' where
      e: "StreamEncryptor_encryptChunk orc rnd s chunk = (Ok (), s\<lparr>se_draws := Suc (se_draws s), se_writer := Some w'\<rparr>)"
      and w': "read_stream key (wr_out w') = Some (d @ chunk)"
      using encryptChunk_ok [OF orc rnd less.prems(1,4,5)] by metis
    define s1 where "s1 = s\<lparr>se_draws := Suc (se_draws s), se_writer := Some w',
      se_buffer := drop (se_chunkSize s) (se_buffer s)\<rparr>"
    have "StreamEncryptor_flush orc rnd s = StreamEncryptor_flush orc rnd s1"
      using True less.prems(2) e
      by (subst StreamEncryptor_flush.simps) (simp add: chunk_def s1_def)
    moreover have "length (se_buffer s1) < length (se_buffer s)"
      using True less.prems(2) diff_less [of "se_chunkSize s" "length (se_buffer s)"] by (simp add: s1_def)
    then obtain s' where "StreamEncryptor_flush orc rnd s1 = (Ok (), s')"
      "stream_inv key s' ((d @ chunk) @ se_buffer s1)" "se_dataKey s' = se_dataKey s1"
      using less.hyps [of s1 w' "d @ chunk"] less.prems w' by (auto simp: s1_def)
    ultimately show ?thesis by (simp add: s1_def chunk_def)
  qed
qed

lemma Write_ok:
  assumes "\<forall>i. orc i = None" and "\<forall>i. is_Ok (rnd i)" and "stream_inv key s data"
  obtains s' where "StreamEncryptor_Write orc rnd (Some s) p = (length p, Ok (), Some s')"
    and "stream_inv key s' (data @ p)" and "se_dataKey s' = se_dataKey s"
proof (cases "p = []")
  case True
  then show thesis using that assms(3) by (simp add: StreamEncryptor_Write_def)
next
  case False
  define s0 where "s0 = s\<lparr>se_buffer := se_buffer s @ p\<rparr>"
  obtain w d where "se_writer s0 = Some w" "read_stream key (wr_out w) = Some d" "d @ se_buffer s0 = data @ p"
    using assms(3) by (auto simp: stream_inv_def s0_def)
  then obtain s' where "StreamEncryptor_flush orc rnd s0 = (Ok (), s')" "stream_inv key s' (data @ p)"
    "se_dataKey s' = se_dataKey s0"
    using flush_ok [OF assms(1,2), of s0 key w d] assms(3) by (auto simp: stream_inv_def s0_def)
  then show thesis using that False by (simp add: StreamEncryptor_Write_def s0_def)
qed

text \<open>Writing a sequence of slices, as an \<^verbatim>\<open>io.Copy\<close> into the encryptor does.\<close>

fun write_all ::
  "write_oracle \<Rightarrow> (nat \<Rightarrow> bytes res) \<Rightarrow> stream_encryptor option \<Rightarrow> bytes list
     \<Rightarrow> unit res \<times> stream_encryptor option" where
  "write_all orc rnd so [] = (Ok (), so)"
| "write_all orc rnd so (p # ps) =
     (case StreamEncryptor_Write orc rnd so p of
        (n, Ok _, so') \<Rightarrow> write_all orc rnd so' ps
      | (n, Err e, so') \<Rightarrow> (Err e, so')
      | (n, Panic q, so') \<Rightarrow> (Panic q, so'))"

lemma write_all_ok:
  assumes "\<forall>i. orc i = None" and "\<forall>i. is_Ok (rnd i)"
  shows "stream_inv key s data \<Longrightarrow> \<exists>s'. write_all orc rnd (Some s) ps = (Ok (), Some s')
    \<and> stream_inv key s' (data @ concat ps) \<and> se_dataKey s' = se_dataKey s"
proof (induction ps arbitrary: s data)
  case Nil
  then show ?case by simp
next
  case (Cons p ps)
  obtain s1 where "StreamEncryptor_Write orc rnd (Some s) p = (length p, Ok (), Some s1)"
    and "stream_inv key s1 (data @ p)" and "se_dataKey s1 = se_dataKey s"
    using Write_ok [OF assms Cons.prems] by metis
  with Cons.IH [of s1 "data @ p"] show ?case by auto
qed

lemma Close_ok:
  assumes "\<forall>i. orc i = None" and "\<forall>i. is_Ok (rnd i)"
    and "stream_inv key s data" and dk: "se_dataKey s = Some dk"
  obtains s2 wr where "StreamEncryptor_Close orc rnd None (Some s) w = (Ok (), Some s2, zero_key dk w)"
    and "se_writer s2 = Some wr" and "read_stream key (wr_out wr) = Some data"
proof -
  obtain wr d where wr: "se_gcm s = Some key" "se_writer s = Some wr" "read_stream key (wr_out wr) = Some d"
    "d @ se_buffer s = data" and len: "length (se_buffer s) \<le> 64 * 1024"
    using assms(3) by (auto simp: stream_inv_def)
  show thesis
  proof (cases "se_buffer s = []")
    case True
    then show thesis using that [of s wr] wr dk by (simp add: StreamEncryptor_Close_def)
  next
    case False
    obtain w1 where "StreamEncryptor_encryptChunk orc rnd s (se_buffer s) =
        (Ok (), s\<lparr>se_draws := Suc (se_draws s), se_writer := Some w1\<rparr>)"
      "read_stream key (wr_out w1) = Some (d @ se_buffer s)"
      using encryptChunk_ok [OF assms(1,2) wr(1-3) False] len by auto
    then show thesis
      using that [of "s\<lparr>se_draws := Suc (se_draws s), se_writer := Some w1, se_buffer := []\<rparr>" w1] False wr(4) dk
      by (simp add: StreamEncryptor_Close_def)
  qed
qed

text \<open>C11: a streamed object decrypts to what was written. Over a writer and a random source that do not fail,
  whatever slices are written to a new stream encryptor, every \<^verbatim>\<open>Write\<close> and the \<^verbatim>\<open>Close\<close> succeed, less
  than one chunk is ever buffered, the writer then holds a stream of frames that decrypts under the
  data key to exactly the concatenation of the slices, and the data key's slice is cleared.\<close>

theorem stream_encryption_roundtrip:
  assumes "\<forall>i. orc i = None" and "\<forall>i. is_Ok (rnd i)"
    and "EnvelopeEncryptor_NewStreamEncryptor mo w t0 t1 (Some \<lparr>wr_out = [], wr_calls = 0\<rparr>) keyID ctx = (Ok s, mo', w')"
    and "se_dataKey s = Some dk"
  shows "\<exists>s1 s2 w2 wr. write_all orc rnd (Some s) ps = (Ok (), Some s1)
    \<and> length (se_buffer s1) < se_chunkSize s1
    \<and> StreamEncryptor_Close orc rnd None (Some s1) w' = (Ok (), Some s2, w2)
    \<and> se_writer s2 = Some wr
    \<and> read_stream (key_bytes (kw_heap w') dk) (wr_out wr) = Some (concat ps)
    \<and> zeroed (key_bytes (kw_heap w2) dk)"
proof -
  let ?key = "key_bytes (kw_heap w') dk"
  have "se_gcm s = Some ?key" "se_writer s = Some \<lparr>wr_out = [], wr_calls = 0\<rparr>"
    "se_chunkSize s = 64 * 1024" "se_buffer s = []"
    using assms(3,4) by (auto simp: EnvelopeEncryptor_NewStreamEncryptor_def split: if_splits res.splits prod.splits)
  then have "stream_inv ?key s []"
    by (simp add: stream_inv_def read_stream.simps [of ?key "[]"])
  then obtain s1 where s1: "write_all orc rnd (Some s) ps = (Ok (), Some s1)"
    "stream_inv ?key s1 (concat ps)" "se_dataKey s1 = Some dk"
    using write_all_ok [OF assms(1,2), of ?key s "[]" ps] assms(4) by auto
  moreover obtain s2 wr where "StreamEncryptor_Close orc rnd None (Some s1) w' = (Ok (), Some s2, zero_key dk w')"
    "se_writer s2 = Some wr" "read_stream ?key (wr_out wr) = Some (concat ps)"
    using Close_ok [OF assms(1,2) s1(2,3)] by blast
  moreover have "length (se_buffer s1) < se_chunkSize s1" using s1(2) by (simp add: stream_inv_def)
  ultimately show ?thesis using zeroed_zero_key [of dk w'] by blast
qed

theorem stream_encryption_roundtrip_witness:
  "\<exists>dk mo1 w1 s mo' w' s1 s2 w2 wr.
     Manager_GenerateDataKey LiveContext (Some demo_manager) demo_world 0 0 ''k'' [] = (Ok dk, mo1, w1)
     \<and> EnvelopeEncryptor_NewStreamEncryptor mo1 w1 1 1 (Some \<lparr>wr_out = [], wr_calls = 0\<rparr>) ''k'' [] = (Ok s, mo', w')
     \<and> write_all (\<lambda>_. None) (\<lambda>i. Ok [of_nat i]) (Some s) [[65, 66], [67]] = (Ok (), Some s1)
     \<and> StreamEncryptor_Close (\<lambda>_. None) (\<lambda>i. Ok [of_nat i]) None (Some s1) w' = (Ok (), Some s2, w2)
     \<and> se_writer s2 = Some wr \<and> read_stream (key_bytes (kw_heap w') dk) (wr_out wr) = Some [65, 66, 67]"
proof -
  obtain dk mo1 w1 where g: "Manager_GenerateDataKey LiveContext (Some demo_manager) demo_world 0 0 ''k'' [] = (Ok dk, mo1, w1)"
    by (rule demo_generate)
  obtain r c1 where r: "cl_GenerateDataKey demo_client (kw_calls demo_world) ''k'' ''AES_256'' [] = Ok (Some r)"
    and key: "key_bytes (kw_heap w1) dk = go_Plaintext r" and mo1: "mo1 = Some (demo_manager\<lparr>mg_dataKeyCache := Some c1\<rparr>)"
    and hit: "\<forall>t < 0 + dc_ttl (NewDataKeyCache (5 * minute)). DataKeyCache_Get (Some c1) t (buildDataKeyCacheKey ''k'' []) = Some dk"
    by (rule generate_live [OF demo_enabled demo_fields(1,2) demo_refs_allocated demo_miss g]) (rule that)
  have "valid_aes_key (key_bytes (kw_heap w1) dk)" using kms_serviceD(1) [OF demo_kms_service(1) r] key by (simp add: valid_aes_key_def)
  moreover have "Manager_GenerateDataKey NilContext mo1 w1 1 1 ''k'' [] = (Ok dk, mo1, w1)"
    using GenerateDataKey_hit [of "demo_manager\<lparr>mg_dataKeyCache := Some c1\<rparr>" "''k''" 1 "[]" dk] hit [rule_format, of 1] demo_fields(3) [of 1] by (simp add: mo1)
  ultimately obtain s where s: "EnvelopeEncryptor_NewStreamEncryptor mo1 w1 1 1 (Some \<lparr>wr_out = [], wr_calls = 0\<rparr>) ''k'' [] = (Ok s, mo1, w1)"
    "se_dataKey s = Some dk"
    by (simp add: EnvelopeEncryptor_NewStreamEncryptor_def mo1)
  show ?thesis
    using stream_encryption_roundtrip [OF _ _ s, of "\<lambda>_. None" "\<lambda>i. Ok [of_nat i]" "[[65, 66], [67]]"] s(1) g
    by (simp del: write_all.simps) blast
qed

end
