(* ===== verification/KMS_Providers.thy ===== *)
theory KMS_Providers
  imports KMS_Envelope
begin

text \<open>
  \<^verbatim>\<open>internal/kms/provider*.go\<close>: the key management providers behind the interface \<^verbatim>\<open>kms.Provider\<close>.
  The interface is a record of operations over a state \<open>'s\<close>. A provider's own state is its data key
  cache; with it goes the world it acts on: the heap of key slices and the calls to the KMS client
  (\<open>kworld\<close>), the reads of the random source so far, and the clock. \<^verbatim>\<open>rnd i\<close> is the outcome of the
  i-th read of \<^verbatim>\<open>rand.Reader\<close>. The plaintext of a data key is the address of a slice, since the
  caller gets the slice the cache keeps.
\<close>

section \<open>The interface (provider.go)\<close>

record provider_data_key =
  pd_Plaintext :: "nat option"
  pd_CiphertextBlob :: bytes
  pd_KeyID :: string
  pd_Provider :: string

record 's kms_provider =
  pv_Name :: string
  pv_GenerateDataKey :: "'s \<Rightarrow> string \<Rightarrow> string \<Rightarrow> provider_data_key res \<times> 's"
  pv_Decrypt :: "'s \<Rightarrow> bytes \<Rightarrow> bytes res \<times> 's"
  pv_ValidateKey :: "'s \<Rightarrow> string \<Rightarrow> unit res \<times> 's"
  pv_GetKeyInfo :: "'s \<Rightarrow> string \<Rightarrow> key_info res \<times> 's"

record pstate =
  ps_cache :: "data_key_cache option"
  ps_kw :: kworld
  ps_draws :: nat
  ps_now :: time

definition ps_draw :: "(nat \<Rightarrow> bytes res) \<Rightarrow> nat \<Rightarrow> pstate \<Rightarrow> bytes res \<times> pstate" where
  "ps_draw rnd n s = (rand_read n (rnd (ps_draws s)), s\<lparr>ps_draws := Suc (ps_draws s)\<rparr>)"

text \<open>The hit of a data key in a provider's cache, and the store of a new one, as the three providers
  have them.\<close>

definition cached_data_key :: "string \<Rightarrow> pstate \<Rightarrow> string \<Rightarrow> provider_data_key option" where
  "cached_data_key name s keyID =
     (case DataKeyCache_Get (ps_cache s) (ps_now s) keyID of
        None \<Rightarrow> None
      | Some dk \<Rightarrow> Some \<lparr>pd_Plaintext = dk_PlaintextKey dk, pd_CiphertextBlob = dk_CiphertextBlob dk,
                          pd_KeyID = keyID, pd_Provider = name\<rparr>)"

definition store_data_key :: "string \<Rightarrow> pstate \<Rightarrow> string \<Rightarrow> bytes \<Rightarrow> bytes \<Rightarrow> provider_data_key \<times> pstate" where
  "store_data_key name s keyID plaintext blob =
     (let (a, h1) = h_alloc (kw_heap (ps_kw s)) plaintext;
          dk = \<lparr>dk_KeyID = keyID, dk_PlaintextKey = Some a, dk_CiphertextBlob = blob,
                dk_EncryptionContext = [], dk_CreatedAt = ps_now s\<rparr>;
          (c', h2) = DataKeyCache_Put (ps_cache s) h1 (ps_now s) keyID (Some dk)
      in (\<lparr>pd_Plaintext = Some a, pd_CiphertextBlob = blob, pd_KeyID = keyID, pd_Provider = name\<rparr>,
          s\<lparr>ps_cache := c', ps_kw := (ps_kw s)\<lparr>kw_heap := h2\<rparr>\<rparr>))"

text \<open>The sealing and opening of a data key under a master key, with the nonce in front.\<close>

definition cache_ttl_of :: "(string \<times> any) list \<Rightarrow> duration" where
  "cache_ttl_of config =
     (case as_string config ''data_key_cache_ttl'' of
        None \<Rightarrow> 5 * minute
      | Some ttl \<Rightarrow> (case ParseDuration ttl of Ok d \<Rightarrow> d | _ \<Rightarrow> 5 * minute))"

section \<open>The local provider (provider\_local.go)\<close>

definition NewLocalProvider :: "(string \<times> any) list \<Rightarrow> (bytes \<times> data_key_cache) res" where
  "NewLocalProvider config =
     (case as_string config ''master_key'' of
        None \<Rightarrow> Err (ErrNew ''master_key is required for local provider'')
      | Some mks \<Rightarrow>
          if mks = '''' then Err (ErrNew ''master_key is required for local provider'')
          else
            let masterKey = (case hex_decode mks of Some bs \<Rightarrow> bs | None \<Rightarrow> bytes_of mks);
                keyLen = length masterKey
            in if keyLen \<noteq> 16 \<and> keyLen \<noteq> 24 \<and> keyLen \<noteq> 32
               then Err (ErrNew (''master key must be 16, 24, or 32 bytes (got '' @ FormatInt (int keyLen) @ '')''))
               else Ok (masterKey, NewDataKeyCache (cache_ttl_of config)))"

definition LocalProvider_GenerateDataKey ::
  "bytes \<Rightarrow> (nat \<Rightarrow> bytes res) \<Rightarrow> pstate \<Rightarrow> string \<Rightarrow> string \<Rightarrow> provider_data_key res \<times> pstate" where
  "LocalProvider_GenerateDataKey masterKey rnd s keyID keySpec =
     (case cached_data_key ''local'' s keyID of
        Some k \<Rightarrow> (Ok k, s)
      | None \<Rightarrow>
          let n = (if keySpec = ''AES_128'' then 16 else 32) in
          (case ps_draw rnd n s of
             (Err e, s1) \<Rightarrow> (Err (ErrWrap ''failed to generate data key: '' e), s1)
           | (Panic p, s1) \<Rightarrow> (Panic p, s1)
           | (Ok dataKey, s1) \<Rightarrow>
               (case NewCipher masterKey of
                  Err e \<Rightarrow> (Err (ErrWrap ''failed to create cipher block: '' e), s1)
                | Panic p \<Rightarrow> (Panic p, s1)
                | Ok k \<Rightarrow>
                    (case ps_draw rnd NonceSize s1 of
                       (Err e, s2) \<Rightarrow> (Err (ErrWrap ''failed to generate nonce: '' e), s2)
                     | (Panic p, s2) \<Rightarrow> (Panic p, s2)
                     | (Ok nonce, s2) \<Rightarrow>
                         (case gcm_Seal k nonce dataKey [] of
                            Err e \<Rightarrow> (Err e, s2)
                          | Panic p \<Rightarrow> (Panic p, s2)
                          | Ok ct \<Rightarrow>
                              (case store_data_key ''local'' s2 keyID dataKey (nonce @ ct) of
                                 (r, s3) \<Rightarrow> (Ok r, s3)))))))"

definition LocalProvider_Decrypt :: "bytes \<Rightarrow> bytes \<Rightarrow> bytes res" where
  "LocalProvider_Decrypt masterKey ciphertext =
     res_bind (wrap_err ''failed to create cipher block: '' (NewCipher masterKey)) (\<lambda>k.
     if length ciphertext < NonceSize then Err (ErrNew ''ciphertext too short'')
     else wrap_err ''failed to decrypt: ''
            (gcm_Open k (take NonceSize ciphertext) (drop NonceSize ciphertext) []))"

definition LocalProvider_ValidateKey :: "bytes \<Rightarrow> unit res" where
  "LocalProvider_ValidateKey masterKey =
     res_bind (wrap_err ''invalid master key: '' (NewCipher masterKey)) (\<lambda>_. Ok ())"

definition LocalProvider_GetKeyInfo :: "bytes \<Rightarrow> time \<Rightarrow> string \<Rightarrow> key_info" where
  "LocalProvider_GetKeyInfo masterKey now keyID =
     \<lparr>ki_KeyID = keyID, ki_Arn = '''', ki_KeySpec = '''', ki_Enabled = True,
      ki_Description = ''Local key (master key size: '' @ FormatInt (int (length masterKey) * 8) @ '' bits)'',
      ki_LastValidated = now, ki_SupportsEncrypt = True, ki_SupportsDecrypt = True\<rparr>"

definition LocalProvider :: "bytes \<Rightarrow> (nat \<Rightarrow> bytes res) \<Rightarrow> pstate kms_provider" where
  "LocalProvider masterKey rnd =
     \<lparr>pv_Name = ''local'',
      pv_GenerateDataKey = LocalProvider_GenerateDataKey masterKey rnd,
      pv_Decrypt = (\<lambda>s ct. (LocalProvider_Decrypt masterKey ct, s)),
      pv_ValidateKey = (\<lambda>s keyID. (LocalProvider_ValidateKey masterKey, s)),
      pv_GetKeyInfo = (\<lambda>s keyID. (Ok (LocalProvider_GetKeyInfo masterKey (ps_now s) keyID), s))\<rparr>"

section \<open>The custom provider (provider\_custom.go)\<close>

definition custom_master_key :: "(string \<times> any) list \<Rightarrow> bytes res" where
  "custom_master_key config =
     (let mk = as_string config ''master_key''; mf = as_string config ''master_key_file'' in
      if mk \<noteq> None \<and> mk \<noteq> Some '''' then
        (case b64_decode (the mk) of Ok d \<Rightarrow> Ok d | _ \<Rightarrow> Ok (bytes_of (the mk)))
      else if mf \<noteq> None \<and> mf \<noteq> Some '''' then Err (ErrNew ''master_key_file not implemented yet'')
      else Err (ErrNew ''master_key or master_key_file is required for custom provider''))"

text \<open>Decoding a malformed salt: the code ignores the error and keeps the bytes decoded before it.\<close>

fun b64_prefix :: "string \<Rightarrow> bytes" where
  "b64_prefix (a # b # c # d # rest) =
     (case b64_quads [a, b, c, d] of
        None \<Rightarrow> []
      | Some bs \<Rightarrow> bs @ (if length bs < 3 then [] else b64_prefix rest))"
| "b64_prefix s = []"

definition decode_salt :: "string \<Rightarrow> bytes" where
  "decode_salt t =
     (case b64_decode t of
        Ok d \<Rightarrow> d
      | _ \<Rightarrow> b64_prefix (filter (\<lambda>c. c \<noteq> CHR 0x0A \<and> c \<noteq> CHR 0x0D) t))"

definition NewCustomProvider ::
  "(nat \<Rightarrow> bytes res) \<Rightarrow> pstate \<Rightarrow> (string \<times> any) list
     \<Rightarrow> (bytes \<times> bytes \<times> data_key_cache) res \<times> pstate" where
  "NewCustomProvider rnd s config =
     (case custom_master_key config of
        Err e \<Rightarrow> (Err e, s)
      | Panic p \<Rightarrow> (Panic p, s)
      | Ok mk0 \<Rightarrow>
          let keyLen = length mk0;
              masterKey = (if keyLen \<noteq> 16 \<and> keyLen \<noteq> 24 \<and> keyLen \<noteq> 32 then sha256 mk0 else mk0);
              salt0 = (case as_string config ''key_derivation_salt'' of
                         None \<Rightarrow> []
                       | Some t \<Rightarrow> decode_salt t)
          in if salt0 = [] then
               (case ps_draw rnd 32 s of
                  (Ok salt, s1) \<Rightarrow> (Ok (masterKey, salt, NewDataKeyCache (cache_ttl_of config)), s1)
                | (Err e, s1) \<Rightarrow> (Err (ErrWrap ''failed to generate salt: '' e), s1)
                | (Panic p, s1) \<Rightarrow> (Panic p, s1))
             else (Ok (masterKey, salt0, NewDataKeyCache (cache_ttl_of config)), s))"

definition CustomProvider_GenerateDataKey ::
  "bytes \<Rightarrow> (nat \<Rightarrow> bytes res) \<Rightarrow> pstate \<Rightarrow> string \<Rightarrow> string \<Rightarrow> provider_data_key res \<times> pstate" where
  "CustomProvider_GenerateDataKey masterKey rnd s keyID keySpec =
     (case cached_data_key ''custom'' s keyID of
        Some k \<Rightarrow> (Ok k, s)
      | None \<Rightarrow>
          let keySize = (if keySpec = ''AES_128'' then 16 else if keySpec = ''AES_192'' then 24 else 32) in
          (case ps_draw rnd keySize s of
             (Err e, s1) \<Rightarrow> (Err (ErrWrap ''failed to generate random key: '' e), s1)
           | (Panic p, s1) \<Rightarrow> (Panic p, s1)
           | (Ok plaintext, s1) \<Rightarrow>
               (case NewCipher masterKey of
                  Err e \<Rightarrow> (Err (ErrWrap ''failed to create cipher: '' e), s1)
                | Panic p \<Rightarrow> (Panic p, s1)
                | Ok k \<Rightarrow>
                    (case ps_draw rnd NonceSize s1 of
                       (Err e, s2) \<Rightarrow> (Err (ErrWrap ''failed to generate nonce: '' e), s2)
                     | (Panic p, s2) \<Rightarrow> (Panic p, s2)
                     | (Ok nonce, s2) \<Rightarrow>
                         (case gcm_Seal k nonce plaintext (bytes_of keyID) of
                            Err e \<Rightarrow> (Err e, s2)
                          | Panic p \<Rightarrow> (Panic p, s2)
                          | Ok ct \<Rightarrow>
                              (case store_data_key ''custom'' s2 keyID plaintext (nonce @ ct) of
                                 (r, s3) \<Rightarrow> (Ok r, s3)))))))"

definition CustomProvider_Decrypt :: "bytes \<Rightarrow> bytes \<Rightarrow> bytes res" where
  "CustomProvider_Decrypt masterKey ciphertext =
     res_bind (wrap_err ''failed to create cipher: '' (NewCipher masterKey)) (\<lambda>k.
     if length ciphertext < NonceSize then Err (ErrNew ''ciphertext too short'')
     else wrap_err ''failed to decrypt: ''
            (gcm_Open k (take NonceSize ciphertext) (drop NonceSize ciphertext) []))"

definition CustomProvider_ValidateKey :: "bytes \<Rightarrow> unit res" where
  "CustomProvider_ValidateKey masterKey =
     (if masterKey = [] then Err (ErrNew ''master key not configured'')
      else res_bind (wrap_err ''invalid master key: '' (NewCipher masterKey)) (\<lambda>_. Ok ()))"

definition CustomProvider_GetKeyInfo :: "bytes \<Rightarrow> time \<Rightarrow> string \<Rightarrow> key_info res" where
  "CustomProvider_GetKeyInfo masterKey now keyID =
     res_bind (CustomProvider_ValidateKey masterKey) (\<lambda>_.
     Ok \<lparr>ki_KeyID = keyID, ki_Arn = '''', ki_KeySpec = '''', ki_Enabled = True,
         ki_Description = ''Custom key (size: '' @ FormatInt (int (length masterKey) * 8) @ '' bits)'',
         ki_LastValidated = now, ki_SupportsEncrypt = True, ki_SupportsDecrypt = True\<rparr>)"

definition CustomProvider :: "bytes \<Rightarrow> (nat \<Rightarrow> bytes res) \<Rightarrow> pstate kms_provider" where
  "CustomProvider masterKey rnd =
     \<lparr>pv_Name = ''custom'',
      pv_GenerateDataKey = CustomProvider_GenerateDataKey masterKey rnd,
      pv_Decrypt = (\<lambda>s ct. (CustomProvider_Decrypt masterKey ct, s)),
      pv_ValidateKey = (\<lambda>s keyID. (CustomProvider_ValidateKey masterKey, s)),
      pv_GetKeyInfo = (\<lambda>s keyID. (CustomProvider_GetKeyInfo masterKey (ps_now s) keyID, s))\<rparr>"

section \<open>The AWS KMS provider (provider\_aws.go)\<close>

record aws_provider =
  ap_client :: "kms_client option"
  ap_encryptionContext :: smap
  ap_keySpec :: string

text \<open>The encryption context of the configuration: only a \<^verbatim>\<open>map[string]interface{}\<close> is accepted, and of it
  only the string values.\<close>

definition aws_context :: "(string \<times> any) list \<Rightarrow> smap" where
  "aws_context config =
     (case as_map config ''encryption_context'' of
        None \<Rightarrow> []
      | Some ec \<Rightarrow> fold (\<lambda>(k, v) m. case v of AnyString s \<Rightarrow> AList.update k s m | _ \<Rightarrow> m) ec [])"

definition parse_key_spec :: "string \<Rightarrow> string \<Rightarrow> string" where
  "parse_key_spec ks dflt =
     (if ks = ''AES_128'' then ''AES_128'' else if ks = ''AES_256'' then ''AES_256'' else dflt)"

text \<open>\<open>load\<close> stands for \<^verbatim>\<open>awsconfig.LoadDefaultConfig\<close> followed by \<^verbatim>\<open>kms.NewFromConfig\<close>, given the region that
  overrides the loaded one (\<open>None\<close> where none is configured).\<close>

definition NewAWSKMSProvider ::
  "(string option \<Rightarrow> kms_client res) \<Rightarrow> (string \<times> any) list option
     \<Rightarrow> (aws_provider \<times> data_key_cache) res" where
  "NewAWSKMSProvider load config =
     (case config of
        None \<Rightarrow> Err (ErrNew ''config cannot be nil'')
      | Some cfg \<Rightarrow>
          let region = (case as_string cfg ''region'' of Some r \<Rightarrow> if r = '''' then None else Some r | None \<Rightarrow> None);
              keySpec = (case as_string cfg ''key_spec'' of
                           None \<Rightarrow> ''AES_256''
                         | Some ks \<Rightarrow> parse_key_spec ks ''AES_256'')
          in res_bind (wrap_err ''failed to load AWS config: '' (load region)) (\<lambda>client.
             Ok (\<lparr>ap_client = Some client, ap_encryptionContext = aws_context cfg, ap_keySpec = keySpec\<rparr>,
                 NewDataKeyCache (cache_ttl_of cfg))))"

definition ps_call :: "pstate \<Rightarrow> pstate" where
  "ps_call s = s\<lparr>ps_kw := kw_call (ps_kw s)\<rparr>"

definition AWSKMSProvider_GenerateDataKey ::
  "aws_provider option \<Rightarrow> pstate \<Rightarrow> string \<Rightarrow> string \<Rightarrow> provider_data_key res \<times> pstate" where
  "AWSKMSProvider_GenerateDataKey po s keyID keySpec =
     (case po of
        None \<Rightarrow> (Err (ErrNew ''provider not initialized''), s)
      | Some p \<Rightarrow>
          (case ap_client p of
             None \<Rightarrow> (Err (ErrNew ''provider not initialized''), s)
           | Some cl \<Rightarrow>
               if keyID = '''' then (Err (ErrNew ''keyID cannot be empty''), s)
               else
                 (case cached_data_key ''aws-kms'' s keyID of
                    Some k \<Rightarrow> (Ok k, s)
                  | None \<Rightarrow>
                      let spec = parse_key_spec keySpec (ap_keySpec p); s1 = ps_call s in
                      (case cl_GenerateDataKey cl (kw_calls (ps_kw s)) keyID spec (ap_encryptionContext p) of
                         Err e \<Rightarrow> (Err (ErrWrap ''failed to generate data key: '' e), s1)
                       | Panic q \<Rightarrow> (Panic q, s1)
                       | Ok None \<Rightarrow> (Err (ErrNew ''invalid response from KMS: missing data key''), s1)
                       | Ok (Some r) \<Rightarrow>
                           if go_Plaintext r = [] \<or> go_CiphertextBlob r = []
                           then (Err (ErrNew ''invalid response from KMS: missing data key''), s1)
                           else (case store_data_key ''aws-kms'' s1 keyID (go_Plaintext r) (go_CiphertextBlob r) of
                                   (k, s2) \<Rightarrow> (Ok k, s2))))))"

definition AWSKMSProvider_Decrypt :: "aws_provider option \<Rightarrow> pstate \<Rightarrow> bytes \<Rightarrow> bytes res \<times> pstate" where
  "AWSKMSProvider_Decrypt po s ciphertext =
     (case po of
        None \<Rightarrow> (Err (ErrNew ''provider not initialized''), s)
      | Some p \<Rightarrow>
          (case ap_client p of
             None \<Rightarrow> (Err (ErrNew ''provider not initialized''), s)
           | Some cl \<Rightarrow>
               if ciphertext = [] then (Err (ErrNew ''ciphertext cannot be empty''), s)
               else
                 (case cl_Decrypt cl (kw_calls (ps_kw s)) ciphertext (ap_encryptionContext p) None of
                    Err e \<Rightarrow> (Err (ErrWrap ''failed to decrypt data key: '' e), ps_call s)
                  | Panic q \<Rightarrow> (Panic q, ps_call s)
                  | Ok None \<Rightarrow> (Err (ErrNew ''invalid response from KMS: missing plaintext''), ps_call s)
                  | Ok (Some r) \<Rightarrow>
                      if do_Plaintext r = []
                      then (Err (ErrNew ''invalid response from KMS: missing plaintext''), ps_call s)
                      else (Ok (do_Plaintext r), ps_call s))))"

definition AWSKMSProvider_ValidateKey :: "aws_provider option \<Rightarrow> pstate \<Rightarrow> string \<Rightarrow> unit res \<times> pstate" where
  "AWSKMSProvider_ValidateKey po s keyID =
     (case po of
        None \<Rightarrow> (Err (ErrNew ''provider not initialized''), s)
      | Some p \<Rightarrow>
          (case ap_client p of
             None \<Rightarrow> (Err (ErrNew ''provider not initialized''), s)
           | Some cl \<Rightarrow>
               if keyID = '''' then (Err (ErrNew ''keyID cannot be empty''), s)
               else
                 (case cl_DescribeKey cl (kw_calls (ps_kw s)) keyID of
                    Err e \<Rightarrow> (Err (ErrWrap ''failed to describe key: '' e), ps_call s)
                  | Panic q \<Rightarrow> (Panic q, ps_call s)
                  | Ok None \<Rightarrow> (Err (ErrNew ''key metadata is nil''), ps_call s)
                  | Ok (Some km) \<Rightarrow>
                      if km_KeyState km \<noteq> ''Enabled''
                      then (Err (ErrNew (''key '' @ keyID @ '' is not enabled (state: '' @ km_KeyState km @ '')'')), ps_call s)
                      else if km_KeyUsage km \<noteq> ''ENCRYPT_DECRYPT''
                      then (Err (ErrNew (''key '' @ keyID @ '' does not support encryption/decryption (usage: '' @ km_KeyUsage km @ '')'')), ps_call s)
                      else (Ok (), ps_call s))))"

definition AWSKMSProvider_GetKeyInfo :: "aws_provider option \<Rightarrow> pstate \<Rightarrow> string \<Rightarrow> key_info res \<times> pstate" where
  "AWSKMSProvider_GetKeyInfo po s keyID =
     (case po of
        None \<Rightarrow> (Err (ErrNew ''provider not initialized''), s)
      | Some p \<Rightarrow>
          (case ap_client p of
             None \<Rightarrow> (Err (ErrNew ''provider not initialized''), s)
           | Some cl \<Rightarrow>
               if keyID = '''' then (Err (ErrNew ''keyID cannot be empty''), s)
               else
                 (case cl_DescribeKey cl (kw_calls (ps_kw s)) keyID of
                    Err e \<Rightarrow> (Err (ErrWrap ''failed to describe key: '' e), ps_call s)
                  | Panic q \<Rightarrow> (Panic q, ps_call s)
                  | Ok None \<Rightarrow> (Err (ErrNew ''key metadata is nil''), ps_call s)
                  | Ok (Some km) \<Rightarrow> (Ok ((key_info_of km (ps_now s))\<lparr>ki_KeyID := keyID\<rparr>), ps_call s))))"

definition AWSKMSProvider :: "aws_provider \<Rightarrow> pstate kms_provider" where
  "AWSKMSProvider p =
     \<lparr>pv_Name = ''aws-kms'',
      pv_GenerateDataKey = AWSKMSProvider_GenerateDataKey (Some p),
      pv_Decrypt = AWSKMSProvider_Decrypt (Some p),
      pv_ValidateKey = AWSKMSProvider_ValidateKey (Some p),
      pv_GetKeyInfo = AWSKMSProvider_GetKeyInfo (Some p)\<rparr>"

section \<open>Choice of the provider (provider.go, provider\_azure.go)\<close>

definition NewAzureKeyVaultProvider :: "'a res" where
  "NewAzureKeyVaultProvider =
     Err (ErrNew ''Azure Key Vault provider not yet fully implemented - use local or aws-kms for now'')"

definition AzureKeyVaultProvider :: "pstate kms_provider" where
  "AzureKeyVaultProvider =
     \<lparr>pv_Name = ''azure-keyvault'',
       pv_GenerateDataKey = (\<lambda>s keyID keySpec. (Err (ErrNew ''Azure Key Vault provider not yet implemented''), s)),
       pv_Decrypt = (\<lambda>s ct. (Err (ErrNew ''Azure Key Vault provider not yet implemented''), s)),
       pv_ValidateKey = (\<lambda>s keyID. (Err (ErrNew ''Azure Key Vault provider not yet implemented''), s)),
       pv_GetKeyInfo = (\<lambda>s keyID.
         (Ok \<lparr>ki_KeyID = keyID, ki_Arn = '''', ki_KeySpec = '''', ki_Enabled = False,
              ki_Description = ''Azure Key Vault provider (not implemented)'', ki_LastValidated = ps_now s,
              ki_SupportsEncrypt = False, ki_SupportsDecrypt = False\<rparr>, s))\<rparr>"

text \<open>A new provider with its data key cache installed in the state. \<^verbatim>\<open>config\<close> is never a nil map here.\<close>

definition NewProvider ::
  "(nat \<Rightarrow> bytes res) \<Rightarrow> (string option \<Rightarrow> kms_client res) \<Rightarrow> pstate \<Rightarrow> provider_config
     \<Rightarrow> pstate kms_provider res \<times> pstate" where
  "NewProvider rnd load s cfg =
     (if pc_Type cfg = ''aws-kms'' then
        (case NewAWSKMSProvider load (Some (pc_Config cfg)) of
           Ok (p, c) \<Rightarrow> (Ok (AWSKMSProvider p), s\<lparr>ps_cache := Some c\<rparr>)
         | Err e \<Rightarrow> (Err e, s)
         | Panic q \<Rightarrow> (Panic q, s))
      else if pc_Type cfg = ''azure-keyvault'' then (NewAzureKeyVaultProvider, s)
      else if pc_Type cfg = ''custom'' then
        (case NewCustomProvider rnd s (pc_Config cfg) of
           (Ok (mk, salt, c), s') \<Rightarrow> (Ok (CustomProvider mk rnd), s'\<lparr>ps_cache := Some c\<rparr>)
         | (Err e, s') \<Rightarrow> (Err e, s')
         | (Panic q, s') \<Rightarrow> (Panic q, s'))
      else if pc_Type cfg = ''local'' then
        (case NewLocalProvider (pc_Config cfg) of
           Ok (mk, c) \<Rightarrow> (Ok (LocalProvider mk rnd), s\<lparr>ps_cache := Some c\<rparr>)
         | Err e \<Rightarrow> (Err e, s)
         | Panic q \<Rightarrow> (Panic q, s))
      else (Err (ErrNew (''unsupported provider type: '' @ pc_Type cfg)), s))"

end
