(* ===== verification/Enc_Keys.thy ===== *)
theory Enc_Keys
  imports KMS_Providers
begin

text \<open>
  \<^verbatim>\<open>internal/encryption/types\<close>, \<^verbatim>\<open>internal/encryption/keys\<close> and \<^verbatim>\<open>internal/encryption/adapter.go\<close>: the
  interface \<^verbatim>\<open>types.KeyProvider\<close> and its three implementations, the local key provider, the AWS
  KMS key provider and the adapter over a \<^verbatim>\<open>kms.Provider\<close>. The contract its users rely on is the
  locale \<open>dek_provider\<close>: a generated key fits AES and is recovered from its encrypted form in every
  later state. Decryption does not depend on the state.
\<close>

section \<open>The interface (types.go)\<close>

definition AlgorithmAES256GCM :: string where
  "AlgorithmAES256GCM = ''AES-256-GCM''"

definition AlgorithmChaCha20Poly1305 :: string where
  "AlgorithmChaCha20Poly1305 = ''ChaCha20-Poly1305''"

definition MetadataKeyAlgorithm :: string where
  "MetadataKeyAlgorithm = ''x-amz-meta-encryption-algorithm''"

definition MetadataKeyID :: string where
  "MetadataKeyID = ''x-amz-meta-encryption-key-id''"

definition MetadataKeyEncryptedDEK :: string where
  "MetadataKeyEncryptedDEK = ''x-amz-meta-encryption-dek''"

definition MetadataKeyNonce :: string where
  "MetadataKeyNonce = ''x-amz-meta-encryption-nonce''"

definition MetadataKeyEncryptedSize :: string where
  "MetadataKeyEncryptedSize = ''x-amz-meta-encrypted-size''"

lemmas metadata_keys = MetadataKeyAlgorithm_def MetadataKeyID_def MetadataKeyEncryptedDEK_def
  MetadataKeyNonce_def MetadataKeyEncryptedSize_def

record 's key_provider =
  kp_GenerateDEK :: "'s \<Rightarrow> (bytes \<times> string) res \<times> 's"
  kp_DecryptDEK :: "'s \<Rightarrow> string \<Rightarrow> bytes res \<times> 's"
  kp_Name :: string

locale dek_provider =
  fixes kp :: "'s key_provider"
    and ok :: "'s \<Rightarrow> bool"
  assumes gen_key: "ok s \<Longrightarrow> kp_GenerateDEK kp s = (Ok (k, e), s') \<Longrightarrow> valid_aes_key k \<and> e \<noteq> '''' \<and> ascii e"
    and name_ascii: "ascii (kp_Name kp)"
    and gen_ok: "ok s \<Longrightarrow> kp_GenerateDEK kp s = (r, s') \<Longrightarrow> ok s'"
    and dec_ok: "ok s \<Longrightarrow> kp_DecryptDEK kp s e = (d, s') \<Longrightarrow> ok s'"
    and dec_gen: "ok s \<Longrightarrow> kp_GenerateDEK kp s = (Ok (k, e), s') \<Longrightarrow> ok t \<Longrightarrow> fst (kp_DecryptDEK kp t e) = Ok k"
    and dec_stable: "ok s \<Longrightarrow> ok t \<Longrightarrow> fst (kp_DecryptDEK kp t e) = fst (kp_DecryptDEK kp s e)"

section \<open>The local key provider (keys/local.go)\<close>

definition NewLocalKeyProvider :: "bytes \<Rightarrow> bytes res" where
  "NewLocalKeyProvider masterKey =
     (if length masterKey \<noteq> 32 then Err (ErrNew ''master key must be 32 bytes (256 bits)'') else Ok masterKey)"

definition LocalKeyProvider_GenerateDEK ::
  "bytes \<Rightarrow> (nat \<Rightarrow> bytes res) \<Rightarrow> pstate \<Rightarrow> (bytes \<times> string) res \<times> pstate" where
  "LocalKeyProvider_GenerateDEK masterKey rnd s =
     (case ps_draw rnd 32 s of
        (Err e, s1) \<Rightarrow> (Err (ErrWrap ''failed to generate DEK: '' e), s1)
      | (Panic p, s1) \<Rightarrow> (Panic p, s1)
      | (Ok dek, s1) \<Rightarrow>
          (case NewCipher masterKey of
             Err e \<Rightarrow> (Err (ErrWrap ''failed to create cipher: '' e), s1)
           | Panic p \<Rightarrow> (Panic p, s1)
           | Ok k \<Rightarrow>
               (case ps_draw rnd NonceSize s1 of
                  (Err e, s2) \<Rightarrow> (Err (ErrWrap ''failed to generate nonce: '' e), s2)
                | (Panic p, s2) \<Rightarrow> (Panic p, s2)
                | (Ok nonce, s2) \<Rightarrow>
                    (res_bind (gcm_Seal k nonce dek []) (\<lambda>ct. Ok (dek, b64_encode (nonce @ ct))), s2))))"

definition LocalKeyProvider_DecryptDEK :: "bytes \<Rightarrow> string \<Rightarrow> bytes res" where
  "LocalKeyProvider_DecryptDEK masterKey encryptedKey =
     res_bind (wrap_err ''failed to decode encrypted DEK: '' (b64_decode encryptedKey)) (\<lambda>encryptedDEK.
     res_bind (wrap_err ''failed to create cipher: '' (NewCipher masterKey)) (\<lambda>k.
     if length encryptedDEK < NonceSize then Err (ErrNew ''encrypted DEK too short'')
     else wrap_err ''failed to decrypt DEK: ''
            (gcm_Open k (take NonceSize encryptedDEK) (drop NonceSize encryptedDEK) [])))"

definition LocalKeyProvider :: "bytes \<Rightarrow> (nat \<Rightarrow> bytes res) \<Rightarrow> pstate key_provider" where
  "LocalKeyProvider masterKey rnd =
     \<lparr>kp_GenerateDEK = LocalKeyProvider_GenerateDEK masterKey rnd,
      kp_DecryptDEK = (\<lambda>s e. (LocalKeyProvider_DecryptDEK masterKey e, s)),
      kp_Name = ''local''\<rparr>"

section \<open>The AWS KMS key provider (keys/kms.go)\<close>

record kms_key_provider =
  kkp_client :: kms_client
  kkp_keyID :: string
  kkp_cacheExpiry :: duration

definition NewKMSKeyProvider :: "kms_client \<Rightarrow> string \<Rightarrow> kms_key_provider res" where
  "NewKMSKeyProvider client keyID =
     (if keyID = '''' then Err (ErrNew ''KMS key ID is required'')
      else Ok \<lparr>kkp_client = client, kkp_keyID = keyID, kkp_cacheExpiry = 5 * minute\<rparr>)"

definition KMSKeyProvider_GenerateDEK ::
  "kms_key_provider \<Rightarrow> pstate \<Rightarrow> (bytes \<times> string) res \<times> pstate" where
  "KMSKeyProvider_GenerateDEK p s =
     (case cl_GenerateDataKey (kkp_client p) (kw_calls (ps_kw s)) (kkp_keyID p) ''AES_256''
             [(''purpose'', ''s3proxy-encryption''), (''timestamp'', FormatRFC3339 (ps_now s))] of
        Err e \<Rightarrow> (Err (ErrWrap ''failed to generate data key: '' e), ps_call s)
      | Panic q \<Rightarrow> (Panic q, ps_call s)
      | Ok None \<Rightarrow> (Panic ''nil pointer dereference'', ps_call s)
      | Ok (Some r) \<Rightarrow> (Ok (go_Plaintext r, b64_encode (go_CiphertextBlob r)), ps_call s))"

definition KMSKeyProvider_DecryptDEK ::
  "kms_key_provider \<Rightarrow> pstate \<Rightarrow> string \<Rightarrow> bytes res \<times> pstate" where
  "KMSKeyProvider_DecryptDEK p s encryptedKey =
     (case b64_decode encryptedKey of
        Err e \<Rightarrow> (Err (ErrWrap ''failed to decode encrypted DEK: '' e), s)
      | Panic q \<Rightarrow> (Panic q, s)
      | Ok ciphertext \<Rightarrow>
          (case cl_Decrypt (kkp_client p) (kw_calls (ps_kw s)) ciphertext
                  [(''purpose'', ''s3proxy-encryption'')] (Some (kkp_keyID p)) of
             Err e \<Rightarrow> (Err (ErrWrap ''failed to decrypt data key: '' e), ps_call s)
           | Panic q \<Rightarrow> (Panic q, ps_call s)
           | Ok None \<Rightarrow> (Panic ''nil pointer dereference'', ps_call s)
           | Ok (Some r) \<Rightarrow> (Ok (do_Plaintext r), ps_call s)))"

definition SetCacheExpiry :: "kms_key_provider \<Rightarrow> duration \<Rightarrow> kms_key_provider" where
  "SetCacheExpiry p d = p\<lparr>kkp_cacheExpiry := d\<rparr>"

definition KMSKeyProvider :: "kms_key_provider \<Rightarrow> pstate key_provider" where
  "KMSKeyProvider p =
     \<lparr>kp_GenerateDEK = KMSKeyProvider_GenerateDEK p,
      kp_DecryptDEK = KMSKeyProvider_DecryptDEK p, kp_Name = ''aws-kms''\<rparr>"

section \<open>The adapter over a kms.Provider (adapter.go)\<close>

text \<open>The key the adapter returns is the provider's slice; its user expands it into a cipher at once, so
  it is read here.\<close>

definition slice_bytes :: "pstate \<Rightarrow> nat option \<Rightarrow> bytes" where
  "slice_bytes s a = (case a of None \<Rightarrow> [] | Some a \<Rightarrow> h_mem (kw_heap (ps_kw s)) a)"

definition KMSKeyProviderAdapter_GenerateDEK ::
  "pstate kms_provider \<Rightarrow> pstate \<Rightarrow> (bytes \<times> string) res \<times> pstate" where
  "KMSKeyProviderAdapter_GenerateDEK pv s =
     (case pv_GenerateDataKey pv s ''default'' ''AES_256'' of
        (Err e, s') \<Rightarrow> (Err (ErrWrap ''failed to generate data key: '' e), s')
      | (Panic p, s') \<Rightarrow> (Panic p, s')
      | (Ok dk, s') \<Rightarrow> (Ok (slice_bytes s' (pd_Plaintext dk), b64_encode (pd_CiphertextBlob dk)), s'))"

definition KMSKeyProviderAdapter_DecryptDEK ::
  "pstate kms_provider \<Rightarrow> pstate \<Rightarrow> string \<Rightarrow> bytes res \<times> pstate" where
  "KMSKeyProviderAdapter_DecryptDEK pv s encryptedKey =
     (case b64_decode encryptedKey of
        Err e \<Rightarrow> (Err (ErrWrap ''failed to decode encrypted key: '' e), s)
      | Panic p \<Rightarrow> (Panic p, s)
      | Ok blob \<Rightarrow>
          (case pv_Decrypt pv s blob of
             (r, s') \<Rightarrow> (wrap_err ''failed to decrypt data key: '' r, s')))"

definition KMSKeyProviderAdapter :: "pstate kms_provider \<Rightarrow> pstate key_provider" where
  "KMSKeyProviderAdapter pv =
     \<lparr>kp_GenerateDEK = KMSKeyProviderAdapter_GenerateDEK pv,
      kp_DecryptDEK = KMSKeyProviderAdapter_DecryptDEK pv, kp_Name = pv_Name pv\<rparr>"

section \<open>The local key provider keeps the contract\<close>

lemma LocalKeyProvider_GenerateDEK_Ok:
  assumes "LocalKeyProvider_GenerateDEK mk rnd s = (Ok (k, e), s')"
  obtains nonce ct where "valid_aes_key mk" "length k = 32" "gcm_Seal mk nonce k [] = Ok ct"
    "e = b64_encode (nonce @ ct)"
  using assms
  by (auto simp: LocalKeyProvider_GenerateDEK_def ps_draw_def rand_read_def
      split: res.splits if_splits)

lemma sealed_key_opens:
  assumes "valid_aes_key mk" and "gcm_Seal mk nonce k [] = Ok ct"
  shows "LocalKeyProvider_DecryptDEK mk (b64_encode (nonce @ ct)) = Ok k"
    and "LocalProvider_Decrypt mk (nonce @ ct) = Ok k"
  using gcm.open_prefixed [OF assms(2)] assms(1)
  by (simp_all add: LocalKeyProvider_DecryptDEK_def LocalProvider_Decrypt_def)

lemma b64_nonce_not_Nil: "gcm_Seal mk nonce k aad = Ok ct \<Longrightarrow> b64_encode (nonce @ ct) \<noteq> ''''"
  using gcm.seal_nonce [of mk nonce k aad ct] by (auto simp: NonceSize_def)

interpretation local_key: dek_provider "LocalKeyProvider mk rnd" "\<lambda>_. True"
proof
  fix s s' t :: pstate and k e r
  assume "kp_GenerateDEK (LocalKeyProvider mk rnd) s = (Ok (k, e), s')"
  then have "LocalKeyProvider_GenerateDEK mk rnd s = (Ok (k, e), s')"
    by (simp add: LocalKeyProvider_def)
  then obtain nonce ct where *: "valid_aes_key mk" "length k = 32" "gcm_Seal mk nonce k [] = Ok ct"
    "e = b64_encode (nonce @ ct)"
    by (rule LocalKeyProvider_GenerateDEK_Ok)
  show "valid_aes_key k \<and> e \<noteq> '''' \<and> ascii e"
    using * b64_nonce_not_Nil by (simp add: valid_aes_key_def)
  show "fst (kp_DecryptDEK (LocalKeyProvider mk rnd) t e) = Ok k"
    using sealed_key_opens(1) [OF *(1,3)] by (simp add: LocalKeyProvider_def *(4))
qed (simp_all add: LocalKeyProvider_def)


section \<open>The adapter over the local provider keeps the contract\<close>

text \<open>The invariant of a local provider's cache: every entry's slice is allocated, belongs to that entry
  alone, holds an AES key, and is what the entry's blob decrypts to.\<close>

definition live :: "data_key_cache \<Rightarrow> string \<Rightarrow> data_key \<Rightarrow> bool" where
  "live c k dk \<longleftrightarrow> (\<exists>e. map_of (dc_cache c) k = Some e \<and> entry_key e = Some dk)"

definition entry_opens :: "bytes \<Rightarrow> heap \<Rightarrow> data_key \<Rightarrow> bool" where
  "entry_opens mk h dk \<longleftrightarrow>
     (\<exists>a. dk_PlaintextKey dk = Some a \<and> a < h_next h \<and> valid_aes_key (h_mem h a)
        \<and> dk_CiphertextBlob dk \<noteq> [] \<and> LocalProvider_Decrypt mk (dk_CiphertextBlob dk) = Ok (h_mem h a))"

definition cache_opens :: "bytes \<Rightarrow> pstate \<Rightarrow> bool" where
  "cache_opens mk s \<longleftrightarrow>
     (\<forall>c. ps_cache s = Some c \<longrightarrow>
        (\<forall>k dk. live c k dk \<longrightarrow> entry_opens mk (kw_heap (ps_kw s)) dk)
        \<and> (\<forall>k dk k' dk'. live c k dk \<and> live c k' dk' \<and> dk_PlaintextKey dk = dk_PlaintextKey dk' \<longrightarrow> k = k'))"

lemma Get_live: "DataKeyCache_Get (Some c) t k = Some dk \<Longrightarrow> live c k dk"
  by (auto simp: DataKeyCache_Get_def live_def entry_key_def split: option.splits if_splits)

lemma live_put:
  "k \<noteq> '''' \<Longrightarrow> live (fst (dkc_put (c, h) t k dk)) k' dk' \<longleftrightarrow> (if k' = k then dk' = dk else live c k' dk')"
  by (auto simp: dkc_put_def DataKeyCache_Put_def Let_def live_def AList.update_conv' entry_key_def)

lemma h_next_dkc_put [simp]: "h_next (snd (dkc_put (c, h) t k dk)) = h_next h"
  by (auto simp: dkc_put_def DataKeyCache_Put_def Let_def split: option.splits)

lemma dkc_put_mem_live:
  assumes "\<And>dk'. live c k dk' \<Longrightarrow> dk_PlaintextKey dk' \<noteq> Some a"
  shows "h_mem (snd (dkc_put (c, h) t k dk)) a = h_mem h a"
proof -
  have "entry_key e \<noteq> Some d \<or> dk_PlaintextKey d \<noteq> Some a" if "map_of (dc_cache c) k = Some e" for e d
    using assms that unfolding live_def by blast
  then show ?thesis
    by (auto simp: dkc_put_def DataKeyCache_Put_def Let_def clearSensitiveData_mem split: option.splits)
qed

lemma dkc_put_empty [simp]: "dkc_put ch t '''' dk = ch"
  by (cases ch) (simp add: dkc_put_def DataKeyCache_Put_def)

lemma store_data_key_eq:
  fixes keyID :: string and plain blob :: bytes
  assumes "ps_cache s = Some c"
  defines "a \<equiv> h_next (kw_heap (ps_kw s))"
  defines "ch \<equiv> dkc_put (c, snd (h_alloc (kw_heap (ps_kw s)) plain)) (ps_now s) keyID
     \<lparr>dk_KeyID = keyID, dk_PlaintextKey = Some a, dk_CiphertextBlob = blob, dk_EncryptionContext = [], dk_CreatedAt = ps_now s\<rparr>"
  shows "store_data_key name s keyID plain blob =
    (\<lparr>pd_Plaintext = Some a, pd_CiphertextBlob = blob, pd_KeyID = keyID, pd_Provider = name\<rparr>,
     s\<lparr>ps_cache := Some (fst ch), ps_kw := (ps_kw s)\<lparr>kw_heap := snd ch\<rparr>\<rparr>)"
  using assms(1) by (simp add: store_data_key_def h_alloc_def DataKeyCache_Put_eq Let_def ch_def a_def)

lemma store_data_key_opens:
  assumes inv: "cache_opens mk s" and c: "ps_cache s = Some c"
    and key: "valid_aes_key plain" "blob \<noteq> []" "LocalProvider_Decrypt mk blob = Ok plain"
    and st: "store_data_key name s keyID plain blob = (r, s')"
  shows "cache_opens mk s'" and "slice_bytes s' (pd_Plaintext r) = plain" and "pd_CiphertextBlob r = blob"
proof -
  let ?h = "kw_heap (ps_kw s)"
  define a where "a = h_next ?h"
  define dk where "dk = \<lparr>dk_KeyID = keyID, dk_PlaintextKey = Some a, dk_CiphertextBlob = blob,
     dk_EncryptionContext = [], dk_CreatedAt = ps_now s\<rparr>"
  define h1 where "h1 = snd (h_alloc ?h plain)"
  define ch where "ch = dkc_put (c, h1) (ps_now s) keyID dk"
  have s': "ps_cache s' = Some (fst ch)" "kw_heap (ps_kw s') = snd ch"
    and r: "pd_Plaintext r = Some a" "pd_CiphertextBlob r = blob"
    using st store_data_key_eq [OF c, of name keyID plain blob] by (auto simp: ch_def h1_def dk_def a_def)
  have live: "entry_opens mk ?h d" if "live c k d" for k d
    using inv c that unfolding cache_opens_def by blast
  have uniq: "k = k'" if "live c k d" "live c k' d'" "dk_PlaintextKey d = dk_PlaintextKey d'" for k d k' d'
    using inv c that unfolding cache_opens_def by blast
  have fresh: "dk_PlaintextKey d \<noteq> Some a" if "live c k d" for k d
    using live [OF that] by (auto simp: entry_opens_def a_def)
  have mem1: "h_mem h1 a = plain" "b < a \<Longrightarrow> h_mem h1 b = h_mem ?h b" "h_next h1 = Suc a" for b
    by (simp_all add: h1_def h_alloc_def a_def)
  have mem_a: "h_mem (snd ch) a = plain"
    unfolding ch_def using fresh mem1(1) by (simp add: dkc_put_mem_live)
  have new: "entry_opens mk (snd ch) dk"
    using key mem_a by (simp add: entry_opens_def dk_def ch_def mem1(3))
  have other: "entry_opens mk (snd ch) d" if l: "live c k d" and k: "k \<noteq> keyID" for k d
  proof -
    obtain b where b: "dk_PlaintextKey d = Some b" "b < a" "valid_aes_key (h_mem ?h b)"
      "dk_CiphertextBlob d \<noteq> []" "LocalProvider_Decrypt mk (dk_CiphertextBlob d) = Ok (h_mem ?h b)"
      using live [OF l] by (auto simp: entry_opens_def a_def)
    have "h_mem (snd ch) b = h_mem h1 b"
      unfolding ch_def using uniq [OF l] k b(1) by (intro dkc_put_mem_live) metis
    then show ?thesis using b mem1 by (auto simp: entry_opens_def ch_def)
  qed
  show "slice_bytes s' (pd_Plaintext r) = plain" "pd_CiphertextBlob r = blob"
    by (simp_all add: r slice_bytes_def s' mem_a)
  show "cache_opens mk s'"
  proof (cases "keyID = ''''")
    case True
    then have "fst ch = c" "snd ch = h1" by (simp_all add: ch_def)
    moreover have "entry_opens mk h1 d" if "live c k d" for k d
      using live [OF that] mem1 by (auto simp: entry_opens_def a_def)
    ultimately show ?thesis using uniq by (auto simp: cache_opens_def s')
  next
    case False
    have l: "live (fst ch) k d \<longleftrightarrow> (if k = keyID then d = dk else live c k d)" for k d
      unfolding ch_def by (rule live_put [OF False])
    have "dk_PlaintextKey dk = Some a" by (simp add: dk_def)
    then show ?thesis
      unfolding cache_opens_def s' using new other uniq fresh by (auto simp: l split: if_splits)
  qed
qed


lemma LocalProvider_GenerateDataKey_cases:
  assumes gen: "LocalProvider_GenerateDataKey mk rnd s keyID ''AES_256'' = (r, s')"
  defines "s2 \<equiv> s\<lparr>ps_draws := Suc (Suc (ps_draws s))\<rparr>"
  obtains (hit) k where "cached_data_key ''local'' s keyID = Some k" "r = Ok k" "s' = s"
    | (miss) plain nonce ct where "length plain = 32" "valid_aes_key mk" "gcm_Seal mk nonce plain [] = Ok ct"
        "store_data_key ''local'' s2 keyID plain (nonce @ ct) = (the_ok r, s')" "r = Ok (the_ok r)"
    | (fail) n where "s' = s\<lparr>ps_draws := n\<rparr>" "\<And>k. r \<noteq> Ok k"
proof (cases "cached_data_key ''local'' s keyID")
  case (Some k)
  then show thesis using hit gen by (simp add: LocalProvider_GenerateDataKey_def)
next
  case None
  note [simp] = LocalProvider_GenerateDataKey_def ps_draw_def rand_read_def Let_def
  show thesis
  proof (cases "is_Ok (rnd (ps_draws s)) \<and> valid_aes_key mk \<and> is_Ok (rnd (Suc (ps_draws s)))")
    case True
    then obtain b1 b2 where b: "rnd (ps_draws s) = Ok b1" "rnd (Suc (ps_draws s)) = Ok b2"
      by (auto simp: is_Ok_iff)
    define plain where "plain = pad_to 32 b1"
    define nonce where "nonce = pad_to NonceSize b2"
    obtain ct where ct: "gcm_Seal mk nonce plain [] = Ok ct"
      by (rule gcm.seal_obtain [of nonce]) (simp add: nonce_def)
    have "store_data_key ''local'' s2 keyID plain (nonce @ ct) = (the_ok r, s')" "r = Ok (the_ok r)"
      using gen None True b ct by (auto simp: plain_def nonce_def s2_def split: prod.splits)
    then show thesis using miss [of plain nonce ct] ct True by (simp add: plain_def)
  next
    case False
    then show thesis
      using gen None fail by (cases "rnd (ps_draws s)"; cases "valid_aes_key mk"; cases "rnd (Suc (ps_draws s))")
        (auto simp: NewCipher_def)
  qed
qed

lemma LocalProvider_GenerateDataKey_opens:
  assumes inv: "cache_opens mk s" "ps_cache s \<noteq> None"
    and gen: "LocalProvider_GenerateDataKey mk rnd s keyID ''AES_256'' = (r, s')"
  shows "cache_opens mk s' \<and> ps_cache s' \<noteq> None"
    and "r = Ok dk \<Longrightarrow> valid_aes_key (slice_bytes s' (pd_Plaintext dk)) \<and> pd_CiphertextBlob dk \<noteq> []
      \<and> LocalProvider_Decrypt mk (pd_CiphertextBlob dk) = Ok (slice_bytes s' (pd_Plaintext dk))"
proof -
  obtain c where c: "ps_cache s = Some c" using inv(2) by blast
  define s2 where "s2 = s\<lparr>ps_draws := Suc (Suc (ps_draws s))\<rparr>"
  have drawn: "cache_opens mk (s\<lparr>ps_draws := n\<rparr>)" for n using inv(1) by (simp add: cache_opens_def)
  from gen have "(cache_opens mk s' \<and> ps_cache s' \<noteq> None) \<and> (r = Ok dk \<longrightarrow>
      valid_aes_key (slice_bytes s' (pd_Plaintext dk)) \<and> pd_CiphertextBlob dk \<noteq> []
      \<and> LocalProvider_Decrypt mk (pd_CiphertextBlob dk) = Ok (slice_bytes s' (pd_Plaintext dk)))"
  proof (cases rule: LocalProvider_GenerateDataKey_cases)
    case (hit k)
    then obtain d where d: "DataKeyCache_Get (Some c) (ps_now s) keyID = Some d"
      "k = \<lparr>pd_Plaintext = dk_PlaintextKey d, pd_CiphertextBlob = dk_CiphertextBlob d, pd_KeyID = keyID, pd_Provider = ''local''\<rparr>"
      by (auto simp: cached_data_key_def c split: option.splits)
    have "entry_opens mk (kw_heap (ps_kw s)) d"
      using inv(1) c Get_live [OF d(1)] unfolding cache_opens_def by blast
    then show ?thesis using inv hit d(2) by (auto simp: entry_opens_def slice_bytes_def)
  next
    case (miss plain nonce ct)
    note miss = miss [folded s2_def]
    have s2: "cache_opens mk s2" "ps_cache s2 = Some c" using drawn c by (simp_all add: s2_def)
    have k: "valid_aes_key plain" "nonce @ ct \<noteq> []" "LocalProvider_Decrypt mk (nonce @ ct) = Ok plain"
      using miss(1) sealed_key_opens(2) [OF miss(2,3)] gcm.seal_nonce [OF miss(3)]
      by (auto simp: valid_aes_key_def NonceSize_def)
    note st = store_data_key_opens [OF s2 k miss(4)]
    have "ps_cache s' \<noteq> None"
      using store_data_key_eq [OF s2(2), of "''local''" keyID plain "nonce @ ct"] miss(4) by auto
    moreover have "r = Ok dk \<Longrightarrow> dk = the_ok r" using miss(5) by auto
    ultimately show ?thesis using st k by auto
  next
    case (fail n)
    then show ?thesis using drawn c by simp
  qed
  then show "cache_opens mk s' \<and> ps_cache s' \<noteq> None"
    and "r = Ok dk \<Longrightarrow> valid_aes_key (slice_bytes s' (pd_Plaintext dk)) \<and> pd_CiphertextBlob dk \<noteq> []
      \<and> LocalProvider_Decrypt mk (pd_CiphertextBlob dk) = Ok (slice_bytes s' (pd_Plaintext dk))"
    by simp_all
qed

lemma adapter_GenerateDEK_cases:
  assumes "KMSKeyProviderAdapter_GenerateDEK (LocalProvider mk rnd) s = (r, s')"
  obtains r0 where "LocalProvider_GenerateDataKey mk rnd s ''default'' ''AES_256'' = (r0, s')"
    and "\<And>k e. r = Ok (k, e) \<Longrightarrow> \<exists>dk. r0 = Ok dk \<and> k = slice_bytes s' (pd_Plaintext dk) \<and> e = b64_encode (pd_CiphertextBlob dk)"
  using assms that
  by (auto simp: KMSKeyProviderAdapter_GenerateDEK_def LocalProvider_def split: prod.splits res.splits)

interpretation local_adapter: dek_provider "KMSKeyProviderAdapter (LocalProvider mk rnd)"
  "\<lambda>s. cache_opens mk s \<and> ps_cache s \<noteq> None"
proof
  fix s s' t :: pstate and k e r
  assume ok: "cache_opens mk s \<and> ps_cache s \<noteq> None"
  show "cache_opens mk s' \<and> ps_cache s' \<noteq> None"
    if "kp_GenerateDEK (KMSKeyProviderAdapter (LocalProvider mk rnd)) s = (r, s')"
    using that ok
    by (auto simp: KMSKeyProviderAdapter_def elim!: adapter_GenerateDEK_cases
        dest: LocalProvider_GenerateDataKey_opens(1))
  show "cache_opens mk s' \<and> ps_cache s' \<noteq> None"
    if "kp_DecryptDEK (KMSKeyProviderAdapter (LocalProvider mk rnd)) s e = (d, s')" for d
    using that ok
    by (auto simp: KMSKeyProviderAdapter_def KMSKeyProviderAdapter_DecryptDEK_def LocalProvider_def split: res.splits)
  show "fst (kp_DecryptDEK (KMSKeyProviderAdapter (LocalProvider mk rnd)) t e)
      = fst (kp_DecryptDEK (KMSKeyProviderAdapter (LocalProvider mk rnd)) s e)"
    by (simp add: KMSKeyProviderAdapter_def KMSKeyProviderAdapter_DecryptDEK_def LocalProvider_def split: res.splits)
  assume "kp_GenerateDEK (KMSKeyProviderAdapter (LocalProvider mk rnd)) s = (Ok (k, e), s')"
  then obtain r0 dk where "LocalProvider_GenerateDataKey mk rnd s ''default'' ''AES_256'' = (Ok dk, s')"
    and ke: "k = slice_bytes s' (pd_Plaintext dk)" "e = b64_encode (pd_CiphertextBlob dk)"
    by (auto simp: KMSKeyProviderAdapter_def elim!: adapter_GenerateDEK_cases)
  then have *: "valid_aes_key k" "pd_CiphertextBlob dk \<noteq> []" "LocalProvider_Decrypt mk (pd_CiphertextBlob dk) = Ok k"
    using LocalProvider_GenerateDataKey_opens(2) [of mk s rnd "''default''" "Ok dk" s' dk] ok by auto
  show "valid_aes_key k \<and> e \<noteq> '''' \<and> ascii e" using * ke by simp
  show "fst (kp_DecryptDEK (KMSKeyProviderAdapter (LocalProvider mk rnd)) t e) = Ok k"
    using * by (simp add: KMSKeyProviderAdapter_def KMSKeyProviderAdapter_DecryptDEK_def LocalProvider_def ke)
qed (simp add: KMSKeyProviderAdapter_def LocalProvider_def)


section \<open>Properties\<close>

text \<open>A local provider behind the adapter never hands out a key it cannot recover. In every state whose
  cache satisfies the invariant, whether the key is new or comes from the cache, the pair returned by
  \<^verbatim>\<open>GenerateDEK\<close> consists of an AES key and an encrypted form that \<^verbatim>\<open>DecryptDEK\<close> turns back into that key
  in every later state, and the invariant holds again.\<close>

theorem local_adapter_recovers_keys:
  assumes "cache_opens mk s" and "ps_cache s = Some c"
    and "KMSKeyProviderAdapter_GenerateDEK (LocalProvider mk rnd) s = (Ok (k, e), s')"
    and "cache_opens mk t" and "ps_cache t = Some c'"
  shows "valid_aes_key k \<and> fst (KMSKeyProviderAdapter_DecryptDEK (LocalProvider mk rnd) t e) = Ok k
    \<and> cache_opens mk s'"
  using local_adapter.gen_key [of mk s rnd k e s'] local_adapter.dec_gen [of mk s rnd k e s' t]
    local_adapter.gen_ok [of mk s rnd "Ok (k, e)" s'] assms
  by (simp add: KMSKeyProviderAdapter_def)

definition demo_pstate :: pstate where
  "demo_pstate = \<lparr>ps_cache = Some (NewDataKeyCache 0), ps_kw = demo_world, ps_draws = 0, ps_now = 0\<rparr>"

lemma demo_pstate_opens: "cache_opens mk demo_pstate"
  by (simp add: cache_opens_def demo_pstate_def live_def NewDataKeyCache_def)

lemma demo_adapter_generates:
  assumes "valid_aes_key mk"
  obtains k e s' where "KMSKeyProviderAdapter_GenerateDEK (LocalProvider mk (\<lambda>i. Ok [])) demo_pstate = (Ok (k, e), s')"
proof -
  obtain ct where "gcm_Seal mk (pad_to NonceSize []) (pad_to 32 []) [] = Ok ct"
    by (rule gcm.seal_obtain [of "pad_to NonceSize []"]) simp
  then show thesis
    using that assms
    by (simp add: KMSKeyProviderAdapter_GenerateDEK_def LocalProvider_def LocalProvider_GenerateDataKey_def
        cached_data_key_def DataKeyCache_Get_def demo_pstate_def NewDataKeyCache_def ps_draw_def Let_def
        case_prod_unfold)
qed

theorem local_adapter_recovers_keys_witness:
  "\<exists>k e s'. KMSKeyProviderAdapter_GenerateDEK (LocalProvider (replicate 16 3) (\<lambda>i. Ok [])) demo_pstate = (Ok (k, e), s')
     \<and> valid_aes_key k
     \<and> fst (KMSKeyProviderAdapter_DecryptDEK (LocalProvider (replicate 16 3) (\<lambda>i. Ok [])) demo_pstate e) = Ok k"
proof -
  have "valid_aes_key (replicate 16 3)" by (simp add: valid_aes_key_def)
  then obtain k e s' where g:
    "KMSKeyProviderAdapter_GenerateDEK (LocalProvider (replicate 16 3) (\<lambda>i. Ok [])) demo_pstate = (Ok (k, e), s')"
    by (rule demo_adapter_generates)
  have c: "ps_cache demo_pstate = Some (NewDataKeyCache 0)" by (simp add: demo_pstate_def)
  from g local_adapter_recovers_keys [OF demo_pstate_opens c g demo_pstate_opens c] show ?thesis by blast
qed

text \<open>The custom provider decrypts its own data keys only by a collision of authentication tags: it seals
  a new key with the key ID as associated data and opens it with none, so \<^verbatim>\<open>Decrypt\<close> of a newly generated
  key succeeds exactly when GCM gives the same tag with and without that data.\<close>

theorem CustomProvider_Decrypt_own_key:
  assumes "cached_data_key ''custom'' s keyID = None" and "ps_cache s = Some c"
    and "CustomProvider_GenerateDataKey mk rnd s keyID spec = (Ok dk, s')"
  shows "\<exists>nonce c. pd_CiphertextBlob dk = nonce @ c @ gcm_tag mk nonce c (bytes_of keyID)
    \<and> (is_Ok (CustomProvider_Decrypt mk (pd_CiphertextBlob dk))
         \<longleftrightarrow> gcm_tag mk nonce c [] = gcm_tag mk nonce c (bytes_of keyID))"
proof -
  obtain plain nonce ct where v: "valid_aes_key mk" and s: "gcm_Seal mk nonce plain (bytes_of keyID) = Ok ct"
    and b: "pd_CiphertextBlob dk = nonce @ ct"
    using assms
    by (auto simp: CustomProvider_GenerateDataKey_def ps_draw_def Let_def store_data_key_def h_alloc_def
        DataKeyCache_Put_eq split: res.splits prod.splits)
  define c' where "c' = gcm_crypt mk nonce plain"
  have ct: "ct = c' @ gcm_tag mk nonce c' (bytes_of keyID)" and n: "length nonce = NonceSize"
    using s by (auto simp: gcm_Seal_def gcm_seal_def c'_def Let_def split: if_splits)
  have "is_Ok (CustomProvider_Decrypt mk (nonce @ ct)) \<longleftrightarrow> gcm_tag mk nonce c' [] = gcm_tag mk nonce c' (bytes_of keyID)"
    using v n by (auto simp: CustomProvider_Decrypt_def gcm_Open_def gcm_open_def ct is_Ok_iff Let_def)
  then show ?thesis using b ct by auto
qed

text \<open>The documented behaviour of KMS on a mismatch: decryption under a context with another number of
  pairs than the one of generation is refused.\<close>

definition kms_checks_context :: "kms_client \<Rightarrow> bool" where
  "kms_checks_context cl \<longleftrightarrow>
     (\<forall>n n' keyID spec ctx ctx' kid r.
        cl_GenerateDataKey cl n keyID spec ctx = Ok (Some r) \<and> length ctx \<noteq> length ctx'
        \<longrightarrow> (\<exists>e. cl_Decrypt cl n' (go_CiphertextBlob r) ctx' kid = Err e))"

lemma kms_checks_contextD:
  assumes "kms_checks_context cl" and "cl_GenerateDataKey cl n keyID spec ctx = Ok (Some r)"
    and "length ctx \<noteq> length ctx'"
  obtains e where "cl_Decrypt cl n' (go_CiphertextBlob r) ctx' kid = Err e"
  using assms unfolding kms_checks_context_def by blast

text \<open>Data keys of the AWS KMS key provider cannot be decrypted. \<^verbatim>\<open>GenerateDEK\<close> binds a key to a context
  with a timestamp, \<^verbatim>\<open>DecryptDEK\<close> presents the context without it, and a service that insists on the
  context of generation answers with an error.\<close>

theorem KMSKeyProvider_cannot_decrypt:
  assumes "kms_checks_context (kkp_client p)"
    and "KMSKeyProvider_GenerateDEK p s = (Ok (k, e), s')"
  shows "\<exists>err. fst (KMSKeyProvider_DecryptDEK p t e) = Err (ErrWrap ''failed to decrypt data key: '' err)"
proof -
  obtain r where r: "cl_GenerateDataKey (kkp_client p) (kw_calls (ps_kw s)) (kkp_keyID p) ''AES_256''
       [(''purpose'', ''s3proxy-encryption''), (''timestamp'', FormatRFC3339 (ps_now s))] = Ok (Some r)"
    and e: "e = b64_encode (go_CiphertextBlob r)"
    using assms(2) by (auto simp: KMSKeyProvider_GenerateDEK_def split: res.splits option.splits)
  obtain err where "cl_Decrypt (kkp_client p) (kw_calls (ps_kw t)) (go_CiphertextBlob r)
      [(''purpose'', ''s3proxy-encryption'')] (Some (kkp_keyID p)) = Err err"
    by (rule kms_checks_contextD [OF assms(1) r, where ctx' = "[(''purpose'', ''s3proxy-encryption'')]"]) simp_all
  then show ?thesis by (simp add: KMSKeyProvider_DecryptDEK_def e)
qed

definition strict_client :: kms_client where
  "strict_client = demo_client\<lparr>
     cl_GenerateDataKey := (\<lambda>n k spec ctx. Ok (Some \<lparr>go_Plaintext = replicate 32 7,
       go_CiphertextBlob = replicate (length ctx) 1 @ [0]\<rparr>)),
     cl_Decrypt := (\<lambda>n blob ctx kid. if length blob = Suc (length ctx)
       then Ok (Some \<lparr>do_Plaintext = replicate 32 7, do_KeyId = kid\<rparr>) else Err (ErrNew ''InvalidCiphertextException''))\<rparr>"

theorem KMSKeyProvider_cannot_decrypt_witness:
  "\<exists>k e s' err.
     KMSKeyProvider_GenerateDEK \<lparr>kkp_client = strict_client, kkp_keyID = ''k'', kkp_cacheExpiry = 0\<rparr> demo_pstate = (Ok (k, e), s')
     \<and> fst (KMSKeyProvider_DecryptDEK \<lparr>kkp_client = strict_client, kkp_keyID = ''k'', kkp_cacheExpiry = 0\<rparr> s' e)
         = Err (ErrWrap ''failed to decrypt data key: '' err)"
proof -
  let ?p = "\<lparr>kkp_client = strict_client, kkp_keyID = ''k'', kkp_cacheExpiry = 0\<rparr>"
  obtain k e s' where g: "KMSKeyProvider_GenerateDEK ?p demo_pstate = (Ok (k, e), s')"
    by (simp add: KMSKeyProvider_GenerateDEK_def strict_client_def)
  moreover have "kms_checks_context (kkp_client ?p)"
    by (auto simp: kms_checks_context_def strict_client_def)
  ultimately show ?thesis using KMSKeyProvider_cannot_decrypt [of ?p demo_pstate k e s' s'] by blast
qed

theorem CustomProvider_Decrypt_own_key_witness:
  "\<exists>dk s' nonce c. CustomProvider_GenerateDataKey (replicate 16 3) (\<lambda>i. Ok []) demo_pstate ''default'' ''AES_256'' = (Ok dk, s')
     \<and> pd_CiphertextBlob dk = nonce @ c @ gcm_tag (replicate 16 3) nonce c (bytes_of ''default'')"
proof -
  have v: "valid_aes_key (replicate 16 3)" by (simp add: valid_aes_key_def)
  have m: "cached_data_key ''custom'' demo_pstate ''default'' = None"
    by (simp add: cached_data_key_def demo_pstate_def DataKeyCache_Get_def NewDataKeyCache_def)
  obtain ct where "gcm_Seal (replicate 16 3) (pad_to NonceSize []) (pad_to 32 []) (bytes_of ''default'') = Ok ct"
    by (rule gcm.seal_obtain [of "pad_to NonceSize []"]) simp
  then obtain dk s' where g: "CustomProvider_GenerateDataKey (replicate 16 3) (\<lambda>i. Ok []) demo_pstate ''default'' ''AES_256'' = (Ok dk, s')"
    using v m by (simp add: CustomProvider_GenerateDataKey_def ps_draw_def Let_def case_prod_unfold)
  have c: "ps_cache demo_pstate = Some (NewDataKeyCache 0)" by (simp add: demo_pstate_def)
  show ?thesis using g CustomProvider_Decrypt_own_key [OF m c g] by blast
qed

end
