(* ===== verification/Enc_Manager.thy ===== *)
theory Enc_Manager
  imports Enc_Keys
begin

text \<open>
  \<^verbatim>\<open>internal/encryption/stream/simple_aes_gcm.go\<close>, \<^verbatim>\<open>manager.go\<close> and \<^verbatim>\<open>factory.go\<close>: the encryptor the
  proxy uses, the encryption manager in front of it, and their construction from the configuration.
  The interface \<^verbatim>\<open>types.Encryptor\<close> is a record of operations; its contract is the locale
  \<open>object_encryptor\<close>, which holds for the simple encryptor over every key provider that keeps
  \<open>dek_provider\<close> (a \<open>sublocale\<close>), hence for the providers interpreted in \<open>Enc_Keys\<close>.
\<close>

section \<open>The interface\<close>

record 's encryptor =
  en_Encrypt :: "'s \<Rightarrow> reader \<Rightarrow> int \<Rightarrow> (reader \<times> smap) res \<times> 's"
  en_Decrypt :: "'s \<Rightarrow> reader \<Rightarrow> smap \<Rightarrow> reader res \<times> 's"
  en_Algorithm :: string

text \<open>Metadata may come back from storage with other entries added; what decryption reads must agree.\<close>

definition internal_keys :: "string list" where
  "internal_keys = [MetadataKeyAlgorithm, MetadataKeyID, MetadataKeyEncryptedDEK, MetadataKeyNonce, MetadataKeyEncryptedSize]"

definition enc_agree :: "smap \<Rightarrow> smap \<Rightarrow> bool" where
  "enc_agree md md' \<longleftrightarrow>
     (\<forall>k \<in> {MetadataKeyAlgorithm, MetadataKeyEncryptedDEK, MetadataKeyNonce, MetadataKeyEncryptedSize}.
        sm_get md' k = sm_get md k)"

lemma enc_agree_refl [simp]: "enc_agree md md"
  by (simp add: enc_agree_def)

locale object_encryptor =
  fixes en :: "'s encryptor"
    and ok :: "'s \<Rightarrow> bool"
  assumes enc_ok: "ok s \<Longrightarrow> en_Encrypt en s r n = (x, s') \<Longrightarrow> ok s'"
    and dec_ok: "ok s \<Longrightarrow> en_Decrypt en s r md = (y, s') \<Longrightarrow> ok s'"
    and enc_marked: "en_Encrypt en s r n = (Ok (r', md), s') \<Longrightarrow> sm_get md MetadataKeyAlgorithm \<noteq> '''' \<and> wf_smap md
      \<and> dom (map_of md) = set internal_keys"
    and enc_fields: "ok s \<Longrightarrow> en_Encrypt en s r n = (Ok (r', md), s') \<Longrightarrow>
      sm_get md MetadataKeyEncryptedDEK \<noteq> '''' \<and> sm_get md MetadataKeyNonce \<noteq> '''' \<and> (\<forall>k. ascii (sm_get md k))"
    and enc_size: "en_Encrypt en s r n = (Ok (r', md), s') \<Longrightarrow> n = int (length (rd_data r)) \<Longrightarrow> in_i64 n \<Longrightarrow>
      ParseInt (sm_get md MetadataKeyEncryptedSize) = Ok n"
    and dec_read: "en_Decrypt en s r md = (Ok r', s') \<Longrightarrow> rd_err r = None"
    and dec_same: "ok s \<Longrightarrow> ok t \<Longrightarrow> fst (en_Decrypt en t r md) = fst (en_Decrypt en s r md)"
    and enc_read: "en_Encrypt en s r n = (Ok (r', md), s') \<Longrightarrow> rd_err r = None \<and> rd_err r' = None"
    and enc_dec: "ok s \<Longrightarrow> en_Encrypt en s r n = (Ok (r', md), s') \<Longrightarrow> ok t \<Longrightarrow> enc_agree md md' \<Longrightarrow>
      fst (en_Decrypt en t r' md') = Ok (bytes_reader (rd_data r))"

section \<open>The simple AES-GCM encryptor (simple\_aes\_gcm.go)\<close>

text \<open>\<open>draw\<close> reads a nonce from \<^verbatim>\<open>rand.Reader\<close> into a buffer of the size of a GCM nonce.\<close>

record 's simple_encryptor =
  sa_keyProvider :: "'s key_provider"
  sa_maxMemorySize :: int

definition NewSimpleAESGCMEncryptor :: "'s key_provider \<Rightarrow> 's simple_encryptor" where
  "NewSimpleAESGCMEncryptor kp = \<lparr>sa_keyProvider = kp, sa_maxMemorySize = 100 * 1024 * 1024\<rparr>"

definition enc_metadata :: "string \<Rightarrow> string \<Rightarrow> bytes \<Rightarrow> int \<Rightarrow> smap" where
  "enc_metadata name encryptedDEK nonce sz =
     [(MetadataKeyAlgorithm, AlgorithmAES256GCM), (MetadataKeyID, name),
      (MetadataKeyEncryptedDEK, encryptedDEK), (MetadataKeyNonce, b64_encode nonce),
      (MetadataKeyEncryptedSize, FormatInt sz)]"

definition SimpleAESGCMEncryptor_Encrypt ::
  "('s \<Rightarrow> bytes res \<times> 's) \<Rightarrow> 's simple_encryptor \<Rightarrow> 's \<Rightarrow> reader \<Rightarrow> int \<Rightarrow> (reader \<times> smap) res \<times> 's" where
  "SimpleAESGCMEncryptor_Encrypt draw e s reader sz =
     (case kp_GenerateDEK (sa_keyProvider e) s of
        (Err err, s1) \<Rightarrow> (Err (ErrWrap ''failed to generate DEK: '' err), s1)
      | (Panic p, s1) \<Rightarrow> (Panic p, s1)
      | (Ok (dek, encryptedDEK), s1) \<Rightarrow>
          (case NewCipher dek of
             Err err \<Rightarrow> (Err (ErrWrap ''failed to create cipher: '' err), s1)
           | Panic p \<Rightarrow> (Panic p, s1)
           | Ok key \<Rightarrow>
               (case draw s1 of
                  (Err err, s2) \<Rightarrow> (Err (ErrWrap ''failed to generate nonce: '' err), s2)
                | (Panic p, s2) \<Rightarrow> (Panic p, s2)
                | (Ok nonce, s2) \<Rightarrow>
                    if 0 \<le> sz \<and> sz \<le> sa_maxMemorySize e then
                      (res_bind (wrap_err ''failed to read data: '' (ReadAll reader)) (\<lambda>data.
                       res_bind (gcm_Seal key nonce data []) (\<lambda>encrypted.
                       Ok (bytes_reader encrypted,
                           enc_metadata (kp_Name (sa_keyProvider e)) encryptedDEK nonce (int (length data))))), s2)
                    else
                      (res_bind (wrap_err ''failed to read data: '' (ReadAll reader)) (\<lambda>data.
                       res_bind (gcm_Seal key nonce data []) (\<lambda>encrypted.
                       Ok (bytes_reader encrypted,
                           enc_metadata (kp_Name (sa_keyProvider e)) encryptedDEK nonce sz))), s2))))"

definition original_size :: "smap \<Rightarrow> int" where
  "original_size metadata =
     (let sizeStr = sm_get metadata MetadataKeyEncryptedSize in
      if sizeStr = '''' then -1 else (case ParseInt sizeStr of Ok n \<Rightarrow> n | _ \<Rightarrow> -1))"

definition SimpleAESGCMEncryptor_Decrypt ::
  "'s simple_encryptor \<Rightarrow> 's \<Rightarrow> reader \<Rightarrow> smap \<Rightarrow> reader res \<times> 's" where
  "SimpleAESGCMEncryptor_Decrypt e s reader metadata =
     (let encryptedDEK = sm_get metadata MetadataKeyEncryptedDEK;
          nonceStr = sm_get metadata MetadataKeyNonce
      in if encryptedDEK = '''' then (Err (ErrNew ''missing encrypted DEK in metadata''), s)
         else if nonceStr = '''' then (Err (ErrNew ''missing nonce in metadata''), s)
         else
           case b64_decode nonceStr of
             Err err \<Rightarrow> (Err (ErrWrap ''failed to decode nonce: '' err), s)
           | Panic p \<Rightarrow> (Panic p, s)
           | Ok nonce \<Rightarrow>
               (case kp_DecryptDEK (sa_keyProvider e) s encryptedDEK of
                  (Err err, s1) \<Rightarrow> (Err (ErrWrap ''failed to decrypt DEK: '' err), s1)
                | (Panic p, s1) \<Rightarrow> (Panic p, s1)
                | (Ok dek, s1) \<Rightarrow>
                    (res_bind (wrap_err ''failed to create cipher: '' (NewCipher dek)) (\<lambda>key.
                     if 0 \<le> original_size metadata \<and> original_size metadata \<le> sa_maxMemorySize e then
                       res_bind (wrap_err ''failed to read encrypted data: '' (ReadAll reader)) (\<lambda>encrypted.
                       res_bind (wrap_err ''failed to decrypt data: '' (gcm_Open key nonce encrypted [])) (\<lambda>decrypted.
                       Ok (bytes_reader decrypted)))
                     else
                       res_bind (wrap_err ''failed to read encrypted data: '' (ReadAll reader)) (\<lambda>encrypted.
                       res_bind (wrap_err ''failed to decrypt data: '' (gcm_Open key nonce encrypted [])) (\<lambda>decrypted.
                       Ok (bytes_reader decrypted)))), s1)))"

definition SimpleAESGCM :: "('s \<Rightarrow> bytes res \<times> 's) \<Rightarrow> 's simple_encryptor \<Rightarrow> 's encryptor" where
  "SimpleAESGCM draw e =
     \<lparr>en_Encrypt = SimpleAESGCMEncryptor_Encrypt draw e,
      en_Decrypt = SimpleAESGCMEncryptor_Decrypt e, en_Algorithm = AlgorithmAES256GCM\<rparr>"

section \<open>The encryption manager (manager.go)\<close>

record 's enc_manager =
  em_keyProvider :: "'s key_provider option"
  em_encryptor :: "'s encryptor option"
  em_enabled :: bool

definition EncManager_New :: "'s key_provider option \<Rightarrow> 's encryptor option \<Rightarrow> bool \<Rightarrow> 's enc_manager" where
  "EncManager_New kp en enabled = \<lparr>em_keyProvider = kp, em_encryptor = en, em_enabled = enabled\<rparr>"

definition EncManager_IsEnabled :: "'s enc_manager \<Rightarrow> bool" where
  "EncManager_IsEnabled m = em_enabled m"

definition EncManager_Encrypt ::
  "'s enc_manager \<Rightarrow> 's \<Rightarrow> reader \<Rightarrow> int \<Rightarrow> (reader \<times> smap) res \<times> 's" where
  "EncManager_Encrypt m s reader sz =
     (if \<not> em_enabled m then (Ok (reader, []), s)
      else case em_encryptor m of
             None \<Rightarrow> (Panic ''nil pointer dereference'', s)
           | Some en \<Rightarrow> en_Encrypt en s reader sz)"

definition EncManager_Decrypt :: "'s enc_manager \<Rightarrow> 's \<Rightarrow> reader \<Rightarrow> smap \<Rightarrow> reader res \<times> 's" where
  "EncManager_Decrypt m s reader metadata =
     (if sm_get metadata MetadataKeyAlgorithm = '''' then (Ok reader, s)
      else if \<not> em_enabled m then (Err (ErrNew ''encryption is disabled but object is encrypted''), s)
      else case em_encryptor m of
             None \<Rightarrow> (Panic ''nil pointer dereference'', s)
           | Some en \<Rightarrow> en_Decrypt en s reader metadata)"

definition EncManager_ShouldEncrypt :: "'s enc_manager \<Rightarrow> string \<Rightarrow> bool" where
  "EncManager_ShouldEncrypt m bucket = (if \<not> em_enabled m then False else True)"

section \<open>Construction from the configuration (factory.go)\<close>

text \<open>The key provider's own state (its data key cache) is installed in the state.\<close>

definition createKMSProvider ::
  "(nat \<Rightarrow> bytes res) \<Rightarrow> (string option \<Rightarrow> kms_client res) \<Rightarrow> pstate \<Rightarrow> provider_config
     \<Rightarrow> pstate key_provider res \<times> pstate" where
  "createKMSProvider rnd load s cfg =
     (case NewProvider rnd load s cfg of
        (Ok pv, s') \<Rightarrow> (Ok (KMSKeyProviderAdapter pv), s')
      | (Err e, s') \<Rightarrow> (Err e, s')
      | (Panic p, s') \<Rightarrow> (Panic p, s'))"

definition legacy_aws_config :: "kms_key_config \<Rightarrow> provider_config" where
  "legacy_aws_config k =
     \<lparr>pc_Type = ''aws-kms'',
      pc_Config = [(''default_key_id'', AnyString (kk_DefaultKeyID k)), (''region'', AnyString (kk_Region k)),
        (''encryption_context'', AnyStringMap (kk_EncryptionContext k)),
        (''data_key_cache_ttl'', AnyString (kk_DataKeyCacheTTL k)), (''key_spec'', AnyString (kk_KeySpec k))]\<rparr>"

definition legacy_azure_config :: "azure_kv_config \<Rightarrow> provider_config" where
  "legacy_azure_config k =
     \<lparr>pc_Type = ''azure-keyvault'',
      pc_Config = [(''vault_url'', AnyString (ak_VaultURL k)), (''client_id'', AnyString (ak_ClientID k)),
        (''client_secret'', AnyString (ak_ClientSecret k)), (''tenant_id'', AnyString (ak_TenantID k)),
        (''key_size'', AnyInt (ak_KeySize k)), (''data_key_cache_ttl'', AnyString (ak_DataKeyCacheTTL k))]\<rparr>"

definition legacy_custom_config :: "custom_key_config \<Rightarrow> provider_config" where
  "legacy_custom_config k =
     \<lparr>pc_Type = ''custom'',
      pc_Config = [(''master_key'', AnyString (ck_MasterKey k)), (''master_key_file'', AnyString (ck_MasterKeyFile k)),
        (''key_derivation_salt'', AnyString (ck_KeyDerivationSalt k)),
        (''data_key_cache_ttl'', AnyString (ck_DataKeyCacheTTL k))]\<rparr>"

definition createKeyProvider ::
  "(nat \<Rightarrow> bytes res) \<Rightarrow> (string option \<Rightarrow> kms_client res) \<Rightarrow> pstate \<Rightarrow> encryption_config
     \<Rightarrow> pstate key_provider res \<times> pstate" where
  "createKeyProvider rnd load s cfg =
     (case (if ec_KeyProvider cfg = '''' then None else map_of (ec_KeyProviders cfg) (ec_KeyProvider cfg)) of
        Some named \<Rightarrow> createKMSProvider rnd load s named
      | None \<Rightarrow>
          if ec_KeyProvider cfg = ''local'' then
            (case ec_Local cfg of
               None \<Rightarrow> (Err (ErrNew ''local key provider requires master key''), s)
             | Some l \<Rightarrow>
                 if lk_MasterKey l = '''' then (Err (ErrNew ''local key provider requires master key''), s)
                 else
                   (res_bind (wrap_err ''failed to decode master key: '' (b64_decode (lk_MasterKey l))) (\<lambda>mk.
                    res_bind (NewLocalKeyProvider mk) (\<lambda>mk. Ok (LocalKeyProvider mk rnd))), s))
          else if ec_KeyProvider cfg = ''kms'' \<or> ec_KeyProvider cfg = ''aws-kms'' then
            (case ec_KMS cfg of
               None \<Rightarrow> (Err (ErrNew ''KMS key provider requires key ID''), s)
             | Some k \<Rightarrow>
                 if kk_DefaultKeyID k = '''' then (Err (ErrNew ''KMS key provider requires key ID''), s)
                 else createKMSProvider rnd load s (legacy_aws_config k))
          else if ec_KeyProvider cfg = ''azure-keyvault'' \<or> ec_KeyProvider cfg = ''azure-kv'' then
            (case ec_AzureKV cfg of
               None \<Rightarrow> (Err (ErrNew ''Azure Key Vault provider requires vault URL''), s)
             | Some k \<Rightarrow>
                 if ak_VaultURL k = '''' then (Err (ErrNew ''Azure Key Vault provider requires vault URL''), s)
                 else createKMSProvider rnd load s (legacy_azure_config k))
          else if ec_KeyProvider cfg = ''custom'' then
            (case ec_Custom cfg of
               None \<Rightarrow> (Err (ErrNew ''custom key provider requires master key or master key file''), s)
             | Some k \<Rightarrow>
                 if ck_MasterKey k = '''' \<and> ck_MasterKeyFile k = ''''
                 then (Err (ErrNew ''custom key provider requires master key or master key file''), s)
                 else createKMSProvider rnd load s (legacy_custom_config k))
          else (Err (ErrNew (''unsupported key provider: '' @ ec_KeyProvider cfg)), s))"

definition createEncryptor ::
  "(nat \<Rightarrow> bytes res) \<Rightarrow> encryption_config \<Rightarrow> pstate key_provider \<Rightarrow> pstate encryptor res" where
  "createEncryptor rnd cfg kp =
     (if ec_Algorithm cfg = AlgorithmAES256GCM
      then Ok (SimpleAESGCM (ps_draw rnd NonceSize) (NewSimpleAESGCMEncryptor kp))
      else if ec_Algorithm cfg = AlgorithmChaCha20Poly1305
      then Err (ErrNew ''ChaCha20-Poly1305 not yet implemented'')
      else Err (ErrNew (''unsupported encryption algorithm: '' @ ec_Algorithm cfg)))"

definition NewFromConfig ::
  "(nat \<Rightarrow> bytes res) \<Rightarrow> (string option \<Rightarrow> kms_client res) \<Rightarrow> pstate \<Rightarrow> encryption_config
     \<Rightarrow> pstate enc_manager res \<times> pstate" where
  "NewFromConfig rnd load s cfg =
     (if \<not> ec_Enabled cfg
      then (Ok \<lparr>em_keyProvider = None, em_encryptor = None, em_enabled = False\<rparr>, s)
      else
        case createKeyProvider rnd load s cfg of
          (Err e, s1) \<Rightarrow> (Err (ErrWrap ''failed to create key provider: '' e), s1)
        | (Panic p, s1) \<Rightarrow> (Panic p, s1)
        | (Ok kp, s1) \<Rightarrow>
            (res_bind (wrap_err ''failed to create encryptor: '' (createEncryptor rnd cfg kp)) (\<lambda>en.
             Ok (EncManager_New (Some kp) (Some en) True)), s1))"


section \<open>The simple encryptor keeps the contract\<close>

lemma enc_metadata_get [simp]:
  "sm_get (enc_metadata name e nonce n) MetadataKeyAlgorithm = AlgorithmAES256GCM"
  "sm_get (enc_metadata name e nonce n) MetadataKeyEncryptedDEK = e"
  "sm_get (enc_metadata name e nonce n) MetadataKeyNonce = b64_encode nonce"
  "sm_get (enc_metadata name e nonce n) MetadataKeyEncryptedSize = FormatInt n"
  by (simp_all add: enc_metadata_def sm_get_def metadata_keys)

lemma wf_enc_metadata [simp]: "wf_smap (enc_metadata name e nonce n)"
  by (simp add: enc_metadata_def wf_smap_def metadata_keys)

lemma enc_metadata_keys: "dom (map_of (enc_metadata name e nonce n)) = set internal_keys"
  by (auto simp: enc_metadata_def internal_keys_def dom_def metadata_keys split: if_splits)

lemma enc_metadata_ascii: "ascii name \<Longrightarrow> ascii e \<Longrightarrow> ascii (sm_get (enc_metadata name e nonce n) k)"
  by (auto simp: enc_metadata_def sm_get_def AlgorithmAES256GCM_def split: option.splits)

lemma SimpleAESGCM_simps [simp]:
  "en_Encrypt (SimpleAESGCM draw e) = SimpleAESGCMEncryptor_Encrypt draw e"
  "en_Decrypt (SimpleAESGCM draw e) = SimpleAESGCMEncryptor_Decrypt e"
  by (simp_all add: SimpleAESGCM_def)

lemma Encrypt_Ok:
  assumes "SimpleAESGCMEncryptor_Encrypt draw e s r n = (Ok (r', md), s')"
  obtains dek edek s1 nonce ct m where
    "kp_GenerateDEK (sa_keyProvider e) s = (Ok (dek, edek), s1)" "valid_aes_key dek"
    "draw s1 = (Ok nonce, s')" "rd_err r = None" "gcm_Seal dek nonce (rd_data r) [] = Ok ct"
    "r' = bytes_reader ct" "md = enc_metadata (kp_Name (sa_keyProvider e)) edek nonce m"
    "n = int (length (rd_data r)) \<Longrightarrow> m = n"
  using assms
  by (auto simp: SimpleAESGCMEncryptor_Encrypt_def ReadAll_Ok split: prod.splits res.splits if_splits)

lemma Decrypt_eq:
  assumes "sm_get md MetadataKeyEncryptedDEK = edek" "edek \<noteq> ''''"
    and "sm_get md MetadataKeyNonce = b64_encode nonce" "nonce \<noteq> []"
    and "fst (kp_DecryptDEK (sa_keyProvider e) t edek) = Ok dek" "valid_aes_key dek"
    and "gcm_Open dek nonce ct [] = Ok p"
  shows "fst (SimpleAESGCMEncryptor_Decrypt e t (bytes_reader ct) md) = Ok (bytes_reader p)"
  using assms by (auto simp: SimpleAESGCMEncryptor_Decrypt_def Let_def split: prod.splits)

locale gcm_encryptor = dek_provider kp ok
  for kp :: "'s key_provider" and ok :: "'s \<Rightarrow> bool" +
  fixes draw :: "'s \<Rightarrow> bytes res \<times> 's"
  assumes draw_ok: "ok s \<Longrightarrow> draw s = (x, s') \<Longrightarrow> ok s'"
begin

abbreviation enc :: "'s simple_encryptor" where
  "enc \<equiv> NewSimpleAESGCMEncryptor kp"

lemma enc_provider [simp]: "sa_keyProvider enc = kp"
  by (simp add: NewSimpleAESGCMEncryptor_def)

lemma encrypt_ok:
  assumes "ok s" and "SimpleAESGCMEncryptor_Encrypt draw enc s r n = (x, s')"
  shows "ok s'"
proof -
  obtain g s1 where g: "kp_GenerateDEK kp s = (g, s1)" by (cases "kp_GenerateDEK kp s")
  then have s1: "ok s1" using gen_ok assms(1) by blast
  obtain d s2 where d: "draw s1 = (d, s2)" by (cases "draw s1")
  then have "ok s2" using draw_ok s1 by blast
  then show ?thesis
    using assms(2) g s1 d
    by (auto simp: SimpleAESGCMEncryptor_Encrypt_def split: res.splits if_splits prod.splits)
qed

lemma decrypt_ok:
  assumes "ok s" and "SimpleAESGCMEncryptor_Decrypt enc s r md = (x, s')"
  shows "ok s'"
proof -
  obtain d s1 where d: "kp_DecryptDEK kp s (sm_get md MetadataKeyEncryptedDEK) = (d, s1)"
    by (cases "kp_DecryptDEK kp s (sm_get md MetadataKeyEncryptedDEK)")
  then have "ok s1" using dec_ok assms(1) by blast
  then show ?thesis
    using assms d by (auto simp: SimpleAESGCMEncryptor_Decrypt_def Let_def split: res.splits if_splits)
qed

lemma decrypt_same:
  assumes "ok s" and "ok t"
  shows "fst (SimpleAESGCMEncryptor_Decrypt enc t r md) = fst (SimpleAESGCMEncryptor_Decrypt enc s r md)"
proof -
  let ?e = "sm_get md MetadataKeyEncryptedDEK"
  have "fst (kp_DecryptDEK kp t ?e) = fst (kp_DecryptDEK kp s ?e)" using dec_stable assms by blast
  then show ?thesis
    by (cases "kp_DecryptDEK kp s ?e"; cases "kp_DecryptDEK kp t ?e")
       (auto simp: SimpleAESGCMEncryptor_Decrypt_def Let_def split: res.splits)
qed

lemma encrypt_fields:
  assumes "ok s" and "SimpleAESGCMEncryptor_Encrypt draw enc s r n = (Ok (r', md), s')"
  shows "sm_get md MetadataKeyEncryptedDEK \<noteq> '''' \<and> sm_get md MetadataKeyNonce \<noteq> '''' \<and> (\<forall>k. ascii (sm_get md k))"
  using assms(2)
proof (cases rule: Encrypt_Ok)
  case (1 dek edek s1 nonce ct m)
  have "edek \<noteq> ''''" "ascii edek" using 1(1) assms(1) gen_key by auto
  moreover have "nonce \<noteq> []" using gcm.seal_nonce [OF 1(5)] by (auto simp: NonceSize_def)
  ultimately show ?thesis using enc_metadata_ascii name_ascii by (simp add: 1(7))
qed

lemma encrypt_decrypt:
  assumes "ok s" and "SimpleAESGCMEncryptor_Encrypt draw enc s r n = (Ok (r', md), s')"
    and "ok t" and "enc_agree md md'"
  shows "fst (SimpleAESGCMEncryptor_Decrypt enc t r' md') = Ok (bytes_reader (rd_data r))"
  using assms(2)
proof (cases rule: Encrypt_Ok)
  case (1 dek edek s1 nonce ct m)
  have "valid_aes_key dek \<and> edek \<noteq> ''''" "fst (kp_DecryptDEK kp t edek) = Ok dek"
    using 1(1) assms(1,3) gen_key dec_gen by auto
  moreover have "gcm_Open dek nonce ct [] = Ok (rd_data r)" "nonce \<noteq> []"
    using gcm.open_seal [OF 1(5)] gcm.seal_nonce [OF 1(5)] by (auto simp: NonceSize_def)
  moreover have "sm_get md' MetadataKeyEncryptedDEK = edek" "sm_get md' MetadataKeyNonce = b64_encode nonce"
    using assms(4) by (simp_all add: enc_agree_def 1(7))
  ultimately show ?thesis unfolding 1(6) by (intro Decrypt_eq) auto
qed

end

sublocale gcm_encryptor \<subseteq> simple: object_encryptor "SimpleAESGCM draw (NewSimpleAESGCMEncryptor kp)" ok
proof
  fix s r n x s' md y and r' :: reader and t md'
  show "ok s'" if "ok s" "en_Encrypt (SimpleAESGCM draw (NewSimpleAESGCMEncryptor kp)) s r n = (x, s')"
    using that encrypt_ok by simp
  show "ok s'" if "ok s" "en_Decrypt (SimpleAESGCM draw (NewSimpleAESGCMEncryptor kp)) s r md = (y, s')"
    using that decrypt_ok by simp
  show "sm_get md MetadataKeyAlgorithm \<noteq> '''' \<and> wf_smap md \<and> dom (map_of md) = set internal_keys"
    "rd_err r = None \<and> rd_err r' = None"
    if e: "en_Encrypt (SimpleAESGCM draw (NewSimpleAESGCMEncryptor kp)) s r n = (Ok (r', md), s')"
  proof -
    have "SimpleAESGCMEncryptor_Encrypt draw (NewSimpleAESGCMEncryptor kp) s r n = (Ok (r', md), s')"
      using e by simp
    then obtain name edek nonce m ct where
      md: "md = enc_metadata name edek nonce m" and "rd_err r = None" "r' = bytes_reader ct"
      by (rule Encrypt_Ok)
    then show "rd_err r = None \<and> rd_err r' = None" by simp
    show "sm_get md MetadataKeyAlgorithm \<noteq> '''' \<and> wf_smap md \<and> dom (map_of md) = set internal_keys"
      unfolding md using enc_metadata_keys by (simp add: AlgorithmAES256GCM_def)
  qed
  show "sm_get md MetadataKeyEncryptedDEK \<noteq> '''' \<and> sm_get md MetadataKeyNonce \<noteq> '''' \<and> (\<forall>k. ascii (sm_get md k))"
    if "ok s" "en_Encrypt (SimpleAESGCM draw (NewSimpleAESGCMEncryptor kp)) s r n = (Ok (r', md), s')"
    using that encrypt_fields by simp
  show "ParseInt (sm_get md MetadataKeyEncryptedSize) = Ok n"
    if "en_Encrypt (SimpleAESGCM draw (NewSimpleAESGCMEncryptor kp)) s r n = (Ok (r', md), s')"
      "n = int (length (rd_data r))" "in_i64 n"
    using that by (auto elim!: Encrypt_Ok simp: ParseInt_FormatInt)
  show "rd_err r = None" if "en_Decrypt (SimpleAESGCM draw (NewSimpleAESGCMEncryptor kp)) s r md = (Ok r', s')"
    using that
    by (auto simp: SimpleAESGCMEncryptor_Decrypt_def Let_def ReadAll_Ok split: if_splits res.splits prod.splits)
  show "fst (en_Decrypt (SimpleAESGCM draw (NewSimpleAESGCMEncryptor kp)) t r md)
      = fst (en_Decrypt (SimpleAESGCM draw (NewSimpleAESGCMEncryptor kp)) s r md)" if "ok s" "ok t"
    unfolding SimpleAESGCM_simps using that by (rule decrypt_same)
  show "fst (en_Decrypt (SimpleAESGCM draw (NewSimpleAESGCMEncryptor kp)) t r' md') = Ok (bytes_reader (rd_data r))"
    if "ok s" "en_Encrypt (SimpleAESGCM draw (NewSimpleAESGCMEncryptor kp)) s r n = (Ok (r', md), s')"
      "ok t" "enc_agree md md'"
    using that encrypt_decrypt by simp
qed

interpretation local_gcm: gcm_encryptor "LocalKeyProvider mk rnd" "\<lambda>_. True" "ps_draw rnd NonceSize"
  by unfold_locales simp

interpretation adapter_gcm: gcm_encryptor "KMSKeyProviderAdapter (LocalProvider mk rnd)"
  "\<lambda>s. cache_opens mk s \<and> ps_cache s \<noteq> None" "ps_draw rnd NonceSize"
  by unfold_locales (auto simp: ps_draw_def cache_opens_def)


section \<open>Properties\<close>

text \<open>The manager a local configuration gives: the simple encryptor over the local key provider.\<close>

lemma NewFromConfig_local:
  assumes "NewFromConfig rnd load s cfg = (Ok m, s1)" and "ec_Enabled cfg"
    and "ec_KeyProvider cfg = ''local''" and "map_of (ec_KeyProviders cfg) ''local'' = None"
  obtains mk where "m = EncManager_New (Some (LocalKeyProvider mk rnd))
      (Some (SimpleAESGCM (ps_draw rnd NonceSize) (NewSimpleAESGCMEncryptor (LocalKeyProvider mk rnd)))) True"
    and "length mk = 32" and "ec_Algorithm cfg = AlgorithmAES256GCM"
  using assms
  by (auto simp: NewFromConfig_def createKeyProvider_def createEncryptor_def NewLocalKeyProvider_def
      split: option.splits res.splits if_splits prod.splits)

text \<open>From the configuration to the object's bytes. If encryption is enabled with the local key provider and
  a manager was built from the configuration, then whatever it encrypts it decrypts again: for every
  object, in every later state, and also when storage added other metadata, \<^verbatim>\<open>Decrypt\<close> returns exactly the
  bytes that were read.\<close>

theorem local_manager_roundtrip:
  assumes "NewFromConfig rnd load s0 cfg = (Ok m, s1)" and "ec_Enabled cfg"
    and "ec_KeyProvider cfg = ''local''" and "map_of (ec_KeyProviders cfg) ''local'' = None"
    and "EncManager_Encrypt m s r n = (Ok (r', md), s')" and "enc_agree md md'"
  shows "fst (EncManager_Decrypt m t r' md') = Ok (bytes_reader (rd_data r)) \<and> rd_err r = None"
proof -
  obtain mk where m: "m = EncManager_New (Some (LocalKeyProvider mk rnd))
      (Some (SimpleAESGCM (ps_draw rnd NonceSize) (NewSimpleAESGCMEncryptor (LocalKeyProvider mk rnd)))) True"
    using NewFromConfig_local [OF assms(1-4)] by metis
  have e: "en_Encrypt (SimpleAESGCM (ps_draw rnd NonceSize) (NewSimpleAESGCMEncryptor (LocalKeyProvider mk rnd))) s r n
      = (Ok (r', md), s')"
    using assms(5) by (simp add: EncManager_Encrypt_def m EncManager_New_def)
  have "sm_get md' MetadataKeyAlgorithm \<noteq> ''''"
    using local_gcm.simple.enc_marked [OF e] assms(6) by (simp add: enc_agree_def)
  moreover have "fst (en_Decrypt (SimpleAESGCM (ps_draw rnd NonceSize) (NewSimpleAESGCMEncryptor (LocalKeyProvider mk rnd))) t r' md')
      = Ok (bytes_reader (rd_data r))"
    using local_gcm.simple.enc_dec [OF TrueI e TrueI assms(6)] .
  ultimately show ?thesis
    using local_gcm.simple.enc_read [OF e] by (simp add: EncManager_Decrypt_def m EncManager_New_def)
qed

definition demo_enc_config :: encryption_config where
  "demo_enc_config =
     \<lparr>ec_Enabled = True, ec_Algorithm = AlgorithmAES256GCM, ec_KeyProvider = ''local'',
      ec_Local = Some \<lparr>lk_MasterKey = b64_encode (replicate 32 5)\<rparr>, ec_KMS = None, ec_AzureKV = None,
      ec_Custom = None, ec_KeyProviders = [], ec_Policies = []\<rparr>"

definition demo_enc_manager :: "pstate enc_manager" where
  "demo_enc_manager = EncManager_New (Some (LocalKeyProvider (replicate 32 5) (\<lambda>_. Ok [])))
     (Some (SimpleAESGCM (ps_draw (\<lambda>_. Ok []) NonceSize)
        (NewSimpleAESGCMEncryptor (LocalKeyProvider (replicate 32 5) (\<lambda>_. Ok []))))) True"

lemma demo_NewFromConfig:
  "NewFromConfig (\<lambda>_. Ok []) load demo_pstate demo_enc_config = (Ok demo_enc_manager, demo_pstate)"
proof -
  have "b64_encode (replicate 32 5) \<noteq> ''''" by simp
  then show ?thesis
    by (simp add: NewFromConfig_def createKeyProvider_def createEncryptor_def demo_enc_config_def
        NewLocalKeyProvider_def demo_enc_manager_def del: b64_encode_eq_Nil)
qed

lemma demo_enc_encrypts:
  obtains r' md s' where "EncManager_Encrypt demo_enc_manager st (bytes_reader data) n = (Ok (r', md), s')"
proof -
  define dek where "dek = pad_to 32 ([] :: bytes)"
  define nonce where "nonce = pad_to NonceSize ([] :: bytes)"
  have v: "valid_aes_key (replicate 32 (5 :: byte))" "valid_aes_key dek" by (simp_all add: valid_aes_key_def dek_def)
  obtain c1 where c1: "gcm_Seal (replicate 32 5) nonce dek [] = Ok c1"
    by (rule gcm.seal_obtain [of nonce]) (simp add: nonce_def)
  obtain c2 where c2: "gcm_Seal dek nonce data [] = Ok c2"
    by (rule gcm.seal_obtain [of nonce]) (simp add: nonce_def)
  have "LocalKeyProvider_GenerateDEK (replicate 32 5) (\<lambda>_. Ok []) st =
      (Ok (dek, b64_encode (nonce @ c1)), st\<lparr>ps_draws := ps_draws st + 2\<rparr>)"
    using v(1) c1 by (simp add: LocalKeyProvider_GenerateDEK_def ps_draw_def dek_def nonce_def)
  then have "\<exists>r' md s'. EncManager_Encrypt demo_enc_manager st (bytes_reader data) n = (Ok (r', md), s')"
    using v c2
    by (simp add: EncManager_Encrypt_def demo_enc_manager_def EncManager_New_def SimpleAESGCMEncryptor_Encrypt_def
        NewSimpleAESGCMEncryptor_def LocalKeyProvider_def ps_draw_def nonce_def)
  then show thesis using that by blast
qed

theorem local_manager_roundtrip_witness:
  "\<exists>r' md s'. EncManager_Encrypt demo_enc_manager demo_pstate (bytes_reader [72, 105]) 2 = (Ok (r', md), s')
     \<and> fst (EncManager_Decrypt demo_enc_manager s' r' md) = Ok (bytes_reader [72, 105])"
proof -
  obtain r' md s' where e: "EncManager_Encrypt demo_enc_manager demo_pstate (bytes_reader [72, 105]) 2 = (Ok (r', md), s')"
    by (rule demo_enc_encrypts)
  have "fst (EncManager_Decrypt demo_enc_manager s' r' md) = Ok (bytes_reader (rd_data (bytes_reader [72, 105])))
      \<and> rd_err (bytes_reader [72, 105]) = None"
    by (rule local_manager_roundtrip [OF demo_NewFromConfig [of "\<lambda>_. Err ErrEOF"] _ _ _ e enc_agree_refl])
       (simp_all add: demo_enc_config_def)
  with e show ?thesis by auto
qed

text \<open>The encryption context of the KMS section of the configuration is lost. The factory passes it as a
  \<^verbatim>\<open>map[string]string\<close> where the AWS provider asserts a \<^verbatim>\<open>map[string]interface{}\<close>, so every data key of
  such a configuration is requested with an empty context, whatever was configured.\<close>

theorem legacy_encryption_context_dropped:
  assumes "load (if kk_Region k = '''' then None else Some (kk_Region k)) = Ok client"
  shows "\<exists>p c. NewAWSKMSProvider load (Some (pc_Config (legacy_aws_config k))) = Ok (p, c)
    \<and> ap_encryptionContext p = []"
  using assms
  by (simp add: NewAWSKMSProvider_def legacy_aws_config_def aws_context_def as_map_def as_string_def Let_def
      split: option.splits)

theorem legacy_encryption_context_dropped_witness:
  "\<exists>p c. NewAWSKMSProvider (\<lambda>_. Ok demo_client) (Some (pc_Config (legacy_aws_config
      \<lparr>kk_Enabled = True, kk_DefaultKeyID = ''k'', kk_KeySpec = '''', kk_Region = ''eu-west-1'',
       kk_EncryptionContext = [(''team'', ''a'')], kk_DataKeyCacheTTL = ''5m'', kk_ValidateKeys = True,
       kk_EnableKeyRotation = False\<rparr>))) = Ok (p, c) \<and> ap_encryptionContext p = []"
  by (rule legacy_encryption_context_dropped [where client = demo_client]) simp

text \<open>Decryption panics on a damaged nonce. Metadata whose nonce decodes to another length than twelve bytes
  makes \<^verbatim>\<open>Decrypt\<close> panic inside GCM instead of returning an error.\<close>

theorem Decrypt_bad_nonce_panics:
  assumes "sm_get md MetadataKeyEncryptedDEK \<noteq> ''''" and "sm_get md MetadataKeyNonce = b64_encode nonce"
    and "nonce \<noteq> []" and "length nonce \<noteq> NonceSize"
    and "kp_DecryptDEK (sa_keyProvider e) s (sm_get md MetadataKeyEncryptedDEK) = (Ok dek, s')"
    and "valid_aes_key dek" and "rd_err r = None"
  shows "\<exists>p. fst (SimpleAESGCMEncryptor_Decrypt e s r md) = Panic p"
  using assms by (simp add: SimpleAESGCMEncryptor_Decrypt_def Let_def ReadAll_def gcm_Open_def)

theorem Decrypt_bad_nonce_panics_witness:
  "\<exists>p. fst (SimpleAESGCMEncryptor_Decrypt
      \<lparr>sa_keyProvider = \<lparr>kp_GenerateDEK = (\<lambda>s. (Err ErrEOF, s)), kp_DecryptDEK = (\<lambda>s e. (Ok (replicate 32 5), s)), kp_Name = ''k''\<rparr>,
       sa_maxMemorySize = 0\<rparr> () (bytes_reader []) [(MetadataKeyEncryptedDEK, ''x''), (MetadataKeyNonce, b64_encode [1])]) = Panic p"
  by (rule Decrypt_bad_nonce_panics [where nonce = "[1]" and dek = "replicate 32 5" and s' = "()"])
     (simp_all add: sm_get_def metadata_keys NonceSize_def valid_aes_key_def)

end
