(* ===== verification/Go_JSON.thy ===== *)
theory Go_JSON
  imports Go_UTF8
begin

text \<open>
  What the code uses of \<^verbatim>\<open>encoding/json\<close>: \<^verbatim>\<open>json.Marshal\<close> and \<^verbatim>\<open>json.Unmarshal\<close> of a
  \<^verbatim>\<open>map[string]string\<close>. Marshal prints the keys in order and escapes quotes, backslashes, control
  characters and the HTML characters. Unmarshal parses a whole JSON value; of an object it keeps the
  string members, other members of the object are type errors that leave the rest in place. Both sides
  coerce to well-formed UTF-8: a byte that belongs to no rune becomes U+FFFD, so that the round trip gives back
  the map with \<open>to_valid\<close> names and values, which are the same only where they are valid UTF-8.
\<close>

section \<open>Marshal\<close>

definition hex4 :: "nat \<Rightarrow> string" where
  "hex4 n = [digit_char (n div 4096 mod 16), digit_char (n div 256 mod 16), digit_char (n div 16 mod 16),
     digit_char (n mod 16)]"

definition json_escape :: "char \<Rightarrow> string" where
  "json_escape c =
     (let n = of_char c :: nat in
      if c = CHR 0x22 \<or> c = CHR 0x5C then [CHR 0x5C, c]
      else if n = 8 then [CHR 0x5C, CHR ''b''] else if n = 12 then [CHR 0x5C, CHR ''f'']
      else if n = 10 then [CHR 0x5C, CHR ''n''] else if n = 13 then [CHR 0x5C, CHR ''r'']
      else if n = 9 then [CHR 0x5C, CHR ''t'']
      else if n < 32 \<or> n = 60 \<or> n = 62 \<or> n = 38 then [CHR 0x5C, CHR ''u''] @ hex4 n
      else [c])"

text \<open>The two line separators of JavaScript, U+2028 and U+2029, are escaped; a byte that begins no rune is printed as
  the escape of U+FFFD.\<close>

fun json_escapes :: "string \<Rightarrow> string" where
  "json_escapes [] = []"
| "json_escapes (c # s) =
     (let n = rune_len (c # s); r = take n (c # s) in
      (if n = 0 then CHR 0x5C # ''ufffd''
       else if n = 1 then json_escape c
       else if r = [CHR 0xE2, CHR 0x80, CHR 0xA8] then CHR 0x5C # ''u2028''
       else if r = [CHR 0xE2, CHR 0x80, CHR 0xA9] then CHR 0x5C # ''u2029''
       else r) @ json_escapes (drop (n - 1) s))"

definition json_quote :: "string \<Rightarrow> string" where
  "json_quote s = CHR 0x22 # json_escapes s @ [CHR 0x22]"

fun json_members :: "smap \<Rightarrow> string" where
  "json_members [] = ''''"
| "json_members [(k, v)] = json_quote k @ '':'' @ json_quote v"
| "json_members ((k, v) # m) = json_quote k @ '':'' @ json_quote v @ '','' @ json_members m"

definition json_marshal :: "smap \<Rightarrow> string" where
  "json_marshal m = CHR ''{'' # json_members (sort_key fst m) @ ''}''"

section \<open>Unmarshal\<close>

datatype json = JNull | JBool bool | JNum string | JStr string | JArr "json list" | JObj "(string \<times> json) list"

definition skip_ws :: "string \<Rightarrow> string" where
  "skip_ws s = dropWhile (\<lambda>c. of_char c \<in> {9, 10, 13, 32 :: nat}) s"

definition hex_digit :: "char \<Rightarrow> nat option" where
  "hex_digit c =
     (let n = of_char c :: nat in
      if 48 \<le> n \<and> n \<le> 57 then Some (n - 48)
      else if 97 \<le> n \<and> n \<le> 102 then Some (n - 87)
      else if 65 \<le> n \<and> n \<le> 70 then Some (n - 55) else None)"

definition unhex4 :: "char \<Rightarrow> char \<Rightarrow> char \<Rightarrow> char \<Rightarrow> nat option" where
  "unhex4 a b c d =
     (case (hex_digit a, hex_digit b, hex_digit c, hex_digit d) of
        (Some w, Some x, Some y, Some z) \<Rightarrow> Some (4096 * w + 256 * x + 16 * y + z)
      | _ \<Rightarrow> None)"

definition utf8 :: "nat \<Rightarrow> string" where
  "utf8 n =
     (if n < 128 then [char_of n]
      else if n < 2048 then [char_of (192 + n div 64), char_of (128 + n mod 64)]
      else if n < 65536 then [char_of (224 + n div 4096), char_of (128 + n div 64 mod 64), char_of (128 + n mod 64)]
      else [char_of (240 + n div 262144), char_of (128 + n div 4096 mod 64), char_of (128 + n div 64 mod 64), char_of (128 + n mod 64)])"

text \<open>The four digits of an escape \<^verbatim>\<open>\u\<close>. Of a surrogate the other half is taken from the escape that follows; without it,
  it stands for U+FFFD. The second component is the number of characters consumed.\<close>

definition getu4 :: "string \<Rightarrow> nat option" where
  "getu4 s = (case s of a # b # c # d # _ \<Rightarrow> unhex4 a b c d | _ \<Rightarrow> None)"

definition unescape_u :: "string \<Rightarrow> (string \<times> nat) option" where
  "unescape_u s =
     (case getu4 s of
        None \<Rightarrow> None
      | Some n \<Rightarrow>
          if n < 0xD800 \<or> 0xE000 \<le> n then Some (utf8 n, 4)
          else
            case (if HasPrefix (drop 4 s) [CHR 0x5C, CHR ''u''] then getu4 (drop 6 s) else None) of
              None \<Rightarrow> Some (rune_error, 4)
            | Some m \<Rightarrow>
                if n < 0xDC00 \<and> 0xDC00 \<le> m \<and> m < 0xE000 then Some (utf8 (0x10000 + (n - 0xD800) * 1024 + (m - 0xDC00)), 10)
                else Some (rune_error, 4))"

text \<open>The rest of a string literal after its opening quote.\<close>

fun parse_str :: "string \<Rightarrow> string \<Rightarrow> (string \<times> string) option" where
  "parse_str acc [] = None"
| "parse_str acc (c # s) =
     (if c = CHR 0x22 then Some (acc, s)
      else if c = CHR 0x5C then
        (case s of
           [] \<Rightarrow> None
         | e # s' \<Rightarrow>
             if e = CHR ''u'' then
               (case unescape_u s' of None \<Rightarrow> None | Some (t, k) \<Rightarrow> parse_str (acc @ t) (drop k s'))
             else if e = CHR 0x22 \<or> e = CHR 0x5C \<or> e = CHR ''/'' then parse_str (acc @ [e]) s'
             else if e = CHR ''b'' then parse_str (acc @ [CHR 0x08]) s'
             else if e = CHR ''f'' then parse_str (acc @ [CHR 0x0C]) s'
             else if e = CHR ''n'' then parse_str (acc @ [CHR 0x0A]) s'
             else if e = CHR ''r'' then parse_str (acc @ [CHR 0x0D]) s'
             else if e = CHR ''t'' then parse_str (acc @ [CHR 0x09]) s'
             else None)
      else if of_char c < (32 :: nat) then None
      else
        let n = rune_len (c # s) in
        parse_str (acc @ (if n = 0 then rune_error else take n (c # s))) (drop (n - 1) s))"

definition parse_num :: "string \<Rightarrow> (string \<times> string) option" where
  "parse_num s =
     (let neg = (if s \<noteq> [] \<and> hd s = CHR ''-'' then ''-'' else ''''); s1 = drop (length neg) s;
          ip = takeWhile is_digit s1; s2 = dropWhile is_digit s1;
          dot = (s2 \<noteq> [] \<and> hd s2 = CHR ''.'');
          fp = (if dot then takeWhile is_digit (tl s2) else ''''); s3 = (if dot then dropWhile is_digit (tl s2) else s2);
          ex = (s3 \<noteq> [] \<and> (hd s3 = CHR ''e'' \<or> hd s3 = CHR ''E''));
          s4 = (if ex then tl s3 else s3);
          sg = (if ex \<and> s4 \<noteq> [] \<and> (hd s4 = CHR ''+'' \<or> hd s4 = CHR ''-'') then [hd s4] else '''');
          s5 = drop (length sg) s4;
          ep = (if ex then takeWhile is_digit s5 else ''''); s6 = (if ex then dropWhile is_digit s5 else s5)
      in if ip = '''' \<or> (hd ip = CHR ''0'' \<and> length ip > 1) \<or> (dot \<and> fp = '''') \<or> (ex \<and> ep = '''') then None
         else Some (take (length s - length s6) s, s6))"

text \<open>The parser takes fuel, which decreases with every value and member; the length of the text is
  enough, since each consumes a character.\<close>

fun parse_value :: "nat \<Rightarrow> string \<Rightarrow> (json \<times> string) option"
  and parse_items :: "nat \<Rightarrow> json list \<Rightarrow> string \<Rightarrow> (json \<times> string) option"
  and parse_members :: "nat \<Rightarrow> (string \<times> json) list \<Rightarrow> string \<Rightarrow> (json \<times> string) option"
where
  "parse_value 0 s = None"
| "parse_value (Suc f) s =
     (let s = skip_ws s in
      if s = [] then None
      else if hd s = CHR 0x22 then
        (case parse_str [] (tl s) of None \<Rightarrow> None | Some (t, r) \<Rightarrow> Some (JStr t, r))
      else if hd s = CHR ''{'' then
        (let r = skip_ws (tl s) in
         if r \<noteq> [] \<and> hd r = CHR ''}'' then Some (JObj [], tl r) else parse_members f [] r)
      else if hd s = CHR ''['' then
        (let r = skip_ws (tl s) in
         if r \<noteq> [] \<and> hd r = CHR '']'' then Some (JArr [], tl r) else parse_items f [] r)
      else if HasPrefix s ''null'' then Some (JNull, drop 4 s)
      else if HasPrefix s ''true'' then Some (JBool True, drop 4 s)
      else if HasPrefix s ''false'' then Some (JBool False, drop 5 s)
      else (case parse_num s of None \<Rightarrow> None | Some (t, r) \<Rightarrow> Some (JNum t, r)))"
| "parse_items 0 acc s = None"
| "parse_items (Suc f) acc s =
     (case parse_value f s of
        None \<Rightarrow> None
      | Some (v, r) \<Rightarrow>
          let r = skip_ws r in
          if r = [] then None
          else if hd r = CHR '','' then parse_items f (acc @ [v]) (tl r)
          else if hd r = CHR '']'' then Some (JArr (acc @ [v]), tl r)
          else None)"
| "parse_members 0 acc s = None"
| "parse_members (Suc f) acc s =
     (let s = skip_ws s in
      if s = [] \<or> hd s \<noteq> CHR 0x22 then None
      else case parse_str [] (tl s) of
             None \<Rightarrow> None
           | Some (k, r) \<Rightarrow>
               let r = skip_ws r in
               if r = [] \<or> hd r \<noteq> CHR '':'' then None
               else case parse_value f (tl r) of
                      None \<Rightarrow> None
                    | Some (v, r) \<Rightarrow>
                        let r = skip_ws r in
                        if r = [] then None
                        else if hd r = CHR '','' then parse_members f (acc @ [(k, v)]) (tl r)
                        else if hd r = CHR ''}'' then Some (JObj (acc @ [(k, v)]), tl r)
                        else None)"

definition json_parse :: "string \<Rightarrow> json option" where
  "json_parse s =
     (case parse_value (Suc (length s)) s of
        Some (v, r) \<Rightarrow> if skip_ws r = [] then Some v else None
      | None \<Rightarrow> None)"

text \<open>\<^verbatim>\<open>json.Unmarshal(data, &m)\<close> for an empty \<^verbatim>\<open>map[string]string\<close> \<open>m\<close>, with the error ignored as in the
  code: the map afterwards.\<close>

definition set_member :: "string \<times> json \<Rightarrow> smap \<Rightarrow> smap" where
  "set_member kv m =
     (case snd kv of
        JStr v \<Rightarrow> AList.update (fst kv) v m
      | JNull \<Rightarrow> AList.update (fst kv) '''' m
      | _ \<Rightarrow> m)"

definition json_unmarshal :: "string \<Rightarrow> smap" where
  "json_unmarshal s =
     (case json_parse s of
        Some (JObj ms) \<Rightarrow> fold set_member ms []
      | _ \<Rightarrow> [])"

section \<open>Round trip\<close>

lemma hex_digit_digit_char [simp]: "d < 16 \<Longrightarrow> hex_digit (digit_char d) = Some d"
  by (simp add: hex_digit_def digit_char_def)

lemma parse_str_u:
  assumes "n < 0xD800 \<or> 0xE000 \<le> n" and "n < 65536"
  shows "parse_str acc (CHR 0x5C # CHR ''u'' # hex4 n @ s) = parse_str (acc @ utf8 n) s"
proof -
  have "unhex4 (digit_char (n div 4096 mod 16)) (digit_char (n div 256 mod 16)) (digit_char (n div 16 mod 16)) (digit_char (n mod 16)) = Some n"
  proof -
    have "n div 16 = 16 * (n div 256) + n div 16 mod 16" "n div 256 = 16 * (n div 4096) + n div 256 mod 16" "n = 16 * (n div 16) + n mod 16"
      using div_mult2_eq [of n 16 16] div_mult2_eq [of n 256 16] by simp_all
    then have "4096 * (n div 4096) + 256 * (n div 256 mod 16) + 16 * (n div 16 mod 16) + n mod 16 = n" by linarith
    then show ?thesis using assms(2) by (simp add: unhex4_def)
  qed
  then have "unescape_u (hex4 n @ s) = Some (utf8 n, 4)" using assms(1) by (simp add: unescape_u_def getu4_def hex4_def)
  then show ?thesis by (simp add: hex4_def)
qed

lemma parse_str_escape:
  assumes "of_char c < (128 :: nat)"
  shows "parse_str acc (json_escape c @ s) = parse_str (acc @ [c]) s"
proof -
  let ?n = "of_char c :: nat"
  have u: "parse_str acc (CHR 0x5C # CHR ''u'' # hex4 ?n @ s) = parse_str (acc @ [c]) s"
    using parse_str_u [of ?n acc s] assms by (simp add: utf8_def)
  have c: "?n = 8 \<Longrightarrow> c = CHR 0x08" "?n = 12 \<Longrightarrow> c = CHR 0x0C" "?n = 10 \<Longrightarrow> c = CHR 0x0A"
    "?n = 13 \<Longrightarrow> c = CHR 0x0D" "?n = 9 \<Longrightarrow> c = CHR 0x09"
    using of_char_eq_iff [of c "CHR 0x08", where 'a = nat] of_char_eq_iff [of c "CHR 0x0C", where 'a = nat]
      of_char_eq_iff [of c "CHR 0x0A", where 'a = nat] of_char_eq_iff [of c "CHR 0x0D", where 'a = nat]
      of_char_eq_iff [of c "CHR 0x09", where 'a = nat]
    by (simp_all del: of_char_eq_iff)
  show ?thesis
    using u c assms by (auto simp: json_escape_def Let_def)
qed

lemma parse_str_rune:
  assumes "1 < rune_len (c # s)"
  shows "parse_str acc (take (rune_len (c # s)) (c # s) @ t) = parse_str (acc @ take (rune_len (c # s)) (c # s)) t"
proof -
  let ?n = "rune_len (c # s)"
  have big: "128 \<le> (of_char c :: nat)" using assms by (metis less_irrefl not_le rune_len_ascii)
  have t: "rune_len (take ?n (c # s) @ t) = ?n" "?n \<le> length (c # s)" using rune_len_take(1) [of "c # s" t] rune_len_take(2) [of "c # s"] assms by auto
  obtain m where m: "?n = Suc m" using assms by (cases ?n) auto
  have "rune_len (c # take m s @ t) = Suc m" "m \<le> length s" using t m by simp_all
  moreover have "c \<noteq> CHR 0x22" "c \<noteq> CHR 0x5C" "\<not> of_char c < (32 :: nat)" using big by auto
  ultimately show ?thesis by (simp add: m Let_def)
qed

lemma separators:
  "hex4 0xFFFD = ''fffd''" "hex4 0x2028 = ''2028''" "hex4 0x2029 = ''2029''" "utf8 0xFFFD = rune_error"
  "utf8 0x2028 = [CHR 0xE2, CHR 0x80, CHR 0xA8]" "utf8 0x2029 = [CHR 0xE2, CHR 0x80, CHR 0xA9]"
  by (simp_all add: hex4_def digit_char_def utf8_def rune_error_def char_of_eq_iff)

lemma parse_str_escapes:
  "parse_str acc (json_escapes s @ CHR 0x22 # r) = Some (acc @ to_valid s, r)"
proof (induction s arbitrary: acc rule: json_escapes.induct)
  case (2 c s)
  let ?n = "rune_len (c # s)" and ?r = "take (rune_len (c # s)) (c # s)"
  have ih: "parse_str acc (json_escapes (drop (?n - 1) s) @ CHR 0x22 # r) = Some (acc @ to_valid (drop (?n - 1) s), r)" for acc
    by (rule "2.IH") simp_all
  have u: "parse_str acc (CHR 0x5C # ''ufffd'' @ t) = parse_str (acc @ rune_error) t"
    "parse_str acc (CHR 0x5C # ''u2028'' @ t) = parse_str (acc @ [CHR 0xE2, CHR 0x80, CHR 0xA8]) t"
    "parse_str acc (CHR 0x5C # ''u2029'' @ t) = parse_str (acc @ [CHR 0xE2, CHR 0x80, CHR 0xA9]) t" for t
    using parse_str_u [of "0xFFFD" acc t] parse_str_u [of "0x2028" acc t] parse_str_u [of "0x2029" acc t]
    by (simp_all add: separators del: parse_str.simps)
  consider "?n = 0" | "?n = 1" | "1 < ?n" by linarith
  then show ?case
  proof cases
    case 1
    then show ?thesis using u(1) ih by (simp add: Let_def to_valid.simps(2) del: parse_str.simps)
  next
    case 2
    then have "of_char c < (128 :: nat)" by (rule rune_len_one)
    then show ?thesis using 2 parse_str_escape ih by (simp add: Let_def to_valid.simps(2) del: parse_str.simps)
  next
    case 3
    then show ?thesis using u(2,3) ih parse_str_rune [OF 3]
      by (auto simp: Let_def to_valid.simps(2) simp del: parse_str.simps take_Suc_Cons)
  qed
qed simp

lemma skip_ws_char [simp]:
  "skip_ws (CHR 0x22 # s) = CHR 0x22 # s" "skip_ws (CHR '':'' # s) = CHR '':'' # s"
  "skip_ws (CHR '','' # s) = CHR '','' # s" "skip_ws (CHR ''{'' # s) = CHR ''{'' # s"
  "skip_ws (CHR ''}'' # s) = CHR ''}'' # s" "skip_ws [] = []"
  by (simp_all add: skip_ws_def)

lemma parse_value_quote: "parse_value (Suc f) (json_quote v @ r) = Some (JStr (to_valid v), r)"
  by (simp add: json_quote_def Let_def parse_str_escapes [of "[]", simplified])

lemma parse_member:
  "parse_members (Suc (Suc f)) acc (json_quote k @ CHR '':'' # json_quote v @ r) =
     (let r = skip_ws r in
      if r = [] then None
      else if hd r = CHR '','' then parse_members (Suc f) (acc @ [(to_valid k, JStr (to_valid v))]) (tl r)
      else if hd r = CHR ''}'' then Some (JObj (acc @ [(to_valid k, JStr (to_valid v))]), tl r)
      else None)"
  using parse_value_quote [of f v r] parse_str_escapes [of "[]" k "CHR '':'' # json_quote v @ r"]
  by (simp add: json_quote_def [of k] Let_def del: parse_value.simps)

lemma fuel_two: "Suc n < f \<Longrightarrow> \<exists>f'. f = Suc (Suc f') \<and> n \<le> f'"
  by (auto simp: less_iff_Suc_add)

lemma parse_json_members:
  assumes "m \<noteq> []" and "length m < f"
  shows "parse_members f acc (json_members m @ ''}'') = Some (JObj (acc @ map (\<lambda>(k, v). (to_valid k, JStr (to_valid v))) m), [])"
  using assms
proof (induction m arbitrary: acc f rule: json_members.induct)
  case 1
  then show ?case by simp
next
  case (2 k v)
  obtain f' where "f = Suc (Suc f')" using fuel_two [of 0 f] "2.prems" by auto
  then show ?case using parse_member [of f' acc k v "''}''"] by (simp del: parse_members.simps)
next
  case (3 k v kv m)
  obtain f' where f: "f = Suc (Suc f')" "length (kv # m) < Suc f'"
    using fuel_two [of "length (kv # m)" f] "3.prems"(2) by auto
  then show ?case
    using "3.IH" [of "Suc f'" "acc @ [(to_valid k, JStr (to_valid v))]"] parse_member [of f' acc k v "'','' @ json_members (kv # m) @ ''}''"]
    by (simp del: parse_members.simps json_members.simps(2,3) add: json_members.simps(3) [of k v kv m])
qed

lemma length_json_members: "length m \<le> length (json_members m)"
  by (induction m rule: json_members.induct) (auto simp: json_quote_def)

lemma json_members_hd: "m \<noteq> [] \<Longrightarrow> \<exists>s. json_members m = CHR 0x22 # s"
  by (induction m rule: json_members.induct) (auto simp: json_quote_def)

lemma json_parse_marshal:
  "json_parse (json_marshal m) = Some (JObj (map (\<lambda>(k, v). (to_valid k, JStr (to_valid v))) (sort_key fst m)))"
proof (cases "m = []")
  case True
  then show ?thesis by (simp add: json_parse_def json_marshal_def Let_def)
next
  case False
  let ?m = "sort_key fst m"
  have m: "?m \<noteq> []" using False by (metis length_0_conv length_sort)
  obtain s where s: "json_members ?m = CHR 0x22 # s" using json_members_hd [OF m] by blast
  have "parse_members (length (json_marshal m)) [] (json_members ?m @ ''}'')
      = Some (JObj (map (\<lambda>(k, v). (to_valid k, JStr (to_valid v))) ?m), [])"
    using parse_json_members [OF m, of "length (json_marshal m)" "[]"] length_json_members [of ?m]
    by (simp add: json_marshal_def)
  then have "parse_value (Suc (length (json_marshal m))) (json_marshal m)
      = Some (JObj (map (\<lambda>(k, v). (to_valid k, JStr (to_valid v))) ?m), [])"
    using s by (simp add: json_marshal_def Let_def del: parse_members.simps)
  then show ?thesis by (simp add: json_parse_def del: parse_value.simps)
qed

lemma fold_set_member:
  "fold set_member (map (\<lambda>(k, v). (to_valid k, JStr (to_valid v))) m) e = sm_merge e (map (map_prod to_valid to_valid) m)"
  by (induction m arbitrary: e) (auto simp: set_member_def)

text \<open>Unmarshal after Marshal gives the map with its names and values made valid, later entries in the order of the names
  replacing earlier ones; a map in valid UTF-8 comes back as it was.\<close>

lemma json_unmarshal_marshal:
  "json_unmarshal (json_marshal m) = sm_merge [] (map (map_prod to_valid to_valid) (sort_key fst m))"
  by (simp add: json_unmarshal_def json_parse_marshal fold_set_member)

lemma map_of_sm_merge_rev: "map_of (sm_merge m e) k = (case map_of (rev e) k of None \<Rightarrow> map_of m k | Some v \<Rightarrow> Some v)"
  by (induction e arbitrary: m) (auto simp: AList.update_conv' map_add_def split: option.splits)

lemma map_of_coerced:
  "ascii k \<Longrightarrow> map_of (map (map_prod to_valid to_valid) m) k = map_option to_valid (map_of m k)"
  by (induction m) (auto simp: to_valid_eq_ascii dest: to_valid_ascii)

lemma sorted_same: "wf_smap m \<Longrightarrow> map_of (sort_key fst m) = map_of m \<and> wf_smap (sort_key fst m)"
  using map_of_inject_set [of "sort_key fst m" m] by (simp add: wf_smap_def distinct_map)

text \<open>Under an ASCII name the value comes back, made valid, whatever else the map holds.\<close>

lemma json_roundtrip_at:
  assumes "wf_smap m" and "ascii k"
  shows "map_of (json_unmarshal (json_marshal m)) k = map_option to_valid (map_of m k)"
proof -
  have "map_of (rev (sort_key fst m)) = map_of m"
    using sorted_same [OF assms(1)] map_of_inject_set [of "rev (sort_key fst m)" "sort_key fst m"]
    by (simp add: wf_smap_def rev_map [symmetric])
  then show ?thesis
    using map_of_coerced [OF assms(2), of "rev (sort_key fst m)"]
    by (simp add: json_unmarshal_marshal map_of_sm_merge_rev rev_map split: option.splits)
qed

lemma json_roundtrip:
  assumes "wf_smap m" and "utf8_smap m"
  shows "map_of (json_unmarshal (json_marshal m)) = map_of m"
proof -
  have "map (map_prod to_valid to_valid) (sort_key fst m) = sort_key fst m"
    using assms(2) to_valid_valid by (intro map_idI) (auto simp: utf8_smap_def)
  then show ?thesis
    using sorted_same [OF assms(1)] by (simp add: json_unmarshal_marshal map_of_sm_merge)
qed

text \<open>Other values do not come back: \<^verbatim>\<open>caf\<close> followed by the byte of Latin-1 returns with U+FFFD.\<close>

lemma json_changes_latin1:
  "json_unmarshal (json_marshal [(''n'', [CHR ''c'', CHR ''a'', CHR ''f'', CHR 0xE9])]) = [(''n'', ''caf'' @ rune_error)]"
  by (simp add: json_unmarshal_marshal rune_simps rune_tail_def Let_def)

end
