(* ===== verification/Storage_Backend.thy ===== *)
theory Storage_Backend
  imports Config Go_JSON
begin

text \<open>
  \<^verbatim>\<open>internal/storage/backend.go\<close>: the data of the storage layer and the interface \<^verbatim>\<open>storage.Backend\<close>, as a
  record of operations over the state \<open>'b\<close> of a backend. What the layers above rely on is the locale
  \<open>object_store\<close>: an object that was stored is read back with its bytes, size and metadata, and
  stores to other objects do not disturb it. It is interpreted on the file system backend, and the
  encrypting backend over any object store is one again.
\<close>

section \<open>Data\<close>

record bucket_info =
  bi_Name :: string
  bi_CreationDate :: time

record object_info =
  oi_Key :: string
  oi_Size :: int
  oi_ETag :: string
  oi_LastModified :: time
  oi_StorageClass :: string
  oi_ContentType :: string
  oi_Metadata :: smap

record list_objects_result =
  lr_IsTruncated :: bool
  lr_Contents :: "object_info list"
  lr_NextMarker :: string
  lr_CommonPrefixes :: "string list"

record s3_object =
  ob_Body :: reader
  ob_ContentType :: string
  ob_Size :: int
  ob_ETag :: string
  ob_Metadata :: smap
  ob_LastModified :: time

record owner =
  ow_ID :: string
  ow_DisplayName :: string

record grantee =
  ge_Type :: string
  ge_ID :: string
  ge_DisplayName :: string
  ge_URI :: string

record grant =
  gr_Grantee :: grantee
  gr_Permission :: string

record acl =
  acl_Owner :: owner
  acl_Grants :: "grant list"

record completed_part =
  cp_PartNumber :: int
  cp_ETag :: string

record part =
  pt_PartNumber :: int
  pt_ETag :: string
  pt_Size :: int
  pt_LastModified :: time

record list_parts_result =
  lp_Bucket :: string
  lp_Key :: string
  lp_UploadID :: string
  lp_PartNumberMarker :: int
  lp_NextPartNumberMarker :: int
  lp_MaxParts :: int
  lp_IsTruncated :: bool
  lp_Parts :: "part list"

section \<open>The interface\<close>

text \<open>The context argument is left out, and the clock an operation reads is part of the state.\<close>

record 'b backend =
  bk_ListBuckets :: "'b \<Rightarrow> bucket_info list res \<times> 'b"
  bk_CreateBucket :: "'b \<Rightarrow> string \<Rightarrow> unit res \<times> 'b"
  bk_DeleteBucket :: "'b \<Rightarrow> string \<Rightarrow> unit res \<times> 'b"
  bk_BucketExists :: "'b \<Rightarrow> string \<Rightarrow> bool res \<times> 'b"
  bk_ListObjects :: "'b \<Rightarrow> string \<Rightarrow> string \<Rightarrow> string \<Rightarrow> int \<Rightarrow> list_objects_result res \<times> 'b"
  bk_ListObjectsWithDelimiter ::
    "'b \<Rightarrow> string \<Rightarrow> string \<Rightarrow> string \<Rightarrow> string \<Rightarrow> int \<Rightarrow> list_objects_result res \<times> 'b"
  bk_GetObject :: "'b \<Rightarrow> string \<Rightarrow> string \<Rightarrow> s3_object res \<times> 'b"
  bk_PutObject :: "'b \<Rightarrow> string \<Rightarrow> string \<Rightarrow> reader \<Rightarrow> int \<Rightarrow> smap \<Rightarrow> unit res \<times> 'b"
  bk_DeleteObject :: "'b \<Rightarrow> string \<Rightarrow> string \<Rightarrow> unit res \<times> 'b"
  bk_HeadObject :: "'b \<Rightarrow> string \<Rightarrow> string \<Rightarrow> object_info res \<times> 'b"
  bk_GetObjectACL :: "'b \<Rightarrow> string \<Rightarrow> string \<Rightarrow> acl res \<times> 'b"
  bk_PutObjectACL :: "'b \<Rightarrow> string \<Rightarrow> string \<Rightarrow> acl option \<Rightarrow> unit res \<times> 'b"
  bk_InitiateMultipartUpload :: "'b \<Rightarrow> string \<Rightarrow> string \<Rightarrow> smap \<Rightarrow> string res \<times> 'b"
  bk_UploadPart :: "'b \<Rightarrow> string \<Rightarrow> string \<Rightarrow> string \<Rightarrow> int \<Rightarrow> reader \<Rightarrow> int \<Rightarrow> string res \<times> 'b"
  bk_CompleteMultipartUpload ::
    "'b \<Rightarrow> string \<Rightarrow> string \<Rightarrow> string \<Rightarrow> completed_part list \<Rightarrow> unit res \<times> 'b"
  bk_AbortMultipartUpload :: "'b \<Rightarrow> string \<Rightarrow> string \<Rightarrow> string \<Rightarrow> unit res \<times> 'b"
  bk_ListParts :: "'b \<Rightarrow> string \<Rightarrow> string \<Rightarrow> string \<Rightarrow> int \<Rightarrow> int \<Rightarrow> list_parts_result res \<times> 'b"

text \<open>\<^verbatim>\<open>NewBackend\<close>: the constructors of the three backends are its arguments.\<close>

definition NewBackend ::
  "(azure_storage_config option \<Rightarrow> 'x res) \<Rightarrow> (s3_storage_config option \<Rightarrow> 'x res)
     \<Rightarrow> (filesystem_config \<Rightarrow> 'x res) \<Rightarrow> storage_config \<Rightarrow> 'x res" where
  "NewBackend newAzure newS3 newFS cfg =
     (if sc_Provider cfg = ''azure'' \<or> sc_Provider cfg = ''azureblob'' then newAzure (sc_Azure cfg)
      else if sc_Provider cfg = ''s3'' then newS3 (sc_S3 cfg)
      else if sc_Provider cfg = ''filesystem'' then
        (case sc_FileSystem cfg of
           None \<Rightarrow> Err (ErrNew ''filesystem configuration required'')
         | Some fc \<Rightarrow> newFS fc)
      else Err (ErrNew (''unsupported storage provider: '' @ sc_Provider cfg)))"

section \<open>The contract\<close>

text \<open>
  \<open>ok\<close> is the invariant of the backend's state, \<open>okey\<close> the object names the contract covers (a name that
  leaves its bucket, or that collides with the files a backend keeps beside the objects, is not
  covered), \<open>seen\<close> the metadata names that come back (an ASCII name with a value in valid UTF-8: a backend may change the others), \<open>fits\<close> the sizes it covers. A store with empty metadata promises nothing
  about the metadata read later, and neither does one with a wrong size; what a name without a readable body stands for (a directory) may
  change with stores below it.
\<close>

locale object_store =
  fixes bk :: "'b backend"
    and ok :: "'b \<Rightarrow> bool"
    and okey :: "string \<Rightarrow> string \<Rightarrow> bool"
    and seen :: "string \<Rightarrow> bool"
    and fits :: "int \<Rightarrow> bool"
  assumes put_ok: "ok s \<Longrightarrow> bk_PutObject bk s b k r n md = (x, s') \<Longrightarrow> ok s'"
    and get_ok: "ok s \<Longrightarrow> bk_GetObject bk s b k = (y, s') \<Longrightarrow> ok s'"
    and get_put:
      "ok s \<Longrightarrow> okey b k \<Longrightarrow> md \<noteq> [] \<Longrightarrow> wf_smap md \<Longrightarrow> n = int (length (rd_data r)) \<Longrightarrow> fits n \<Longrightarrow>
       bk_PutObject bk s b k r n md = (Ok (), s') \<Longrightarrow>
       \<exists>ob s''. bk_GetObject bk s' b k = (Ok ob, s'') \<and> rd_err r = None \<and> ob_Body ob = bytes_reader (rd_data r)
         \<and> ob_Size ob = int (length (rd_data r)) \<and> wf_smap (ob_Metadata ob)
         \<and> (\<forall>m. seen m \<and> ascii m \<and> valid_utf8 (sm_get md m) \<longrightarrow> sm_get (ob_Metadata ob) m = sm_get md m)"
    and get_put_other:
      "ok s \<Longrightarrow> okey b k \<Longrightarrow> okey b' k' \<Longrightarrow> (b', k') \<noteq> (b, k) \<Longrightarrow> bk_PutObject bk s b k r n md = (x, s') \<Longrightarrow>
       bk_GetObject bk s b' k' = (Ok ob, t) \<Longrightarrow> rd_err (ob_Body ob) = None \<Longrightarrow>
       \<exists>t'. bk_GetObject bk s' b' k' = (Ok ob, t')"
begin

text \<open>An object survives any sequence of stores to other names.\<close>

lemma get_after_puts:
  assumes "ok s" and "okey b k" and "bk_GetObject bk s b k = (Ok ob, t)" and "rd_err (ob_Body ob) = None"
    and "\<forall>(b', k', r, n, md) \<in> set ps. okey b' k' \<and> (b', k') \<noteq> (b, k)"
  shows "\<exists>t'. bk_GetObject bk (fold (\<lambda>(b', k', r, n, md) s. snd (bk_PutObject bk s b' k' r n md)) ps s) b k = (Ok ob, t')"
  using assms
proof (induction ps arbitrary: s t)
  case Nil
  then show ?case by auto
next
  case (Cons p ps)
  obtain b' k' r n md where p: "p = (b', k', r, n, md)" by (cases p)
  obtain x s' where put: "bk_PutObject bk s b' k' r n md = (x, s')" by (cases "bk_PutObject bk s b' k' r n md")
  have "ok s'" using put_ok Cons.prems(1) put by blast
  moreover obtain t' where "bk_GetObject bk s' b k = (Ok ob, t')"
    using get_put_other [OF Cons.prems(1) _ Cons.prems(2) _ put Cons.prems(3,4)] Cons.prems(5) by (auto simp: p)
  ultimately show ?case using Cons.IH [of s' t'] Cons.prems(2,4,5) by (simp add: p put)
qed

end

end
