(* ===== verification/Go_OS.thy ===== *)
theory Go_OS
  imports Go_Base
begin

text \<open>
  What the file system backend uses of \<^verbatim>\<open>path/filepath\<close> and \<^verbatim>\<open>os\<close> on a Unix system. A path is its list of
  components after \<^verbatim>\<open>filepath.Clean\<close>, an absolute one with the root as first component. The tree is an
  association list from paths to files and directories; a relative path starts at the working
  directory, which like the root always exists. A call fails where the shape of the tree makes it
  fail (missing entry, not a directory, a directory in place of a file, a non-empty directory).
  Permissions, full disks, symbolic links and the names a Unix kernel rejects (a component of more than 255 bytes, a NUL byte) are not
  modelled: what is proved of a call that succeeds or fails here is about a disk that has room and lets the server write, and about
  names the kernel takes.
\<close>

section \<open>Package path/filepath\<close>

type_synonym fpath = "string list"

definition clean_step :: "fpath \<Rightarrow> string \<Rightarrow> fpath" where
  "clean_step st c =
     (if c = '''' \<or> c = ''.'' then st
      else if c = ''..'' then
        (if st = [] \<or> last st = ''..'' then st @ [''..'']
         else if last st = ''/'' then st
         else butlast st)
      else st @ [c])"

definition clean_from :: "fpath \<Rightarrow> string list \<Rightarrow> fpath" where
  "clean_from st cs = foldl clean_step st cs"

text \<open>\<^verbatim>\<open>filepath.Join\<close>: empty elements are dropped, the others joined with slashes and cleaned.\<close>

definition Join :: "string list \<Rightarrow> fpath" where
  "Join elems =
     (case filter (\<lambda>e. e \<noteq> '''') elems of
        [] \<Rightarrow> []
      | e # es \<Rightarrow>
          clean_from (if HasPrefix e ''/'' then [''/''] else []) (concat (map (\<lambda>x. Split x ''/'') (e # es))))"

definition path_string :: "fpath \<Rightarrow> string" where
  "path_string p =
     (case p of
        [] \<Rightarrow> ''.''
      | c # cs \<Rightarrow>
          if c = ''/'' then ''/'' @ concat (map (\<lambda>(i, x). if i = 0 then x else ''/'' @ x) (zip [0..<length cs] cs))
          else concat (map (\<lambda>(i, x). if i = 0 then x else ''/'' @ x) (zip [0..<length p] p)))"

text \<open>A path joined below another one, and a suffix glued to its last component.\<close>

definition Join_path :: "fpath \<Rightarrow> string list \<Rightarrow> fpath" where
  "Join_path p elems = clean_from p (concat (map (\<lambda>x. Split x ''/'') (filter (\<lambda>e. e \<noteq> '''') elems)))"

definition path_suffix :: "fpath \<Rightarrow> string \<Rightarrow> fpath" where
  "path_suffix p s =
     (if p = [] then [''.'' @ s] else if p = [''/''] then [''/'', s] else butlast p @ [last p @ s])"

definition Dir_of :: "fpath \<Rightarrow> fpath" where
  "Dir_of p = (if p = [''/''] then p else butlast p)"

text \<open>\<open>Some rest\<close> when the first path is a directory above the second one, or equal to it.\<close>

fun below :: "fpath \<Rightarrow> fpath \<Rightarrow> fpath option" where
  "below [] q = Some q"
| "below (c # p) [] = None"
| "below (c # p) (d # q) = (if c = d then below p q else None)"

lemma below_iff: "below p q = Some r \<longleftrightarrow> q = p @ r"
  by (induction p q rule: below.induct) auto

lemma below_None: "below p q = None \<longleftrightarrow> (\<nexists>r. q = p @ r)"
  using below_iff by (metis option.exhaust option.simps(3))

section \<open>Package os\<close>

datatype node = File (nd_data: bytes) (nd_mtime: time) | Dir (nd_mtime: time)

type_synonym tree = "(fpath \<times> node) list"

primrec is_Dir :: "node \<Rightarrow> bool" where
  "is_Dir (File bs t) = False"
| "is_Dir (Dir t) = True"

definition err_notdir :: "string \<Rightarrow> fpath \<Rightarrow> go_error" where
  "err_notdir op p = ErrNew (op @ '' '' @ path_string p @ '': not a directory'')"

definition err_isdir :: "string \<Rightarrow> fpath \<Rightarrow> go_error" where
  "err_isdir op p = ErrNew (op @ '' '' @ path_string p @ '': is a directory'')"

definition err_noent :: "string \<Rightarrow> fpath \<Rightarrow> go_error" where
  "err_noent op p = ErrNotExist (op @ '' '' @ path_string p)"

definition is_root :: "fpath \<Rightarrow> bool" where
  "is_root p \<longleftrightarrow> p = [] \<or> p = [''/'']"

definition lookup :: "tree \<Rightarrow> fpath \<Rightarrow> node option" where
  "lookup t p = (case map_of t p of Some n \<Rightarrow> Some n | None \<Rightarrow> if is_root p then Some (Dir 0) else None)"

definition ancestors :: "fpath \<Rightarrow> fpath list" where
  "ancestors p = map (\<lambda>i. take i p) [1..<length p]"

definition under_file :: "tree \<Rightarrow> fpath \<Rightarrow> bool" where
  "under_file t p \<longleftrightarrow> list_ex (\<lambda>q. case lookup t q of Some (File bs m) \<Rightarrow> True | _ \<Rightarrow> False) (ancestors p)"

definition Stat :: "string \<Rightarrow> tree \<Rightarrow> fpath \<Rightarrow> node res" where
  "Stat op t p =
     (case lookup t p of
        Some n \<Rightarrow> Ok n
      | None \<Rightarrow> if under_file t p then Err (err_notdir op p) else Err (err_noent op p))"

definition os_IsNotExist :: "'a res \<Rightarrow> bool" where
  "os_IsNotExist r = (case r of Err (ErrNotExist s) \<Rightarrow> True | _ \<Rightarrow> False)"

definition touch_dir :: "time \<Rightarrow> fpath \<Rightarrow> tree \<Rightarrow> tree" where
  "touch_dir now p t = (case map_of t p of Some (Dir m) \<Rightarrow> AList.update p (Dir now) t | _ \<Rightarrow> t)"

definition put_node :: "time \<Rightarrow> fpath \<Rightarrow> node \<Rightarrow> tree \<Rightarrow> tree" where
  "put_node now p n t =
     (if map_of t p = None then touch_dir now (Dir_of p) (AList.update p n t) else AList.update p n t)"

text \<open>\<^verbatim>\<open>os.MkdirAll\<close>: every directory of the path that is missing is created, from the top.\<close>

fun mkdirs :: "time \<Rightarrow> fpath list \<Rightarrow> tree \<Rightarrow> unit res \<times> tree" where
  "mkdirs now [] t = (Ok (), t)"
| "mkdirs now (p # ps) t =
     (case lookup t p of
        Some (Dir m) \<Rightarrow> mkdirs now ps t
      | Some (File bs m) \<Rightarrow> (Err (err_notdir ''mkdir'' p), t)
      | None \<Rightarrow> mkdirs now ps (put_node now p (Dir now) t))"

definition MkdirAll :: "time \<Rightarrow> tree \<Rightarrow> fpath \<Rightarrow> unit res \<times> tree" where
  "MkdirAll now t p = mkdirs now (ancestors p @ (if p = [] then [] else [p])) t"

text \<open>\<^verbatim>\<open>os.Create\<close>: an empty file, new or truncated.\<close>

definition Create :: "time \<Rightarrow> tree \<Rightarrow> fpath \<Rightarrow> unit res \<times> tree" where
  "Create now t p =
     (case lookup t p of
        Some (Dir m) \<Rightarrow> (Err (err_isdir ''open'' p), t)
      | Some (File bs m) \<Rightarrow> (Ok (), put_node now p (File [] now) t)
      | None \<Rightarrow>
          (case lookup t (Dir_of p) of
             Some (Dir m) \<Rightarrow> (Ok (), put_node now p (File [] now) t)
           | _ \<Rightarrow> if under_file t p then (Err (err_notdir ''open'' p), t) else (Err (err_noent ''open'' p), t)))"

text \<open>\<^verbatim>\<open>io.CopyBuffer\<close> into a file that was created: all that the reader delivers is appended, then its
  error is returned.\<close>

definition CopyTo :: "time \<Rightarrow> tree \<Rightarrow> fpath \<Rightarrow> reader \<Rightarrow> unit res \<times> tree" where
  "CopyTo now t p r =
     (let old = (case lookup t p of Some (File bs m) \<Rightarrow> bs | _ \<Rightarrow> [])
      in (case rd_err r of None \<Rightarrow> Ok () | Some e \<Rightarrow> Err e, put_node now p (File (old @ rd_data r) now) t))"

definition ReadFile :: "tree \<Rightarrow> fpath \<Rightarrow> bytes res" where
  "ReadFile t p =
     (case Stat ''open'' t p of
        Ok (File bs m) \<Rightarrow> Ok bs
      | Ok (Dir m) \<Rightarrow> Err (err_isdir ''read'' p)
      | Err e \<Rightarrow> Err e
      | Panic s \<Rightarrow> Panic s)"

definition WriteFile :: "time \<Rightarrow> tree \<Rightarrow> fpath \<Rightarrow> bytes \<Rightarrow> unit res \<times> tree" where
  "WriteFile now t p bs =
     (case Create now t p of
        (Ok _, t') \<Rightarrow> (Ok (), put_node now p (File bs now) t')
      | (r, t') \<Rightarrow> (r, t'))"

text \<open>The reader \<^verbatim>\<open>os.Open\<close> gives: reading a directory fails.\<close>

definition Open_file :: "tree \<Rightarrow> fpath \<Rightarrow> reader res" where
  "Open_file t p =
     (case Stat ''open'' t p of
        Ok (File bs m) \<Rightarrow> Ok (bytes_reader bs)
      | Ok (Dir m) \<Rightarrow> Ok \<lparr>rd_data = [], rd_err = Some (err_isdir ''read'' p)\<rparr>
      | Err e \<Rightarrow> Err e
      | Panic s \<Rightarrow> Panic s)"

definition children :: "tree \<Rightarrow> fpath \<Rightarrow> (fpath \<times> node) list" where
  "children t p = filter (\<lambda>(q, n). \<exists>c \<in> set q. q = p @ [c]) t"

definition Remove :: "time \<Rightarrow> tree \<Rightarrow> fpath \<Rightarrow> unit res \<times> tree" where
  "Remove now t p =
     (case Stat ''remove'' t p of
        Ok (File bs m) \<Rightarrow> (Ok (), touch_dir now (Dir_of p) (AList.delete p t))
      | Ok (Dir m) \<Rightarrow>
          if is_root p \<or> children t p \<noteq> []
          then (Err (ErrNew (''remove '' @ path_string p @ '': directory not empty'')), t)
          else (Ok (), touch_dir now (Dir_of p) (AList.delete p t))
      | Err e \<Rightarrow> (Err e, t)
      | Panic s \<Rightarrow> (Panic s, t))"

definition RemoveAll :: "time \<Rightarrow> tree \<Rightarrow> fpath \<Rightarrow> unit res \<times> tree" where
  "RemoveAll now t p =
     (if p = [] then (Err (ErrNew ''RemoveAll .: invalid argument''), t)
      else case Stat ''unlinkat'' t p of
        Ok n \<Rightarrow> (Ok (), touch_dir now (Dir_of p) (filter (\<lambda>(q, n). below p q = None) t))
      | Err (ErrNotExist s) \<Rightarrow> (Ok (), t)
      | Err e \<Rightarrow> (Err e, t)
      | Panic s \<Rightarrow> (Panic s, t))"

text \<open>\<^verbatim>\<open>os.ReadDir\<close>: the entries in the order of their names.\<close>

definition ReadDir :: "tree \<Rightarrow> fpath \<Rightarrow> (string \<times> node) list res" where
  "ReadDir t p =
     (case Stat ''open'' t p of
        Ok (Dir m) \<Rightarrow> Ok (sort_key fst (map (\<lambda>(q, n). (last q, n)) (children t p)))
      | Ok (File bs m) \<Rightarrow> Err (err_notdir ''readdirent'' p)
      | Err e \<Rightarrow> Err e
      | Panic s \<Rightarrow> Panic s)"

text \<open>\<^verbatim>\<open>filepath.Walk\<close>: an entry, then what is below it, siblings in the order of their names. The order
  is that of the lists of components. A missing root gives the callback one call with an error,
  which the backend ignores: here, no entry.\<close>

definition Walk :: "tree \<Rightarrow> fpath \<Rightarrow> (fpath \<times> node) list" where
  "Walk t root =
     (case lookup t root of
        None \<Rightarrow> []
      | Some n \<Rightarrow>
          ([], n) # sort_key fst
            (map (\<lambda>(q, n). (drop (length root) q, n)) (filter (\<lambda>(q, n). below root q \<noteq> None \<and> q \<noteq> root) t)))"

section \<open>Facts about paths\<close>

lemma split_aux_concat:
  "sep \<noteq> [] \<Longrightarrow> concat (map ((@) sep) (split_aux sep acc s)) = sep @ rev acc @ s"
proof (induction sep acc s rule: split_aux.induct)
  case (1 sep acc)
  then show ?case by simp
next
  case (2 sep acc c s)
  show ?case
  proof (cases "HasPrefix (c # s) sep")
    case True
    then obtain r where r: "c # s = sep @ r" by (auto simp: HasPrefix_iff)
    have d: "drop (length sep) (c # s) = r" by (simp add: r)
    have "split_aux sep acc (c # s) = rev acc # split_aux sep [] r"
      using True 2(3) d by simp
    moreover have "concat (map ((@) sep) (split_aux sep [] r)) = sep @ r"
      using 2(1) 2(3) True d by simp
    ultimately show ?thesis by (simp only: list.simps concat.simps append_assoc r)
  next
    case False
    then show ?thesis using 2 by simp
  qed
qed

lemma Split_inj: "sep \<noteq> [] \<Longrightarrow> Split s sep = Split t sep \<Longrightarrow> s = t"
  unfolding Split_def by (metis split_aux_concat append_Nil rev.simps(1) same_append_eq)

definition plain_name :: "string \<Rightarrow> bool" where
  "plain_name c \<longleftrightarrow> c \<noteq> '''' \<and> c \<noteq> ''.'' \<and> c \<noteq> ''..''"

lemma clean_from_Nil [simp]: "clean_from st [] = st"
  by (simp add: clean_from_def)

lemma clean_from_plain: "\<forall>c \<in> set cs. plain_name c \<Longrightarrow> clean_from st cs = st @ cs"
  by (induction cs arbitrary: st) (auto simp: clean_from_def clean_step_def plain_name_def)

lemma clean_from_append: "clean_from st (cs @ ds) = clean_from (clean_from st cs) ds"
  by (simp add: clean_from_def)

lemma Join_Cons:
  assumes "e \<noteq> ''''"
  shows "Join (e # es) = Join_path (Join [e]) es"
  using assms by (simp add: Join_def Join_path_def clean_from_append)

lemma split_aux_no_sep: "c \<notin> set s \<Longrightarrow> split_aux [c] acc s = [rev acc @ s]"
  by (induction s arbitrary: acc) (auto simp: HasPrefix_def)

lemma Split_no_sep: "CHR ''/'' \<notin> set s \<Longrightarrow> Split s ''/'' = [s]"
  using split_aux_no_sep [of "CHR ''/''" s "[]"] by (simp add: Split_def)

section \<open>What an operation leaves of the files\<close>

text \<open>\<open>fsame q t t'\<close>: the path \<open>q\<close> is the same file in both trees, or in neither.\<close>

definition fsame :: "fpath \<Rightarrow> tree \<Rightarrow> tree \<Rightarrow> bool" where
  "fsame q t t' \<longleftrightarrow> (\<forall>bs m. lookup t' q = Some (File bs m) \<longleftrightarrow> lookup t q = Some (File bs m))"

lemma fsame_refl [simp]: "fsame q t t"
  by (simp add: fsame_def)

lemma fsame_trans: "fsame q t u \<Longrightarrow> fsame q u v \<Longrightarrow> fsame q t v"
  by (simp add: fsame_def)

lemma lookup_File: "lookup t q = Some (File bs m) \<longleftrightarrow> map_of t q = Some (File bs m)"
  by (auto simp: lookup_def split: option.splits if_splits)

lemma map_of_touch_dir:
  "map_of (touch_dir now d t) q = Some (File bs m) \<longleftrightarrow> map_of t q = Some (File bs m)"
  by (auto simp: touch_dir_def AList.update_conv' split: option.splits node.splits)

lemma fsame_put_node: "q \<noteq> p \<Longrightarrow> fsame q t (put_node now p n t)"
  by (auto simp: fsame_def lookup_File put_node_def map_of_touch_dir AList.update_conv')

lemma lookup_put_node_File [simp]: "lookup (put_node now p (File bs m) t) p = Some (File bs m)"
  by (simp add: lookup_File put_node_def map_of_touch_dir AList.update_conv')

lemma fsame_put_Dir: "lookup t p = None \<Longrightarrow> fsame q t (put_node now p (Dir m) t)"
proof (cases "q = p")
  case True
  assume "lookup t p = None"
  then have "map_of t p = None" by (simp add: lookup_def split: option.splits)
  then show ?thesis using True
    by (auto simp: fsame_def lookup_File put_node_def map_of_touch_dir AList.update_conv')
qed (simp add: fsame_put_node)

lemma fsame_mkdirs: "mkdirs now ps t = (r, t') \<Longrightarrow> fsame q t t'"
proof (induction now ps t arbitrary: t' rule: mkdirs.induct)
  case (1 now t)
  then show ?case by simp
next
  case (2 now p ps t)
  show ?case
  proof (cases "lookup t p")
    case None
    then show ?thesis using 2 fsame_trans [OF fsame_put_Dir [OF None]] by simp
  next
    case (Some n)
    then show ?thesis using 2 by (cases n) auto
  qed
qed

lemma fsame_MkdirAll: "MkdirAll now t p = (r, t') \<Longrightarrow> fsame q t t'"
  unfolding MkdirAll_def by (rule fsame_mkdirs)

lemma fsame_Create: "Create now t p = (r, t') \<Longrightarrow> q \<noteq> p \<Longrightarrow> fsame q t t'"
  by (auto simp: Create_def fsame_put_node split: option.splits node.splits if_splits)

lemma fsame_CopyTo: "CopyTo now t p rd = (r, t') \<Longrightarrow> q \<noteq> p \<Longrightarrow> fsame q t t'"
  by (auto simp: CopyTo_def Let_def fsame_put_node)

lemma fsame_WriteFile: "WriteFile now t p bs = (r, t') \<Longrightarrow> q \<noteq> p \<Longrightarrow> fsame q t t'"
  by (auto simp: WriteFile_def split: prod.splits res.splits
      intro: fsame_Create fsame_trans [OF fsame_Create fsame_put_node])

lemma fsame_Remove: "Remove now t p = (r, t') \<Longrightarrow> q \<noteq> p \<Longrightarrow> fsame q t t'"
  by (auto simp: Remove_def fsame_def lookup_File map_of_touch_dir AList.delete_conv' split: res.splits node.splits if_splits)

lemma Create_Ok: "Create now t p = (Ok (), t') \<Longrightarrow> lookup t' p = Some (File [] now)"
  by (auto simp: Create_def split: option.splits node.splits if_splits)

lemma CopyTo_Ok:
  "CopyTo now t p rd = (Ok (), t') \<Longrightarrow> lookup t p = Some (File bs m) \<Longrightarrow>
     rd_err rd = None \<and> lookup t' p = Some (File (bs @ rd_data rd) now)"
  by (auto simp: CopyTo_def Let_def split: option.splits)

lemma WriteFile_Ok: "WriteFile now t p bs = (Ok (), t') \<Longrightarrow> lookup t' p = Some (File bs now)"
  by (auto simp: WriteFile_def split: prod.splits res.splits)

lemma ReadFile_Ok: "ReadFile t p = Ok bs \<longleftrightarrow> (\<exists>m. lookup t p = Some (File bs m))"
  by (auto simp: ReadFile_def Stat_def split: option.splits node.splits)

lemma ReadFile_fsame:
  assumes "fsame q t t'"
  shows "ReadFile t' q = Ok bs \<longleftrightarrow> ReadFile t q = Ok bs"
  using assms by (simp add: ReadFile_Ok fsame_def)

lemma fsame_File: "fsame q t t' \<Longrightarrow> lookup t q = Some (File bs m) \<Longrightarrow> lookup t' q = Some (File bs m)"
  by (simp add: fsame_def)

section \<open>Directories\<close>

definition dir_at :: "tree \<Rightarrow> fpath \<Rightarrow> bool" where
  "dir_at t p \<longleftrightarrow> (\<exists>m. lookup t p = Some (Dir m))"

definition file_at :: "tree \<Rightarrow> fpath \<Rightarrow> bool" where
  "file_at t p \<longleftrightarrow> (\<exists>bs m. lookup t p = Some (File bs m))"

lemma node_at_code [code]:
  "dir_at t p = (case lookup t p of Some n \<Rightarrow> is_Dir n | None \<Rightarrow> False)"
  "file_at t p = (case lookup t p of Some n \<Rightarrow> \<not> is_Dir n | None \<Rightarrow> False)"
  by (auto simp: dir_at_def file_at_def split: option.splits node.splits) (metis is_Dir.simps node.exhaust)+

lemma lookup_cases: obtains (none) "lookup t p = None" | (dir) "dir_at t p" | (plain) "file_at t p"
proof (cases "lookup t p")
  case (Some n)
  then show thesis using that by (cases n) (auto simp: dir_at_def file_at_def)
qed (use that in blast)

lemma dir_at_touch [simp]: "dir_at (touch_dir now d t) q = dir_at t q"
  by (auto simp: dir_at_def lookup_def touch_dir_def AList.update_conv' split: option.splits node.splits)

lemma dir_at_put_node [simp]:
  "dir_at (put_node now p n t) q \<longleftrightarrow> q = p \<and> is_Dir n \<or> q \<noteq> p \<and> dir_at t q"
  by (cases n) (auto simp: put_node_def, (auto simp: dir_at_def lookup_def AList.update_conv' split: option.splits if_splits))

lemma file_at_put_node [simp]:
  "file_at (put_node now p n t) q \<longleftrightarrow> q = p \<and> \<not> is_Dir n \<or> q \<noteq> p \<and> file_at t q"
  by (cases n) (auto simp: file_at_def lookup_File put_node_def map_of_touch_dir AList.update_conv')

text \<open>\<^verbatim>\<open>os.MkdirAll\<close> succeeds unless a file is in the way, and touches nothing but the directories it makes.\<close>

lemma mkdirs_Ok:
  assumes "\<forall>p \<in> set ps. \<not> file_at t p"
  shows "\<exists>t'. mkdirs now ps t = (Ok (), t') \<and> (\<forall>q. dir_at t' q \<longleftrightarrow> dir_at t q \<or> q \<in> set ps)
    \<and> (\<forall>q. file_at t' q \<longleftrightarrow> file_at t q)"
  using assms
proof (induction ps arbitrary: t)
  case Nil
  then show ?case by simp
next
  case (Cons p ps)
  show ?case
  proof (cases t p rule: lookup_cases)
    case none
    then have "\<not> file_at t p" by (simp add: file_at_def)
    then show ?thesis using Cons.IH [of "put_node now p (Dir now) t"] Cons.prems none by (simp, metis)
  next
    case dir
    then show ?thesis using Cons.IH [of t] Cons.prems by (auto simp: dir_at_def)
  next
    case plain
    then show ?thesis using Cons.prems by simp
  qed
qed

lemma Create_succeeds:
  assumes "\<not> dir_at t p" and "file_at t p \<or> dir_at t (Dir_of p)"
  shows "Create now t p = (Ok (), put_node now p (File [] now) t)"
  using assms by (auto simp: Create_def dir_at_def file_at_def split: option.splits node.splits)

end
