(* ===== verification/Storage_FileSystem.thy ===== *)
theory Storage_FileSystem
  imports Storage_Backend Go_OS
begin

text \<open>
  \<^verbatim>\<open>internal/storage/filesystem.go\<close>: the backend that keeps objects as files, bucket by bucket under a
  base directory, with the metadata of an object as JSON in a second file beside it and the parts of
  a multipart upload in a hidden directory. The state is the file tree and the clock. The body of an
  object that was opened is its content at that time. The errors of the operating system are those of \<open>Go_OS\<close>, which has no names that are too long,
  no missing permissions and no full disk: the branches of the code for errors are modelled, but only those errors reach them. The theorems
  on stored objects therefore start from a call that returned without an error, which does not need this assumption.
\<close>

record fsstate =
  fs_tree :: tree
  fs_now :: time

definition fs_set :: "fsstate \<Rightarrow> 'a res \<times> tree \<Rightarrow> 'a res \<times> fsstate" where
  "fs_set s rt = (fst rt, s\<lparr>fs_tree := snd rt\<rparr>)"

definition NewFileSystemBackend :: "fsstate \<Rightarrow> filesystem_config \<Rightarrow> string res \<times> fsstate" where
  "NewFileSystemBackend s cfg =
     (if fc_BaseDir cfg = '''' then (Err (ErrNew ''base directory is required for filesystem backend''), s)
      else case MkdirAll (fs_now s) (fs_tree s) (Join [fc_BaseDir cfg]) of
             (Ok _, t) \<Rightarrow> (Ok (fc_BaseDir cfg), s\<lparr>fs_tree := t\<rparr>)
           | (Err e, t) \<Rightarrow> (Err (ErrWrap ''failed to create base directory: '' e), s\<lparr>fs_tree := t\<rparr>)
           | (Panic p, t) \<Rightarrow> (Panic p, s\<lparr>fs_tree := t\<rparr>))"

section \<open>Buckets\<close>

definition FS_ListBuckets :: "string \<Rightarrow> fsstate \<Rightarrow> bucket_info list res \<times> fsstate" where
  "FS_ListBuckets base s =
     (res_bind (wrap_err ''failed to read base directory: '' (ReadDir (fs_tree s) (Join [base]))) (\<lambda>entries.
      Ok (map (\<lambda>(name, n). \<lparr>bi_Name = name, bi_CreationDate = nd_mtime n\<rparr>) (filter (\<lambda>(name, n). is_Dir n) entries))), s)"

definition FS_CreateBucket :: "string \<Rightarrow> fsstate \<Rightarrow> string \<Rightarrow> unit res \<times> fsstate" where
  "FS_CreateBucket base s bucket = fs_set s (MkdirAll (fs_now s) (fs_tree s) (Join [base, bucket]))"

definition FS_DeleteBucket :: "string \<Rightarrow> fsstate \<Rightarrow> string \<Rightarrow> unit res \<times> fsstate" where
  "FS_DeleteBucket base s bucket = fs_set s (RemoveAll (fs_now s) (fs_tree s) (Join [base, bucket]))"

definition FS_BucketExists :: "string \<Rightarrow> fsstate \<Rightarrow> string \<Rightarrow> bool res \<times> fsstate" where
  "FS_BucketExists base s bucket =
     (let r = Stat ''stat'' (fs_tree s) (Join [base, bucket]) in
      (if os_IsNotExist r then Ok False else res_bind r (\<lambda>n. Ok (is_Dir n)), s))"

section \<open>Objects\<close>

text \<open>The metadata file of an object, \<^verbatim>\<open>objectPath + ".meta"\<close>, read with every error ignored; the default
  content type; the ETag, which is the modification time.\<close>

definition load_metadata :: "tree \<Rightarrow> fpath \<Rightarrow> smap" where
  "load_metadata t p =
     (case ReadFile t (path_suffix p ''.meta'') of Ok bs \<Rightarrow> json_unmarshal (string_of bs) | _ \<Rightarrow> [])"

definition content_type :: "smap \<Rightarrow> string" where
  "content_type md =
     (if sm_get md ''Content-Type'' = '''' then ''application/octet-stream'' else sm_get md ''Content-Type'')"

definition mtime_etag :: "node \<Rightarrow> string" where
  "mtime_etag n = dquote (FormatHex (nd_mtime n))"

primrec node_size :: "node \<Rightarrow> int" where
  "node_size (File bs t) = int (length bs)"
| "node_size (Dir t) = 4096"

definition FS_GetObject :: "string \<Rightarrow> fsstate \<Rightarrow> string \<Rightarrow> string \<Rightarrow> s3_object res \<times> fsstate" where
  "FS_GetObject base s bucket key =
     (let objectPath = Join [base, bucket, key]; t = fs_tree s in
      (res_bind (wrap_err ''object not found: '' (Stat ''stat'' t objectPath)) (\<lambda>info.
       res_bind (wrap_err ''failed to open object: '' (Open_file t objectPath)) (\<lambda>file.
       let metadata = load_metadata t objectPath in
       Ok \<lparr>ob_Body = file, ob_ContentType = content_type metadata, ob_Size = node_size info,
           ob_ETag = mtime_etag info, ob_Metadata = metadata, ob_LastModified = nd_mtime info\<rparr>)), s))"

definition FS_HeadObject :: "string \<Rightarrow> fsstate \<Rightarrow> string \<Rightarrow> string \<Rightarrow> object_info res \<times> fsstate" where
  "FS_HeadObject base s bucket key =
     (let objectPath = Join [base, bucket, key]; t = fs_tree s in
      (res_bind (wrap_err ''object not found: '' (Stat ''stat'' t objectPath)) (\<lambda>info.
       let metadata = load_metadata t objectPath in
       Ok \<lparr>oi_Key = key, oi_Size = node_size info, oi_ETag = mtime_etag info, oi_LastModified = nd_mtime info,
           oi_StorageClass = '''', oi_ContentType = content_type metadata, oi_Metadata = metadata\<rparr>), s))"

definition FS_PutObject ::
  "string \<Rightarrow> fsstate \<Rightarrow> string \<Rightarrow> string \<Rightarrow> reader \<Rightarrow> int \<Rightarrow> smap \<Rightarrow> unit res \<times> fsstate" where
  "FS_PutObject base s bucket key reader sz metadata =
     (let objectPath = Join [base, bucket, key]; now = fs_now s in
      case MkdirAll now (fs_tree s) (Dir_of objectPath) of
        (Err e, t1) \<Rightarrow> (Err (ErrWrap ''failed to create object directory: '' e), s\<lparr>fs_tree := t1\<rparr>)
      | (Panic p, t1) \<Rightarrow> (Panic p, s\<lparr>fs_tree := t1\<rparr>)
      | (Ok _, t1) \<Rightarrow>
          (case Create now t1 objectPath of
             (Err e, t2) \<Rightarrow> (Err (ErrWrap ''failed to create object file: '' e), s\<lparr>fs_tree := t2\<rparr>)
           | (Panic p, t2) \<Rightarrow> (Panic p, s\<lparr>fs_tree := t2\<rparr>)
           | (Ok _, t2) \<Rightarrow>
               (case CopyTo now t2 objectPath reader of
                  (Err e, t3) \<Rightarrow> (Err (ErrWrap ''failed to write object data: '' e), s\<lparr>fs_tree := t3\<rparr>)
                | (Panic p, t3) \<Rightarrow> (Panic p, s\<lparr>fs_tree := t3\<rparr>)
                | (Ok _, t3) \<Rightarrow>
                    if metadata \<noteq> [] then
                      (case WriteFile now t3 (path_suffix objectPath ''.meta'') (bytes_of (json_marshal metadata)) of
                         (Err e, t4) \<Rightarrow> (Err (ErrWrap ''failed to write metadata file: '' e), s\<lparr>fs_tree := t4\<rparr>)
                       | (r, t4) \<Rightarrow> (r, s\<lparr>fs_tree := t4\<rparr>))
                    else (Ok (), s\<lparr>fs_tree := t3\<rparr>))))"

definition FS_DeleteObject :: "string \<Rightarrow> fsstate \<Rightarrow> string \<Rightarrow> string \<Rightarrow> unit res \<times> fsstate" where
  "FS_DeleteObject base s bucket key =
     (let objectPath = Join [base, bucket, key];
          (err, t1) = Remove (fs_now s) (fs_tree s) objectPath
      in if os_IsNotExist err then (Ok (), s\<lparr>fs_tree := t1\<rparr>)
         else (err, s\<lparr>fs_tree := snd (Remove (fs_now s) t1 (path_suffix objectPath ''.meta''))\<rparr>))"

section \<open>Listing\<close>

record list_acc =
  la_Contents :: "object_info list"
  la_CommonPrefixes :: "string list"
  la_count :: int

text \<open>The delimiter logic: \<open>Some p\<close> when the key is rolled up into the common prefix \<open>p\<close>.\<close>

definition common_prefix :: "string \<Rightarrow> string \<Rightarrow> string \<Rightarrow> string option" where
  "common_prefix prefix delimiter key =
     (if delimiter \<noteq> '''' \<and> prefix \<noteq> '''' then
        (let afterPrefix = TrimPrefix key prefix in
         if afterPrefix \<noteq> key \<and> 0 \<le> Index afterPrefix delimiter
         then Some (prefix @ take (nat (Index afterPrefix delimiter) + length delimiter) afterPrefix)
         else None)
      else if delimiter \<noteq> '''' \<and> 0 \<le> Index key delimiter
      then Some (take (nat (Index key delimiter) + length delimiter) key)
      else None)"

text \<open>The callback of \<^verbatim>\<open>filepath.Walk\<close> on the entry with components \<open>rel\<close> below the bucket.\<close>

definition walk_fn ::
  "tree \<Rightarrow> fpath \<Rightarrow> string \<Rightarrow> string \<Rightarrow> string \<Rightarrow> int \<Rightarrow> fpath \<times> node \<Rightarrow> list_acc \<Rightarrow> list_acc" where
  "walk_fn t bucketPath prefix marker delimiter maxKeys entry acc =
     (let (rel, info) = entry; key = path_string rel in
      if la_count acc \<ge> maxKeys then acc
      else if key = ''.'' then acc
      else if prefix \<noteq> '''' \<and> \<not> HasPrefix key prefix then acc
      else if marker \<noteq> '''' \<and> key \<le> marker then acc
      else
        case common_prefix prefix delimiter key of
          Some cp \<Rightarrow>
            if cp \<in> set (la_CommonPrefixes acc) then acc
            else acc\<lparr>la_CommonPrefixes := la_CommonPrefixes acc @ [cp], la_count := la_count acc + 1\<rparr>
        | None \<Rightarrow>
            if \<not> is_Dir info \<and> \<not> HasSuffix key ''.meta'' then
              let metadata = load_metadata t (bucketPath @ rel) in
              acc\<lparr>la_Contents := la_Contents acc @
                     [\<lparr>oi_Key = key, oi_Size = node_size info, oi_ETag = mtime_etag info,
                       oi_LastModified = nd_mtime info, oi_StorageClass = '''',
                       oi_ContentType = content_type metadata, oi_Metadata = metadata\<rparr>],
                  la_count := la_count acc + 1\<rparr>
            else acc)"

definition FS_ListObjectsWithDelimiter ::
  "string \<Rightarrow> fsstate \<Rightarrow> string \<Rightarrow> string \<Rightarrow> string \<Rightarrow> string \<Rightarrow> int \<Rightarrow> list_objects_result res \<times> fsstate" where
  "FS_ListObjectsWithDelimiter base s bucket prefix marker delimiter maxKeys =
     (let bucketPath = Join [base, bucket]; t = fs_tree s;
          acc = fold (walk_fn t bucketPath prefix marker delimiter maxKeys) (Walk t bucketPath)
                  \<lparr>la_Contents = [], la_CommonPrefixes = [], la_count = 0\<rparr>
      in (Ok \<lparr>lr_IsTruncated = (la_count acc \<ge> maxKeys), lr_Contents = la_Contents acc,
              lr_NextMarker = '''', lr_CommonPrefixes = la_CommonPrefixes acc\<rparr>, s))"

definition FS_ListObjects ::
  "string \<Rightarrow> fsstate \<Rightarrow> string \<Rightarrow> string \<Rightarrow> string \<Rightarrow> int \<Rightarrow> list_objects_result res \<times> fsstate" where
  "FS_ListObjects base s bucket prefix marker maxKeys =
     FS_ListObjectsWithDelimiter base s bucket prefix marker ''/'' maxKeys"

section \<open>Access control lists\<close>

definition FS_GetObjectACL :: "fsstate \<Rightarrow> string \<Rightarrow> string \<Rightarrow> acl res \<times> fsstate" where
  "FS_GetObjectACL s bucket key =
     (Ok \<lparr>acl_Owner = \<lparr>ow_ID = ''filesystem'', ow_DisplayName = ''FileSystem''\<rparr>,
          acl_Grants = [\<lparr>gr_Grantee = \<lparr>ge_Type = ''CanonicalUser'', ge_ID = ''filesystem'',
            ge_DisplayName = ''FileSystem'', ge_URI = ''''\<rparr>, gr_Permission = ''FULL_CONTROL''\<rparr>]\<rparr>, s)"

definition FS_PutObjectACL :: "fsstate \<Rightarrow> string \<Rightarrow> string \<Rightarrow> acl option \<Rightarrow> unit res \<times> fsstate" where
  "FS_PutObjectACL s bucket key acl = (Ok (), s)"

section \<open>Multipart uploads\<close>

definition upload_dir :: "string \<Rightarrow> string \<Rightarrow> string \<Rightarrow> fpath" where
  "upload_dir base bucket uploadID = Join [base, bucket, ''.uploads'', uploadID]"

definition part_path :: "string \<Rightarrow> string \<Rightarrow> string \<Rightarrow> int \<Rightarrow> fpath" where
  "part_path base bucket uploadID n = Join_path (upload_dir base bucket uploadID) [''part-'' @ FormatInt n]"

definition FS_InitiateMultipartUpload ::
  "string \<Rightarrow> fsstate \<Rightarrow> string \<Rightarrow> string \<Rightarrow> smap \<Rightarrow> string res \<times> fsstate" where
  "FS_InitiateMultipartUpload base s bucket key metadata =
     (let uploadID = key @ ''-'' @ FormatInt (fs_now s) in
      case MkdirAll (fs_now s) (fs_tree s) (upload_dir base bucket uploadID) of
        (Ok _, t) \<Rightarrow> (Ok uploadID, s\<lparr>fs_tree := t\<rparr>)
      | (Err e, t) \<Rightarrow> (Err (ErrWrap ''failed to create upload directory: '' e), s\<lparr>fs_tree := t\<rparr>)
      | (Panic p, t) \<Rightarrow> (Panic p, s\<lparr>fs_tree := t\<rparr>))"

definition FS_UploadPart ::
  "string \<Rightarrow> fsstate \<Rightarrow> string \<Rightarrow> string \<Rightarrow> string \<Rightarrow> int \<Rightarrow> reader \<Rightarrow> int \<Rightarrow> string res \<times> fsstate" where
  "FS_UploadPart base s bucket key uploadID partNumber reader sz =
     (let partPath = part_path base bucket uploadID partNumber; now = fs_now s in
      case Create now (fs_tree s) partPath of
        (Err e, t1) \<Rightarrow> (Err (ErrWrap ''failed to create part file: '' e), s\<lparr>fs_tree := t1\<rparr>)
      | (Panic p, t1) \<Rightarrow> (Panic p, s\<lparr>fs_tree := t1\<rparr>)
      | (Ok _, t1) \<Rightarrow>
          (case CopyTo now t1 partPath reader of
             (Err e, t2) \<Rightarrow> (Err (ErrWrap ''failed to write part data: '' e), s\<lparr>fs_tree := t2\<rparr>)
           | (Panic p, t2) \<Rightarrow> (Panic p, s\<lparr>fs_tree := t2\<rparr>)
           | (Ok _, t2) \<Rightarrow> (Ok (dquote (FormatInt partNumber)), s\<lparr>fs_tree := t2\<rparr>)))"

fun copy_parts ::
  "time \<Rightarrow> (int \<Rightarrow> fpath) \<Rightarrow> fpath \<Rightarrow> completed_part list \<Rightarrow> tree \<Rightarrow> unit res \<times> tree" where
  "copy_parts now partPath objectPath [] t = (Ok (), t)"
| "copy_parts now partPath objectPath (p # ps) t =
     (let n = cp_PartNumber p in
      case Open_file t (partPath n) of
        Err e \<Rightarrow> (Err (ErrWrap (''failed to open part '' @ FormatInt n @ '': '') e), t)
      | Panic q \<Rightarrow> (Panic q, t)
      | Ok partFile \<Rightarrow>
          (case CopyTo now t objectPath partFile of
             (Err e, t') \<Rightarrow> (Err (ErrWrap (''failed to copy part '' @ FormatInt n @ '': '') e), t')
           | (Panic q, t') \<Rightarrow> (Panic q, t')
           | (Ok _, t') \<Rightarrow> copy_parts now partPath objectPath ps t'))"

definition FS_CompleteMultipartUpload ::
  "string \<Rightarrow> fsstate \<Rightarrow> string \<Rightarrow> string \<Rightarrow> string \<Rightarrow> completed_part list \<Rightarrow> unit res \<times> fsstate" where
  "FS_CompleteMultipartUpload base s bucket key uploadID parts =
     (let objectPath = Join [base, bucket, key]; now = fs_now s in
      case MkdirAll now (fs_tree s) (Dir_of objectPath) of
        (Err e, t1) \<Rightarrow> (Err (ErrWrap ''failed to create object directory: '' e), s\<lparr>fs_tree := t1\<rparr>)
      | (Panic p, t1) \<Rightarrow> (Panic p, s\<lparr>fs_tree := t1\<rparr>)
      | (Ok _, t1) \<Rightarrow>
          (case Create now t1 objectPath of
             (Err e, t2) \<Rightarrow> (Err (ErrWrap ''failed to create object file: '' e), s\<lparr>fs_tree := t2\<rparr>)
           | (Panic p, t2) \<Rightarrow> (Panic p, s\<lparr>fs_tree := t2\<rparr>)
           | (Ok _, t2) \<Rightarrow>
               (case copy_parts now (part_path base bucket uploadID) objectPath parts t2 of
                  (Ok _, t3) \<Rightarrow> (Ok (), s\<lparr>fs_tree := snd (RemoveAll now t3 (upload_dir base bucket uploadID))\<rparr>)
                | (r, t3) \<Rightarrow> (r, s\<lparr>fs_tree := t3\<rparr>))))"

definition FS_AbortMultipartUpload ::
  "string \<Rightarrow> fsstate \<Rightarrow> string \<Rightarrow> string \<Rightarrow> string \<Rightarrow> unit res \<times> fsstate" where
  "FS_AbortMultipartUpload base s bucket key uploadID =
     fs_set s (RemoveAll (fs_now s) (fs_tree s) (upload_dir base bucket uploadID))"

text \<open>\<^verbatim>\<open>fmt.Sscanf(name, "part-%d", &n)\<close>: spaces, a sign, digits; what follows is ignored.\<close>

definition scan_part :: "string \<Rightarrow> int option" where
  "scan_part name =
     (if \<not> HasPrefix name ''part-'' then None
      else
        let s = dropWhile is_space (drop 5 name);
            neg = (s \<noteq> [] \<and> hd s = CHR ''-'');
            d = takeWhile is_digit (if s \<noteq> [] \<and> (hd s = CHR ''-'' \<or> hd s = CHR ''+'') then tl s else s)
        in if d = [] then None
           else let v = (if neg then - digits_val d else digits_val d) in if in_i64 v then Some v else None)"

fun collect_parts :: "int \<Rightarrow> int \<Rightarrow> int \<Rightarrow> (string \<times> node) list \<Rightarrow> part list" where
  "collect_parts maxParts marker count [] = []"
| "collect_parts maxParts marker count ((name, n) # es) =
     (if count \<ge> maxParts then []
      else case scan_part name of
             Some k \<Rightarrow>
               if k > marker
               then \<lparr>pt_PartNumber = k, pt_ETag = dquote (FormatInt k), pt_Size = node_size n, pt_LastModified = nd_mtime n\<rparr>
                      # collect_parts maxParts marker (count + 1) es
               else collect_parts maxParts marker count es
           | None \<Rightarrow> collect_parts maxParts marker count es)"

definition FS_ListParts ::
  "string \<Rightarrow> fsstate \<Rightarrow> string \<Rightarrow> string \<Rightarrow> string \<Rightarrow> int \<Rightarrow> int \<Rightarrow> list_parts_result res \<times> fsstate" where
  "FS_ListParts base s bucket key uploadID maxParts partNumberMarker =
     (res_bind (wrap_err ''failed to read upload directory: '' (ReadDir (fs_tree s) (upload_dir base bucket uploadID))) (\<lambda>entries.
      let parts = collect_parts maxParts partNumberMarker 0 entries in
      Ok \<lparr>lp_Bucket = bucket, lp_Key = key, lp_UploadID = uploadID, lp_PartNumberMarker = 0,
          lp_NextPartNumberMarker = 0, lp_MaxParts = 0, lp_IsTruncated = (int (length parts) \<ge> maxParts),
          lp_Parts = parts\<rparr>), s)"

definition FileSystemBackend :: "string \<Rightarrow> fsstate backend" where
  "FileSystemBackend base =
     \<lparr>bk_ListBuckets = FS_ListBuckets base, bk_CreateBucket = FS_CreateBucket base,
      bk_DeleteBucket = FS_DeleteBucket base, bk_BucketExists = FS_BucketExists base,
      bk_ListObjects = FS_ListObjects base, bk_ListObjectsWithDelimiter = FS_ListObjectsWithDelimiter base,
      bk_GetObject = FS_GetObject base, bk_PutObject = FS_PutObject base, bk_DeleteObject = FS_DeleteObject base,
      bk_HeadObject = FS_HeadObject base, bk_GetObjectACL = FS_GetObjectACL, bk_PutObjectACL = FS_PutObjectACL,
      bk_InitiateMultipartUpload = FS_InitiateMultipartUpload base, bk_UploadPart = FS_UploadPart base,
      bk_CompleteMultipartUpload = FS_CompleteMultipartUpload base,
      bk_AbortMultipartUpload = FS_AbortMultipartUpload base, bk_ListParts = FS_ListParts base\<rparr>"


section \<open>Object names\<close>

text \<open>The names the contract covers: the bucket is one plain component, the components of the key are
  plain, and none of them ends in \<^verbatim>\<open>.meta\<close>.\<close>

definition key_parts :: "string \<Rightarrow> string list" where
  "key_parts k = Split k ''/''"

definition fs_okey :: "string \<Rightarrow> string \<Rightarrow> string \<Rightarrow> bool" where
  "fs_okey base b k \<longleftrightarrow>
     base \<noteq> '''' \<and> CHR ''/'' \<notin> set b \<and> plain_name b \<and> k \<noteq> ''''
     \<and> list_all plain_name (key_parts k) \<and> list_all (\<lambda>c. \<not> HasSuffix c ''.meta'') (key_parts k)"

abbreviation obj_path :: "string \<Rightarrow> string \<Rightarrow> string \<Rightarrow> fpath" where
  "obj_path base b k \<equiv> Join [base, b, k]"

abbreviation meta_path :: "string \<Rightarrow> string \<Rightarrow> string \<Rightarrow> fpath" where
  "meta_path base b k \<equiv> path_suffix (Join [base, b, k]) ''.meta''"

lemma split_aux_not_Nil [simp]: "split_aux sep acc s \<noteq> []"
  by (induction sep acc s rule: split_aux.induct) simp_all

lemma key_parts_not_Nil [simp]: "key_parts k \<noteq> []"
  by (simp add: key_parts_def Split_def)

lemma obj_path_eq:
  assumes "fs_okey base b k"
  shows "obj_path base b k = Join [base] @ b # key_parts k"
proof -
  have "base \<noteq> ''''" "b \<noteq> ''''" "k \<noteq> ''''" "Split b ''/'' = [b]"
    using assms by (auto simp: fs_okey_def plain_name_def Split_no_sep)
  then have "obj_path base b k = clean_from (Join [base]) (b # key_parts k)"
    by (simp add: Join_Cons [of base "[b, k]"] Join_path_def key_parts_def)
  then show ?thesis
    using assms clean_from_plain [of "b # key_parts k" "Join [base]"] by (auto simp: fs_okey_def list_all_iff)
qed

lemma obj_path_last:
  assumes "fs_okey base b k"
  shows "last (obj_path base b k) = last (key_parts k)" and "\<not> HasSuffix (last (obj_path base b k)) ''.meta''"
    and "obj_path base b k \<noteq> []" and "obj_path base b k \<noteq> [''/'']"
proof -
  have "last (key_parts k) \<in> set (key_parts k)" by simp
  then show "last (obj_path base b k) = last (key_parts k)" "\<not> HasSuffix (last (obj_path base b k)) ''.meta''"
    using assms by (auto simp: obj_path_eq fs_okey_def list_all_iff)
  show "obj_path base b k \<noteq> []" "obj_path base b k \<noteq> [''/'']"
    using assms by (auto simp: obj_path_eq append_eq_Cons_conv)
qed

lemma meta_path_eq:
  assumes "fs_okey base b k"
  shows "meta_path base b k = butlast (obj_path base b k) @ [last (obj_path base b k) @ ''.meta'']"
  using obj_path_last(3,4) [OF assms] by (simp add: path_suffix_def)

lemma obj_path_inj:
  assumes "fs_okey base b k" and "fs_okey base b' k'"
  shows "obj_path base b k = obj_path base b' k' \<longleftrightarrow> b = b' \<and> k = k'"
  using Split_inj [of "''/''" k k'] by (auto simp: obj_path_eq [OF assms(1)] obj_path_eq [OF assms(2)] key_parts_def)

lemma obj_meta_distinct:
  assumes "fs_okey base b k" and "fs_okey base b' k'"
  shows "obj_path base b k \<noteq> meta_path base b' k'"
  using obj_path_last(2) [OF assms(1)] by (auto simp: meta_path_eq [OF assms(2)])

lemma meta_path_inj:
  assumes "fs_okey base b k" and "fs_okey base b' k'" and "meta_path base b k = meta_path base b' k'"
  shows "b = b' \<and> k = k'"
proof -
  have "butlast (obj_path base b k) = butlast (obj_path base b' k')"
    "last (obj_path base b k) = last (obj_path base b' k')"
    using assms(3) by (simp_all add: meta_path_eq assms(1,2))
  then have "obj_path base b k = obj_path base b' k'"
    using obj_path_last(3) assms(1,2) by (metis append_butlast_last_id)
  then show ?thesis using obj_path_inj assms(1,2) by blast
qed

section \<open>The backend keeps the contract of an object store\<close>

text \<open>The files of an object decide what a lookup gives.\<close>

lemma GetObject_file:
  assumes "lookup (fs_tree s) (obj_path base b k) = Some (File bs m)"
  shows "FS_GetObject base s b k =
    (Ok \<lparr>ob_Body = bytes_reader bs, ob_ContentType = content_type (load_metadata (fs_tree s) (obj_path base b k)),
         ob_Size = int (length bs), ob_ETag = mtime_etag (File bs m),
         ob_Metadata = load_metadata (fs_tree s) (obj_path base b k), ob_LastModified = m\<rparr>, s)"
  using assms by (simp add: FS_GetObject_def Stat_def Open_file_def Let_def)

lemma GetObject_readable:
  assumes "FS_GetObject base s b k = (Ok ob, t)" and "rd_err (ob_Body ob) = None"
  obtains bs m where "lookup (fs_tree s) (obj_path base b k) = Some (File bs m)"
  using assms by (auto simp: FS_GetObject_def Let_def Open_file_def Stat_def split: node.splits option.splits if_splits)

lemma load_metadata_fsame:
  assumes "fsame (path_suffix p ''.meta'') t t'"
  shows "load_metadata t' p = load_metadata t p"
proof (cases "ReadFile t (path_suffix p ''.meta'')")
  case (Ok bs)
  then have "ReadFile t' (path_suffix p ''.meta'') = Ok bs" using ReadFile_fsame [OF assms] by simp
  then show ?thesis using Ok by (simp add: load_metadata_def)
next
  case (Err e)
  then have "ReadFile t' (path_suffix p ''.meta'') \<noteq> Ok bs" for bs using ReadFile_fsame [OF assms] by simp
  then show ?thesis using Err by (simp add: load_metadata_def split: res.splits)
next
  case (Panic x)
  then have "ReadFile t' (path_suffix p ''.meta'') \<noteq> Ok bs" for bs using ReadFile_fsame [OF assms] by simp
  then show ?thesis using Panic by (simp add: load_metadata_def split: res.splits)
qed

lemma PutObject_fsame:
  assumes "FS_PutObject base s b k r n md = (x, s')"
    and "q \<noteq> obj_path base b k" and "q \<noteq> meta_path base b k"
  shows "fsame q (fs_tree s) (fs_tree s')"
  using assms
  by (auto simp: FS_PutObject_def Let_def split: prod.splits res.splits if_splits
      dest!: fsame_MkdirAll [where q = q] fsame_Create [where q = q] fsame_CopyTo [where q = q] fsame_WriteFile [where q = q])
     (simp_all add: fsame_def)

lemma wf_json_unmarshal [simp]: "wf_smap (json_unmarshal s)"
proof -
  have "wf_smap m \<Longrightarrow> wf_smap (fold set_member ms m)" for ms m
    by (induction ms arbitrary: m) (auto simp: set_member_def split: json.splits)
  then show ?thesis by (auto simp: json_unmarshal_def wf_smap_def split: option.splits json.splits)
qed

lemma wf_load_metadata [simp]: "wf_smap (load_metadata t p)"
  by (auto simp: load_metadata_def wf_smap_def [of "[]"] split: res.splits)

lemma PutObject_Ok:
  assumes okey: "fs_okey base b k" and put: "FS_PutObject base s b k r n md = (Ok (), s')" and md: "md \<noteq> []"
  shows "rd_err r = None"
    and "lookup (fs_tree s') (obj_path base b k) = Some (File (rd_data r) (fs_now s))"
    and "lookup (fs_tree s') (meta_path base b k) = Some (File (bytes_of (json_marshal md)) (fs_now s))"
    and "fs_now s' = fs_now s"
proof -
  obtain t1 t2 t3 t4 where
    t2: "Create (fs_now s) t1 (obj_path base b k) = (Ok (), t2)"
    and t3: "CopyTo (fs_now s) t2 (obj_path base b k) r = (Ok (), t3)"
    and t4: "WriteFile (fs_now s) t3 (meta_path base b k) (bytes_of (json_marshal md)) = (Ok (), t4)"
    and s': "s' = s\<lparr>fs_tree := t4\<rparr>"
    using put md by (auto simp: FS_PutObject_def Let_def split: prod.splits res.splits)
  have f3: "rd_err r = None \<and> lookup t3 (obj_path base b k) = Some (File ([] @ rd_data r) (fs_now s))"
    using CopyTo_Ok [OF t3 Create_Ok [OF t2]] .
  have "fsame (obj_path base b k) t3 t4"
    using fsame_WriteFile [OF t4 obj_meta_distinct [OF okey okey]] .
  then show "rd_err r = None" "lookup (fs_tree s') (obj_path base b k) = Some (File (rd_data r) (fs_now s))"
    "lookup (fs_tree s') (meta_path base b k) = Some (File (bytes_of (json_marshal md)) (fs_now s))"
    "fs_now s' = fs_now s"
    using f3 WriteFile_Ok [OF t4] by (auto simp: s' fsame_def)
qed

lemma PutObject_stores:
  assumes okey: "fs_okey base b k" and put: "FS_PutObject base s b k r n md = (Ok (), s')"
  shows "rd_err r = None" and "lookup (fs_tree s') (obj_path base b k) = Some (File (rd_data r) (fs_now s))"
proof -
  have "rd_err r = None \<and> lookup (fs_tree s') (obj_path base b k) = Some (File (rd_data r) (fs_now s))"
  proof (cases "md = []")
    case True
    then obtain t1 t2 t3 where t2: "Create (fs_now s) t1 (obj_path base b k) = (Ok (), t2)"
      and t3: "CopyTo (fs_now s) t2 (obj_path base b k) r = (Ok (), t3)" and s': "s' = s\<lparr>fs_tree := t3\<rparr>"
      using put by (auto simp: FS_PutObject_def Let_def split: prod.splits res.splits)
    show ?thesis using CopyTo_Ok [OF t3 Create_Ok [OF t2]] by (simp add: s')
  next
    case False
    then show ?thesis using PutObject_Ok [OF okey put] by simp
  qed
  then show "rd_err r = None" and "lookup (fs_tree s') (obj_path base b k) = Some (File (rd_data r) (fs_now s))" by simp_all
qed

lemma FS_get_put:
  assumes "fs_okey base b k" and "md \<noteq> []" and "wf_smap md" and "FS_PutObject base s b k r n md = (Ok (), s')"
  shows "\<exists>ob. FS_GetObject base s' b k = (Ok ob, s') \<and> rd_err r = None \<and> ob_Body ob = bytes_reader (rd_data r)
    \<and> ob_Size ob = int (length (rd_data r)) \<and> wf_smap (ob_Metadata ob)
    \<and> (\<forall>m. ascii m \<longrightarrow> map_of (ob_Metadata ob) m = map_option to_valid (map_of md m))
    \<and> (utf8_smap md \<longrightarrow> map_of (ob_Metadata ob) = map_of md)"
proof -
  note put = PutObject_Ok [OF assms(1,4,2)]
  have "ReadFile (fs_tree s') (meta_path base b k) = Ok (bytes_of (json_marshal md))"
    using put(3) by (simp add: ReadFile_Ok)
  then have "load_metadata (fs_tree s') (obj_path base b k) = json_unmarshal (json_marshal md)"
    by (simp add: load_metadata_def)
  then show ?thesis using GetObject_file [OF put(2)] put(1) json_roundtrip [OF assms(3)] json_roundtrip_at [OF assms(3)] by simp
qed

text \<open>An operation that leaves every file but those of one object alone leaves the other objects alone.\<close>

lemma FS_get_frame:
  assumes "fs_okey base b k" and "fs_okey base b' k'" and "(b', k') \<noteq> (b, k)"
    and same: "\<And>q. q \<noteq> obj_path base b k \<Longrightarrow> q \<noteq> meta_path base b k \<Longrightarrow> fsame q (fs_tree s) (fs_tree s')"
    and "FS_GetObject base s b' k' = (Ok ob, t)" and "rd_err (ob_Body ob) = None"
  shows "FS_GetObject base s' b' k' = (Ok ob, s')"
proof -
  obtain bs m where f: "lookup (fs_tree s) (obj_path base b' k') = Some (File bs m)"
    using GetObject_readable [OF assms(5,6)] .
  have p: "obj_path base b' k' \<noteq> obj_path base b k" "obj_path base b' k' \<noteq> meta_path base b k"
    "meta_path base b' k' \<noteq> obj_path base b k" "meta_path base b' k' \<noteq> meta_path base b k"
    using obj_path_inj [OF assms(2,1)] obj_meta_distinct [OF assms(2,1)] obj_meta_distinct [OF assms(1,2)]
      meta_path_inj [OF assms(2,1)] assms(3) by auto
  have "lookup (fs_tree s') (obj_path base b' k') = Some (File bs m)"
    using fsame_File [OF same [OF p(1,2)] f] .
  moreover have "load_metadata (fs_tree s') (obj_path base b' k') = load_metadata (fs_tree s) (obj_path base b' k')"
    by (rule load_metadata_fsame, rule same) (use p in simp_all)
  ultimately show ?thesis using GetObject_file [OF f] GetObject_file [of s' base b' k' bs m] assms(5) by simp
qed

lemma FS_get_put_other:
  assumes "fs_okey base b k" and "fs_okey base b' k'" and "(b', k') \<noteq> (b, k)"
    and "FS_PutObject base s b k r n md = (x, s')"
    and "FS_GetObject base s b' k' = (Ok ob, t)" and "rd_err (ob_Body ob) = None"
  shows "FS_GetObject base s' b' k' = (Ok ob, s')"
  by (rule FS_get_frame [OF assms(1-3) PutObject_fsame [OF assms(4)] assms(5,6)])

lemma DeleteObject_fsame:
  assumes "FS_DeleteObject base s b k = (x, s')" and "q \<noteq> obj_path base b k" and "q \<noteq> meta_path base b k"
  shows "fsame q (fs_tree s) (fs_tree s')"
proof -
  obtain e t1 where t1: "Remove (fs_now s) (fs_tree s) (obj_path base b k) = (e, t1)"
    by (cases "Remove (fs_now s) (fs_tree s) (obj_path base b k)")
  obtain e2 t2 where t2: "Remove (fs_now s) t1 (meta_path base b k) = (e2, t2)"
    by (cases "Remove (fs_now s) t1 (meta_path base b k)")
  have "fs_tree s' = t1 \<or> fs_tree s' = t2"
    using assms(1) t1 t2 by (auto simp: FS_DeleteObject_def Let_def split: if_splits)
  then show ?thesis
    using fsame_Remove [OF t1 assms(2)] fsame_Remove [OF t2 assms(3)] fsame_trans by blast
qed

lemma FS_get_delete_other:
  assumes "fs_okey base b k" and "fs_okey base b' k'" and "(b', k') \<noteq> (b, k)"
    and "FS_DeleteObject base s b k = (x, s')"
    and "FS_GetObject base s b' k' = (Ok ob, t)" and "rd_err (ob_Body ob) = None"
  shows "FS_GetObject base s' b' k' = (Ok ob, s')"
  by (rule FS_get_frame [OF assms(1-3) DeleteObject_fsame [OF assms(4)] assms(5,6)])

lemma FileSystemBackend_simps [simp]:
  "bk_PutObject (FileSystemBackend base) = FS_PutObject base"
  "bk_GetObject (FileSystemBackend base) = FS_GetObject base"
  "bk_HeadObject (FileSystemBackend base) = FS_HeadObject base"
  "bk_DeleteObject (FileSystemBackend base) = FS_DeleteObject base"
  by (simp_all add: FileSystemBackend_def)

interpretation fs_store: object_store "FileSystemBackend base" "\<lambda>_. True" "fs_okey base" "\<lambda>_. True" "\<lambda>_. True"
proof
  fix s :: fsstate and b k r n md s'
  assume "fs_okey base b k" "md \<noteq> []" "wf_smap md" "bk_PutObject (FileSystemBackend base) s b k r n md = (Ok (), s')"
  then show "\<exists>ob s''. bk_GetObject (FileSystemBackend base) s' b k = (Ok ob, s'') \<and> rd_err r = None
      \<and> ob_Body ob = bytes_reader (rd_data r) \<and> ob_Size ob = int (length (rd_data r)) \<and> wf_smap (ob_Metadata ob)
      \<and> (\<forall>m. True \<and> ascii m \<and> valid_utf8 (sm_get md m) \<longrightarrow> sm_get (ob_Metadata ob) m = sm_get md m)"
    using FS_get_put [of base b k md s r n s'] by (fastforce simp: sm_get_def to_valid_valid split: option.splits)
next
  fix s :: fsstate and b k b' k' r n md x s' ob t
  assume "fs_okey base b k" "fs_okey base b' k'" "(b', k') \<noteq> (b, k)"
    "bk_PutObject (FileSystemBackend base) s b k r n md = (x, s')"
    "bk_GetObject (FileSystemBackend base) s b' k' = (Ok ob, t)" "rd_err (ob_Body ob) = None"
  then show "\<exists>t'. bk_GetObject (FileSystemBackend base) s' b' k' = (Ok ob, t')"
    using FS_get_put_other [of base b k b' k'] by auto
qed simp_all


section \<open>Multipart uploads assemble their parts\<close>

lemma dec_digits_no_slash: "CHR ''/'' \<notin> set (dec_digits n)"
  using dec_digits_digits by (fastforce simp: is_digit_def)

lemma FormatInt_no_slash: "CHR ''/'' \<notin> set (FormatInt n)"
  by (simp add: FormatInt_def dec_digits_no_slash)

lemma part_path_eq: "part_path base b u n = upload_dir base b u @ [''part-'' @ FormatInt n]"
proof -
  have "Split (''part-'' @ FormatInt n) ''/'' = [''part-'' @ FormatInt n]"
    by (rule Split_no_sep) (simp add: FormatInt_no_slash)
  then show ?thesis
    by (simp add: part_path_def Join_path_def clean_from_plain plain_name_def)
qed

lemma FormatInt_inj: "in_i64 m \<Longrightarrow> in_i64 n \<Longrightarrow> FormatInt m = FormatInt n \<Longrightarrow> m = n"
  by (metis ParseInt_FormatInt res.inject(1))

lemma part_path_inj: "in_i64 m \<Longrightarrow> in_i64 n \<Longrightarrow> part_path base b u m = part_path base b u n \<Longrightarrow> m = n"
  by (simp add: part_path_eq FormatInt_inj)

lemma upload_dir_eq:
  assumes "base \<noteq> ''''" "CHR ''/'' \<notin> set b" "plain_name b" "list_all plain_name (key_parts u)"
  shows "upload_dir base b u = Join [base] @ b # ''.uploads'' # key_parts u"
proof -
  have u: "u \<noteq> ''''" using assms(4) by (auto simp: key_parts_def Split_def plain_name_def)
  have "Split b ''/'' = [b]" "Split ''.uploads'' ''/'' = [''.uploads'']" "b \<noteq> ''''"
    using assms(2,3) by (auto simp: Split_no_sep plain_name_def)
  then have "upload_dir base b u = clean_from (Join [base]) (b # ''.uploads'' # key_parts u)"
    using assms(1) u by (simp add: upload_dir_def Join_Cons [of base "[b, ''.uploads'', u]"] Join_path_def key_parts_def)
  then show ?thesis
    using assms(3,4) clean_from_plain [of "b # ''.uploads'' # key_parts u" "Join [base]"]
    by (auto simp: plain_name_def list_all_iff)
qed

text \<open>A multipart upload whose names are as the code generates them.\<close>

definition upload_ok :: "string \<Rightarrow> string \<Rightarrow> string \<Rightarrow> string \<Rightarrow> bool" where
  "upload_ok base b k u \<longleftrightarrow>
     fs_okey base b k \<and> hd (key_parts k) \<noteq> ''.uploads'' \<and> list_all plain_name (key_parts u)"

lemma obj_not_in_uploads:
  assumes "upload_ok base b k u"
  shows "below (upload_dir base b u) (obj_path base b k) = None" and "part_path base b u n \<noteq> obj_path base b k"
proof -
  have "upload_dir base b u = Join [base] @ b # ''.uploads'' # key_parts u"
    using assms by (intro upload_dir_eq) (auto simp: upload_ok_def fs_okey_def)
  moreover have "obj_path base b k = Join [base] @ b # key_parts k" "hd (key_parts k) \<noteq> ''.uploads''"
    using assms obj_path_eq by (auto simp: upload_ok_def)
  ultimately show "below (upload_dir base b u) (obj_path base b k) = None"
    "part_path base b u n \<noteq> obj_path base b k"
    by (auto simp: below_None part_path_eq) (metis list.sel(1))+
qed

lemma Open_file_Ok:
  "Open_file t p = Ok rd \<Longrightarrow> rd_err rd = None \<Longrightarrow> ReadFile t p = Ok (rd_data rd)"
  by (auto simp: Open_file_def Stat_def ReadFile_def split: option.splits node.splits if_splits)

lemma copy_parts_Ok:
  assumes "copy_parts now pp obj ps t = (Ok (), t')" and "lookup t obj = Some (File bs m)"
    and "\<forall>p \<in> set ps. ReadFile t (pp (cp_PartNumber p)) = Ok (c p) \<and> pp (cp_PartNumber p) \<noteq> obj"
  shows "\<exists>m'. lookup t' obj = Some (File (bs @ concat (map c ps)) m')"
  using assms
proof (induction ps arbitrary: t bs m)
  case Nil
  then show ?case by auto
next
  case (Cons p ps)
  let ?p = "pp (cp_PartNumber p)"
  obtain rd t1 where rd: "Open_file t ?p = Ok rd" and t1: "CopyTo now t obj rd = (Ok (), t1)"
    and rest: "copy_parts now pp obj ps t1 = (Ok (), t')"
    using Cons.prems(1) by (auto simp: Let_def split: res.splits prod.splits)
  have l1: "rd_err rd = None \<and> lookup t1 obj = Some (File (bs @ rd_data rd) now)"
    using CopyTo_Ok [OF t1 Cons.prems(2)] .
  have "rd_data rd = c p"
    using Open_file_Ok [OF rd] l1 Cons.prems(3) by simp
  moreover have "\<forall>q \<in> set ps. ReadFile t1 (pp (cp_PartNumber q)) = Ok (c q) \<and> pp (cp_PartNumber q) \<noteq> obj"
    using Cons.prems(3) ReadFile_fsame [OF fsame_CopyTo [OF t1]] by simp
  ultimately show ?case using Cons.IH [OF rest, of "bs @ rd_data rd" now] l1 by simp
qed

lemma lookup_RemoveAll:
  assumes "RemoveAll now t p = (r, t')" and "below p q = None"
  shows "lookup t' q = Some (File bs m) \<longleftrightarrow> lookup t q = Some (File bs m)"
proof -
  have "map_of (filter (\<lambda>(q, n). below p q = None) t) q = map_of t q"
    using assms(2) by (induction t) auto
  then show ?thesis
    using assms(1) by (auto simp: RemoveAll_def lookup_File map_of_touch_dir
        split: if_splits res.splits go_error.splits)
qed

lemma Complete_body:
  assumes ok: "upload_ok base b k u"
    and parts: "\<forall>p \<in> set ps. ReadFile (fs_tree s) (part_path base b u (cp_PartNumber p)) = Ok (c p)"
    and comp: "FS_CompleteMultipartUpload base s b k u ps = (Ok (), s')"
  shows "\<exists>m. lookup (fs_tree s') (obj_path base b k) = Some (File (concat (map c ps)) m)"
proof -
  obtain r1 t1 t2 t3 where t1: "MkdirAll (fs_now s) (fs_tree s) (Dir_of (obj_path base b k)) = (r1, t1)"
    and t2: "Create (fs_now s) t1 (obj_path base b k) = (Ok (), t2)"
    and t3: "copy_parts (fs_now s) (part_path base b u) (obj_path base b k) ps t2 = (Ok (), t3)"
    and s': "s' = s\<lparr>fs_tree := snd (RemoveAll (fs_now s) t3 (upload_dir base b u))\<rparr>"
    using comp by (auto simp: FS_CompleteMultipartUpload_def Let_def split: res.splits prod.splits)
  have ne: "part_path base b u n \<noteq> obj_path base b k" for n using obj_not_in_uploads(2) [OF ok] .
  have "ReadFile t2 (part_path base b u (cp_PartNumber p)) = Ok (c p)" if "p \<in> set ps" for p
    using that parts ReadFile_fsame [OF fsame_trans [OF fsame_MkdirAll [OF t1] fsame_Create [OF t2 ne]]] by simp
  then obtain m where "lookup t3 (obj_path base b k) = Some (File (concat (map c ps)) m)"
    using copy_parts_Ok [OF t3 Create_Ok [OF t2], of c] ne by auto
  then show ?thesis
    using lookup_RemoveAll [OF prod.collapse [symmetric] obj_not_in_uploads(1) [OF ok]] by (auto simp: s')
qed

text \<open>Uploading a list of numbered parts, one after the other.\<close>

fun upload_all ::
  "string \<Rightarrow> fsstate \<Rightarrow> string \<Rightarrow> string \<Rightarrow> string \<Rightarrow> (int \<times> bytes) list \<Rightarrow> unit res \<times> fsstate" where
  "upload_all base s b k u [] = (Ok (), s)"
| "upload_all base s b k u ((n, bs) # ups) =
     (case FS_UploadPart base s b k u n (bytes_reader bs) (int (length bs)) of
        (Ok _, s') \<Rightarrow> upload_all base s' b k u ups
      | (Err e, s') \<Rightarrow> (Err e, s')
      | (Panic p, s') \<Rightarrow> (Panic p, s'))"

lemma UploadPart_Ok:
  assumes "FS_UploadPart base s b k u n rd sz = (Ok e, s')"
  shows "ReadFile (fs_tree s') (part_path base b u n) = Ok (rd_data rd)"
    and "q \<noteq> part_path base b u n \<Longrightarrow> fsame q (fs_tree s) (fs_tree s')"
proof -
  obtain t1 t2 where t1: "Create (fs_now s) (fs_tree s) (part_path base b u n) = (Ok (), t1)"
    and t2: "CopyTo (fs_now s) t1 (part_path base b u n) rd = (Ok (), t2)" and s': "s' = s\<lparr>fs_tree := t2\<rparr>"
    using assms by (auto simp: FS_UploadPart_def Let_def split: res.splits prod.splits)
  show "ReadFile (fs_tree s') (part_path base b u n) = Ok (rd_data rd)"
    using CopyTo_Ok [OF t2 Create_Ok [OF t1]] by (auto simp: ReadFile_Ok s')
  show "fsame q (fs_tree s) (fs_tree s')" if "q \<noteq> part_path base b u n"
    using fsame_trans [OF fsame_Create [OF t1 that] fsame_CopyTo [OF t2 that]] by (simp add: s')
qed

lemma upload_all_Ok:
  assumes "upload_all base s b k u ups = (Ok (), s')" and "\<forall>(n, bs) \<in> set ups. in_i64 n" and "in_i64 m"
  shows "map_of (rev ups) m = Some bs \<Longrightarrow> ReadFile (fs_tree s') (part_path base b u m) = Ok bs"
    and "map_of (rev ups) m = None \<Longrightarrow> fsame (part_path base b u m) (fs_tree s) (fs_tree s')"
proof -
  have "(map_of (rev ups) m = Some bs \<longrightarrow> ReadFile (fs_tree s') (part_path base b u m) = Ok bs)
      \<and> (map_of (rev ups) m = None \<longrightarrow> fsame (part_path base b u m) (fs_tree s) (fs_tree s'))"
    using assms(1,2)
  proof (induction ups arbitrary: s)
    case Nil
    then show ?case by simp
  next
    case (Cons nb ups)
    obtain n d where nb: "nb = (n, d)" by (cases nb)
    obtain e s1 where up: "FS_UploadPart base s b k u n (bytes_reader d) (int (length d)) = (Ok e, s1)"
      and rest: "upload_all base s1 b k u ups = (Ok (), s')"
      using Cons.prems(1) by (auto simp: nb split: prod.splits res.splits)
    note IH = Cons.IH [OF rest] and UP = UploadPart_Ok [OF up]
    have "in_i64 n" using Cons.prems(2) by (simp add: nb)
    then have "m \<noteq> n \<Longrightarrow> part_path base b u m \<noteq> part_path base b u n"
      using part_path_inj assms(3) by blast
    then have other: "m \<noteq> n \<Longrightarrow> fsame (part_path base b u m) (fs_tree s) (fs_tree s1)"
      using UP(2) by blast
    have IH: "map_of (rev ups) m = Some bs \<Longrightarrow> ReadFile (fs_tree s') (part_path base b u m) = Ok bs"
      "map_of (rev ups) m = None \<Longrightarrow> fsame (part_path base b u m) (fs_tree s1) (fs_tree s')"
      using IH Cons.prems(2) by (auto simp: nb)
    have "map_of (rev ups) m = None \<Longrightarrow> ReadFile (fs_tree s') (part_path base b u n) = Ok d" if "m = n"
      using IH(2) UP(1) ReadFile_fsame that by fastforce
    moreover have "map_of (rev ups) m = None \<Longrightarrow> fsame (part_path base b u m) (fs_tree s) (fs_tree s')" if "m \<noteq> n"
      using IH(2) other that fsame_trans by blast
    ultimately show ?case
      using IH(1) by (cases "m = n") (auto simp: nb map_add_def split: option.splits)
  qed
  then show "map_of (rev ups) m = Some bs \<Longrightarrow> ReadFile (fs_tree s') (part_path base b u m) = Ok bs"
    "map_of (rev ups) m = None \<Longrightarrow> fsame (part_path base b u m) (fs_tree s) (fs_tree s')" by blast+
qed


lemma multipart_file:
  assumes "upload_ok base b k u" and "upload_all base s b k u ups = (Ok (), s1)"
    and "\<forall>(n, bs) \<in> set ups. in_i64 n"
    and "\<forall>p \<in> set ps. cp_PartNumber p \<in> fst ` set ups"
    and "FS_CompleteMultipartUpload base s1 b k u ps = (Ok (), s2)"
  obtains m where "lookup (fs_tree s2) (obj_path base b k) =
    Some (File (concat (map (\<lambda>p. the (map_of (rev ups) (cp_PartNumber p))) ps)) m)"
proof -
  have "ReadFile (fs_tree s1) (part_path base b u (cp_PartNumber p)) = Ok (the (map_of (rev ups) (cp_PartNumber p)))"
    if p: "p \<in> set ps" for p
  proof -
    have "map_of (rev ups) (cp_PartNumber p) \<noteq> None" using assms(4) p by (auto simp: map_of_eq_None_iff)
    then obtain bs where bs: "map_of (rev ups) (cp_PartNumber p) = Some bs" by blast
    then have "in_i64 (cp_PartNumber p)" using assms(3) map_of_SomeD [OF bs] by auto
    then show ?thesis using upload_all_Ok(1) [OF assms(2,3)] bs by simp
  qed
  then show thesis
    using that Complete_body [OF assms(1) _ assms(5), of "\<lambda>p. the (map_of (rev ups) (cp_PartNumber p))"] by auto
qed

text \<open>When a store succeeds.\<close>

lemma ancestors_iff: "q \<in> set (ancestors p) \<longleftrightarrow> (\<exists>i. 1 \<le> i \<and> i < length p \<and> q = take i p)"
  by (auto simp: ancestors_def)

lemma ancestors_snoc: "q \<noteq> [] \<Longrightarrow> ancestors (q @ [c]) = ancestors q @ [q]"
proof -
  assume "q \<noteq> []"
  then have "[1..<length (q @ [c])] = [1..<length q] @ [length q]" by (cases q) simp_all
  then show ?thesis by (simp add: ancestors_def)
qed

lemma MkdirAll_parent:
  assumes "2 \<le> length p"
  shows "MkdirAll now t (Dir_of p) = mkdirs now (ancestors p) t" and "Dir_of p \<in> set (ancestors p)"
proof -
  obtain q c where p: "p = q @ [c]" "q \<noteq> []" using assms by (cases p rule: rev_cases) (auto simp: Suc_le_eq)
  then have d: "Dir_of p = q" by (auto simp: Dir_of_def)
  show "MkdirAll now t (Dir_of p) = mkdirs now (ancestors p) t"
    unfolding MkdirAll_def d using p by (simp add: ancestors_snoc)
  show "Dir_of p \<in> set (ancestors p)" unfolding d using p by (simp add: ancestors_snoc)
qed

lemma not_ancestor: "length q = length p \<Longrightarrow> q \<notin> set (ancestors p)"
  by (auto simp: ancestors_iff)

lemma CopyTo_succeeds: "rd_err r = None \<Longrightarrow> CopyTo now t p r = (Ok (), put_node now p
    (File ((case lookup t p of Some (File bs m) \<Rightarrow> bs | _ \<Rightarrow> []) @ rd_data r) now) t)"
  by (simp add: CopyTo_def Let_def)

lemma PutObject_succeeds:
  assumes k: "fs_okey base b k" and free: "\<forall>p \<in> set (ancestors (obj_path base b k)). \<not> file_at (fs_tree s) p"
    and obj: "\<not> dir_at (fs_tree s) (obj_path base b k)" and meta: "\<not> dir_at (fs_tree s) (meta_path base b k)"
    and r: "rd_err r = None"
  shows "fst (FS_PutObject base s b k r n md) = Ok ()"
proof -
  let ?p = "obj_path base b k" and ?m = "meta_path base b k" and ?now = "fs_now s"
  have len: "2 \<le> length ?p" using obj_path_eq [OF k] by (cases "key_parts k") auto
  have m: "?m = butlast ?p @ [last ?p @ ''.meta'']" using meta_path_eq [OF k] .
  then have lm: "length ?m = length ?p" and parent: "Dir_of ?m = Dir_of ?p"
    using len by (auto simp: Dir_of_def)
  have ne: "?m \<noteq> ?p" "?p \<noteq> Dir_of ?p" using obj_meta_distinct [OF k k] not_ancestor [of ?p ?p] MkdirAll_parent(2) [OF len] by auto
  obtain t1 where t1: "MkdirAll ?now (fs_tree s) (Dir_of ?p) = (Ok (), t1)"
    "\<And>q. dir_at t1 q \<longleftrightarrow> dir_at (fs_tree s) q \<or> q \<in> set (ancestors ?p)"
    using mkdirs_Ok [OF free] unfolding MkdirAll_parent(1) [OF len] by metis
  have d: "dir_at t1 (Dir_of ?p)" "\<not> dir_at t1 ?p" "\<not> dir_at t1 ?m"
    using t1(2) MkdirAll_parent(2) [OF len] obj meta not_ancestor [of ?p ?p] not_ancestor [OF lm] by blast+
  have c: "Create ?now t1 ?p = (Ok (), put_node ?now ?p (File [] ?now) t1)" using d by (simp add: Create_succeeds)
  have w: "Create ?now (put_node ?now ?p (File bs ?now) (put_node ?now ?p (File [] ?now) t1)) ?m
      = (Ok (), put_node ?now ?m (File [] ?now) (put_node ?now ?p (File bs ?now) (put_node ?now ?p (File [] ?now) t1)))" for bs
    using d ne parent by (simp add: Create_succeeds)
  show ?thesis
    using t1(1) c w by (simp add: FS_PutObject_def Let_def CopyTo_succeeds [OF r] WriteFile_def)
qed

section \<open>Properties\<close>

text \<open>C13: an object is durable under stores to other objects. After a successful \<^verbatim>\<open>PutObject\<close> with metadata
  in valid UTF-8 and then any sequence of stores to other names, successful or not, \<^verbatim>\<open>GetObject\<close> returns exactly the bytes,
  the size and the metadata that were stored. (Metadata go through a JSON file, which changes other strings:
  \<open>latin1_metadata_changed\<close>.)\<close>

theorem FS_object_durable:
  assumes "fs_okey base b k" and "md \<noteq> []" and "wf_smap md" and "utf8_smap md" and "FS_PutObject base s b k r n md = (Ok (), s')"
    and "\<forall>(b', k', r, n, md) \<in> set ps. fs_okey base b' k' \<and> (b', k') \<noteq> (b, k)"
  shows "\<exists>ob t. FS_GetObject base (fold (\<lambda>(b', k', r, n, md) s. snd (FS_PutObject base s b' k' r n md)) ps s') b k = (Ok ob, t)
    \<and> ob_Body ob = bytes_reader (rd_data r) \<and> ob_Size ob = int (length (rd_data r))
    \<and> map_of (ob_Metadata ob) = map_of md"
proof -
  obtain ob where ob: "FS_GetObject base s' b k = (Ok ob, s')" "ob_Body ob = bytes_reader (rd_data r)"
    "ob_Size ob = int (length (rd_data r))" "map_of (ob_Metadata ob) = map_of md"
    using FS_get_put [OF assms(1-3,5)] assms(4) by blast
  have "\<exists>t. FS_GetObject base (fold (\<lambda>(b', k', r, n, md) s. snd (FS_PutObject base s b' k' r n md)) ps s') b k = (Ok ob, t)"
    using fs_store.get_after_puts [of base b k s' ob s' ps] assms(1,6) ob by simp
  with ob show ?thesis by blast
qed

definition demo_fs :: fsstate where
  "demo_fs = \<lparr>fs_tree = [], fs_now = 7\<rparr>"

lemmas fs_eval = FS_PutObject_def FS_GetObject_def Join_def Split_def HasPrefix_def clean_from_def clean_step_def
  MkdirAll_def ancestors_def Dir_of_def lookup_def is_root_def put_node_def touch_dir_def Create_def CopyTo_def
  WriteFile_def path_suffix_def Let_def

lemma demo_put: "fst (FS_PutObject ''/d'' demo_fs ''b'' ''x/y'' (bytes_reader [1, 2]) 2 [(''m'', ''v'')]) = Ok ()"
  by (simp add: fs_eval demo_fs_def upt_rec numeral_2_eq_2)

lemma demo_okey: "fs_okey ''/d'' ''b'' ''x/y''" "fs_okey ''/d'' ''b'' ''z''"
  by (simp_all add: fs_okey_def key_parts_def Split_def HasPrefix_def plain_name_def HasSuffix_def)

theorem FS_object_durable_witness:
  "\<exists>ob t. FS_GetObject ''/d'' (fold (\<lambda>(b', k', r, n, md) s. snd (FS_PutObject ''/d'' s b' k' r n md))
       [(''b'', ''z'', bytes_reader [9], 1, [])]
       (snd (FS_PutObject ''/d'' demo_fs ''b'' ''x/y'' (bytes_reader [1, 2]) 2 [(''m'', ''v'')]))) ''b'' ''x/y'' = (Ok ob, t)
    \<and> ob_Body ob = bytes_reader [1, 2] \<and> ob_Size ob = 2 \<and> map_of (ob_Metadata ob) = map_of [(''m'', ''v'')]"
proof -
  obtain s' where p: "FS_PutObject ''/d'' demo_fs ''b'' ''x/y'' (bytes_reader [1, 2]) 2 [(''m'', ''v'')] = (Ok (), s')"
    using demo_put by (metis prod.collapse)
  show ?thesis
    using FS_object_durable [OF demo_okey(1) _ _ _ p, of "[(''b'', ''z'', bytes_reader [9], 1, [])]"] demo_okey(2)
    by (simp add: wf_smap_def p ascii_valid)
qed

text \<open>A header value in Latin-1 is stored, and read back with U+FFFD in place of the letter.\<close>

lemma latin1_metadata_changed:
  assumes "fs_okey base b k" and "FS_PutObject base s b k r n [(''n'', [CHR ''c'', CHR ''a'', CHR ''f'', CHR 0xE9])] = (Ok (), s')"
  shows "\<exists>ob. FS_GetObject base s' b k = (Ok ob, s') \<and> map_of (ob_Metadata ob) ''n'' = Some (''caf'' @ rune_error)"
proof -
  have "to_valid [CHR ''c'', CHR ''a'', CHR ''f'', CHR 0xE9] = ''caf'' @ rune_error"
    by (simp add: rune_simps rune_tail_def Let_def)
  moreover have "wf_smap [(''n'', [CHR ''c'', CHR ''a'', CHR ''f'', CHR 0xE9])]" "ascii ''n''" by (simp_all add: wf_smap_def)
  ultimately show ?thesis using FS_get_put [OF assms(1) list.distinct(2) _ assms(2)] by fastforce
qed

text \<open>In the model of the operating system, which has no limits on names or space and no permissions, a store succeeds whenever nothing is in its way. If no file stands where a directory of the object's path
  is needed, and no directory where the object or its metadata goes, \<^verbatim>\<open>PutObject\<close> of a readable body creates
  the missing directories and returns without an error, and the object is there.\<close>

theorem FS_put_total:
  assumes "fs_okey base b k" and "\<forall>p \<in> set (ancestors (obj_path base b k)). \<not> file_at (fs_tree s) p"
    and "\<not> dir_at (fs_tree s) (obj_path base b k)" and "\<not> dir_at (fs_tree s) (meta_path base b k)"
    and "rd_err r = None" and "md \<noteq> []"
  shows "\<exists>s'. FS_PutObject base s b k r n md = (Ok (), s')
    \<and> lookup (fs_tree s') (obj_path base b k) = Some (File (rd_data r) (fs_now s))
    \<and> lookup (fs_tree s') (meta_path base b k) = Some (File (bytes_of (json_marshal md)) (fs_now s))"
proof -
  obtain s' where "FS_PutObject base s b k r n md = (Ok (), s')"
    using PutObject_succeeds [OF assms(1-5)] by (metis prod.collapse)
  then show ?thesis using PutObject_Ok [OF assms(1) _ assms(6)] by blast
qed

lemma demo_fs_free:
  "list_all (\<lambda>p. \<not> file_at (fs_tree demo_fs) p) (ancestors (obj_path ''/d'' ''b'' ''x/y''))
     \<and> \<not> dir_at (fs_tree demo_fs) (obj_path ''/d'' ''b'' ''x/y'') \<and> \<not> dir_at (fs_tree demo_fs) (meta_path ''/d'' ''b'' ''x/y'')"
  by code_simp

theorem FS_put_total_witness:
  "\<exists>s'. FS_PutObject ''/d'' demo_fs ''b'' ''x/y'' (bytes_reader [1]) 1 [(''m'', ''v'')] = (Ok (), s')
    \<and> lookup (fs_tree s') (obj_path ''/d'' ''b'' ''x/y'') = Some (File [1] 7)"
  using FS_put_total [of "''/d''" "''b''" "''x/y''" demo_fs "bytes_reader [1]" "[(''m'', ''v'')]" 1] demo_okey(1) demo_fs_free
  by (auto simp: list_all_iff demo_fs_def)

text \<open>C14: a completed multipart upload is the concatenation of its parts. If parts were uploaded, each as often as
  the client liked, and \<^verbatim>\<open>CompleteMultipartUpload\<close> succeeds on a list of uploaded part numbers, the object
  then read is the last upload of each listed part, in the order of the list.\<close>

theorem FS_multipart_concatenates:
  assumes "upload_ok base b k u" and "upload_all base s b k u ups = (Ok (), s1)"
    and "\<forall>(n, bs) \<in> set ups. in_i64 n"
    and "\<forall>p \<in> set ps. cp_PartNumber p \<in> fst ` set ups"
    and "FS_CompleteMultipartUpload base s1 b k u ps = (Ok (), s2)"
  shows "\<exists>ob. FS_GetObject base s2 b k = (Ok ob, s2)
    \<and> ob_Body ob = bytes_reader (concat (map (\<lambda>p. the (map_of (rev ups) (cp_PartNumber p))) ps))"
  using multipart_file [OF assms] GetObject_file by (metis (no_types, lifting) s3_object.select_convs(1))

text \<open>A new object can inherit the metadata of the one it replaces. Storing without metadata leaves the metadata
  file of an earlier object of the same name in place, and it is returned with the new bytes.\<close>

theorem FS_stale_metadata:
  assumes "fs_okey base b k" and "md \<noteq> []" and "wf_smap md" and "utf8_smap md" and "FS_PutObject base s b k r n md = (Ok (), s1)"
    and "FS_PutObject base s1 b k r2 n2 [] = (Ok (), s2)"
  shows "\<exists>ob. FS_GetObject base s2 b k = (Ok ob, s2) \<and> ob_Body ob = bytes_reader (rd_data r2)
    \<and> map_of (ob_Metadata ob) = map_of md"
proof -
  let ?p = "obj_path base b k"
  obtain r1 t1 t2 t3 where t: "MkdirAll (fs_now s1) (fs_tree s1) (Dir_of ?p) = (r1, t1)"
    "Create (fs_now s1) t1 ?p = (Ok (), t2)" "CopyTo (fs_now s1) t2 ?p r2 = (Ok (), t3)" and s2: "s2 = s1\<lparr>fs_tree := t3\<rparr>"
    using assms(6) by (auto simp: FS_PutObject_def Let_def split: prod.splits res.splits)
  have ne: "meta_path base b k \<noteq> ?p" using obj_meta_distinct [OF assms(1,1)] by simp
  have "fsame (meta_path base b k) (fs_tree s1) t3"
    using fsame_trans [OF fsame_trans [OF fsame_MkdirAll [OF t(1)] fsame_Create [OF t(2) ne]] fsame_CopyTo [OF t(3) ne]] .
  then have "load_metadata (fs_tree s2) ?p = load_metadata (fs_tree s1) ?p"
    using load_metadata_fsame by (simp add: s2)
  moreover have "map_of (load_metadata (fs_tree s1) ?p) = map_of md"
    using FS_get_put [OF assms(1-3,5)] assms(4) GetObject_file [OF PutObject_Ok(2) [OF assms(1,5,2)]] by auto
  moreover have "lookup (fs_tree s2) ?p = Some (File (rd_data r2) (fs_now s1))"
    using CopyTo_Ok [OF t(3) Create_Ok [OF t(2)]] by (simp add: s2)
  ultimately show ?thesis using GetObject_file by simp
qed

lemma demo_put2:
  "fst (FS_PutObject ''/d'' (snd (FS_PutObject ''/d'' demo_fs ''b'' ''x/y'' (bytes_reader [1, 2]) 2 [(''m'', ''v'')]))
     ''b'' ''x/y'' (bytes_reader [3]) 1 []) = Ok ()"
  by (simp add: fs_eval demo_fs_def upt_rec numeral_2_eq_2)

theorem FS_stale_metadata_witness:
  "\<exists>s1 s2 ob. FS_PutObject ''/d'' demo_fs ''b'' ''x/y'' (bytes_reader [1, 2]) 2 [(''m'', ''v'')] = (Ok (), s1)
     \<and> FS_PutObject ''/d'' s1 ''b'' ''x/y'' (bytes_reader [3]) 1 [] = (Ok (), s2)
     \<and> FS_GetObject ''/d'' s2 ''b'' ''x/y'' = (Ok ob, s2) \<and> ob_Body ob = bytes_reader [3]
     \<and> map_of (ob_Metadata ob) = map_of [(''m'', ''v'')]"
proof -
  obtain s1 where p: "FS_PutObject ''/d'' demo_fs ''b'' ''x/y'' (bytes_reader [1, 2]) 2 [(''m'', ''v'')] = (Ok (), s1)"
    using demo_put by (metis prod.collapse)
  obtain s2 where q: "FS_PutObject ''/d'' s1 ''b'' ''x/y'' (bytes_reader [3]) 1 [] = (Ok (), s2)"
    using demo_put2 p by (metis prod.collapse snd_conv)
  show ?thesis
    using FS_stale_metadata [OF demo_okey(1) _ _ _ p q] p q by (auto simp: wf_smap_def ascii_valid)
qed

text \<open>Aborting an upload can delete a bucket. The upload ID is joined into the path unchecked, so with the ID
  \<^verbatim>\<open>../../v\<close> the call removes the whole bucket \<^verbatim>\<open>v\<close>, exactly as \<^verbatim>\<open>DeleteBucket\<close> would.\<close>

theorem FS_abort_deletes_bucket:
  assumes "base \<noteq> ''''" and "CHR ''/'' \<notin> set b" and "plain_name b" and "CHR ''/'' \<notin> set v" and "plain_name v"
  shows "FS_AbortMultipartUpload base s b k (''../../'' @ v) = FS_DeleteBucket base s v"
proof -
  have v: "v \<noteq> ''''" "b \<noteq> ''''" "Split b ''/'' = [b]" "Split v ''/'' = [v]"
    using assms by (auto simp: plain_name_def Split_no_sep)
  have sp: "Split (''../../'' @ v) ''/'' = [''..'', ''..'', v]" "Split ''.uploads'' ''/'' = [''.uploads'']"
    using split_aux_no_sep [OF assms(4), of "[]"] by (simp_all add: Split_def HasPrefix_def)
  have "upload_dir base b (''../../'' @ v) = Join_path (Join [base]) [b, ''.uploads'', ''../../'' @ v]"
    unfolding upload_dir_def using assms(1) by (rule Join_Cons)
  also have "\<dots> = clean_from (Join [base]) [b, ''.uploads'', ''..'', ''..'', v]"
    using v sp by (simp add: Join_path_def)
  also have "\<dots> = clean_from (Join [base]) [v]"
  proof -
    have up: "clean_step (st @ [c]) ''..'' = st" if "plain_name c" "c \<noteq> ''/''" for st c
      using that by (simp add: clean_step_def plain_name_def)
    have "clean_step (Join [base]) b = Join [base] @ [b]" "b \<noteq> ''/''"
      "clean_step (Join [base] @ [b]) ''.uploads'' = (Join [base] @ [b]) @ [''.uploads'']"
      using assms(2,3) by (auto simp: clean_step_def plain_name_def)
    then show ?thesis
      using up [of "''.uploads''" "Join [base] @ [b]"] up [OF assms(3), of "Join [base]"]
      by (simp add: clean_from_def plain_name_def)
  qed
  also have "\<dots> = Join [base, v]"
    using assms(1) v by (simp add: Join_Cons [of base "[v]"] Join_path_def)
  finally show ?thesis by (simp add: FS_AbortMultipartUpload_def FS_DeleteBucket_def)
qed

theorem FS_abort_deletes_bucket_witness:
  "FS_AbortMultipartUpload ''/data'' demo_fs ''mine'' ''k'' ''../../theirs'' = FS_DeleteBucket ''/data'' demo_fs ''theirs''"
  using FS_abort_deletes_bucket [of "''/data''" "''mine''" "''theirs''" demo_fs "''k''"] by (simp add: plain_name_def)


definition demo_upload :: fsstate where
  "demo_upload = snd (FS_InitiateMultipartUpload ''/d'' demo_fs ''b'' ''k'' [])"

definition demo_parts :: "completed_part list" where
  "demo_parts = [\<lparr>cp_PartNumber = 1, cp_ETag = ''''\<rparr>, \<lparr>cp_PartNumber = 2, cp_ETag = ''''\<rparr>]"

lemma demo_upload_all:
  "fst (upload_all ''/d'' demo_upload ''b'' ''k'' ''k-7'' [(2, [3]), (1, [1, 2])]) = Ok ()"
  "fst (FS_CompleteMultipartUpload ''/d'' (snd (upload_all ''/d'' demo_upload ''b'' ''k'' ''k-7'' [(2, [3]), (1, [1, 2])]))
     ''b'' ''k'' ''k-7'' demo_parts) = Ok ()"
  by code_simp+

theorem FS_multipart_concatenates_witness:
  "\<exists>s1 s2 ob. upload_all ''/d'' demo_upload ''b'' ''k'' ''k-7'' [(2, [3]), (1, [1, 2])] = (Ok (), s1)
     \<and> FS_CompleteMultipartUpload ''/d'' s1 ''b'' ''k'' ''k-7'' demo_parts = (Ok (), s2)
     \<and> FS_GetObject ''/d'' s2 ''b'' ''k'' = (Ok ob, s2) \<and> ob_Body ob = bytes_reader [1, 2, 3]"
proof -
  obtain s1 where u: "upload_all ''/d'' demo_upload ''b'' ''k'' ''k-7'' [(2, [3]), (1, [1, 2])] = (Ok (), s1)"
    using demo_upload_all(1) by (metis prod.collapse)
  obtain s2 where c: "FS_CompleteMultipartUpload ''/d'' s1 ''b'' ''k'' ''k-7'' demo_parts = (Ok (), s2)"
    using demo_upload_all(2) u by (metis prod.collapse snd_conv)
  have "upload_ok ''/d'' ''b'' ''k'' ''k-7''"
    by (simp add: upload_ok_def fs_okey_def key_parts_def Split_def HasPrefix_def plain_name_def HasSuffix_def)
  from FS_multipart_concatenates [OF this u _ _ c] u c show ?thesis
    by (auto simp: in_i64_def demo_parts_def)
qed

definition demo_bucket :: fsstate where
  "demo_bucket = \<lparr>fs_tree = [([''/'', ''d''], Dir 0), ([''/'', ''d'', ''b''], Dir 0), ([''/'', ''d'', ''b'', ''a''], Dir 0),
     ([''/'', ''d'', ''b'', ''a'', ''x''], File [1] 5), ([''/'', ''d'', ''b'', ''a.txt''], File [2] 6)], fs_now = 9\<rparr>"

definition listed :: "list_objects_result res \<times> fsstate \<Rightarrow> string list \<times> bool" where
  "listed r = (case fst r of Ok l \<Rightarrow> (map oi_Key (lr_Contents l), lr_IsTruncated l) | _ \<Rightarrow> ([], False))"

text \<open>A client that pages through a bucket can miss objects. The walk visits \<^verbatim>\<open>a/x\<close> before \<^verbatim>\<open>a.txt\<close>, but the
  marker is compared with the keys as strings, where \<^verbatim>\<open>a.txt\<close> comes first: after the first page, which ends
  with \<^verbatim>\<open>a/x\<close> and is marked as truncated, the next page is empty, although the bucket also holds \<^verbatim>\<open>a.txt\<close>.\<close>

theorem FS_listing_loses_objects:
  "listed (FS_ListObjectsWithDelimiter ''/d'' demo_bucket ''b'' '''' '''' '''' 1000) = ([''a/x'', ''a.txt''], False)
   \<and> listed (FS_ListObjectsWithDelimiter ''/d'' demo_bucket ''b'' '''' '''' '''' 1) = ([''a/x''], True)
   \<and> listed (FS_ListObjectsWithDelimiter ''/d'' demo_bucket ''b'' '''' ''a/x'' '''' 1000) = ([], False)"
  by code_simp

end
