(* ===== verification/Storage_Encrypted.thy ===== *)
theory Storage_Encrypted
  imports Storage_FileSystem Enc_Manager
begin

text \<open>
  \<^verbatim>\<open>internal/storage/encrypted.go\<close>: the backend that encrypts what it passes to another backend. Its state
  is the state of the wrapped backend, the state of the encryption manager's key provider, and the
  multipart uploads in progress. The metadata maps of the code are never nil here: the file system
  backend and the handlers create them. Proved inside the locale \<open>encrypted_store\<close>, for every
  object store and every encryptor that keep their contracts: the encrypted backend is an object
  store again (a \<open>sublocale\<close>), and what the wrapped backend receives is sealed.
\<close>

record multipart_upload_info =
  mu_bucket :: string
  mu_key :: string
  mu_originalMetadata :: smap

record ('b, 's) encstate =
  es_backend :: 'b
  es_enc :: 's
  es_uploads :: "(string \<times> multipart_upload_info) list"

section \<open>Helpers\<close>

definition cleanMetadata :: "smap \<Rightarrow> smap" where
  "cleanMetadata md =
     AList.delete MetadataKeyEncryptedSize (AList.delete MetadataKeyNonce (AList.delete MetadataKeyEncryptedDEK
       (AList.delete MetadataKeyID (AList.delete MetadataKeyAlgorithm md))))"

text \<open>The loop over the required keys visits them in some order; the first one missing is reported.\<close>

definition validateEncryptionMetadata :: "smap \<Rightarrow> unit res" where
  "validateEncryptionMetadata md =
     (if sm_get md MetadataKeyAlgorithm = '''' then Err (ErrNew ''missing algorithm metadata'')
      else if sm_get md MetadataKeyEncryptedDEK = '''' then Err (ErrNew ''missing DEK metadata'')
      else if sm_get md MetadataKeyNonce = '''' then Err (ErrNew ''missing nonce metadata'')
      else Ok ())"

text \<open>\<open>br\<close> is the length of the reader when it is a \<^verbatim>\<open>bytes.Reader\<close>, which the manager's readers are.\<close>

definition calculateEncryptedSize :: "nat option \<Rightarrow> int \<Rightarrow> int" where
  "calculateEncryptedSize br originalSize = (case br of Some n \<Rightarrow> int n | None \<Rightarrow> originalSize + 16)"

definition getOriginalSize :: "smap \<Rightarrow> int \<Rightarrow> int" where
  "getOriginalSize md current =
     (let sizeStr = sm_get md MetadataKeyEncryptedSize in
      if sizeStr \<noteq> '''' then (case ParseInt sizeStr of Ok n \<Rightarrow> n | _ \<Rightarrow> current) else current)"

definition sse_marker :: string where
  "sse_marker = ''x-amz-server-side-encryption''"

definition isEncrypted :: "smap \<Rightarrow> bool" where
  "isEncrypted md \<longleftrightarrow> sm_get md MetadataKeyAlgorithm \<noteq> ''''"

definition visible_metadata :: "smap \<Rightarrow> smap" where
  "visible_metadata md =
     (if isEncrypted md then AList.update sse_marker ''AES256'' (cleanMetadata md) else cleanMetadata md)"

definition processListItem :: "object_info \<Rightarrow> object_info" where
  "processListItem item =
     item\<lparr>oi_Size := (if isEncrypted (oi_Metadata item) then getOriginalSize (oi_Metadata item) (oi_Size item) else oi_Size item),
          oi_Metadata := visible_metadata (oi_Metadata item)\<rparr>"

text \<open>Running an operation of the wrapped backend, or of the manager, on its part of the state.\<close>

definition on_backend :: "('b \<Rightarrow> 'a \<times> 'b) \<Rightarrow> ('b, 's) encstate \<Rightarrow> 'a \<times> ('b, 's) encstate" where
  "on_backend f s = (case f (es_backend s) of (r, b) \<Rightarrow> (r, s\<lparr>es_backend := b\<rparr>))"

definition on_enc :: "('s \<Rightarrow> 'a \<times> 's) \<Rightarrow> ('b, 's) encstate \<Rightarrow> 'a \<times> ('b, 's) encstate" where
  "on_enc f s = (case f (es_enc s) of (r, e) \<Rightarrow> (r, s\<lparr>es_enc := e\<rparr>))"

section \<open>Objects\<close>

definition EB_GetObject ::
  "'b backend \<Rightarrow> 's enc_manager \<Rightarrow> ('b, 's) encstate \<Rightarrow> string \<Rightarrow> string \<Rightarrow> s3_object res \<times> ('b, 's) encstate" where
  "EB_GetObject bk m s bucket key =
     (case on_backend (\<lambda>b. bk_GetObject bk b bucket key) s of
        (Err e, s1) \<Rightarrow> (Err e, s1)
      | (Panic p, s1) \<Rightarrow> (Panic p, s1)
      | (Ok obj, s1) \<Rightarrow>
          let md = ob_Metadata obj; enc = isEncrypted md in
          (case (if enc then validateEncryptionMetadata md else Ok ()) of
             Err e \<Rightarrow> (Err e, s1)
           | Panic p \<Rightarrow> (Panic p, s1)
           | Ok _ \<Rightarrow>
               (case on_enc (\<lambda>e. EncManager_Decrypt m e (ob_Body obj) md) s1 of
                  (Err e, s2) \<Rightarrow> (Err (ErrWrap ''failed to decrypt object: '' e), s2)
                | (Panic p, s2) \<Rightarrow> (Panic p, s2)
                | (Ok body, s2) \<Rightarrow>
                    (Ok (obj\<lparr>ob_Body := body,
                             ob_Size := (if enc then getOriginalSize md (ob_Size obj) else ob_Size obj),
                             ob_Metadata := visible_metadata md\<rparr>), s2))))"

definition EB_PutObject ::
  "'b backend \<Rightarrow> 's enc_manager \<Rightarrow> ('b, 's) encstate \<Rightarrow> string \<Rightarrow> string \<Rightarrow> reader \<Rightarrow> int \<Rightarrow> smap
     \<Rightarrow> unit res \<times> ('b, 's) encstate" where
  "EB_PutObject bk m s bucket key reader sz metadata =
     (if \<not> EncManager_ShouldEncrypt m bucket
      then on_backend (\<lambda>b. bk_PutObject bk b bucket key reader sz metadata) s
      else
        case on_enc (\<lambda>e. EncManager_Encrypt m e reader sz) s of
          (Err e, s1) \<Rightarrow> (Err (ErrWrap ''failed to encrypt object: '' e), s1)
        | (Panic p, s1) \<Rightarrow> (Panic p, s1)
        | (Ok (encryptedReader, encMetadata), s1) \<Rightarrow>
            let md = AList.update sse_marker ''AES256'' (sm_merge metadata encMetadata) in
            (case validateEncryptionMetadata encMetadata of
               Err e \<Rightarrow> (Err (ErrWrap ''encryption failed: '' e), s1)
             | Panic p \<Rightarrow> (Panic p, s1)
             | Ok _ \<Rightarrow>
                 on_backend (\<lambda>b. bk_PutObject bk b bucket key encryptedReader
                                 (calculateEncryptedSize (Some (length (rd_data encryptedReader))) sz) md) s1))"

definition EB_DeleteObject ::
  "'b backend \<Rightarrow> ('b, 's) encstate \<Rightarrow> string \<Rightarrow> string \<Rightarrow> unit res \<times> ('b, 's) encstate" where
  "EB_DeleteObject bk s bucket key = on_backend (\<lambda>b. bk_DeleteObject bk b bucket key) s"

definition clean_listing :: "list_objects_result res \<Rightarrow> list_objects_result res" where
  "clean_listing r = res_bind r (\<lambda>l. Ok (l\<lparr>lr_Contents := map processListItem (lr_Contents l)\<rparr>))"

definition EB_ListObjects ::
  "'b backend \<Rightarrow> ('b, 's) encstate \<Rightarrow> string \<Rightarrow> string \<Rightarrow> string \<Rightarrow> int \<Rightarrow> list_objects_result res \<times> ('b, 's) encstate" where
  "EB_ListObjects bk s bucket prefix marker maxKeys =
     (case on_backend (\<lambda>b. bk_ListObjects bk b bucket prefix marker maxKeys) s of (r, s') \<Rightarrow> (clean_listing r, s'))"

definition EB_ListObjectsWithDelimiter ::
  "'b backend \<Rightarrow> ('b, 's) encstate \<Rightarrow> string \<Rightarrow> string \<Rightarrow> string \<Rightarrow> string \<Rightarrow> int \<Rightarrow> list_objects_result res \<times> ('b, 's) encstate" where
  "EB_ListObjectsWithDelimiter bk s bucket prefix marker delimiter maxKeys =
     (case on_backend (\<lambda>b. bk_ListObjectsWithDelimiter bk b bucket prefix marker delimiter maxKeys) s of
        (r, s') \<Rightarrow> (clean_listing r, s'))"

definition EB_HeadObject ::
  "'b backend \<Rightarrow> ('b, 's) encstate \<Rightarrow> string \<Rightarrow> string \<Rightarrow> object_info res \<times> ('b, 's) encstate" where
  "EB_HeadObject bk s bucket key =
     (case on_backend (\<lambda>b. bk_HeadObject bk b bucket key) s of
        (r, s') \<Rightarrow>
          (res_bind r (\<lambda>info.
             let md = oi_Metadata info in
             Ok (info\<lparr>oi_Size := (if isEncrypted md then getOriginalSize md (oi_Size info) else oi_Size info),
                      oi_Metadata := visible_metadata md\<rparr>)), s'))"

section \<open>Multipart uploads\<close>

definition EB_InitiateMultipartUpload ::
  "'b backend \<Rightarrow> 's enc_manager \<Rightarrow> ('b, 's) encstate \<Rightarrow> string \<Rightarrow> string \<Rightarrow> smap \<Rightarrow> string res \<times> ('b, 's) encstate" where
  "EB_InitiateMultipartUpload bk m s bucket key metadata =
     (case on_backend (\<lambda>b. bk_InitiateMultipartUpload bk b bucket key metadata) s of
        (Ok uploadID, s1) \<Rightarrow>
          if EncManager_IsEnabled m
          then (Ok uploadID, s1\<lparr>es_uploads := AList.update uploadID
                  \<lparr>mu_bucket = bucket, mu_key = key, mu_originalMetadata = metadata\<rparr> (es_uploads s1)\<rparr>)
          else (Ok uploadID, s1)
      | (r, s1) \<Rightarrow> (r, s1))"

definition EB_UploadPart ::
  "'b backend \<Rightarrow> ('b, 's) encstate \<Rightarrow> string \<Rightarrow> string \<Rightarrow> string \<Rightarrow> int \<Rightarrow> reader \<Rightarrow> int \<Rightarrow> string res \<times> ('b, 's) encstate" where
  "EB_UploadPart bk s bucket key uploadID partNumber reader sz =
     on_backend (\<lambda>b. bk_UploadPart bk b bucket key uploadID partNumber reader sz) s"

text \<open>The second half of \<^verbatim>\<open>CompleteMultipartUpload\<close>: the assembled object is read, encrypted and stored over
  itself. Decryption is not involved: the object is read from the wrapped backend.\<close>

definition encrypt_completed ::
  "'b backend \<Rightarrow> 's enc_manager \<Rightarrow> ('b, 's) encstate \<Rightarrow> string \<Rightarrow> string \<Rightarrow> smap \<Rightarrow> unit res \<times> ('b, 's) encstate" where
  "encrypt_completed bk m s bucket key original =
     (case on_backend (\<lambda>b. bk_GetObject bk b bucket key) s of
        (Err e, s1) \<Rightarrow> (Err (ErrWrap ''failed to get completed object for encryption: '' e), s1)
      | (Panic p, s1) \<Rightarrow> (Panic p, s1)
      | (Ok obj, s1) \<Rightarrow>
          (case ReadAll (ob_Body obj) of
             Err e \<Rightarrow> (Err (ErrWrap ''failed to read completed object: '' e), s1)
           | Panic p \<Rightarrow> (Panic p, s1)
           | Ok data \<Rightarrow>
               (case on_enc (\<lambda>e. EncManager_Encrypt m e (bytes_reader data) (int (length data))) s1 of
                  (Err e, s2) \<Rightarrow> (Err (ErrWrap ''failed to encrypt completed object: '' e), s2)
                | (Panic p, s2) \<Rightarrow> (Panic p, s2)
                | (Ok (encReader, encMetadata), s2) \<Rightarrow>
                    (case ReadAll encReader of
                       Err e \<Rightarrow> (Err (ErrWrap ''failed to read encrypted data: '' e), s2)
                     | Panic p \<Rightarrow> (Panic p, s2)
                     | Ok encryptedData \<Rightarrow>
                         let md = AList.update sse_marker ''AES256''
                                    (sm_merge (sm_merge (sm_merge [] original) (ob_Metadata obj)) encMetadata) in
                         (case on_backend (\<lambda>b. bk_PutObject bk b bucket key (bytes_reader encryptedData)
                                                (int (length encryptedData)) md) s2 of
                            (r, s3) \<Rightarrow> (wrap_err ''failed to store encrypted object: '' r, s3))))))"

definition EB_CompleteMultipartUpload ::
  "'b backend \<Rightarrow> 's enc_manager \<Rightarrow> ('b, 's) encstate \<Rightarrow> string \<Rightarrow> string \<Rightarrow> string \<Rightarrow> completed_part list
     \<Rightarrow> unit res \<times> ('b, 's) encstate" where
  "EB_CompleteMultipartUpload bk m s bucket key uploadID parts =
     (if \<not> EncManager_IsEnabled m
      then on_backend (\<lambda>b. bk_CompleteMultipartUpload bk b bucket key uploadID parts) s
      else
        case map_of (es_uploads s) uploadID of
          None \<Rightarrow> on_backend (\<lambda>b. bk_CompleteMultipartUpload bk b bucket key uploadID parts) s
        | Some info \<Rightarrow>
            (case on_backend (\<lambda>b. bk_CompleteMultipartUpload bk b bucket key uploadID parts) s of
               (Ok _, s1) \<Rightarrow>
                 (case encrypt_completed bk m s1 bucket key (mu_originalMetadata info) of
                    (Ok _, s2) \<Rightarrow> (Ok (), s2\<lparr>es_uploads := AList.delete uploadID (es_uploads s2)\<rparr>)
                  | (r, s2) \<Rightarrow> (r, s2))
             | (r, s1) \<Rightarrow> (r, s1)))"

definition EB_AbortMultipartUpload ::
  "'b backend \<Rightarrow> ('b, 's) encstate \<Rightarrow> string \<Rightarrow> string \<Rightarrow> string \<Rightarrow> unit res \<times> ('b, 's) encstate" where
  "EB_AbortMultipartUpload bk s bucket key uploadID =
     on_backend (\<lambda>b. bk_AbortMultipartUpload bk b bucket key uploadID)
       (s\<lparr>es_uploads := AList.delete uploadID (es_uploads s)\<rparr>)"

definition EncryptedBackend :: "'b backend \<Rightarrow> 's enc_manager \<Rightarrow> ('b, 's) encstate backend" where
  "EncryptedBackend bk m =
     \<lparr>bk_ListBuckets = on_backend (bk_ListBuckets bk),
      bk_CreateBucket = (\<lambda>s b. on_backend (\<lambda>x. bk_CreateBucket bk x b) s),
      bk_DeleteBucket = (\<lambda>s b. on_backend (\<lambda>x. bk_DeleteBucket bk x b) s),
      bk_BucketExists = (\<lambda>s b. on_backend (\<lambda>x. bk_BucketExists bk x b) s),
      bk_ListObjects = EB_ListObjects bk, bk_ListObjectsWithDelimiter = EB_ListObjectsWithDelimiter bk,
      bk_GetObject = EB_GetObject bk m, bk_PutObject = EB_PutObject bk m,
      bk_DeleteObject = EB_DeleteObject bk, bk_HeadObject = EB_HeadObject bk,
      bk_GetObjectACL = (\<lambda>s b k. on_backend (\<lambda>x. bk_GetObjectACL bk x b k) s),
      bk_PutObjectACL = (\<lambda>s b k a. on_backend (\<lambda>x. bk_PutObjectACL bk x b k a) s),
      bk_InitiateMultipartUpload = EB_InitiateMultipartUpload bk m, bk_UploadPart = EB_UploadPart bk,
      bk_CompleteMultipartUpload = EB_CompleteMultipartUpload bk m,
      bk_AbortMultipartUpload = EB_AbortMultipartUpload bk,
      bk_ListParts = (\<lambda>s b k u n p. on_backend (\<lambda>x. bk_ListParts bk x b k u n p) s)\<rparr>"


lemma EncryptedBackend_sel [simp]:
  "bk_PutObject (EncryptedBackend bk m) = EB_PutObject bk m" "bk_GetObject (EncryptedBackend bk m) = EB_GetObject bk m"
  by (simp_all add: EncryptedBackend_def)

section \<open>The encrypted backend over any object store\<close>

lemma sm_get_cleanMetadata:
  "sm_get (cleanMetadata md) k = (if k \<in> set internal_keys then '''' else sm_get md k)"
  by (auto simp: cleanMetadata_def internal_keys_def)

lemma wf_cleanMetadata [simp]: "wf_smap md \<Longrightarrow> wf_smap (cleanMetadata md)"
  by (simp add: cleanMetadata_def)

lemma sm_get_visible:
  "k \<notin> set internal_keys \<Longrightarrow> k \<noteq> sse_marker \<Longrightarrow> sm_get (visible_metadata md) k = sm_get md k"
  by (simp add: visible_metadata_def sm_get_cleanMetadata)

lemma wf_visible [simp]: "wf_smap md \<Longrightarrow> wf_smap (visible_metadata md)"
  by (simp add: visible_metadata_def)

lemma sse_marker_not_internal [simp]: "sse_marker \<notin> set internal_keys"
  by (simp add: sse_marker_def internal_keys_def metadata_keys)

lemma sm_get_merged:
  assumes "wf_smap e" and "k \<noteq> sse_marker"
  shows "sm_get (AList.update sse_marker v (sm_merge md e)) k = (if map_of e k = None then sm_get md k else sm_get e k)"
  using assms by (auto simp: sm_get_def AList.update_conv' map_of_sm_merge map_add_def split: option.splits)

lemma ParseInt_Nil: "ParseInt '''' \<noteq> Ok n"
  by (simp add: ParseInt_def)

lemma reader_eq: "rd_err r = None \<Longrightarrow> bytes_reader (rd_data r) = r"
  by (simp add: bytes_reader_def)

lemma enc_agree_iff:
  "enc_agree md md' \<longleftrightarrow> sm_get md' MetadataKeyAlgorithm = sm_get md MetadataKeyAlgorithm
     \<and> sm_get md' MetadataKeyEncryptedDEK = sm_get md MetadataKeyEncryptedDEK
     \<and> sm_get md' MetadataKeyNonce = sm_get md MetadataKeyNonce
     \<and> sm_get md' MetadataKeyEncryptedSize = sm_get md MetadataKeyEncryptedSize"
  by (simp add: enc_agree_def)

lemma validateEncryption_not_Panic [simp]: "validateEncryptionMetadata md \<noteq> Panic p" "Panic p \<noteq> validateEncryptionMetadata md"
  by (simp_all add: validateEncryptionMetadata_def)

lemma validate_agree: "enc_agree md md' \<Longrightarrow> validateEncryptionMetadata md' = validateEncryptionMetadata md"
  by (simp add: enc_agree_iff validateEncryptionMetadata_def)

lemma on_backend_eq: "f (es_backend s) = (r, b) \<Longrightarrow> on_backend f s = (r, s\<lparr>es_backend := b\<rparr>)"
  by (simp add: on_backend_def)

lemma on_backend_cases:
  assumes "on_backend f s = (r, s')"
  obtains b where "f (es_backend s) = (r, b)" and "s' = s\<lparr>es_backend := b\<rparr>"
  using assms by (auto simp: on_backend_def split: prod.splits)

lemma on_enc_cases:
  assumes "on_enc f s = (r, s')"
  obtains e where "f (es_enc s) = (r, e)" and "s' = s\<lparr>es_enc := e\<rparr>"
  using assms by (auto simp: on_enc_def split: prod.splits)

text \<open>What a manager with an encryptor does to the objects of any backend.\<close>

locale encrypting_manager = enc: object_encryptor en oke
  for en :: "'s encryptor" and oke :: "'s \<Rightarrow> bool" +
  fixes m :: "'s enc_manager"
  assumes manager: "em_enabled m" "em_encryptor m = Some en"
begin

lemma Encrypt_eq: "EncManager_Encrypt m = en_Encrypt en"
  using manager by (auto simp: EncManager_Encrypt_def fun_eq_iff)

lemma Decrypt_eq_marked: "isEncrypted md \<Longrightarrow> EncManager_Decrypt m e r md = en_Decrypt en e r md"
  using manager by (simp add: EncManager_Decrypt_def isEncrypted_def)

lemma PutObject_cases:
  assumes "EB_PutObject bk m s b k r n md = (x, s')"
  obtains (fail) y e where "en_Encrypt en (es_enc s) r n = (y, e)" "s' = s\<lparr>es_enc := e\<rparr>" "x \<noteq> Ok ()"
    | (store) r' emd e bs where "en_Encrypt en (es_enc s) r n = (Ok (r', emd), e)"
        "validateEncryptionMetadata emd = Ok ()"
        "bk_PutObject bk (es_backend s) b k r' (int (length (rd_data r'))) (AList.update sse_marker ''AES256'' (sm_merge md emd)) = (x, bs)"
        "s' = s\<lparr>es_enc := e, es_backend := bs\<rparr>"
proof (cases "en_Encrypt en (es_enc s) r n")
  case (Pair y e)
  have sh: "EncManager_ShouldEncrypt m b" using manager by (simp add: EncManager_ShouldEncrypt_def)
  have on: "on_enc (\<lambda>e. EncManager_Encrypt m e r n) s = (y, s\<lparr>es_enc := e\<rparr>)"
    using Pair by (simp add: on_enc_def Encrypt_eq)
  show thesis
  proof (cases "\<exists>r' emd. y = Ok (r', emd) \<and> validateEncryptionMetadata emd = Ok ()")
    case True
    then obtain r' emd where y: "y = Ok (r', emd)" "validateEncryptionMetadata emd = Ok ()" by blast
    have "on_backend (\<lambda>b'. bk_PutObject bk b' b k r' (int (length (rd_data r')))
        (AList.update sse_marker ''AES256'' (sm_merge md emd))) (s\<lparr>es_enc := e\<rparr>) = (x, s')"
      using assms sh on y by (simp add: EB_PutObject_def Let_def calculateEncryptedSize_def)
    then show thesis using store Pair y by (auto elim!: on_backend_cases)
  next
    case False
    then show thesis
      using assms sh on Pair fail
      by (cases y; cases "validateEncryptionMetadata (snd (the_ok y))") (auto simp: EB_PutObject_def Let_def)
  qed
qed

text \<open>A sealed body is opened when the backend returns it with the fields the encryption stored.\<close>

lemma get_opened:
  assumes ok: "oke (es_enc s)" "oke e0" and e: "en_Encrypt en e0 r n = (Ok (r', emd), e1)"
    and v: "validateEncryptionMetadata emd = Ok ()" and sz: "ParseInt (sm_get emd MetadataKeyEncryptedSize) = Ok sz"
    and get: "bk_GetObject bk (es_backend s) b k = (Ok obj, bs)" "ob_Body obj = bytes_reader (rd_data r')"
      "\<forall>k \<in> set internal_keys. sm_get (ob_Metadata obj) k = sm_get emd k"
  shows "\<exists>s'. EB_GetObject bk m s b k = (Ok (obj\<lparr>ob_Body := bytes_reader (rd_data r), ob_Size := sz,
      ob_Metadata := visible_metadata (ob_Metadata obj)\<rparr>), s')"
proof -
  have agree: "enc_agree emd (ob_Metadata obj)" using get(3) by (simp add: enc_agree_iff internal_keys_def)
  have isenc: "isEncrypted (ob_Metadata obj)" using agree enc.enc_marked [OF e] by (simp add: isEncrypted_def enc_agree_iff)
  have "fst (en_Decrypt en (es_enc s) r' (ob_Metadata obj)) = Ok (bytes_reader (rd_data r))"
    using enc.enc_dec [OF ok(2) e ok(1) agree] .
  then obtain e2 where d: "en_Decrypt en (es_enc s) (ob_Body obj) (ob_Metadata obj) = (Ok (bytes_reader (rd_data r)), e2)"
    using get(2) enc.enc_read [OF e] reader_eq [of r'] by (metis prod.collapse)
  have "getOriginalSize (ob_Metadata obj) (ob_Size obj) = sz"
    using sz agree ParseInt_Nil by (auto simp: getOriginalSize_def enc_agree_iff Let_def)
  moreover have "on_backend (\<lambda>b'. bk_GetObject bk b' b k) s = (Ok obj, s\<lparr>es_backend := bs\<rparr>)"
    using get(1) by (simp add: on_backend_def)
  ultimately show ?thesis
    using isenc d v agree by (simp add: EB_GetObject_def Let_def validate_agree on_enc_def Decrypt_eq_marked)
qed

lemma valid_sealed:
  assumes "oke e" and "en_Encrypt en e r n = (Ok (r', emd), e')"
  shows "validateEncryptionMetadata emd = Ok ()"
  using enc.enc_marked [OF assms(2)] enc.enc_fields [OF assms] by (simp add: validateEncryptionMetadata_def)

text \<open>Storing the caller's metadata beside them does not touch the fields of the encryption.\<close>

lemma internal_ascii: "k \<in> set internal_keys \<Longrightarrow> ascii k"
  by (auto simp: internal_keys_def metadata_keys)

lemma merged_internal:
  assumes "en_Encrypt en e0 r n = (Ok (r', emd), e1)" and "k \<in> set internal_keys"
  shows "sm_get (AList.update sse_marker v (sm_merge md emd)) k = sm_get emd k"
proof -
  have "wf_smap emd" "map_of emd k \<noteq> None" "k \<noteq> sse_marker"
    using enc.enc_marked [OF assms(1)] assms(2) sse_marker_not_internal by auto
  then show ?thesis using sm_get_merged by metis
qed

end

locale encrypted_store = object_store bk okb okey seen fits + encrypting_manager en oke m
  for bk :: "'b backend" and okb :: "'b \<Rightarrow> bool" and okey :: "string \<Rightarrow> string \<Rightarrow> bool" and seen :: "string \<Rightarrow> bool"
    and fits :: "int \<Rightarrow> bool" and en :: "'s encryptor" and oke :: "'s \<Rightarrow> bool" and m :: "'s enc_manager" +
  assumes seen_internal: "k \<in> set internal_keys \<Longrightarrow> seen k"
    and fits_all: "fits n"
begin

definition ok_state :: "('b, 's) encstate \<Rightarrow> bool" where
  "ok_state s \<longleftrightarrow> okb (es_backend s) \<and> oke (es_enc s)"

lemma put_ok': "ok_state s \<Longrightarrow> EB_PutObject bk m s b k r n md = (x, s') \<Longrightarrow> ok_state s'"
  by (auto simp: ok_state_def elim!: PutObject_cases intro: enc.enc_ok put_ok)

lemma GetObject_cases:
  assumes "EB_GetObject bk m s b k = (y, s')"
  obtains (raw) x bs where "bk_GetObject bk (es_backend s) b k = (x, bs)" "s' = s\<lparr>es_backend := bs\<rparr>"
        "\<And>ob. y = Ok ob \<Longrightarrow> \<exists>obj. x = Ok obj \<and> \<not> isEncrypted (ob_Metadata obj)
            \<and> ob = obj\<lparr>ob_Metadata := visible_metadata (ob_Metadata obj)\<rparr>"
    | (dec) obj bs z e where "bk_GetObject bk (es_backend s) b k = (Ok obj, bs)" "isEncrypted (ob_Metadata obj)"
        "validateEncryptionMetadata (ob_Metadata obj) = Ok ()"
        "en_Decrypt en (es_enc s) (ob_Body obj) (ob_Metadata obj) = (z, e)" "s' = s\<lparr>es_backend := bs, es_enc := e\<rparr>"
        "\<And>ob. y = Ok ob \<Longrightarrow> \<exists>body. z = Ok body \<and> ob = obj\<lparr>ob_Body := body,
            ob_Size := getOriginalSize (ob_Metadata obj) (ob_Size obj), ob_Metadata := visible_metadata (ob_Metadata obj)\<rparr>"
proof (cases "bk_GetObject bk (es_backend s) b k")
  case (Pair x bs)
  then have on: "on_backend (\<lambda>b'. bk_GetObject bk b' b k) s = (x, s\<lparr>es_backend := bs\<rparr>)" by (simp add: on_backend_def)
  show thesis
  proof (cases "\<exists>obj. x = Ok obj \<and> isEncrypted (ob_Metadata obj) \<and> validateEncryptionMetadata (ob_Metadata obj) = Ok ()")
    case True
    then obtain obj where x: "x = Ok obj" "isEncrypted (ob_Metadata obj)" "validateEncryptionMetadata (ob_Metadata obj) = Ok ()"
      by blast
    obtain z e where z: "en_Decrypt en (es_enc s) (ob_Body obj) (ob_Metadata obj) = (z, e)"
      by (cases "en_Decrypt en (es_enc s) (ob_Body obj) (ob_Metadata obj)")
    have "on_enc (\<lambda>e. EncManager_Decrypt m e (ob_Body obj) (ob_Metadata obj)) (s\<lparr>es_backend := bs\<rparr>)
        = (z, s\<lparr>es_backend := bs, es_enc := e\<rparr>)"
      using z x(2) by (simp add: on_enc_def Decrypt_eq_marked)
    then show thesis
      using dec [of obj bs z e] assms on x z Pair by (cases z) (auto simp: EB_GetObject_def Let_def)
  next
    case False
    have plain: "\<not> isEncrypted md \<Longrightarrow> EncManager_Decrypt m e r md = (Ok r, e)" for e r md
      by (simp add: EncManager_Decrypt_def isEncrypted_def)
    show thesis
    proof (cases x)
      case (Ok obj)
      then show thesis
        using raw [of x bs] assms on Pair False plain
        by (cases "isEncrypted (ob_Metadata obj)"; cases "validateEncryptionMetadata (ob_Metadata obj)")
           (auto simp: EB_GetObject_def Let_def on_enc_def)
    qed (use raw [of x bs] assms on Pair in \<open>auto simp: EB_GetObject_def\<close>)
  qed
qed

lemma get_ok': "ok_state s \<Longrightarrow> EB_GetObject bk m s b k = (y, s') \<Longrightarrow> ok_state s'"
  by (auto simp: ok_state_def elim!: GetObject_cases intro: enc.dec_ok get_ok)

text \<open>What was sealed and stored with merged metadata is opened by a lookup.\<close>

lemma get_sealed:
  assumes ok: "ok_state s" "oke e0" and e: "en_Encrypt en e0 r n = (Ok (r', emd), e1)"
    and v: "validateEncryptionMetadata emd = Ok ()" and sz: "ParseInt (sm_get emd MetadataKeyEncryptedSize) = Ok sz"
    and get: "bk_GetObject bk (es_backend s) b k = (Ok obj, bs)" "ob_Body obj = bytes_reader (rd_data r')"
      "wf_smap (ob_Metadata obj)"
      "\<forall>k. seen k \<and> ascii k \<and> valid_utf8 (sm_get (AList.update sse_marker ''AES256'' (sm_merge md emd)) k) \<longrightarrow> sm_get (ob_Metadata obj) k = sm_get (AList.update sse_marker ''AES256'' (sm_merge md emd)) k"
  shows "\<exists>ob s'. EB_GetObject bk m s b k = (Ok ob, s') \<and> ob_Body ob = bytes_reader (rd_data r) \<and> ob_Size ob = sz
    \<and> wf_smap (ob_Metadata ob)
    \<and> (\<forall>k. seen k \<and> ascii k \<and> valid_utf8 (sm_get (sm_merge md emd) k) \<and> k \<notin> set internal_keys \<and> k \<noteq> sse_marker \<longrightarrow>
         sm_get (ob_Metadata ob) k = sm_get (sm_merge md emd) k)"
proof -
  let ?md = "AList.update sse_marker ''AES256'' (sm_merge md emd)"
  have "sm_get (ob_Metadata obj) k = sm_get emd k" if "k \<in> set internal_keys" for k
    using get(4) seen_internal [OF that] merged_internal [OF e that] internal_ascii [OF that] ascii_valid enc.enc_fields [OF ok(2) e] by simp
  then have "\<forall>k \<in> set internal_keys. sm_get (ob_Metadata obj) k = sm_get emd k" by blast
  moreover have "oke (es_enc s)" using ok(1) by (simp add: ok_state_def)
  ultimately have "\<exists>s'. EB_GetObject bk m s b k = (Ok (obj\<lparr>ob_Body := bytes_reader (rd_data r), ob_Size := sz,
      ob_Metadata := visible_metadata (ob_Metadata obj)\<rparr>), s')"
    using get_opened [OF _ ok(2) e v sz get(1,2)] by blast
  then show ?thesis
    using get(3,4) by (auto simp: sm_get_visible)
qed

lemma get_put_sized:
  assumes "ok_state s" and "okey b k" and "wf_smap md" and put: "EB_PutObject bk m s b k r n md = (Ok (), s')"
    and sz: "\<And>r' emd e. en_Encrypt en (es_enc s) r n = (Ok (r', emd), e) \<Longrightarrow>
      ParseInt (sm_get emd MetadataKeyEncryptedSize) = Ok sz"
  shows "\<exists>ob s''. EB_GetObject bk m s' b k = (Ok ob, s'') \<and> rd_err r = None \<and> ob_Body ob = bytes_reader (rd_data r)
    \<and> ob_Size ob = sz \<and> wf_smap (ob_Metadata ob)
    \<and> (\<forall>k. (seen k \<and> k \<notin> set internal_keys \<and> k \<noteq> sse_marker) \<and> ascii k \<and> valid_utf8 (sm_get md k) \<longrightarrow> sm_get (ob_Metadata ob) k = sm_get md k)"
  using put
proof (cases rule: PutObject_cases)
  case fail
  then show ?thesis by simp
next
  case (store r' emd e bs)
  have em: "wf_smap emd" "dom (map_of emd) = set internal_keys" using enc.enc_marked [OF store(1)] by auto
  obtain ob s2 where ob: "bk_GetObject bk bs b k = (Ok ob, s2)" "ob_Body ob = bytes_reader (rd_data r')"
    "wf_smap (ob_Metadata ob)"
    "\<forall>k. seen k \<and> ascii k \<and> valid_utf8 (sm_get (AList.update sse_marker ''AES256'' (sm_merge md emd)) k) \<longrightarrow> sm_get (ob_Metadata ob) k = sm_get (AList.update sse_marker ''AES256'' (sm_merge md emd)) k"
    using get_put [OF _ assms(2) _ _ refl fits_all store(3)] assms(1,3) em
    by (auto simp: ok_state_def AList.update_nonempty)
  have user: "sm_get (sm_merge md emd) k = sm_get md k" if "k \<notin> set internal_keys" for k
  proof -
    have "map_of emd k = None" using that em(2) by auto
    then show ?thesis using em(1) by (simp add: sm_get_def map_of_sm_merge map_add_def)
  qed
  have "oke (es_enc s)" "es_backend s' = bs" using assms(1) store(4) by (simp_all add: ok_state_def)
  then show ?thesis
    using get_sealed [OF put_ok' [OF assms(1) put] _ store(1,2) sz [OF store(1)], of b k ob s2 md] ob
      enc.enc_read [OF store(1)] user by auto
qed

lemma get_put':
  assumes "ok_state s" and "okey b k" and "wf_smap md" and "n = int (length (rd_data r))" and "in_i64 n"
    and "EB_PutObject bk m s b k r n md = (Ok (), s')"
  shows "\<exists>ob s''. EB_GetObject bk m s' b k = (Ok ob, s'') \<and> rd_err r = None \<and> ob_Body ob = bytes_reader (rd_data r)
    \<and> ob_Size ob = int (length (rd_data r)) \<and> wf_smap (ob_Metadata ob)
    \<and> (\<forall>k. (seen k \<and> k \<notin> set internal_keys \<and> k \<noteq> sse_marker) \<and> ascii k \<and> valid_utf8 (sm_get md k) \<longrightarrow> sm_get (ob_Metadata ob) k = sm_get md k)"
  using get_put_sized [OF assms(1-3,6), of n] enc.enc_size [OF _ assms(4,5)] assms(4) by blast

text \<open>A lookup depends on the state only through what the wrapped backend holds under the name.\<close>

lemma Decrypt_same: "oke e \<Longrightarrow> oke e' \<Longrightarrow> fst (EncManager_Decrypt m e r md) = fst (EncManager_Decrypt m e' r md)"
  using manager enc.dec_same [of e e' r md] by (simp add: EncManager_Decrypt_def)

lemma get_transfer:
  assumes "ok_state s" and "ok_state s'" and "bk_GetObject bk (es_backend s) b k = (Ok obj, bs)"
    and "bk_GetObject bk (es_backend s') b k = (Ok obj, bs')"
  shows "fst (EB_GetObject bk m s' b k) = fst (EB_GetObject bk m s b k)"
proof -
  have same: "fst (EncManager_Decrypt m (es_enc s') r md) = fst (EncManager_Decrypt m (es_enc s) r md)" for r md
    using assms(1,2) Decrypt_same by (simp add: ok_state_def)
  show ?thesis
    using same [of "ob_Body obj" "ob_Metadata obj"] assms(3,4)
    by (cases "EncManager_Decrypt m (es_enc s') (ob_Body obj) (ob_Metadata obj)";
        cases "EncManager_Decrypt m (es_enc s) (ob_Body obj) (ob_Metadata obj)")
       (auto simp: EB_GetObject_def on_backend_def on_enc_def Let_def split: res.splits)
qed

lemma put_keeps_backend:
  assumes "ok_state s" and "okey b k" and "okey b' k'" and "(b', k') \<noteq> (b, k)"
    and "EB_PutObject bk m s b k r n md = (x, s')" and "bk_GetObject bk (es_backend s) b' k' = (Ok obj, bs)"
    and "rd_err (ob_Body obj) = None"
  shows "\<exists>bs'. bk_GetObject bk (es_backend s') b' k' = (Ok obj, bs')"
  using assms(5)
proof (cases rule: PutObject_cases)
  case fail
  then show ?thesis using assms(6) by simp
next
  case (store r' emd e bs2)
  have "okb (es_backend s)" using assms(1) by (simp add: ok_state_def)
  then show ?thesis
    using get_put_other [OF _ assms(2,3,4) store(3) assms(6,7)] store(4) by simp
qed

text \<open>An assembled object that was sealed over itself is opened to the assembled bytes.\<close>

lemma complete_get:
  assumes ok: "ok_state s" "okey b k" and obj: "bk_GetObject bk (es_backend s) b k = (Ok obj, bs)"
      "ob_Body obj = bytes_reader data" "in_i64 (int (length data))"
    and comp: "encrypt_completed bk m s b k original = (Ok (), s')"
  shows "\<exists>ob s''. EB_GetObject bk m s' b k = (Ok ob, s'') \<and> ob_Body ob = bytes_reader data
    \<and> ob_Size ob = int (length data)"
proof -
  let ?md = "sm_merge (sm_merge [] original) (ob_Metadata obj)"
  obtain y e where y: "en_Encrypt en (es_enc s) (bytes_reader data) (int (length data)) = (y, e)"
    by (cases "en_Encrypt en (es_enc s) (bytes_reader data) (int (length data))")
  have on: "on_backend (\<lambda>b'. bk_GetObject bk b' b k) s = (Ok obj, s\<lparr>es_backend := bs\<rparr>)"
    "on_enc (\<lambda>e. EncManager_Encrypt m e (bytes_reader data) (int (length data))) (s\<lparr>es_backend := bs\<rparr>)
       = (y, s\<lparr>es_backend := bs, es_enc := e\<rparr>)"
    using obj(1) y by (simp_all add: on_backend_def on_enc_def Encrypt_eq)
  obtain r' emd where y_Ok: "y = Ok (r', emd)"
    using comp on obj(2) by (cases y) (auto simp: encrypt_completed_def)
  have "on_backend (\<lambda>x. bk_PutObject bk x b k (bytes_reader (rd_data r')) (int (length (rd_data r')))
        (AList.update sse_marker ''AES256'' (sm_merge ?md emd))) (s\<lparr>es_backend := bs, es_enc := e\<rparr>) = (Ok (), s')"
    using comp on obj(2) y_Ok enc.enc_read [of "es_enc s"] y
    by (simp add: encrypt_completed_def Let_def ReadAll_def split: prod.splits)
  then obtain bs2 where put: "bk_PutObject bk bs b k (bytes_reader (rd_data r')) (int (length (rd_data r')))
        (AList.update sse_marker ''AES256'' (sm_merge ?md emd)) = (Ok (), bs2)"
    and s': "es_backend s' = bs2" "es_enc s' = e"
    by (auto elim!: on_backend_cases)
  have e: "en_Encrypt en (es_enc s) (bytes_reader data) (int (length data)) = (Ok (r', emd), e)"
    using y y_Ok by simp
  have oks: "okb bs" "oke (es_enc s)" "wf_smap emd"
    using ok(1) get_ok [OF _ obj(1)] enc.enc_marked [OF e] by (simp_all add: ok_state_def)
  have "wf_smap (AList.update sse_marker ''AES256'' (sm_merge ?md emd))" by (simp add: wf_smap_def [of "[]"])
  then obtain ob s2 where ob: "bk_GetObject bk bs2 b k = (Ok ob, s2)" "ob_Body ob = bytes_reader (rd_data r')"
    "wf_smap (ob_Metadata ob)"
    "\<forall>k. seen k \<and> ascii k \<and> valid_utf8 (sm_get (AList.update sse_marker ''AES256'' (sm_merge ?md emd)) k) \<longrightarrow> sm_get (ob_Metadata ob) k = sm_get (AList.update sse_marker ''AES256'' (sm_merge ?md emd)) k"
    using get_put [OF oks(1) ok(2) _ _ _ fits_all put] by (auto simp: AList.update_nonempty)
  have "ok_state s'" using oks put_ok [OF oks(1) put] enc.enc_ok [OF oks(2) e] by (simp add: ok_state_def s')
  then show ?thesis
    using get_sealed [OF _ oks(2) e valid_sealed [OF oks(2) e] enc.enc_size [OF e _ obj(3)], of s' b k ob s2 ?md] ob
    by (auto simp: s')
qed

lemma get_put_other':
  assumes "ok_state s" and "okey b k" and "okey b' k'" and "(b', k') \<noteq> (b, k)"
    and put: "EB_PutObject bk m s b k r n md = (x, s')" and get: "EB_GetObject bk m s b' k' = (Ok ob, t)"
    and "rd_err (ob_Body ob) = None"
  shows "\<exists>t'. EB_GetObject bk m s' b' k' = (Ok ob, t')"
proof -
  obtain obj bs where obj: "bk_GetObject bk (es_backend s) b' k' = (Ok obj, bs)" "rd_err (ob_Body obj) = None"
    using get
  proof (cases rule: GetObject_cases)
    case (raw y bs)
    then show ?thesis using that assms(7) by auto
  next
    case (dec obj bs z e)
    then obtain body where "z = Ok body" by blast
    then show ?thesis using that dec(1) enc.dec_read [of _ "ob_Body obj" "ob_Metadata obj" body e] dec(4) by blast
  qed
  obtain bs' where "bk_GetObject bk (es_backend s') b' k' = (Ok obj, bs')"
    using put_keeps_backend [OF assms(1-4) put obj] by blast
  then have "fst (EB_GetObject bk m s' b' k') = Ok ob"
    using get_transfer [OF assms(1) put_ok' [OF assms(1) put] obj(1)] get by simp
  then show ?thesis by (metis prod.collapse)
qed

end

sublocale encrypted_store \<subseteq> sealed: object_store "EncryptedBackend bk m" ok_state okey
  "\<lambda>k. seen k \<and> k \<notin> set internal_keys \<and> k \<noteq> sse_marker" in_i64
proof (unfold_locales, unfold EncryptedBackend_sel)
  show "ok_state s' \<Longrightarrow> EB_PutObject bk m s' b k r n md = (x, s'') \<Longrightarrow> ok_state s''" for s' b k r n md x s''
    by (rule put_ok')
  show "ok_state s' \<Longrightarrow> EB_GetObject bk m s' b k = (y, s'') \<Longrightarrow> ok_state s''" for s' b k y s''
    by (rule get_ok')
qed (use get_put' in blast, use get_put_other' in blast)

section \<open>The encrypted file system\<close>

abbreviation local_encryptor :: "bytes \<Rightarrow> (nat \<Rightarrow> bytes res) \<Rightarrow> pstate encryptor" where
  "local_encryptor mk rnd \<equiv>
     SimpleAESGCM (ps_draw rnd NonceSize) (NewSimpleAESGCMEncryptor (LocalKeyProvider mk rnd))"

abbreviation local_manager :: "bytes \<Rightarrow> (nat \<Rightarrow> bytes res) \<Rightarrow> pstate enc_manager" where
  "local_manager mk rnd \<equiv> EncManager_New (Some (LocalKeyProvider mk rnd)) (Some (local_encryptor mk rnd)) True"

interpretation local_enc: encrypting_manager "local_encryptor mk rnd" "\<lambda>_. True" "local_manager mk rnd"
  by unfold_locales (simp_all add: EncManager_New_def)

interpretation sealed_fs: encrypted_store "FileSystemBackend base" "\<lambda>_. True" "fs_okey base" "\<lambda>_. True" "\<lambda>_. True"
  "local_encryptor mk rnd" "\<lambda>_. True" "local_manager mk rnd"
  by unfold_locales (simp_all add: EncManager_New_def)

text \<open>The same with the data keys of the KMS provider behind the adapter, which caches them.\<close>

interpretation adapter_fs: encrypted_store "FileSystemBackend base" "\<lambda>_. True" "fs_okey base" "\<lambda>_. True" "\<lambda>_. True"
  "SimpleAESGCM (ps_draw rnd NonceSize) (NewSimpleAESGCMEncryptor (KMSKeyProviderAdapter (LocalProvider mk rnd)))"
  "\<lambda>s. cache_opens mk s \<and> ps_cache s \<noteq> None"
  "EncManager_New (Some (KMSKeyProviderAdapter (LocalProvider mk rnd)))
     (Some (SimpleAESGCM (ps_draw rnd NonceSize) (NewSimpleAESGCMEncryptor (KMSKeyProviderAdapter (LocalProvider mk rnd))))) True"
  by unfold_locales (simp_all add: EncManager_New_def)

text \<open>Uploading a list of numbered parts to any backend.\<close>

fun upload_parts ::
  "'b backend \<Rightarrow> 'b \<Rightarrow> string \<Rightarrow> string \<Rightarrow> string \<Rightarrow> (int \<times> bytes) list \<Rightarrow> unit res \<times> 'b" where
  "upload_parts bk s b k u [] = (Ok (), s)"
| "upload_parts bk s b k u ((n, bs) # ups) =
     (case bk_UploadPart bk s b k u n (bytes_reader bs) (int (length bs)) of
        (Ok _, s') \<Rightarrow> upload_parts bk s' b k u ups
      | (Err e, s') \<Rightarrow> (Err e, s')
      | (Panic p, s') \<Rightarrow> (Panic p, s'))"

lemma upload_parts_fs:
  "upload_parts (EncryptedBackend (FileSystemBackend base) m) s b k u ups =
     (case upload_all base (es_backend s) b k u ups of (r, f) \<Rightarrow> (r, s\<lparr>es_backend := f\<rparr>))"
  by (induction ups arbitrary: s)
     (auto simp: EncryptedBackend_def EB_UploadPart_def FileSystemBackend_def on_backend_def split: prod.splits res.splits)

lemma local_sealed:
  assumes "en_Encrypt (local_encryptor mk rnd) e r n = (Ok (r', emd), e')"
  obtains dek nonce where "fst (ps_draw rnd 32 e) = Ok dek" "length dek = 32" "length nonce = NonceSize"
    "r' = bytes_reader (gcm_seal dek nonce (rd_data r) [])" "sm_get emd MetadataKeyNonce = b64_encode nonce"
    "\<not> (0 \<le> n \<and> n \<le> 100 * 1024 * 1024) \<Longrightarrow> sm_get emd MetadataKeyEncryptedSize = FormatInt n"
  using assms
  by (auto simp: SimpleAESGCMEncryptor_Encrypt_def NewSimpleAESGCMEncryptor_def LocalKeyProvider_def
      LocalKeyProvider_GenerateDEK_def gcm_Seal_def ReadAll_Ok ps_draw_def
      split: prod.splits res.splits if_splits dest: length_rand_read)

section \<open>Properties\<close>

text \<open>C2: an object stored through the encrypting backend over the file system is durable. With a manager built from
  a local configuration, after a successful \<^verbatim>\<open>PutObject\<close> and any sequence of stores to other names,
  successful or not, \<^verbatim>\<open>GetObject\<close> returns exactly the bytes that were given, their length as the size, and
  every metadata value in valid UTF-8 that the caller gave under an ASCII name (the keys the encryption uses apart).
  The metadata go through a JSON file, which changes other strings.\<close>

theorem encrypted_object_durable:
  assumes "NewFromConfig rnd load s0 cfg = (Ok m, s1)" and "ec_Enabled cfg"
    and "ec_KeyProvider cfg = ''local''" and "map_of (ec_KeyProviders cfg) ''local'' = None"
    and "fs_okey base b k" and "wf_smap md" and "n = int (length (rd_data r))" and "in_i64 n"
    and "EB_PutObject (FileSystemBackend base) m s b k r n md = (Ok (), s')"
    and "\<forall>(b', k', r, n, md) \<in> set ps. fs_okey base b' k' \<and> (b', k') \<noteq> (b, k)"
  shows "\<exists>ob t. EB_GetObject (FileSystemBackend base) m
      (fold (\<lambda>(b', k', r, n, md) s. snd (EB_PutObject (FileSystemBackend base) m s b' k' r n md)) ps s') b k = (Ok ob, t)
    \<and> ob_Body ob = bytes_reader (rd_data r) \<and> ob_Size ob = n
    \<and> (\<forall>x. ascii x \<and> valid_utf8 (sm_get md x) \<and> x \<notin> set internal_keys \<and> x \<noteq> sse_marker \<longrightarrow> sm_get (ob_Metadata ob) x = sm_get md x)"
proof -
  obtain mk where m: "m = local_manager mk rnd" using NewFromConfig_local [OF assms(1-4)] by metis
  have ok: "sealed_fs.ok_state x" for x by (simp add: sealed_fs.ok_state_def)
  obtain ob t where ob: "EB_GetObject (FileSystemBackend base) m s' b k = (Ok ob, t)" "ob_Body ob = bytes_reader (rd_data r)"
    "ob_Size ob = n" "\<forall>x. ascii x \<and> valid_utf8 (sm_get md x) \<and> x \<notin> set internal_keys \<and> x \<noteq> sse_marker \<longrightarrow> sm_get (ob_Metadata ob) x = sm_get md x"
    using sealed_fs.get_put' [OF ok assms(5-8), of mk rnd s s'] assms(7,9) by (auto simp: m)
  then obtain t' where "EB_GetObject (FileSystemBackend base) m
      (fold (\<lambda>(b', k', r, n, md) s. snd (EB_PutObject (FileSystemBackend base) m s b' k' r n md)) ps s') b k = (Ok ob, t')"
    using sealed_fs.sealed.get_after_puts [of s' base b k mk rnd ob t ps] ok assms(5,10) by (auto simp: m)
  with ob show ?thesis by blast
qed

text \<open>C12: objects are encrypted at rest. After a successful \<^verbatim>\<open>PutObject\<close> the file of the object holds the AES-GCM
  sealing of the given bytes under a 256-bit key that was drawn from the random source for this very store,
  sixteen bytes longer than the plaintext.\<close>

theorem encrypted_at_rest:
  assumes "NewFromConfig rnd load s0 cfg = (Ok m, s1)" and "ec_Enabled cfg"
    and "ec_KeyProvider cfg = ''local''" and "map_of (ec_KeyProviders cfg) ''local'' = None"
    and "fs_okey base b k" and "wf_smap md"
    and "EB_PutObject (FileSystemBackend base) m s b k r n md = (Ok (), s')"
  shows "\<exists>dek nonce t. fst (ps_draw rnd 32 (es_enc s)) = Ok dek \<and> length dek = 32 \<and> length nonce = NonceSize
    \<and> lookup (fs_tree (es_backend s')) (obj_path base b k) = Some (File (gcm_seal dek nonce (rd_data r) []) t)
    \<and> length (gcm_seal dek nonce (rd_data r) []) = length (rd_data r) + 16"
proof -
  obtain mk where m: "m = local_manager mk rnd" using NewFromConfig_local [OF assms(1-4)] by metis
  show ?thesis
    using assms(7) unfolding m
  proof (cases rule: local_enc.PutObject_cases)
    case fail
    then show ?thesis by simp
  next
    case (store r' emd e bs)
    obtain dek nonce where d: "fst (ps_draw rnd 32 (es_enc s)) = Ok dek" "length dek = 32" "length nonce = NonceSize"
      "r' = bytes_reader (gcm_seal dek nonce (rd_data r) [])"
      by (rule local_sealed [OF store(1)])
    have "wf_smap emd" using local_gcm.simple.enc_marked [OF store(1)] by simp
    then obtain ob where ob: "FS_GetObject base bs b k = (Ok ob, bs)" "ob_Body ob = bytes_reader (rd_data r')"
      using FS_get_put [OF assms(5) _ _ store(3) [unfolded FileSystemBackend_simps]] assms(6)
      by (auto simp: AList.update_nonempty)
    have "rd_err (ob_Body ob) = None" using ob(2) by simp
    then obtain f t where fl: "lookup (fs_tree bs) (obj_path base b k) = Some (File f t)"
      using GetObject_readable [OF ob(1)] by metis
    then have "f = rd_data r'" using GetObject_file [OF fl] ob by (simp add: bytes_reader_def)
    then show ?thesis using d store(4) fl by auto
  qed
qed

text \<open>C15: an encrypted multipart upload is the concatenation of its parts. Initiated, uploaded part by part (each as
  often as the client liked) and completed through the encrypting backend, the object read back and
  decrypted is the last upload of each listed part, in the order of the list, with the right size.\<close>

theorem encrypted_multipart:
  assumes "NewFromConfig rnd load s0 cfg = (Ok m, s1)" and "ec_Enabled cfg"
    and "ec_KeyProvider cfg = ''local''" and "map_of (ec_KeyProviders cfg) ''local'' = None"
    and "upload_ok base b k u"
    and init: "EB_InitiateMultipartUpload (FileSystemBackend base) m s b k md = (Ok u, t0)"
    and up: "upload_parts (EncryptedBackend (FileSystemBackend base) m) t0 b k u ups = (Ok (), t1)"
    and "\<forall>(n, bs) \<in> set ups. in_i64 n" and "\<forall>p \<in> set ps. cp_PartNumber p \<in> fst ` set ups"
    and comp: "EB_CompleteMultipartUpload (FileSystemBackend base) m t1 b k u ps = (Ok (), t2)"
    and data: "data = concat (map (\<lambda>p. the (map_of (rev ups) (cp_PartNumber p))) ps)" "in_i64 (int (length data))"
  shows "\<exists>ob t3. EB_GetObject (FileSystemBackend base) m t2 b k = (Ok ob, t3) \<and> ob_Body ob = bytes_reader data
    \<and> ob_Size ob = int (length data) \<and> u \<notin> fst ` set (es_uploads t2)"
proof -
  obtain mk where m: "m = local_manager mk rnd" using NewFromConfig_local [OF assms(1-4)] by metis
  have on: "EncManager_IsEnabled m" by (simp add: m EncManager_IsEnabled_def EncManager_New_def)
  obtain f1 where f1: "upload_all base (es_backend t0) b k u ups = (Ok (), f1)" "t1 = t0\<lparr>es_backend := f1\<rparr>"
    using up by (auto simp: upload_parts_fs split: prod.splits)
  obtain info where info: "map_of (es_uploads t1) u = Some info"
    using init on f1(2)
    by (auto simp: EB_InitiateMultipartUpload_def AList.update_conv' split: prod.splits res.splits)
  obtain f2 t where f2: "FS_CompleteMultipartUpload base f1 b k u ps = (Ok (), f2)"
    and sealed: "encrypt_completed (FileSystemBackend base) m (t1\<lparr>es_backend := f2\<rparr>) b k (mu_originalMetadata info) = (Ok (), t)"
    and t2: "t2 = t\<lparr>es_uploads := AList.delete u (es_uploads t)\<rparr>"
    using comp on info f1(2)
    by (auto simp: EB_CompleteMultipartUpload_def on_backend_def FileSystemBackend_def split: prod.splits res.splits)
  obtain mt where "lookup (fs_tree f2) (obj_path base b k) = Some (File data mt)"
    using multipart_file [OF assms(5) f1(1) assms(8,9) f2] unfolding data(1) by blast
  from GetObject_file [OF this] obtain obj where obj: "FS_GetObject base f2 b k = (Ok obj, f2)" "ob_Body obj = bytes_reader data"
    by simp
  have "fs_okey base b k" using assms(5) by (simp add: upload_ok_def)
  then obtain ob t3 where ob: "EB_GetObject (FileSystemBackend base) m t b k = (Ok ob, t3)" "ob_Body ob = bytes_reader data"
    "ob_Size ob = int (length data)"
    using sealed_fs.complete_get [OF _ _ _ obj(2) data(2) sealed [unfolded m]] obj(1)
    by (auto simp: sealed_fs.ok_state_def m)
  have "EB_GetObject (FileSystemBackend base) m t2 b k = (Ok ob, t3\<lparr>es_uploads := AList.delete u (es_uploads t)\<rparr>)"
    using ob(1) unfolding t2
    by (auto simp: EB_GetObject_def on_backend_def on_enc_def Let_def split: prod.splits res.splits if_splits)
  moreover have "u \<notin> fst ` set (es_uploads t2)"
    by (simp add: t2 AList.delete_keys flip: set_map)
  ultimately show ?thesis using ob(2,3) by blast
qed


text \<open>An upload of unknown length is stored correctly but reported with the length the client announced. With a
  negative size (a chunked request has length -1) the object's bytes come back, and its size is that
  negative number instead of the number of bytes.\<close>

theorem encrypted_unknown_size:
  assumes "NewFromConfig rnd load s0 cfg = (Ok m, s1)" and "ec_Enabled cfg"
    and "ec_KeyProvider cfg = ''local''" and "map_of (ec_KeyProviders cfg) ''local'' = None"
    and "fs_okey base b k" and "wf_smap md" and "n < 0" and "in_i64 n"
    and "EB_PutObject (FileSystemBackend base) m s b k r n md = (Ok (), s')"
  shows "\<exists>ob t. EB_GetObject (FileSystemBackend base) m s' b k = (Ok ob, t) \<and> ob_Body ob = bytes_reader (rd_data r)
    \<and> ob_Size ob = n"
proof -
  obtain mk where m: "m = local_manager mk rnd" using NewFromConfig_local [OF assms(1-4)] by metis
  have "ParseInt (sm_get emd MetadataKeyEncryptedSize) = Ok n"
    if "en_Encrypt (local_encryptor mk rnd) (es_enc s) r n = (Ok (r', emd), e)" for r' emd e
    using local_sealed [OF that] assms(7,8) ParseInt_FormatInt by fastforce
  then show ?thesis
    using sealed_fs.get_put_sized [OF _ assms(5,6) assms(9) [unfolded m], of n]
    by (auto simp: sealed_fs.ok_state_def m)
qed

text \<open>The parts of a multipart upload are not encrypted while it is in progress. Whatever the manager, an uploaded
  part is a plain file with the client's bytes until the upload is completed.\<close>

theorem parts_stored_in_plaintext:
  assumes "EB_UploadPart (FileSystemBackend base) s b k u n r sz = (Ok etag, s')"
  shows "ReadFile (fs_tree (es_backend s')) (part_path base b u n) = Ok (rd_data r)"
  using assms UploadPart_Ok(1) [of base "es_backend s" b k u n r sz etag]
  by (auto simp: EB_UploadPart_def FileSystemBackend_def elim!: on_backend_cases)

section \<open>Concrete runs\<close>

definition demo_eb :: "(fsstate, pstate) encstate" where
  "demo_eb = \<lparr>es_backend = demo_fs, es_enc = demo_pstate, es_uploads = []\<rparr>"

abbreviation demo_bk :: "fsstate backend" where
  "demo_bk \<equiv> FileSystemBackend ''/d''"

lemma demo_eb_put:
  obtains s' where "EB_PutObject demo_bk demo_enc_manager demo_eb ''b'' ''x/y'' (bytes_reader data) n md = (Ok (), s')"
proof -
  obtain r' emd e where e: "EncManager_Encrypt demo_enc_manager demo_pstate (bytes_reader data) n = (Ok (r', emd), e)"
    by (rule demo_enc_encrypts)
  then have "en_Encrypt (local_encryptor (replicate 32 5) (\<lambda>_. Ok [])) demo_pstate (bytes_reader data) n = (Ok (r', emd), e)"
    by (simp add: EncManager_Encrypt_def demo_enc_manager_def EncManager_New_def)
  note enc = local_gcm.simple.enc_read [OF this] local_enc.valid_sealed [OF TrueI this]
  have "fst (FS_PutObject ''/d'' demo_fs ''b'' ''x/y'' r' x y) = Ok ()" for x y
    using PutObject_succeeds [OF demo_okey(1)] demo_fs_free enc(1) by (auto simp: list_all_iff)
  then obtain t where "FS_PutObject ''/d'' demo_fs ''b'' ''x/y'' r' (int (length (rd_data r')))
      (AList.update sse_marker ''AES256'' (sm_merge md emd)) = (Ok (), t)"
    by (metis prod.collapse)
  moreover have "EncManager_ShouldEncrypt demo_enc_manager ''b''"
    by (simp add: EncManager_ShouldEncrypt_def demo_enc_manager_def EncManager_New_def)
  ultimately have "EB_PutObject demo_bk demo_enc_manager demo_eb ''b'' ''x/y'' (bytes_reader data) n md
      = (Ok (), \<lparr>es_backend = t, es_enc = e, es_uploads = []\<rparr>)"
    using e enc(2)
    by (simp add: EB_PutObject_def Let_def on_enc_def on_backend_def demo_eb_def calculateEncryptedSize_def FileSystemBackend_def)
  then show thesis using that by blast
qed

lemma demo_config:
  "NewFromConfig (\<lambda>_. Ok []) (\<lambda>_. Err ErrEOF) demo_pstate demo_enc_config = (Ok demo_enc_manager, demo_pstate)"
  "ec_Enabled demo_enc_config" "ec_KeyProvider demo_enc_config = ''local''"
  "map_of (ec_KeyProviders demo_enc_config) ''local'' = None"
  using demo_NewFromConfig by (simp_all add: demo_enc_config_def)

theorem encrypted_object_durable_witness:
  "\<exists>s' ob t. EB_PutObject demo_bk demo_enc_manager demo_eb ''b'' ''x/y'' (bytes_reader [72, 105]) 2 [(''m'', ''v'')] = (Ok (), s')
     \<and> EB_GetObject demo_bk demo_enc_manager s' ''b'' ''x/y'' = (Ok ob, t) \<and> ob_Body ob = bytes_reader [72, 105]
     \<and> ob_Size ob = 2 \<and> sm_get (ob_Metadata ob) ''m'' = ''v''"
proof -
  obtain s' where p: "EB_PutObject demo_bk demo_enc_manager demo_eb ''b'' ''x/y'' (bytes_reader [72, 105]) 2 [(''m'', ''v'')]
      = (Ok (), s')"
    by (rule demo_eb_put)
  have "wf_smap [(''m'', ''v'')]" "2 = int (length (rd_data (bytes_reader [72, 105])))" "in_i64 2"
    "\<forall>(b', k', r, n, md) \<in> set []. fs_okey ''/d'' b' k' \<and> (b', k') \<noteq> (''b'', ''x/y'')"
    by (simp_all add: wf_smap_def in_i64_def)
  from encrypted_object_durable [OF demo_config demo_okey(1) this(1,2,3) p this(4)]
  obtain ob t where ob: "EB_GetObject demo_bk demo_enc_manager s' ''b'' ''x/y'' = (Ok ob, t)"
    "ob_Body ob = bytes_reader [72, 105]" "ob_Size ob = 2"
    "\<And>x. ascii x \<Longrightarrow> valid_utf8 (sm_get [(''m'', ''v'')] x) \<Longrightarrow> x \<notin> set internal_keys \<Longrightarrow> x \<noteq> sse_marker \<Longrightarrow> sm_get (ob_Metadata ob) x = sm_get [(''m'', ''v'')] x"
    by auto
  have "ascii ''m''" "valid_utf8 ''v''" "''m'' \<notin> set internal_keys" "''m'' \<noteq> sse_marker" "sm_get [(''m'', ''v'')] ''m'' = ''v''"
    by (simp_all add: ascii_valid internal_keys_def metadata_keys sse_marker_def sm_get_def)
  with ob p show ?thesis by metis
qed

theorem encrypted_at_rest_witness:
  "\<exists>s' dek nonce t. EB_PutObject demo_bk demo_enc_manager demo_eb ''b'' ''x/y'' (bytes_reader [72, 105]) 2 [] = (Ok (), s')
     \<and> lookup (fs_tree (es_backend s')) (obj_path ''/d'' ''b'' ''x/y'') = Some (File (gcm_seal dek nonce [72, 105] []) t)"
proof -
  obtain s' where p: "EB_PutObject demo_bk demo_enc_manager demo_eb ''b'' ''x/y'' (bytes_reader [72, 105]) 2 [] = (Ok (), s')"
    by (rule demo_eb_put)
  have "wf_smap []" by (simp add: wf_smap_def)
  from encrypted_at_rest [OF demo_config demo_okey(1) this p] p show ?thesis by auto
qed

theorem encrypted_unknown_size_witness:
  "\<exists>s' ob t. EB_PutObject demo_bk demo_enc_manager demo_eb ''b'' ''x/y'' (bytes_reader [72, 105]) (-1) [] = (Ok (), s')
     \<and> EB_GetObject demo_bk demo_enc_manager s' ''b'' ''x/y'' = (Ok ob, t) \<and> ob_Size ob = -1"
proof -
  obtain s' where p: "EB_PutObject demo_bk demo_enc_manager demo_eb ''b'' ''x/y'' (bytes_reader [72, 105]) (-1) [] = (Ok (), s')"
    by (rule demo_eb_put)
  have "wf_smap []" "(-1 :: int) < 0" "in_i64 (-1)" by (simp_all add: wf_smap_def in_i64_def)
  from encrypted_unknown_size [OF demo_config demo_okey(1) this p] p show ?thesis by auto
qed


lemma demo_upload_part:
  "fst (FS_UploadPart ''/d'' demo_upload ''b'' ''k'' ''k-7'' 1 (bytes_reader [1, 2]) 2) = Ok [CHR 34, CHR ''1'', CHR 34]"
  by code_simp

theorem parts_stored_in_plaintext_witness:
  "\<exists>s'. EB_UploadPart demo_bk (demo_eb\<lparr>es_backend := demo_upload\<rparr>) ''b'' ''k'' ''k-7'' 1 (bytes_reader [1, 2]) 2
       = (Ok [CHR 34, CHR ''1'', CHR 34], s')
     \<and> ReadFile (fs_tree (es_backend s')) (part_path ''/d'' ''b'' ''k-7'' 1) = Ok [1, 2]"
proof -
  obtain f where "FS_UploadPart ''/d'' demo_upload ''b'' ''k'' ''k-7'' 1 (bytes_reader [1, 2]) 2
      = (Ok [CHR 34, CHR ''1'', CHR 34], f)"
    using demo_upload_part by (metis prod.collapse)
  then have u: "EB_UploadPart demo_bk (demo_eb\<lparr>es_backend := demo_upload\<rparr>) ''b'' ''k'' ''k-7'' 1 (bytes_reader [1, 2]) 2
      = (Ok [CHR 34, CHR ''1'', CHR 34], demo_eb\<lparr>es_backend := f\<rparr>)"
    by (simp add: EB_UploadPart_def on_backend_def FileSystemBackend_def)
  from parts_stored_in_plaintext [OF this] u show ?thesis by simp
qed

text \<open>A whole encrypted multipart upload: initiated, two parts uploaded out of order, completed.\<close>

definition demo_ups :: "(int \<times> bytes) list" where
  "demo_ups = [(2, [3]), (1, [1, 2])]"

definition demo_completed :: fsstate where
  "demo_completed = snd (FS_CompleteMultipartUpload ''/d'' (snd (upload_all ''/d'' demo_upload ''b'' ''k'' ''k-7'' demo_ups))
     ''b'' ''k'' ''k-7'' demo_parts)"

lemma demo_completed_free:
  "list_all (\<lambda>p. \<not> file_at (fs_tree demo_completed) p) (ancestors (obj_path ''/d'' ''b'' ''k''))
     \<and> \<not> dir_at (fs_tree demo_completed) (obj_path ''/d'' ''b'' ''k'') \<and> \<not> dir_at (fs_tree demo_completed) (meta_path ''/d'' ''b'' ''k'')"
  by code_simp

lemma demo_initiate: "FS_InitiateMultipartUpload ''/d'' demo_fs ''b'' ''k'' [] = (Ok ''k-7'', demo_upload)"
proof -
  have "fst (FS_InitiateMultipartUpload ''/d'' demo_fs ''b'' ''k'' []) = Ok ''k-7''" by code_simp
  then show ?thesis by (metis demo_upload_def prod.collapse)
qed

lemma demo_complete:
  obtains f1 where "upload_all ''/d'' demo_upload ''b'' ''k'' ''k-7'' demo_ups = (Ok (), f1)"
    and "FS_CompleteMultipartUpload ''/d'' f1 ''b'' ''k'' ''k-7'' demo_parts = (Ok (), demo_completed)"
proof -
  obtain f1 where f1: "upload_all ''/d'' demo_upload ''b'' ''k'' ''k-7'' demo_ups = (Ok (), f1)"
    unfolding demo_ups_def using demo_upload_all(1) by (metis prod.collapse)
  moreover have "fst (FS_CompleteMultipartUpload ''/d'' f1 ''b'' ''k'' ''k-7'' demo_parts) = Ok ()"
    using demo_upload_all(2) f1 by (simp add: demo_ups_def)
  ultimately show thesis using that unfolding demo_completed_def by (metis prod.collapse snd_conv)
qed

lemma demo_upload_ok: "upload_ok ''/d'' ''b'' ''k'' ''k-7''"
  by (simp add: upload_ok_def fs_okey_def key_parts_def Split_def HasPrefix_def plain_name_def HasSuffix_def)

lemma demo_encrypt_completed:
  obtains t where "encrypt_completed demo_bk demo_enc_manager (s\<lparr>es_backend := demo_completed\<rparr>) ''b'' ''k'' original = (Ok (), t)"
proof -
  obtain f1 where f1: "upload_all ''/d'' demo_upload ''b'' ''k'' ''k-7'' demo_ups = (Ok (), f1)"
    and f2: "FS_CompleteMultipartUpload ''/d'' f1 ''b'' ''k'' ''k-7'' demo_parts = (Ok (), demo_completed)"
    by (rule demo_complete)
  obtain data mt where "lookup (fs_tree demo_completed) (obj_path ''/d'' ''b'' ''k'') = Some (File data mt)"
    by (rule multipart_file [OF demo_upload_ok f1 _ _ f2]) (auto simp: demo_ups_def demo_parts_def in_i64_def)
  from GetObject_file [OF this] obtain obj where obj: "FS_GetObject ''/d'' demo_completed ''b'' ''k'' = (Ok obj, demo_completed)"
    "ob_Body obj = bytes_reader data"
    by simp
  obtain r' emd e where e: "EncManager_Encrypt demo_enc_manager (es_enc s) (bytes_reader data) (int (length data)) = (Ok (r', emd), e)"
    by (rule demo_enc_encrypts)
  then have "en_Encrypt (local_encryptor (replicate 32 5) (\<lambda>_. Ok [])) (es_enc s) (bytes_reader data) (int (length data))
      = (Ok (r', emd), e)"
    by (simp add: EncManager_Encrypt_def demo_enc_manager_def EncManager_New_def)
  then have r': "ReadAll r' = Ok (rd_data r')" using local_gcm.simple.enc_read by (simp add: ReadAll_Ok)
  have "fst (FS_PutObject ''/d'' demo_completed ''b'' ''k'' (bytes_reader (rd_data r')) x y) = Ok ()" for x y
    using PutObject_succeeds [of "''/d''" "''b''" "''k''" demo_completed] demo_completed_free demo_upload_ok
    by (auto simp: list_all_iff upload_ok_def)
  then obtain f3 where "FS_PutObject ''/d'' demo_completed ''b'' ''k'' (bytes_reader (rd_data r')) (int (length (rd_data r')))
      (AList.update sse_marker ''AES256'' (sm_merge (sm_merge (sm_merge [] original) (ob_Metadata obj)) emd)) = (Ok (), f3)"
    by (metis prod.collapse)
  then show thesis
    using that [of "s\<lparr>es_backend := f3, es_enc := e\<rparr>"] e obj r'
    by (simp add: encrypt_completed_def on_backend_def on_enc_def FileSystemBackend_def Let_def)
qed

theorem encrypted_multipart_witness:
  "\<exists>t0 t1 t2 t3 ob. EB_InitiateMultipartUpload demo_bk demo_enc_manager demo_eb ''b'' ''k'' [] = (Ok ''k-7'', t0)
     \<and> upload_parts (EncryptedBackend demo_bk demo_enc_manager) t0 ''b'' ''k'' ''k-7'' demo_ups = (Ok (), t1)
     \<and> EB_CompleteMultipartUpload demo_bk demo_enc_manager t1 ''b'' ''k'' ''k-7'' demo_parts = (Ok (), t2)
     \<and> EB_GetObject demo_bk demo_enc_manager t2 ''b'' ''k'' = (Ok ob, t3) \<and> ob_Body ob = bytes_reader [1, 2, 3]"
proof -
  let ?info = "\<lparr>mu_bucket = ''b'', mu_key = ''k'', mu_originalMetadata = []\<rparr>"
  define t0 where "t0 = demo_eb\<lparr>es_backend := demo_upload, es_uploads := [(''k-7'', ?info)]\<rparr>"
  have on: "EncManager_IsEnabled demo_enc_manager"
    by (simp add: demo_enc_manager_def EncManager_IsEnabled_def EncManager_New_def)
  have i: "EB_InitiateMultipartUpload demo_bk demo_enc_manager demo_eb ''b'' ''k'' [] = (Ok ''k-7'', t0)"
    using demo_initiate on
    by (simp add: EB_InitiateMultipartUpload_def on_backend_def FileSystemBackend_def demo_eb_def t0_def)
  obtain f1 where f1: "upload_all ''/d'' demo_upload ''b'' ''k'' ''k-7'' demo_ups = (Ok (), f1)"
    and f2: "FS_CompleteMultipartUpload ''/d'' f1 ''b'' ''k'' ''k-7'' demo_parts = (Ok (), demo_completed)"
    by (rule demo_complete)
  have u: "upload_parts (EncryptedBackend demo_bk demo_enc_manager) t0 ''b'' ''k'' ''k-7'' demo_ups = (Ok (), t0\<lparr>es_backend := f1\<rparr>)"
    using f1 by (simp add: upload_parts_fs t0_def)
  obtain t where "encrypt_completed demo_bk demo_enc_manager (t0\<lparr>es_backend := demo_completed\<rparr>) ''b'' ''k'' [] = (Ok (), t)"
    by (rule demo_encrypt_completed)
  then obtain t2 where c: "EB_CompleteMultipartUpload demo_bk demo_enc_manager (t0\<lparr>es_backend := f1\<rparr>) ''b'' ''k'' ''k-7'' demo_parts = (Ok (), t2)"
    using on f2 by (simp add: EB_CompleteMultipartUpload_def on_backend_def FileSystemBackend_def t0_def)
  have data: "[1, 2, 3] = concat (map (\<lambda>p. the (map_of (rev demo_ups) (cp_PartNumber p))) demo_parts)"
    "in_i64 (int (length [1 :: byte, 2, 3]))" by (simp_all add: demo_ups_def demo_parts_def in_i64_def)
  have "\<forall>(n, bs) \<in> set demo_ups. in_i64 n" "\<forall>p \<in> set demo_parts. cp_PartNumber p \<in> fst ` set demo_ups"
    by (simp_all add: demo_ups_def demo_parts_def in_i64_def)
  from encrypted_multipart [OF demo_config demo_upload_ok i u this c data] i u c show ?thesis by blast
qed

end
