(* ===== verification/Object_Cache.thy ===== *)
theory Object_Cache
  imports Storage_FileSystem
begin

text \<open>
  \<^verbatim>\<open>internal/cache/cache.go\<close>: the in-memory object cache and the backend that reads through it. The
  two-queue caches of \<^verbatim>\<open>hashicorp/golang-lru\<close> are arguments, records of operations over a cache state;
  what the code relies on is the predicate \<open>evicting\<close>: an entry is there until it is removed or evicted,
  and it is never another key's. Proved: a caching backend is transparent. Through any sequence of
  reads, successful stores and successful deletes, a read returns what a read of the wrapped backend
  returns. What breaks that (a completed multipart upload, which the caching backend does not see) is
  stated too. Shared pointers are values here: nobody mutates an object information once it is cached.
\<close>

section \<open>The two-queue cache\<close>

record ('c, 'v) lru =
  lru_Get :: "'c \<Rightarrow> string \<Rightarrow> 'v option \<times> 'c"
  lru_Add :: "'c \<Rightarrow> string \<Rightarrow> 'v \<Rightarrow> 'c"
  lru_Remove :: "'c \<Rightarrow> string \<Rightarrow> 'c"
  lru_Keys :: "'c \<Rightarrow> string list"

text \<open>\<open>lk\<close> gives the entries of a cache. A lookup moves entries between queues but keeps them, an addition
  may evict others, a removal removes exactly one.\<close>

definition evicting :: "('c, 'v) lru \<Rightarrow> ('c \<Rightarrow> string \<Rightarrow> 'v option) \<Rightarrow> bool" where
  "evicting ops lk \<longleftrightarrow>
     (\<forall>c k. fst (lru_Get ops c k) = lk c k \<and> lk (snd (lru_Get ops c k)) = lk c)
   \<and> (\<forall>c k v k'. lk (lru_Add ops c k v) k' = Some v \<and> k' = k \<or> k' \<noteq> k \<and> lk (lru_Add ops c k v) k' \<in> {None, lk c k'})
   \<and> (\<forall>c k. lk (lru_Remove ops c k) = (lk c)(k := None))
   \<and> (\<forall>c. set (lru_Keys ops c) = dom (lk c))"

section \<open>The object cache\<close>

record cached_object =
  co_data :: bytes
  co_info :: object_info
  co_expiresAt :: time

record ('h, 'm) object_cache =
  oc_hotCache :: 'h
  oc_metaCache :: 'm
  oc_maxMemory :: int
  oc_maxObjectSize :: int
  oc_ttl :: duration
  oc_hits :: "64 word"
  oc_misses :: "64 word"

text \<open>The quotient of two 64-bit integers, truncated towards zero; a zero divisor panics.\<close>

definition go_div :: "int \<Rightarrow> int \<Rightarrow> int res" where
  "go_div a b =
     (if b = 0 then Panic ''integer divide by zero'' else Ok (i64 (sgn a * sgn b * (\<bar>a\<bar> div \<bar>b\<bar>))))"

definition NewObjectCache ::
  "(int \<Rightarrow> 'h res) \<Rightarrow> (int \<Rightarrow> 'm res) \<Rightarrow> int \<Rightarrow> int \<Rightarrow> duration \<Rightarrow> ('h, 'm) object_cache res" where
  "NewObjectCache newHot newMeta maxMemory maxObjectSize ttl =
     res_bind (go_div maxMemory maxObjectSize) (\<lambda>q.
     res_bind (go_div q 2) (\<lambda>h.
     let hotCacheSize = (if h < 100 then 100 else h);
         metaCacheSize = i64 (hotCacheSize * 10)
     in res_bind (wrap_err ''failed to create hot cache: '' (newHot hotCacheSize)) (\<lambda>hot.
        res_bind (wrap_err ''failed to create metadata cache: '' (newMeta metaCacheSize)) (\<lambda>meta.
        Ok \<lparr>oc_hotCache = hot, oc_metaCache = meta, oc_maxMemory = maxMemory, oc_maxObjectSize = maxObjectSize,
            oc_ttl = ttl, oc_hits = 0, oc_misses = 0\<rparr>))))"

definition cache_key :: "string \<Rightarrow> string \<Rightarrow> string" where
  "cache_key bucket key = bucket @ ''/'' @ key"

definition recordHit :: "('h, 'm) object_cache \<Rightarrow> ('h, 'm) object_cache" where
  "recordHit c = c\<lparr>oc_hits := oc_hits c + 1\<rparr>"

definition recordMiss :: "('h, 'm) object_cache \<Rightarrow> ('h, 'm) object_cache" where
  "recordMiss c = c\<lparr>oc_misses := oc_misses c + 1\<rparr>"

definition cached_body :: "cached_object \<Rightarrow> s3_object" where
  "cached_body co =
     \<lparr>ob_Body = bytes_reader (co_data co), ob_ContentType = oi_ContentType (co_info co), ob_Size = oi_Size (co_info co),
      ob_ETag = oi_ETag (co_info co), ob_Metadata = oi_Metadata (co_info co), ob_LastModified = oi_LastModified (co_info co)\<rparr>"

definition ObjectCache_GetObject ::
  "('h, cached_object) lru \<Rightarrow> ('h, 'm) object_cache \<Rightarrow> time \<Rightarrow> string \<Rightarrow> string \<Rightarrow> s3_object option \<times> ('h, 'm) object_cache" where
  "ObjectCache_GetObject hot c now bucket key =
     (let ck = cache_key bucket key; (cached, h1) = lru_Get hot (oc_hotCache c) ck; c1 = c\<lparr>oc_hotCache := h1\<rparr> in
      case cached of
        Some co \<Rightarrow>
          if now < co_expiresAt co then (Some (cached_body co), recordHit c1)
          else (None, recordMiss (c1\<lparr>oc_hotCache := lru_Remove hot h1 ck\<rparr>))
      | None \<Rightarrow> (None, recordMiss c1))"

definition ObjectCache_PutObject ::
  "('h, cached_object) lru \<Rightarrow> ('m, object_info) lru \<Rightarrow> ('h, 'm) object_cache \<Rightarrow> time \<Rightarrow> string \<Rightarrow> string \<Rightarrow> bytes
     \<Rightarrow> object_info \<Rightarrow> ('h, 'm) object_cache" where
  "ObjectCache_PutObject hot meta c now bucket key data info =
     (if oc_maxObjectSize c < int (length data) then c
      else let ck = cache_key bucket key in
        c\<lparr>oc_hotCache := lru_Add hot (oc_hotCache c) ck
             \<lparr>co_data = data, co_info = info, co_expiresAt = now + oc_ttl c\<rparr>,
           oc_metaCache := lru_Add meta (oc_metaCache c) ck info\<rparr>)"

definition ObjectCache_GetMetadata ::
  "('m, object_info) lru \<Rightarrow> ('h, 'm) object_cache \<Rightarrow> string \<Rightarrow> string \<Rightarrow> object_info option \<times> ('h, 'm) object_cache" where
  "ObjectCache_GetMetadata meta c bucket key =
     (let (info, m1) = lru_Get meta (oc_metaCache c) (cache_key bucket key); c1 = c\<lparr>oc_metaCache := m1\<rparr> in
      case info of
        Some i \<Rightarrow> (Some i, recordHit c1)
      | None \<Rightarrow> (None, recordMiss c1))"

definition ObjectCache_PutMetadata ::
  "('m, object_info) lru \<Rightarrow> ('h, 'm) object_cache \<Rightarrow> string \<Rightarrow> string \<Rightarrow> object_info \<Rightarrow> ('h, 'm) object_cache" where
  "ObjectCache_PutMetadata meta c bucket key info =
     c\<lparr>oc_metaCache := lru_Add meta (oc_metaCache c) (cache_key bucket key) info\<rparr>"

definition ObjectCache_Invalidate ::
  "('h, cached_object) lru \<Rightarrow> ('m, object_info) lru \<Rightarrow> ('h, 'm) object_cache \<Rightarrow> string \<Rightarrow> string \<Rightarrow> ('h, 'm) object_cache" where
  "ObjectCache_Invalidate hot meta c bucket key =
     (let ck = cache_key bucket key in
      c\<lparr>oc_hotCache := lru_Remove hot (oc_hotCache c) ck, oc_metaCache := lru_Remove meta (oc_metaCache c) ck\<rparr>)"

definition remove_prefix :: "('c, 'v) lru \<Rightarrow> string \<Rightarrow> 'c \<Rightarrow> 'c" where
  "remove_prefix ops prefix c =
     fold (\<lambda>key c. if length prefix < length key \<and> take (length prefix) key = prefix then lru_Remove ops c key else c)
       (lru_Keys ops c) c"

definition ObjectCache_InvalidateBucket ::
  "('h, cached_object) lru \<Rightarrow> ('m, object_info) lru \<Rightarrow> ('h, 'm) object_cache \<Rightarrow> string \<Rightarrow> ('h, 'm) object_cache" where
  "ObjectCache_InvalidateBucket hot meta c bucket =
     (let prefix = bucket @ ''/'' in
      c\<lparr>oc_hotCache := remove_prefix hot prefix (oc_hotCache c), oc_metaCache := remove_prefix meta prefix (oc_metaCache c)\<rparr>)"

text \<open>The hit rate is a quotient of floating point numbers, whose type and division are arguments.\<close>

definition ObjectCache_Stats ::
  "'f \<Rightarrow> (64 word \<Rightarrow> 64 word \<Rightarrow> 'f) \<Rightarrow> ('h, 'm) object_cache \<Rightarrow> 64 word \<times> 64 word \<times> 'f" where
  "ObjectCache_Stats zero fdiv c =
     (let total = oc_hits c + oc_misses c in
      (oc_hits c, oc_misses c, if 0 < total then fdiv (oc_hits c) total else zero))"

section \<open>The reader of cached data\<close>

record bytes_rd =
  brd_data :: bytes
  brd_pos :: nat

definition newBytesReader :: "bytes \<Rightarrow> bytes_rd" where
  "newBytesReader data = \<lparr>brd_data = data, brd_pos = 0\<rparr>"

text \<open>\<^verbatim>\<open>Read(p)\<close> with \<open>len p = n\<close>: the bytes copied, or end of file.\<close>

definition bytesReader_Read :: "bytes_rd \<Rightarrow> nat \<Rightarrow> bytes res \<times> bytes_rd" where
  "bytesReader_Read r n =
     (if length (brd_data r) \<le> brd_pos r then (Err ErrEOF, r)
      else let chunk = take n (drop (brd_pos r) (brd_data r))
           in (Ok chunk, r\<lparr>brd_pos := brd_pos r + length chunk\<rparr>))"

text \<open>\<^verbatim>\<open>io.Copy\<close> with a buffer of \<open>Suc n\<close> bytes, for at most \<open>fuel\<close> calls: reads until the end of file.\<close>

fun read_loop :: "nat \<Rightarrow> nat \<Rightarrow> bytes_rd \<Rightarrow> bytes option" where
  "read_loop 0 n r = None"
| "read_loop (Suc fuel) n r =
     (case bytesReader_Read r (Suc n) of
        (Ok chunk, r') \<Rightarrow> map_option ((@) chunk) (read_loop fuel n r')
      | (Err e, r') \<Rightarrow> Some []
      | (Panic p, r') \<Rightarrow> None)"

section \<open>The caching backend\<close>

text \<open>\<open>cs_clock\<close> gives the value of the \<open>n\<close>-th call of \<^verbatim>\<open>time.Now\<close>.\<close>

record ('b, 'h, 'm) cachestate =
  cs_backend :: 'b
  cs_cache :: "('h, 'm) object_cache"
  cs_clock :: "nat \<Rightarrow> time"
  cs_ticks :: nat

definition cs_now :: "('b, 'h, 'm) cachestate \<Rightarrow> time" where
  "cs_now s = cs_clock s (cs_ticks s)"

definition cs_tick :: "('b, 'h, 'm) cachestate \<Rightarrow> ('b, 'h, 'm) cachestate" where
  "cs_tick s = s\<lparr>cs_ticks := Suc (cs_ticks s)\<rparr>"

definition cs_on :: "('b \<Rightarrow> 'a \<times> 'b) \<Rightarrow> ('b, 'h, 'm) cachestate \<Rightarrow> 'a \<times> ('b, 'h, 'm) cachestate" where
  "cs_on f s = (case f (cs_backend s) of (x, b) \<Rightarrow> (x, s\<lparr>cs_backend := b\<rparr>))"

definition info_of_object :: "string \<Rightarrow> s3_object \<Rightarrow> object_info" where
  "info_of_object key obj =
     \<lparr>oi_Key = key, oi_Size = ob_Size obj, oi_ETag = ob_ETag obj, oi_LastModified = ob_LastModified obj,
      oi_StorageClass = '''', oi_ContentType = ob_ContentType obj, oi_Metadata = ob_Metadata obj\<rparr>"

definition CB_GetObject ::
  "('h, cached_object) lru \<Rightarrow> ('m, object_info) lru \<Rightarrow> 'b backend \<Rightarrow> ('b, 'h, 'm) cachestate \<Rightarrow> string \<Rightarrow> string
     \<Rightarrow> s3_object res \<times> ('b, 'h, 'm) cachestate" where
  "CB_GetObject hot meta bk s bucket key =
     (case ObjectCache_GetObject hot (cs_cache s) (cs_now s) bucket key of
        (Some obj, c1) \<Rightarrow> (Ok obj, (cs_tick s)\<lparr>cs_cache := c1\<rparr>)
      | (None, c1) \<Rightarrow>
          (case cs_on (\<lambda>b. bk_GetObject bk b bucket key) ((cs_tick s)\<lparr>cs_cache := c1\<rparr>) of
             (Ok obj, s2) \<Rightarrow>
               if 0 < ob_Size obj \<and> ob_Size obj \<le> oc_maxObjectSize (cs_cache s2) then
                 (case ReadFull (ob_Body obj) (nat (ob_Size obj)) of
                    (data, None) \<Rightarrow>
                      (Ok (obj\<lparr>ob_Body := bytes_reader data\<rparr>),
                       (cs_tick s2)\<lparr>cs_cache := ObjectCache_PutObject hot meta (cs_cache s2) (cs_now s2) bucket key data
                                               (info_of_object key obj)\<rparr>)
                  | (data, Some e) \<Rightarrow> cs_on (\<lambda>b. bk_GetObject bk b bucket key) s2)
               else (Ok obj, s2)
           | (x, s2) \<Rightarrow> (x, s2)))"

definition CB_HeadObject ::
  "('m, object_info) lru \<Rightarrow> 'b backend \<Rightarrow> ('b, 'h, 'm) cachestate \<Rightarrow> string \<Rightarrow> string
     \<Rightarrow> object_info res \<times> ('b, 'h, 'm) cachestate" where
  "CB_HeadObject meta bk s bucket key =
     (case ObjectCache_GetMetadata meta (cs_cache s) bucket key of
        (Some info, c1) \<Rightarrow> (Ok info, s\<lparr>cs_cache := c1\<rparr>)
      | (None, c1) \<Rightarrow>
          (case cs_on (\<lambda>b. bk_HeadObject bk b bucket key) (s\<lparr>cs_cache := c1\<rparr>) of
             (Ok info, s2) \<Rightarrow> (Ok info, s2\<lparr>cs_cache := ObjectCache_PutMetadata meta (cs_cache s2) bucket key info\<rparr>)
           | (x, s2) \<Rightarrow> (x, s2)))"

definition CB_PutObject ::
  "('h, cached_object) lru \<Rightarrow> ('m, object_info) lru \<Rightarrow> 'b backend \<Rightarrow> ('b, 'h, 'm) cachestate \<Rightarrow> string \<Rightarrow> string \<Rightarrow> reader
     \<Rightarrow> int \<Rightarrow> smap \<Rightarrow> unit res \<times> ('b, 'h, 'm) cachestate" where
  "CB_PutObject hot meta bk s bucket key reader sz metadata =
     (case cs_on (\<lambda>b. bk_PutObject bk b bucket key reader sz metadata) s of
        (Ok _, s1) \<Rightarrow> (Ok (), s1\<lparr>cs_cache := ObjectCache_Invalidate hot meta (cs_cache s1) bucket key\<rparr>)
      | (x, s1) \<Rightarrow> (x, s1))"

definition CB_DeleteObject ::
  "('h, cached_object) lru \<Rightarrow> ('m, object_info) lru \<Rightarrow> 'b backend \<Rightarrow> ('b, 'h, 'm) cachestate \<Rightarrow> string \<Rightarrow> string
     \<Rightarrow> unit res \<times> ('b, 'h, 'm) cachestate" where
  "CB_DeleteObject hot meta bk s bucket key =
     (case cs_on (\<lambda>b. bk_DeleteObject bk b bucket key) s of
        (Ok _, s1) \<Rightarrow> (Ok (), s1\<lparr>cs_cache := ObjectCache_Invalidate hot meta (cs_cache s1) bucket key\<rparr>)
      | (x, s1) \<Rightarrow> (x, s1))"

definition CB_DeleteBucket ::
  "('h, cached_object) lru \<Rightarrow> ('m, object_info) lru \<Rightarrow> 'b backend \<Rightarrow> ('b, 'h, 'm) cachestate \<Rightarrow> string
     \<Rightarrow> unit res \<times> ('b, 'h, 'm) cachestate" where
  "CB_DeleteBucket hot meta bk s bucket =
     (case cs_on (\<lambda>b. bk_DeleteBucket bk b bucket) s of
        (Ok _, s1) \<Rightarrow> (Ok (), s1\<lparr>cs_cache := ObjectCache_InvalidateBucket hot meta (cs_cache s1) bucket\<rparr>)
      | (x, s1) \<Rightarrow> (x, s1))"

text \<open>The other operations are those of the embedded backend.\<close>

definition CachingBackend ::
  "('h, cached_object) lru \<Rightarrow> ('m, object_info) lru \<Rightarrow> 'b backend \<Rightarrow> ('b, 'h, 'm) cachestate backend" where
  "CachingBackend hot meta bk =
     \<lparr>bk_ListBuckets = cs_on (bk_ListBuckets bk),
      bk_CreateBucket = (\<lambda>s b. cs_on (\<lambda>x. bk_CreateBucket bk x b) s),
      bk_DeleteBucket = CB_DeleteBucket hot meta bk,
      bk_BucketExists = (\<lambda>s b. cs_on (\<lambda>x. bk_BucketExists bk x b) s),
      bk_ListObjects = (\<lambda>s b p m n. cs_on (\<lambda>x. bk_ListObjects bk x b p m n) s),
      bk_ListObjectsWithDelimiter = (\<lambda>s b p m d n. cs_on (\<lambda>x. bk_ListObjectsWithDelimiter bk x b p m d n) s),
      bk_GetObject = CB_GetObject hot meta bk, bk_PutObject = CB_PutObject hot meta bk,
      bk_DeleteObject = CB_DeleteObject hot meta bk, bk_HeadObject = CB_HeadObject meta bk,
      bk_GetObjectACL = (\<lambda>s b k. cs_on (\<lambda>x. bk_GetObjectACL bk x b k) s),
      bk_PutObjectACL = (\<lambda>s b k a. cs_on (\<lambda>x. bk_PutObjectACL bk x b k a) s),
      bk_InitiateMultipartUpload = (\<lambda>s b k md. cs_on (\<lambda>x. bk_InitiateMultipartUpload bk x b k md) s),
      bk_UploadPart = (\<lambda>s b k u n r sz. cs_on (\<lambda>x. bk_UploadPart bk x b k u n r sz) s),
      bk_CompleteMultipartUpload = (\<lambda>s b k u ps. cs_on (\<lambda>x. bk_CompleteMultipartUpload bk x b k u ps) s),
      bk_AbortMultipartUpload = (\<lambda>s b k u. cs_on (\<lambda>x. bk_AbortMultipartUpload bk x b k u) s),
      bk_ListParts = (\<lambda>s b k u n p. cs_on (\<lambda>x. bk_ListParts bk x b k u n p) s)\<rparr>"


section \<open>Facts about the cache\<close>

lemma evictingD:
  assumes "evicting ops lk"
  shows evicting_Get: "lru_Get ops c k = (v, c') \<Longrightarrow> v = lk c k \<and> lk c' = lk c"
    and evicting_Add: "lk (lru_Add ops c k u) k' = Some w \<Longrightarrow> (if k' = k then w = u else lk c k' = Some w)"
    and evicting_Remove: "lk (lru_Remove ops c k) = (lk c)(k := None)"
    and evicting_Keys: "set (lru_Keys ops c) = dom (lk c)"
proof -
  have g: "fst (lru_Get ops c k) = lk c k \<and> lk (snd (lru_Get ops c k)) = lk c" for c k
    using assms by (simp add: evicting_def)
  show "lru_Get ops c k = (v, c') \<Longrightarrow> v = lk c k \<and> lk c' = lk c" using g [of c k] by simp
  have "lk (lru_Add ops c k u) k' = Some u \<and> k' = k \<or> k' \<noteq> k \<and> lk (lru_Add ops c k u) k' \<in> {None, lk c k'}"
    using assms unfolding evicting_def by blast
  then show "lk (lru_Add ops c k u) k' = Some w \<Longrightarrow> (if k' = k then w = u else lk c k' = Some w)" by auto
  show "lk (lru_Remove ops c k) = (lk c)(k := None)" "set (lru_Keys ops c) = dom (lk c)"
    using assms by (simp_all add: evicting_def)
qed

lemma cache_key_inj:
  assumes "CHR ''/'' \<notin> set b" and "CHR ''/'' \<notin> set b'" and "cache_key b k = cache_key b' k'"
  shows "b = b' \<and> k = k'"
proof -
  have split: "takeWhile (\<lambda>c. c \<noteq> CHR ''/'') (b @ ''/'' @ k) = b \<and> dropWhile (\<lambda>c. c \<noteq> CHR ''/'') (b @ ''/'' @ k) = ''/'' @ k"
    if "CHR ''/'' \<notin> set b" for b k :: string
    using that by (induction b) auto
  show ?thesis
    using split [OF assms(1), of k] split [OF assms(2), of k'] assms(3) by (metis cache_key_def append_Cons append_Nil list.inject)
qed

lemma remove_prefix_lk:
  assumes "evicting ops lk"
  shows "lk (remove_prefix ops prefix c) k = (if length prefix < length k \<and> take (length prefix) k = prefix then None else lk c k)"
proof -
  let ?P = "\<lambda>key. length prefix < length key \<and> take (length prefix) key = prefix"
  have "lk (fold (\<lambda>key c. if ?P key then lru_Remove ops c key else c) ks c) k
      = (if ?P k \<and> k \<in> set ks then None else lk c k)" for ks c
    by (induction ks arbitrary: c) (auto simp: evicting_Remove [OF assms])
  moreover have "k \<notin> set (lru_Keys ops c) \<Longrightarrow> lk c k = None" using evicting_Keys [OF assms] by auto
  ultimately show ?thesis unfolding remove_prefix_def by simp
qed

text \<open>A reader over cached data delivers it all, in whatever pieces, and then the end of file.\<close>

lemma read_loop_total:
  assumes "length (brd_data r) - brd_pos r < fuel"
  shows "read_loop fuel n r = Some (drop (brd_pos r) (brd_data r))"
  using assms
proof (induction fuel arbitrary: r)
  case 0
  then show ?case by simp
next
  case (Suc fuel)
  show ?case
  proof (cases "length (brd_data r) \<le> brd_pos r")
    case True
    then show ?thesis by (simp add: bytesReader_Read_def)
  next
    case False
    let ?c = "take (Suc n) (drop (brd_pos r) (brd_data r))"
    let ?r = "r\<lparr>brd_pos := brd_pos r + length ?c\<rparr>"
    have "read_loop fuel n ?r = Some (drop (brd_pos r + length ?c) (brd_data r))"
      using Suc.IH [of ?r] Suc.prems False by simp
    moreover have "?c @ drop (brd_pos r + length ?c) (brd_data r) = drop (brd_pos r) (brd_data r)"
      by (metis append_take_drop_id drop_drop add.commute length_take min.cobounded2 min_def take_all_iff linorder_le_cases drop_all append_Nil2 length_drop)
    ultimately show ?thesis using False by (simp add: bytesReader_Read_def Let_def)
  qed
qed

section \<open>Transparency\<close>

text \<open>The cached objects are those the wrapped backend holds.\<close>

definition coherent ::
  "'b backend \<Rightarrow> (string \<Rightarrow> string \<Rightarrow> bool) \<Rightarrow> ('h \<Rightarrow> string \<Rightarrow> cached_object option) \<Rightarrow> ('b, 'h, 'm) cachestate \<Rightarrow> bool" where
  "coherent bk okey lk s \<longleftrightarrow>
     (\<forall>b k co. okey b k \<longrightarrow> lk (oc_hotCache (cs_cache s)) (cache_key b k) = Some co \<longrightarrow>
        fst (bk_GetObject bk (cs_backend s) b k) = Ok (cached_body co))"

text \<open>What the cache relies on, besides the contract of an object store: lookups do not change what later lookups
  return, a positive size is the length of a readable body, and a delete disturbs no other object.\<close>

locale read_store = object_store bk ok okey seen fits
  for bk :: "'b backend" and ok :: "'b \<Rightarrow> bool" and okey :: "string \<Rightarrow> string \<Rightarrow> bool" and seen :: "string \<Rightarrow> bool"
    and fits :: "int \<Rightarrow> bool" +
  assumes okey_bucket: "okey b k \<Longrightarrow> CHR ''/'' \<notin> set b"
    and get_pure: "ok s \<Longrightarrow> bk_GetObject bk s b k = (x, s') \<Longrightarrow> fst (bk_GetObject bk s' b' k') = fst (bk_GetObject bk s b' k')"
    and get_size: "bk_GetObject bk s b k = (Ok ob, s') \<Longrightarrow> 0 < ob_Size ob \<Longrightarrow> nat (ob_Size ob) \<le> length (rd_data (ob_Body ob)) \<Longrightarrow>
      rd_err (ob_Body ob) = None \<and> ob_Size ob = int (length (rd_data (ob_Body ob)))"
    and head_ok: "ok s \<Longrightarrow> bk_HeadObject bk s b k = (y, s') \<Longrightarrow> ok s'"
    and head_pure: "ok s \<Longrightarrow> bk_HeadObject bk s b k = (y, s') \<Longrightarrow> fst (bk_GetObject bk s' b' k') = fst (bk_GetObject bk s b' k')"
    and del_ok: "ok s \<Longrightarrow> bk_DeleteObject bk s b k = (z, s') \<Longrightarrow> ok s'"
    and del_other:
      "ok s \<Longrightarrow> okey b k \<Longrightarrow> okey b' k' \<Longrightarrow> (b', k') \<noteq> (b, k) \<Longrightarrow> bk_DeleteObject bk s b k = (z, s') \<Longrightarrow>
       bk_GetObject bk s b' k' = (Ok ob, t) \<Longrightarrow> rd_err (ob_Body ob) = None \<Longrightarrow>
       \<exists>t'. bk_GetObject bk s' b' k' = (Ok ob, t')"
begin

text \<open>One lookup: the cases of the code.\<close>

lemma GetObject_cases:
  assumes ev: "evicting hot lk" and get: "CB_GetObject hot meta bk s b k = (x, s')"
  obtains (hit) co where "lk (oc_hotCache (cs_cache s)) (cache_key b k) = Some co" "x = Ok (cached_body co)"
      "cs_backend s' = cs_backend s" "lk (oc_hotCache (cs_cache s')) = lk (oc_hotCache (cs_cache s))"
    | (fill) obj bs where "bk_GetObject bk (cs_backend s) b k = (Ok obj, bs)" "x = Ok obj" "cs_backend s' = bs"
      "rd_err (ob_Body obj) = None"
      "\<And>q co. lk (oc_hotCache (cs_cache s')) q = Some co \<Longrightarrow>
         (if q = cache_key b k then cached_body co = obj else lk (oc_hotCache (cs_cache s)) q = Some co)"
    | (pass) y bs where "bk_GetObject bk (cs_backend s) b k = (y, bs)"
      "x = y \<and> cs_backend s' = bs \<or> bk_GetObject bk bs b k = (x, cs_backend s')"
      "\<And>q co. lk (oc_hotCache (cs_cache s')) q = Some co \<Longrightarrow> lk (oc_hotCache (cs_cache s)) q = Some co"
proof (cases "ObjectCache_GetObject hot (cs_cache s) (cs_now s) b k")
  case (Pair found c1)
  obtain v h1 where g: "lru_Get hot (oc_hotCache (cs_cache s)) (cache_key b k) = (v, h1)"
    by (cases "lru_Get hot (oc_hotCache (cs_cache s)) (cache_key b k)")
  note v = evicting_Get [OF ev g]
  note rec = recordHit_def recordMiss_def
  show thesis
  proof (cases found)
    case (Some obj)
    then obtain co where "v = Some co" "obj = cached_body co" "oc_hotCache c1 = h1"
      using Pair g by (auto simp: ObjectCache_GetObject_def Let_def rec split: option.splits if_splits)
    then show thesis using hit [of co] get Pair Some v by (auto simp: CB_GetObject_def cs_tick_def)
  next
    case None
    have keep: "lk (oc_hotCache c1) q = Some co \<Longrightarrow> lk (oc_hotCache (cs_cache s)) q = Some co" for q co
      using Pair g None v evicting_Remove [OF ev]
      by (auto simp: ObjectCache_GetObject_def Let_def rec split: option.splits if_splits)
    obtain y bs where y: "bk_GetObject bk (cs_backend s) b k = (y, bs)" by (cases "bk_GetObject bk (cs_backend s) b k")
    define s2 where "s2 = s\<lparr>cs_ticks := Suc (cs_ticks s), cs_cache := c1, cs_backend := bs\<rparr>"
    have on: "cs_on (\<lambda>z. bk_GetObject bk z b k) ((cs_tick s)\<lparr>cs_cache := c1\<rparr>) = (y, s2)"
      using y by (simp add: cs_on_def cs_tick_def s2_def)
    show thesis
    proof (cases "\<exists>obj data. y = Ok obj \<and> 0 < ob_Size obj \<and> ob_Size obj \<le> oc_maxObjectSize c1
        \<and> ReadFull (ob_Body obj) (nat (ob_Size obj)) = (data, None)")
      case True
      then obtain obj data where o: "y = Ok obj" "0 < ob_Size obj" "ob_Size obj \<le> oc_maxObjectSize c1"
        "ReadFull (ob_Body obj) (nat (ob_Size obj)) = (data, None)" by blast
      have "nat (ob_Size obj) \<le> length (rd_data (ob_Body obj))"
        using o(4) by (auto simp: ReadFull_def split: if_splits option.splits)
      then have sz: "rd_err (ob_Body obj) = None" "ob_Size obj = int (length (rd_data (ob_Body obj)))"
        using get_size y o(1,2) by auto
      then have d: "data = rd_data (ob_Body obj)" using o(4) by (simp add: ReadFull_def)
      then have body: "bytes_reader data = ob_Body obj" using sz(1) by (simp add: bytes_reader_def)
      then have x: "x = Ok obj" "cs_backend s' = bs"
        "cs_cache s' = ObjectCache_PutObject hot meta c1 (cs_now s2) b k data (info_of_object k obj)"
        using get Pair None on o by (auto simp: CB_GetObject_def cs_tick_def s2_def)
      let ?co = "\<lparr>co_data = data, co_info = info_of_object k obj, co_expiresAt = cs_now s2 + oc_ttl c1\<rparr>"
      have hot: "oc_hotCache (cs_cache s') = lru_Add hot (oc_hotCache c1) (cache_key b k) ?co"
        using sz(2) o(3) d unfolding x(3) ObjectCache_PutObject_def by (simp add: Let_def)
      show thesis
      proof (rule fill [of obj bs])
        fix q co
        assume "lk (oc_hotCache (cs_cache s')) q = Some co"
        then have "if q = cache_key b k then co = ?co else lk (oc_hotCache c1) q = Some co"
          unfolding hot by (rule evicting_Add [OF ev])
        then show "if q = cache_key b k then cached_body co = obj else lk (oc_hotCache (cs_cache s)) q = Some co"
          using keep body by (auto simp: cached_body_def info_of_object_def split: if_splits)
      qed (use y o(1) x sz in simp_all)
    next
      case False
      then have "x = y \<and> s' = s2 \<or> cs_on (\<lambda>z. bk_GetObject bk z b k) s2 = (x, s')"
        using get Pair None on
        by (auto simp: CB_GetObject_def s2_def split: res.splits if_splits prod.splits option.splits)
      then have "(x = y \<and> cs_backend s' = bs \<or> bk_GetObject bk bs b k = (x, cs_backend s')) \<and> cs_cache s' = c1"
        by (auto simp: cs_on_def s2_def split: prod.splits)
      then show thesis using pass [OF y] keep by auto
    qed
  qed
qed

end


text \<open>The steps of a client that reads, stores and deletes objects of the contract, the latter two with success.\<close>

inductive cb_step ::
  "('h, cached_object) lru \<Rightarrow> ('m, object_info) lru \<Rightarrow> 'b backend \<Rightarrow> (string \<Rightarrow> string \<Rightarrow> bool)
     \<Rightarrow> ('b, 'h, 'm) cachestate \<Rightarrow> ('b, 'h, 'm) cachestate \<Rightarrow> bool"
  for hot :: "('h, cached_object) lru" and meta :: "('m, object_info) lru" and bk :: "'b backend"
    and okey :: "string \<Rightarrow> string \<Rightarrow> bool" where
  step_get: "okey b k \<Longrightarrow> CB_GetObject hot meta bk s b k = (x, s') \<Longrightarrow> cb_step hot meta bk okey s s'"
| step_head: "okey b k \<Longrightarrow> CB_HeadObject meta bk s b k = (y, s') \<Longrightarrow> cb_step hot meta bk okey s s'"
| step_put: "okey b k \<Longrightarrow> CB_PutObject hot meta bk s b k r n md = (Ok (), s') \<Longrightarrow> cb_step hot meta bk okey s s'"
| step_del: "okey b k \<Longrightarrow> CB_DeleteObject hot meta bk s b k = (Ok (), s') \<Longrightarrow> cb_step hot meta bk okey s s'"

context read_store
begin

lemma key_eq: "okey b k \<Longrightarrow> okey b' k' \<Longrightarrow> cache_key b k = cache_key b' k' \<Longrightarrow> b = b' \<and> k = k'"
  using cache_key_inj okey_bucket by blast

lemma coherentD:
  "coherent bk okey lk s \<Longrightarrow> okey b k \<Longrightarrow> lk (oc_hotCache (cs_cache s)) (cache_key b k) = Some co \<Longrightarrow>
     fst (bk_GetObject bk (cs_backend s) b k) = Ok (cached_body co)"
  by (simp add: coherent_def)

lemma GetObject_transparent:
  assumes "evicting hot lk" and "coherent bk okey lk s" and "ok (cs_backend s)" and "okey b k"
    and "CB_GetObject hot meta bk s b k = (x, s')"
  shows "x = fst (bk_GetObject bk (cs_backend s) b k)"
  using assms(1,5)
proof (cases rule: GetObject_cases)
  case (hit co)
  then show ?thesis using coherentD [OF assms(2,4)] by simp
next
  case (fill obj bs)
  then show ?thesis by simp
next
  case (pass y bs)
  then show ?thesis using get_pure [OF assms(3) pass(1), of b k] by auto
qed

lemma GetObject_coherent:
  assumes "evicting hot lk" and "coherent bk okey lk s" and "ok (cs_backend s)" and "okey b k"
    and "CB_GetObject hot meta bk s b k = (x, s')"
  shows "coherent bk okey lk s' \<and> ok (cs_backend s')"
  using assms(1,5)
proof (cases rule: GetObject_cases)
  case (hit co)
  then show ?thesis using assms(2,3) by (simp add: coherent_def)
next
  case (fill obj bs)
  have same: "fst (bk_GetObject bk (cs_backend s') b' k') = fst (bk_GetObject bk (cs_backend s) b' k')" for b' k'
    using get_pure [OF assms(3) fill(1)] fill(3) by simp
  have "fst (bk_GetObject bk (cs_backend s') b' k') = Ok (cached_body co)"
    if q: "okey b' k'" "lk (oc_hotCache (cs_cache s')) (cache_key b' k') = Some co" for b' k' co
  proof (cases "cache_key b' k' = cache_key b k")
    case True
    then have "b' = b \<and> k' = k" using key_eq q(1) assms(4) by blast
    then show ?thesis using fill(1) fill(5) [OF q(2)] True same by simp
  next
    case False
    then show ?thesis using fill(5) [OF q(2)] coherentD [OF assms(2) q(1)] same by simp
  qed
  then show ?thesis using get_ok [OF assms(3) fill(1)] fill(3) by (simp add: coherent_def)
next
  case (pass y bs)
  have bs: "ok bs" "\<And>b' k'. fst (bk_GetObject bk bs b' k') = fst (bk_GetObject bk (cs_backend s) b' k')"
    using get_ok [OF assms(3) pass(1)] get_pure [OF assms(3) pass(1)] by auto
  then have "ok (cs_backend s')" "\<And>b' k'. fst (bk_GetObject bk (cs_backend s') b' k') = fst (bk_GetObject bk (cs_backend s) b' k')"
    using pass(2) get_ok [OF bs(1)] get_pure [OF bs(1)] by metis+
  then show ?thesis using pass(3) assms(2) by (simp add: coherent_def)
qed

lemma HeadObject_coherent:
  assumes "coherent bk okey lk s" and "ok (cs_backend s)" and "CB_HeadObject meta bk s b k = (y, s')"
  shows "coherent bk okey lk s' \<and> ok (cs_backend s')"
proof -
  have h: "oc_hotCache (cs_cache s') = oc_hotCache (cs_cache s)"
    "cs_backend s' = cs_backend s \<or> bk_HeadObject bk (cs_backend s) b k = (y, cs_backend s')"
    using assms(3)
    by (auto simp: CB_HeadObject_def cs_on_def ObjectCache_GetMetadata_def ObjectCache_PutMetadata_def recordHit_def
        recordMiss_def Let_def split: prod.splits option.splits res.splits)
  then have "ok (cs_backend s')" "\<And>b' k'. fst (bk_GetObject bk (cs_backend s') b' k') = fst (bk_GetObject bk (cs_backend s) b' k')"
    using assms(2) head_ok [OF assms(2)] head_pure [OF assms(2)] by metis+
  then show ?thesis using assms(1) h(1) by (simp add: coherent_def)
qed

text \<open>A change to one object, followed by its invalidation.\<close>

lemma invalidate_coherent:
  assumes ev: "evicting hot lk" and coh: "coherent bk okey lk s" and k: "okey b k"
    and s': "s' = s\<lparr>cs_backend := bs, cs_cache := ObjectCache_Invalidate hot meta (cs_cache s) b k\<rparr>"
    and frame: "\<And>b' k' ob. okey b' k' \<Longrightarrow> (b', k') \<noteq> (b, k) \<Longrightarrow> rd_err (ob_Body ob) = None \<Longrightarrow>
      fst (bk_GetObject bk (cs_backend s) b' k') = Ok ob \<Longrightarrow> fst (bk_GetObject bk bs b' k') = Ok ob"
  shows "coherent bk okey lk s'"
  unfolding coherent_def
proof (intro allI impI)
  fix b' k' co
  assume q: "okey b' k'" "lk (oc_hotCache (cs_cache s')) (cache_key b' k') = Some co"
  have "lk (oc_hotCache (cs_cache s')) = (lk (oc_hotCache (cs_cache s)))(cache_key b k := None)"
    using evicting_Remove [OF ev] by (simp add: s' ObjectCache_Invalidate_def Let_def)
  then have "(b', k') \<noteq> (b, k)" "lk (oc_hotCache (cs_cache s)) (cache_key b' k') = Some co" using q(2) by (auto split: if_splits)
  moreover have "rd_err (ob_Body (cached_body co)) = None" by (simp add: cached_body_def)
  ultimately show "fst (bk_GetObject bk (cs_backend s') b' k') = Ok (cached_body co)"
    using frame [OF q(1)] coherentD [OF coh q(1)] by (simp add: s')
qed

lemma PutObject_coherent:
  assumes "evicting hot lk" and "coherent bk okey lk s" and "ok (cs_backend s)" and "okey b k"
    and "CB_PutObject hot meta bk s b k r n md = (Ok (), s')"
  shows "coherent bk okey lk s' \<and> ok (cs_backend s')"
proof -
  obtain bs where bs: "bk_PutObject bk (cs_backend s) b k r n md = (Ok (), bs)"
    and s': "s' = s\<lparr>cs_backend := bs, cs_cache := ObjectCache_Invalidate hot meta (cs_cache s) b k\<rparr>"
    using assms(5) by (auto simp: CB_PutObject_def cs_on_def split: prod.splits res.splits)
  have "fst (bk_GetObject bk bs b' k') = Ok ob"
    if "okey b' k'" "(b', k') \<noteq> (b, k)" "rd_err (ob_Body ob) = None" "fst (bk_GetObject bk (cs_backend s) b' k') = Ok ob" for b' k' ob
    using get_put_other [OF assms(3,4) that(1,2) bs _ that(3)] that(4) by (metis fst_conv prod.collapse)
  then show ?thesis using invalidate_coherent [OF assms(1,2,4) s'] put_ok [OF assms(3) bs] by (simp add: s')
qed

lemma DeleteObject_coherent:
  assumes "evicting hot lk" and "coherent bk okey lk s" and "ok (cs_backend s)" and "okey b k"
    and "CB_DeleteObject hot meta bk s b k = (Ok (), s')"
  shows "coherent bk okey lk s' \<and> ok (cs_backend s')"
proof -
  obtain bs where bs: "bk_DeleteObject bk (cs_backend s) b k = (Ok (), bs)"
    and s': "s' = s\<lparr>cs_backend := bs, cs_cache := ObjectCache_Invalidate hot meta (cs_cache s) b k\<rparr>"
    using assms(5) by (auto simp: CB_DeleteObject_def cs_on_def split: prod.splits res.splits)
  have "fst (bk_GetObject bk bs b' k') = Ok ob"
    if "okey b' k'" "(b', k') \<noteq> (b, k)" "rd_err (ob_Body ob) = None" "fst (bk_GetObject bk (cs_backend s) b' k') = Ok ob" for b' k' ob
    using del_other [OF assms(3,4) that(1,2) bs _ that(3)] that(4) by (metis fst_conv prod.collapse)
  then show ?thesis using invalidate_coherent [OF assms(1,2,4) s'] del_ok [OF assms(3) bs] by (simp add: s')
qed

lemma reach_coherent:
  assumes "evicting hot lk" and "(cb_step hot meta bk okey)\<^sup>*\<^sup>* s s'" and "coherent bk okey lk s" and "ok (cs_backend s)"
  shows "coherent bk okey lk s' \<and> ok (cs_backend s')"
  using assms(2-4)
proof (induction rule: rtranclp_induct)
  case base
  then show ?case by simp
next
  case (step t u)
  then have t: "coherent bk okey lk t" "ok (cs_backend t)" by auto
  from step(2) show ?case
  proof cases
    case (step_get b k x)
    then show ?thesis using GetObject_coherent [OF assms(1) t] by blast
  next
    case (step_head b k y)
    then show ?thesis using HeadObject_coherent [OF t] by blast
  next
    case (step_put b k r n md)
    then show ?thesis using PutObject_coherent [OF assms(1) t] by blast
  next
    case (step_del b k)
    then show ?thesis using DeleteObject_coherent [OF assms(1) t] by blast
  qed
qed

end


section \<open>The caching file system\<close>

lemma FS_get_size:
  assumes "FS_GetObject base s b k = (Ok ob, s')" and "0 < ob_Size ob" and "nat (ob_Size ob) \<le> length (rd_data (ob_Body ob))"
  shows "rd_err (ob_Body ob) = None \<and> ob_Size ob = int (length (rd_data (ob_Body ob)))"
  using assms
  by (auto simp: FS_GetObject_def Let_def Stat_def Open_file_def split: option.splits node.splits if_splits)

interpretation fs_read: read_store "FileSystemBackend base" "\<lambda>_. True" "fs_okey base" "\<lambda>_. True" "\<lambda>_. True"
proof
  fix s :: fsstate and b k b' k' x s' ob t
  show "CHR ''/'' \<notin> set b" if "fs_okey base b k" using that by (simp add: fs_okey_def)
  show "fst (bk_GetObject (FileSystemBackend base) s' b' k') = fst (bk_GetObject (FileSystemBackend base) s b' k')"
    if "bk_GetObject (FileSystemBackend base) s b k = (x, s')"
    using that by (auto simp: FS_GetObject_def Let_def)
  show "fst (bk_GetObject (FileSystemBackend base) s' b' k') = fst (bk_GetObject (FileSystemBackend base) s b' k')"
    if "bk_HeadObject (FileSystemBackend base) s b k = (y, s')" for y
    using that by (auto simp: FS_HeadObject_def Let_def)
  show "\<exists>t'. bk_GetObject (FileSystemBackend base) s' b' k' = (Ok ob, t')"
    if "fs_okey base b k" "fs_okey base b' k'" "(b', k') \<noteq> (b, k)" "bk_DeleteObject (FileSystemBackend base) s b k = (z, s')"
      "bk_GetObject (FileSystemBackend base) s b' k' = (Ok ob, t)" "rd_err (ob_Body ob) = None" for z
    using FS_get_delete_other [OF that(1-3) _ _ that(6)] that(4,5) by (auto simp: FileSystemBackend_def)
qed (use FS_get_size in simp_all)

section \<open>Properties\<close>

text \<open>C3: the object cache is transparent. From an empty cache, after any sequence of \<^verbatim>\<open>GetObject\<close> and \<^verbatim>\<open>HeadObject\<close> calls and of
  \<^verbatim>\<open>PutObject\<close> and \<^verbatim>\<open>DeleteObject\<close> calls that succeeded, on names of the contract, and whatever the cache evicted or let expire, a read
  through the cache returns exactly what a read of the file system returns at that moment. Multipart uploads and stores that
  fail are not among these steps: they leave stale entries (\<open>multipart_leaves_stale_cache\<close>, \<open>failed_put_leaves_stale_cache\<close>).\<close>

theorem caching_transparent:
  assumes "evicting hot lk" and "\<And>q. lk (oc_hotCache (cs_cache s0)) q = None"
    and "(cb_step hot meta (FileSystemBackend base) (fs_okey base))\<^sup>*\<^sup>* s0 s" and "fs_okey base b k"
  shows "fst (CB_GetObject hot meta (FileSystemBackend base) s b k) = fst (FS_GetObject base (cs_backend s) b k)"
proof -
  have "coherent (FileSystemBackend base) (fs_okey base) lk s0" using assms(2) by (simp add: coherent_def)
  then have "coherent (FileSystemBackend base) (fs_okey base) lk s"
    using fs_read.reach_coherent [OF assms(1,3)] by simp
  moreover obtain x s' where "CB_GetObject hot meta (FileSystemBackend base) s b k = (x, s')"
    by (cases "CB_GetObject hot meta (FileSystemBackend base) s b k")
  ultimately show ?thesis
    using fs_read.GetObject_transparent [OF assms(1) _ _ assms(4)] by simp
qed

text \<open>Cached data is delivered completely. Reading a cached body with a buffer of any positive size ends, after at
  most one call more than the body has bytes, and has then delivered exactly the cached bytes.\<close>

theorem bytesReader_delivers_all:
  "read_loop (Suc (length data)) n (newBytesReader data) = Some data"
  using read_loop_total [of "newBytesReader data" "Suc (length data)" n] by (simp add: newBytesReader_def)

text \<open>Invalidating a bucket removes its objects from both caches and no other object.\<close>

theorem InvalidateBucket_exact:
  assumes "evicting hot lkh" and "evicting meta lkm" and "CHR ''/'' \<notin> set b" and "CHR ''/'' \<notin> set bucket" and "k \<noteq> ''''"
  shows "lkh (oc_hotCache (ObjectCache_InvalidateBucket hot meta c bucket)) (cache_key b k)
      = (if b = bucket then None else lkh (oc_hotCache c) (cache_key b k))
    \<and> lkm (oc_metaCache (ObjectCache_InvalidateBucket hot meta c bucket)) (cache_key b k)
      = (if b = bucket then None else lkm (oc_metaCache c) (cache_key b k))"
proof -
  have "length (bucket @ ''/'') < length (cache_key b k) \<and> take (length (bucket @ ''/'')) (cache_key b k) = bucket @ ''/''
      \<longleftrightarrow> b = bucket" (is "?P \<longleftrightarrow> _")
  proof
    assume ?P
    then have "cache_key b k = cache_key bucket (drop (length (bucket @ ''/'')) (cache_key b k))"
      unfolding cache_key_def by (metis append_assoc append_take_drop_id)
    then show "b = bucket" using cache_key_inj assms(3,4) by blast
  next
    assume "b = bucket"
    then show ?P using assms(5) by (simp add: cache_key_def)
  qed
  then show ?thesis
    by (simp add: ObjectCache_InvalidateBucket_def Let_def remove_prefix_lk [OF assms(1)] remove_prefix_lk [OF assms(2)])
qed

text \<open>A cache with a zero object size limit cannot be built: the constructor divides by it and panics, whatever the
  other settings are.\<close>

theorem NewObjectCache_zero_limit_panics:
  "NewObjectCache newHot newMeta maxMemory 0 ttl = Panic ''integer divide by zero''"
  by (simp add: NewObjectCache_def go_div_def)

section \<open>Concrete runs\<close>

text \<open>A cache of at most nine entries in an association list.\<close>

definition list_lru :: "((string \<times> 'v) list, 'v) lru" where
  "list_lru =
     \<lparr>lru_Get = (\<lambda>c k. (map_of c k, c)),
      lru_Add = (\<lambda>c k v. (k, v) # take 8 (AList.delete k c)),
      lru_Remove = (\<lambda>c k. AList.delete k c),
      lru_Keys = map fst\<rparr>"

lemma map_of_take: "map_of (take n c) k = None \<or> map_of (take n c) k = map_of c k"
  by (induction c arbitrary: n) (auto simp: take_Cons split: nat.splits)

lemma list_lru_evicting: "evicting list_lru map_of"
proof -
  have "map_of (take 8 (AList.delete k c)) k' \<in> {None, map_of c k'}" if "k' \<noteq> k" for c :: "(string \<times> 'v) list" and k k'
    using map_of_take [of 8 "AList.delete k c" k'] that by (auto simp: AList.delete_conv')
  then show ?thesis
    by (auto simp: evicting_def list_lru_def AList.delete_conv' fun_eq_iff dom_map_of_conv_image_fst)
qed

definition demo_cs :: "(fsstate, (string \<times> cached_object) list, (string \<times> object_info) list) cachestate" where
  "demo_cs = \<lparr>cs_backend = demo_bucket, cs_cache = \<lparr>oc_hotCache = [], oc_metaCache = [], oc_maxMemory = 1000,
     oc_maxObjectSize = 10, oc_ttl = 5, oc_hits = 0, oc_misses = 0\<rparr>, cs_clock = (\<lambda>n. int n), cs_ticks = 0\<rparr>"


abbreviation demo_cached_fs ::
  "(fsstate, (string \<times> cached_object) list, (string \<times> object_info) list) cachestate backend" where
  "demo_cached_fs \<equiv> CachingBackend list_lru list_lru (FileSystemBackend ''/d'')"

definition demo_cs1 :: "(fsstate, (string \<times> cached_object) list, (string \<times> object_info) list) cachestate" where
  "demo_cs1 = snd (CB_GetObject list_lru list_lru (FileSystemBackend ''/d'') demo_cs ''b'' ''a/x'')"

lemma demo_okey_ax: "fs_okey ''/d'' ''b'' ''a/x''"
  by (simp add: fs_okey_def key_parts_def Split_def HasPrefix_def plain_name_def HasSuffix_def)

lemma demo_cs1_reach:
  "(cb_step list_lru list_lru (FileSystemBackend ''/d'') (fs_okey ''/d''))\<^sup>*\<^sup>* demo_cs demo_cs1"
  unfolding demo_cs1_def
  using demo_okey_ax by (intro r_into_rtranclp step_get [where b = "''b''" and k = "''a/x''"]) (auto simp: prod_eq_iff)

lemma demo_cs1_hit: "oc_hits (cs_cache (snd (CB_GetObject list_lru list_lru (FileSystemBackend ''/d'') demo_cs1 ''b'' ''a/x''))) = 1"
  by code_simp

theorem caching_transparent_witness:
  "fst (CB_GetObject list_lru list_lru (FileSystemBackend ''/d'') demo_cs1 ''b'' ''a/x'')
     = fst (FS_GetObject ''/d'' (cs_backend demo_cs1) ''b'' ''a/x'')
   \<and> oc_hits (cs_cache (snd (CB_GetObject list_lru list_lru (FileSystemBackend ''/d'') demo_cs1 ''b'' ''a/x''))) = 1"
  using caching_transparent [OF list_lru_evicting _ demo_cs1_reach demo_okey_ax] demo_cs1_hit by (simp add: demo_cs_def)

theorem InvalidateBucket_exact_witness:
  "map_of (oc_hotCache (ObjectCache_InvalidateBucket list_lru list_lru (cs_cache demo_cs1) ''b'')) (cache_key ''b'' ''a/x'') = None"
  using InvalidateBucket_exact [OF list_lru_evicting list_lru_evicting, of "''b''" "''b''" "''a/x''" "cs_cache demo_cs1"] by simp

text \<open>A multipart upload over a cached object.\<close>

definition demo_multipart :: "(fsstate, (string \<times> cached_object) list, (string \<times> object_info) list) cachestate" where
  "demo_multipart =
     (let (u, s1) = bk_InitiateMultipartUpload demo_cached_fs demo_cs1 ''b'' ''a/x'' [];
          (e, s2) = bk_UploadPart demo_cached_fs s1 ''b'' ''a/x'' (the_ok u) 1 (bytes_reader [7, 8]) 2;
          (r, s3) = bk_CompleteMultipartUpload demo_cached_fs s2 ''b'' ''a/x'' (the_ok u) [\<lparr>cp_PartNumber = 1, cp_ETag = the_ok e\<rparr>]
      in s3)"

text \<open>A completed multipart upload is hidden by the cache. The caching backend does not override
  \<^verbatim>\<open>CompleteMultipartUpload\<close>, so the cached object stays: after the upload the file system holds the new
  bytes, and a read through the cache returns the old ones.\<close>

theorem multipart_leaves_stale_cache:
  "rd_data (ob_Body (the_ok (fst (FS_GetObject ''/d'' (cs_backend demo_multipart) ''b'' ''a/x'')))) = [7, 8]
   \<and> rd_data (ob_Body (the_ok (fst (bk_GetObject demo_cached_fs demo_multipart ''b'' ''a/x'')))) = [1]"
  by code_simp

text \<open>An upload that breaks off leaves the object truncated, since the file is written in place, and the cache is only invalidated after a success: the
  file system holds the part that arrived, and a read through the cache returns the old bytes.\<close>

definition broken_body :: reader where
  "broken_body = \<lparr>rd_data = [9], rd_err = Some ErrUnexpectedEOF\<rparr>"

lemma failed_put_leaves_stale_cache:
  "\<not> is_Ok (fst (bk_PutObject demo_cached_fs demo_cs1 ''b'' ''a/x'' broken_body 2 []))
   \<and> rd_data (ob_Body (the_ok (fst (FS_GetObject ''/d'' (cs_backend (snd (bk_PutObject demo_cached_fs demo_cs1 ''b'' ''a/x'' broken_body 2 []))) ''b'' ''a/x'')))) = [9]
   \<and> rd_data (ob_Body (the_ok (fst (bk_GetObject demo_cached_fs (snd (bk_PutObject demo_cached_fs demo_cs1 ''b'' ''a/x'' broken_body 2 [])) ''b'' ''a/x'')))) = [1]"
  by code_simp

end
