(* ===== verification/Go_HTTP.thy ===== *)
theory Go_HTTP
  imports Go_Crypto
begin

text \<open>
  What the handlers use of \<^verbatim>\<open>net/http\<close> and \<^verbatim>\<open>encoding/xml\<close>. A request is a record; its query is parsed, and
  the map of its headers is a list in the order in which a \<^verbatim>\<open>range\<close> loop visits it. A response writer is the
  record of what was written: the status of the first \<^verbatim>\<open>WriteHeader\<close>, the headers and the body. Times are
  formatted in UTC, the time zone of the containers the proxy runs in. XML documents are trees; the printer is
  that of an encoder with an indentation of two blanks.
\<close>

section \<open>Headers and requests\<close>

type_synonym headers = "(string \<times> string list) list"

record request =
  rq_Method :: string
  rq_Path :: string
  rq_RawQuery :: string
  rq_Query :: headers
  rq_Header :: headers
  rq_RemoteAddr :: string
  rq_Host :: string
  rq_ContentLength :: int
  rq_Body :: reader

text \<open>\<^verbatim>\<open>textproto.CanonicalMIMEHeaderKey\<close>: the first letter and every letter after a hyphen in upper case, the
  others in lower case; a name with a byte that no token has is left alone.\<close>

definition upper_char :: "char \<Rightarrow> char" where
  "upper_char c = (let n = of_char c :: nat in if 97 \<le> n \<and> n \<le> 122 then char_of (n - 32) else c)"

definition is_token_char :: "char \<Rightarrow> bool" where
  "is_token_char c =
     (let n = of_char c :: nat in
      48 \<le> n \<and> n \<le> 57 \<or> 65 \<le> n \<and> n \<le> 90 \<or> 97 \<le> n \<and> n \<le> 122 \<or> n \<in> {33, 35, 36, 37, 38, 39, 42, 43, 45, 46, 94, 95, 96, 124, 126})"

fun canonical_from :: "bool \<Rightarrow> string \<Rightarrow> string" where
  "canonical_from up [] = []"
| "canonical_from up (c # s) = (if up then upper_char c else lower_char c) # canonical_from (c = CHR ''-'') s"

definition CanonicalKey :: "string \<Rightarrow> string" where
  "CanonicalKey s = (if list_all is_token_char s then canonical_from True s else s)"

text \<open>\<^verbatim>\<open>Header.Get\<close>, \<^verbatim>\<open>Header.Set\<close>, and the \<^verbatim>\<open>Get\<close> of parsed query values.\<close>

definition first_value :: "string list option \<Rightarrow> string" where
  "first_value vs = (case vs of Some (v # _) \<Rightarrow> v | _ \<Rightarrow> '''')"

definition Header_Get :: "headers \<Rightarrow> string \<Rightarrow> string" where
  "Header_Get h k = first_value (map_of h (CanonicalKey k))"

definition Header_Set :: "headers \<Rightarrow> string \<Rightarrow> string \<Rightarrow> headers" where
  "Header_Set h k v = AList.update (CanonicalKey k) [v] h"

definition Query_Get :: "request \<Rightarrow> string \<Rightarrow> string" where
  "Query_Get r k = first_value (map_of (rq_Query r) k)"

definition header :: "request \<Rightarrow> string \<Rightarrow> string" where
  "header r k = Header_Get (rq_Header r) k"

text \<open>\<^verbatim>\<open>Request.BasicAuth\<close>.\<close>

definition EqualFold :: "string \<Rightarrow> string \<Rightarrow> bool" where
  "EqualFold s t \<longleftrightarrow> ToLower s = ToLower t"

definition BasicAuth :: "request \<Rightarrow> (string \<times> string) option" where
  "BasicAuth r =
     (let auth = header r ''Authorization'' in
      if auth = '''' \<or> length auth < 6 \<or> \<not> EqualFold (take 6 auth) ''Basic '' then None
      else case b64_decode (drop 6 auth) of
             Ok c \<Rightarrow> (case SplitN2 (string_of c) '':'' of [u, p] \<Rightarrow> Some (u, p) | _ \<Rightarrow> None)
           | _ \<Rightarrow> None)"

text \<open>\<^verbatim>\<open>t.Format(http.TimeFormat)\<close>.\<close>

definition FormatHTTP :: "time \<Rightarrow> string" where
  "FormatHTTP t =
     (let secs = t div second; days = secs div 86400; r = secs mod 86400;
          (y, m, d) = civil_date days
      in [''Thu'', ''Fri'', ''Sat'', ''Sun'', ''Mon'', ''Tue'', ''Wed''] ! nat (days mod 7) @ '', '' @ pad_num 2 d @ '' '' @
         [''Jan'', ''Feb'', ''Mar'', ''Apr'', ''May'', ''Jun'', ''Jul'', ''Aug'', ''Sep'', ''Oct'', ''Nov'', ''Dec''] ! nat (m - 1) @ '' '' @
         pad_num 4 y @ '' '' @ pad_num 2 (r div 3600) @ '':'' @ pad_num 2 (r mod 3600 div 60) @ '':'' @ pad_num 2 (r mod 60) @ '' GMT'')"

section \<open>Responses\<close>

text \<open>The status is 0 until it is written; the first write of a body writes the status 200. Headers set after
  the status are not sent.\<close>

record response =
  rp_Status :: int
  rp_Header :: headers
  rp_Body :: bytes

definition fresh :: response where
  "fresh = \<lparr>rp_Status = 0, rp_Header = [], rp_Body = []\<rparr>"

definition set_header :: "string \<Rightarrow> string \<Rightarrow> response \<Rightarrow> response" where
  "set_header k v w = (if rp_Status w = 0 then w\<lparr>rp_Header := Header_Set (rp_Header w) k v\<rparr> else w)"

definition WriteHeader :: "int \<Rightarrow> response \<Rightarrow> response" where
  "WriteHeader status w = (if rp_Status w = 0 then w\<lparr>rp_Status := status\<rparr> else w)"

definition Write :: "bytes \<Rightarrow> response \<Rightarrow> response" where
  "Write bs w = (let w' = WriteHeader 200 w in w'\<lparr>rp_Body := rp_Body w' @ bs\<rparr>)"

text \<open>A handler that wrote nothing sends the status 200.\<close>

definition finish :: "response \<Rightarrow> response" where
  "finish w = WriteHeader 200 w"

lemma rp_simps [simp]:
  "rp_Status (WriteHeader st w) = (if rp_Status w = 0 then st else rp_Status w)"
  "rp_Header (WriteHeader st w) = rp_Header w" "rp_Body (WriteHeader st w) = rp_Body w"
  "rp_Status (set_header k v w) = rp_Status w" "rp_Body (set_header k v w) = rp_Body w"
  "rp_Status (Write bs w) = (if rp_Status w = 0 then 200 else rp_Status w)"
  "rp_Header (Write bs w) = rp_Header w" "rp_Body (Write bs w) = rp_Body w @ bs"
  "rp_Status fresh = 0" "rp_Body fresh = []" "rp_Header fresh = []"
  by (simp_all add: WriteHeader_def set_header_def Write_def fresh_def Let_def)

lemma Header_Get_set [simp]:
  "rp_Status w = 0 \<Longrightarrow> Header_Get (rp_Header (set_header k v w)) k' =
     (if CanonicalKey k = CanonicalKey k' then v else Header_Get (rp_Header w) k')"
  by (simp add: set_header_def Header_Get_def Header_Set_def AList.update_conv' first_value_def)

section \<open>Package xml\<close>

datatype xml = Elem string "(string \<times> string) list" "xml list" | Text string

text \<open>\<^verbatim>\<open>xml.EscapeText\<close> on valid UTF-8.\<close>

definition xml_escape_char :: "char \<Rightarrow> string" where
  "xml_escape_char c =
     (let n = of_char c :: nat in
      if n = 34 then ''&#34;'' else if n = 39 then ''&#39;'' else if n = 38 then ''&amp;''
      else if n = 60 then ''&lt;'' else if n = 62 then ''&gt;''
      else if n = 9 then ''&#x9;'' else if n = 10 then ''&#xA;'' else if n = 13 then ''&#xD;''
      else if n < 32 then [CHR 0xEF, CHR 0xBF, CHR 0xBD] else [c])"

definition xml_escape :: "string \<Rightarrow> string" where
  "xml_escape s = concat (map xml_escape_char s)"

definition xml_attrs :: "(string \<times> string) list \<Rightarrow> string" where
  "xml_attrs as = concat (map (\<lambda>(k, v). '' '' @ k @ ''='' @ dquote (xml_escape v)) as)"

primrec is_Text :: "xml \<Rightarrow> bool" where
  "is_Text (Elem n as cs) = False"
| "is_Text (Text s) = True"

definition newline :: "nat \<Rightarrow> string" where
  "newline depth = CHR 0x0A # concat (replicate depth ''  '')"

fun xml_print :: "nat \<Rightarrow> xml \<Rightarrow> string" where
  "xml_print d (Text s) = xml_escape s"
| "xml_print d (Elem n as cs) =
     ''<'' @ n @ xml_attrs as @ ''>'' @
     concat (map (\<lambda>c. (if is_Text c then '''' else newline (Suc d)) @ xml_print (Suc d) c) cs) @
     (if list_all is_Text cs then '''' else newline d) @ ''</'' @ n @ ''>''"

definition xml_encode :: "xml \<Rightarrow> bytes" where
  "xml_encode x = bytes_of (xml_print 0 x)"

abbreviation leaf :: "string \<Rightarrow> string \<Rightarrow> xml" where
  "leaf n s \<equiv> Elem n [] [Text s]"

definition omit_empty :: "string \<Rightarrow> string \<Rightarrow> xml list" where
  "omit_empty n s = (if s = '''' then [] else [leaf n s])"

definition format_bool :: "bool \<Rightarrow> string" where
  "format_bool b = (if b then ''true'' else ''false'')"

text \<open>\<^verbatim>\<open>xml.Header\<close>.\<close>

definition xml_header :: string where
  "xml_header = ''<?xml version='' @ dquote ''1.0'' @ '' encoding='' @ dquote ''UTF-8'' @ ''?>'' @ [CHR 0x0A]"

end
