(* ===== verification/Auth_Provider.thy ===== *)
theory Auth_Provider
  imports Config Go_HTTP
begin

text \<open>
  \<^verbatim>\<open>internal/auth/provider.go\<close>: the authentication providers. Proved: which requests the basic and the
  version 2 provider accept, exactly; that the version 4 provider accepts every signature; that the caching
  provider accepts a request only after a check, in this call or less than five minutes earlier, of its own header or of the header of a request
  with the same cache key.
\<close>

datatype auth_provider =
    NoneProvider
  | BasicProvider string string
  | AWSV2Provider string string
  | AWSV4Provider string string

definition NewAuthProvider :: "auth_config \<Rightarrow> auth_provider res" where
  "NewAuthProvider cfg =
     (let missing = ac_Identity cfg = '''' \<or> ac_Credential cfg = '''' in
      if ac_Type cfg = ''none'' then Ok NoneProvider
      else if ac_Type cfg = ''basic'' then
        (if missing then Err (ErrNew ''basic auth requires identity and credential'')
         else Ok (BasicProvider (ac_Identity cfg) (ac_Credential cfg)))
      else if ac_Type cfg = ''awsv2'' then
        (if missing then Err (ErrNew ''awsv2 auth requires identity and credential'')
         else Ok (AWSV2Provider (ac_Identity cfg) (ac_Credential cfg)))
      else if ac_Type cfg = ''awsv4'' then
        (if missing then Err (ErrNew ''awsv4 auth requires identity and credential'')
         else Ok (AWSV4Provider (ac_Identity cfg) (ac_Credential cfg)))
      else Err (ErrNew (''unsupported auth type: '' @ ac_Type cfg)))"

section \<open>The providers\<close>

definition BasicProvider_Authenticate :: "string \<Rightarrow> string \<Rightarrow> request \<Rightarrow> unit res" where
  "BasicProvider_Authenticate identity credential r =
     (case BasicAuth r of
        None \<Rightarrow> Err (ErrNew ''missing basic auth credentials'')
      | Some (username, password) \<Rightarrow>
          if username \<noteq> identity \<or> password \<noteq> credential then Err (ErrNew ''invalid credentials'') else Ok ())"

definition join_values :: "string list \<Rightarrow> string" where
  "join_values vs = (case vs of [] \<Rightarrow> '''' | v # vs' \<Rightarrow> v @ concat (map (\<lambda>x. '','' @ x) vs'))"

definition amz_headers :: "headers \<Rightarrow> string" where
  "amz_headers hs =
     concat (map (\<lambda>(k, vs). let lk = ToLower k in
       if HasPrefix lk ''x-amz-'' then lk @ '':'' @ join_values vs @ [CHR 0x0A] else '''') hs)"

definition buildStringToSignV2 :: "request \<Rightarrow> string" where
  "buildStringToSignV2 r =
     rq_Method r @ [CHR 0x0A] @ header r ''Content-MD5'' @ [CHR 0x0A] @ header r ''Content-Type'' @ [CHR 0x0A]
       @ header r ''Date'' @ [CHR 0x0A] @ amz_headers (rq_Header r)
       @ rq_Path r @ (if rq_RawQuery r \<noteq> '''' then ''?'' @ rq_RawQuery r else '''')"

definition computeSignatureV2 :: "string \<Rightarrow> string \<Rightarrow> string" where
  "computeSignatureV2 credential stringToSign = hex_encode (hmac_sha256 (bytes_of credential) (bytes_of stringToSign))"

definition AWSV2Provider_Authenticate :: "string \<Rightarrow> string \<Rightarrow> request \<Rightarrow> unit res" where
  "AWSV2Provider_Authenticate identity credential r =
     (let authHeader = header r ''Authorization'' in
      if authHeader = '''' then Err (ErrNew ''missing authorization header'')
      else if \<not> HasPrefix authHeader ''AWS '' then Err (ErrNew ''invalid authorization header format'')
      else case SplitN2 (drop 4 authHeader) '':'' of
             [accessKey, signature] \<Rightarrow>
               if accessKey \<noteq> identity then Err (ErrNew ''invalid access key'')
               else if signature \<noteq> computeSignatureV2 credential (buildStringToSignV2 r)
               then Err (ErrNew ''signature mismatch'')
               else Ok ()
           | _ \<Rightarrow> Err (ErrNew ''invalid authorization header format''))"

definition auth_components :: "string list \<Rightarrow> smap" where
  "auth_components parts =
     fold (\<lambda>part m. case SplitN2 part ''='' of [k, v] \<Rightarrow> AList.update k v m | _ \<Rightarrow> m) parts []"

definition AWSV4Provider_Authenticate :: "string \<Rightarrow> string \<Rightarrow> request \<Rightarrow> unit res" where
  "AWSV4Provider_Authenticate identity credential r =
     (let authHeader = header r ''Authorization'' in
      if authHeader = '''' then Err (ErrNew ''missing authorization header'')
      else if \<not> HasPrefix authHeader ''AWS4-HMAC-SHA256 '' then Err (ErrNew ''invalid authorization header format'')
      else
        let authComponents = auth_components (Split (drop 17 authHeader) '', '');
            cred = sm_get authComponents ''Credential''
        in if cred = '''' then Err (ErrNew ''missing credential in authorization header'')
           else let credParts = Split cred ''/'' in
             if length credParts < 5 then Err (ErrNew ''invalid credential format'')
             else if hd credParts \<noteq> identity then Err (ErrNew ''invalid access key'')
             else Ok ())"

primrec Authenticate :: "auth_provider \<Rightarrow> request \<Rightarrow> unit res" where
  "Authenticate NoneProvider r = Ok ()"
| "Authenticate (BasicProvider i c) r = BasicProvider_Authenticate i c r"
| "Authenticate (AWSV2Provider i c) r = AWSV2Provider_Authenticate i c r"
| "Authenticate (AWSV4Provider i c) r = AWSV4Provider_Authenticate i c r"

definition hmacSHA256 :: "bytes \<Rightarrow> bytes \<Rightarrow> bytes" where
  "hmacSHA256 key data = hmac_sha256 key data"

definition getSigningKey :: "string \<Rightarrow> string \<Rightarrow> string \<Rightarrow> string \<Rightarrow> bytes" where
  "getSigningKey key dateStamp regionName serviceName =
     hmacSHA256 (hmacSHA256 (hmacSHA256 (hmacSHA256 (bytes_of (''AWS4'' @ key)) (bytes_of dateStamp))
       (bytes_of regionName)) (bytes_of serviceName)) (bytes_of ''aws4_request'')"

section \<open>The caching provider\<close>

record auth_entry =
  ae_valid :: bool
  ae_timestamp :: time

text \<open>The cache is a map that the creator of the provider has to make; writing to a nil map panics.\<close>

record fast_provider =
  fp_accessKey :: string
  fp_secretKey :: string
  fp_cache :: "(string \<times> auth_entry) list option"

definition authCacheTTL :: duration where
  "authCacheTTL = 5 * minute"

definition authenticateV2Fast :: "string \<Rightarrow> string \<Rightarrow> unit res" where
  "authenticateV2Fast accessKey authHeader =
     (case SplitN2 (drop 4 authHeader) '':'' of
        [k, s] \<Rightarrow> if k \<noteq> accessKey then Err (ErrNew ''invalid access key'') else Ok ()
      | _ \<Rightarrow> Err (ErrNew ''invalid authorization header format''))"

definition authenticateV4Fast :: "string \<Rightarrow> string \<Rightarrow> unit res" where
  "authenticateV4Fast accessKey authHeader =
     (if \<not> Contains authHeader ''Credential='' then Err (ErrNew ''missing credential in authorization header'')
      else
        let credStart = nat (Index authHeader ''Credential='') + 11;
            credEnd = Index (drop credStart authHeader) ''/''
        in if credEnd = -1 then Err (ErrNew ''invalid credential format'')
           else if take (nat credEnd) (drop credStart authHeader) \<noteq> accessKey then Err (ErrNew ''invalid access key'')
           else Ok ())"

definition fast_check :: "string \<Rightarrow> string \<Rightarrow> unit res" where
  "fast_check accessKey authHeader =
     (if HasPrefix authHeader ''AWS4-HMAC-SHA256 '' then authenticateV4Fast accessKey authHeader
      else if HasPrefix authHeader ''AWS '' then authenticateV2Fast accessKey authHeader
      else Err (ErrNew ''unsupported authorization method''))"

definition fast_key :: "request \<Rightarrow> string" where
  "fast_key r = header r ''Authorization'' @ rq_Method r @ rq_Path r"

text \<open>\<open>now\<close> is the time of the lookup, \<open>now'\<close> that of the store and \<open>now''\<close> that of the sweep.\<close>

definition FastAWSProvider_Authenticate ::
  "fast_provider \<Rightarrow> time \<Rightarrow> time \<Rightarrow> time \<Rightarrow> request \<Rightarrow> unit res \<times> fast_provider" where
  "FastAWSProvider_Authenticate p now now' now'' r =
     (let authHeader = header r ''Authorization''; ck = fast_key r;
          cached = (case fp_cache p of None \<Rightarrow> None | Some c \<Rightarrow>
             (case map_of c ck of Some e \<Rightarrow> if now - ae_timestamp e < authCacheTTL then Some e else None | None \<Rightarrow> None))
      in if authHeader = '''' then (Err (ErrNew ''missing authorization header''), p)
         else case cached of
           Some e \<Rightarrow> (if ae_valid e then Ok () else Err (ErrNew ''cached: invalid credentials''), p)
         | None \<Rightarrow>
             let err = fast_check (fp_accessKey p) authHeader in
             (case fp_cache p of
                None \<Rightarrow> (Panic ''assignment to entry in nil map'', p)
              | Some c \<Rightarrow>
                  let c1 = AList.update ck \<lparr>ae_valid = is_Ok err, ae_timestamp = now'\<rparr> c;
                      c2 = (if 10000 < length c1 then filter (\<lambda>(k, e). \<not> authCacheTTL < now'' - ae_timestamp e) c1 else c1)
                  in (err, p\<lparr>fp_cache := Some c2\<rparr>)))"


section \<open>Facts about splitting\<close>

lemma Index_char: "c \<notin> set a \<Longrightarrow> Index (a @ c # b) [c] = int (length a)"
  by (induction a) (auto simp: HasPrefix_def Let_def)

lemma Index_no_char: "c \<notin> set s \<Longrightarrow> Index s [c] = -1"
  by (induction s) (auto simp: HasPrefix_def)

lemma SplitN2_char: "c \<notin> set a \<Longrightarrow> SplitN2 (a @ c # b) [c] = [a, b]"
  by (simp add: SplitN2_def Index_char)

lemma SplitN2_two: "SplitN2 s [c] = [a, b] \<longleftrightarrow> s = a @ c # b \<and> c \<notin> set a"
proof (cases "c \<in> set s")
  case True
  then obtain x y where "s = x @ c # y" "c \<notin> set x" by (meson split_list_first)
  moreover have "x = a \<and> y = b" if "x @ c # y = a @ c # b" "c \<notin> set a" for a b
    using SplitN2_char [of c x y] SplitN2_char [of c a b] that \<open>c \<notin> set x\<close> by (metis list.inject)
  ultimately show ?thesis using SplitN2_char [of c x y] by auto
next
  case False
  then show ?thesis by (auto simp: SplitN2_def Index_no_char)
qed

lemma split_aux_at:
  assumes "c \<notin> set a"
  shows "split_aux (c # sep) acc (a @ (c # sep) @ b) = (rev acc @ a) # split_aux (c # sep) [] b"
  using assms by (induction a arbitrary: acc) (auto simp: HasPrefix_def)

lemma split_aux_end: "c \<notin> set a \<Longrightarrow> split_aux (c # sep) acc a = [rev acc @ a]"
  by (induction a arbitrary: acc) (auto simp: HasPrefix_def)

lemma Split_at: "c \<notin> set a \<Longrightarrow> Split (a @ (c # sep) @ b) (c # sep) = a # Split b (c # sep)"
  using split_aux_at [of c a sep "[]" b] by (simp add: Split_def)

lemma Split_end: "c \<notin> set a \<Longrightarrow> Split a (c # sep) = [a]"
  by (simp add: Split_def split_aux_end)

section \<open>Properties\<close>

text \<open>C30: the version 2 provider accepts exactly the requests signed with the secret key. A request is accepted if and only
  if its authorization header is the access key and the HMAC of the string to sign of this request under
  the configured secret (and the access key has no colon).\<close>

theorem V2_accepts_iff_signed:
  "Authenticate (AWSV2Provider identity credential) r = Ok () \<longleftrightarrow>
     CHR '':'' \<notin> set identity
     \<and> header r ''Authorization'' = ''AWS '' @ identity @ '':'' @ computeSignatureV2 credential (buildStringToSignV2 r)"
    (is "?lhs \<longleftrightarrow> ?rhs")
proof
  assume ?lhs
  then obtain t where t: "header r ''Authorization'' = ''AWS '' @ t"
    and "SplitN2 t '':'' = [identity, computeSignatureV2 credential (buildStringToSignV2 r)]"
    by (auto simp: AWSV2Provider_Authenticate_def Let_def HasPrefix_iff split: if_splits list.splits)
  then show ?rhs by (simp add: SplitN2_two)
next
  assume ?rhs
  then have "SplitN2 (drop 4 (header r ''Authorization'')) '':''
      = [identity, computeSignatureV2 credential (buildStringToSignV2 r)]"
    by (simp add: SplitN2_two)
  then show ?lhs using \<open>?rhs\<close> by (simp add: AWSV2Provider_Authenticate_def Let_def HasPrefix_def)
qed

text \<open>The version 4 provider accepts any signature. Whoever knows the access key, and not the secret, can sign any
  request with any text: a header with a well-formed credential scope is accepted.\<close>

theorem V4_accepts_any_signature:
  assumes "header r ''Authorization'' = ''AWS4-HMAC-SHA256 Credential='' @ identity @ ''/20240101/us-east-1/s3/aws4_request, Signature='' @ sig"
    and "list_all (\<lambda>c. c \<noteq> CHR '','' \<and> c \<noteq> CHR ''/'') identity" and "CHR '','' \<notin> set sig"
  shows "Authenticate (AWSV4Provider identity secret) r = Ok ()"
proof -
  let ?cred = "identity @ ''/20240101/us-east-1/s3/aws4_request''"
  have no: "CHR '','' \<notin> set identity" "CHR ''/'' \<notin> set identity" using assms(2) by (auto simp: list_all_iff)
  have "Split (drop 17 (header r ''Authorization'')) '', '' = Split ((''Credential='' @ ?cred) @ '', '' @ ''Signature='' @ sig) '', ''"
    by (simp add: assms(1))
  also have "\<dots> = [''Credential='' @ ?cred, ''Signature='' @ sig]"
  proof -
    have "CHR '','' \<notin> set (''Credential='' @ ?cred)" "CHR '','' \<notin> set (''Signature='' @ sig)" using no assms(3) by auto
    then show ?thesis
      using Split_at [of "CHR '',''" "''Credential='' @ ?cred" "'' ''" "''Signature='' @ sig"]
        Split_end [of "CHR '',''" "''Signature='' @ sig" "'' ''"] by simp
  qed
  finally have parts: "Split (drop 17 (header r ''Authorization'')) '', '' = [''Credential='' @ ?cred, ''Signature='' @ sig]" .
  have kv: "SplitN2 (''Credential='' @ ?cred) ''='' = [''Credential'', ?cred]" "SplitN2 (''Signature='' @ sig) ''='' = [''Signature'', sig]"
    by (simp_all add: SplitN2_two)
  have cred: "sm_get (auth_components [''Credential='' @ ?cred, ''Signature='' @ sig]) ''Credential'' = ?cred"
    unfolding auth_components_def fold.simps comp_def kv by (simp add: kv sm_get_def)
  have "Split ?cred ''/'' = identity # Split ''20240101/us-east-1/s3/aws4_request'' ''/''"
    using Split_at [of "CHR ''/''" identity "''''" "''20240101/us-east-1/s3/aws4_request''"] no(2) by simp
  also have "Split ''20240101/us-east-1/s3/aws4_request'' ''/'' = [''20240101'', ''us-east-1'', ''s3'', ''aws4_request'']"
    by (simp add: Split_def HasPrefix_def)
  finally have scope: "Split ?cred ''/'' = [identity, ''20240101'', ''us-east-1'', ''s3'', ''aws4_request'']" .
  have "HasPrefix (header r ''Authorization'') ''AWS4-HMAC-SHA256 ''" "header r ''Authorization'' \<noteq> ''''"
    by (simp_all add: assms(1) HasPrefix_def)
  then show ?thesis
    unfolding Authenticate.simps AWSV4Provider_Authenticate_def Let_def parts cred scope by simp
qed

text \<open>The basic provider accepts exactly the configured credentials, in the encoding of the HTTP specification.\<close>

theorem Basic_accepts_credentials:
  assumes "header r ''Authorization'' = ''Basic '' @ b64_encode (bytes_of (user @ '':'' @ password))" and "CHR '':'' \<notin> set user"
  shows "Authenticate (BasicProvider identity credential) r = Ok () \<longleftrightarrow> user = identity \<and> password = credential"
proof -
  have "BasicAuth r = Some (user, password)"
    using assms SplitN2_char [of "CHR '':''" user password] string_of_bytes_of [of "user @ '':'' @ password"]
    by (simp add: BasicAuth_def EqualFold_def ToLower_def b64_decode_encode del: bytes_of_append string_of_bytes_of)
  then show ?thesis by (simp add: BasicProvider_Authenticate_def)
qed


subsection \<open>The caching provider\<close>

text \<open>Calls one after the other, with a clock that does not go back. A call checks the header when it finds no current verdict for its key; the log has the
  checks that were made, with the time at which each was stored.\<close>

definition checks :: "fast_provider \<Rightarrow> time \<Rightarrow> request \<Rightarrow> bool" where
  "checks p now r \<longleftrightarrow> header r ''Authorization'' \<noteq> ''''
     \<and> (\<forall>c e. fp_cache p = Some c \<longrightarrow> map_of c (fast_key r) = Some e \<longrightarrow> authCacheTTL \<le> now - ae_timestamp e)"

inductive fast_reach :: "string \<Rightarrow> (time \<times> request) list \<Rightarrow> time \<Rightarrow> fast_provider \<Rightarrow> bool" for ak :: string where
  fast_init: "fp_accessKey p = ak \<Longrightarrow> fp_cache p = Some [] \<Longrightarrow> fast_reach ak [] t p"
| fast_auth: "fast_reach ak log t p \<Longrightarrow> t \<le> now \<Longrightarrow> now \<le> now' \<Longrightarrow> now' \<le> now'' \<Longrightarrow>
    FastAWSProvider_Authenticate p now now' now'' r = (x, p') \<Longrightarrow>
    fast_reach ak (if checks p now r then (now', r) # log else log) now'' p'"

text \<open>An entry is the verdict of a check in the log, of a request with this key, and has the time of that check.\<close>

definition fast_inv :: "string \<Rightarrow> (time \<times> request) list \<Rightarrow> time \<Rightarrow> fast_provider \<Rightarrow> bool" where
  "fast_inv ak log t p \<longleftrightarrow> fp_accessKey p = ak \<and> (\<exists>c. fp_cache p = Some c
     \<and> (\<forall>k e. map_of c k = Some e \<longrightarrow> (\<exists>r. (ae_timestamp e, r) \<in> set log \<and> fast_key r = k \<and> ae_timestamp e \<le> t
          \<and> ae_valid e = is_Ok (fast_check ak (header r ''Authorization'')))))"

lemma map_of_filter_Some:
  assumes "distinct (map fst xs)"
  shows "map_of (filter P xs) k = Some e \<Longrightarrow> map_of xs k = Some e"
  using assms by (metis distinct_map_filter filter_is_subset map_of_SomeD map_of_is_SomeI subsetD)

lemma fast_step_cases:
  assumes "FastAWSProvider_Authenticate p now now' now'' r = (x, p')" and "fp_cache p = Some c"
  obtains (same) "p' = p" "\<not> checks p now r" "x = Ok () \<Longrightarrow> \<exists>e. map_of c (fast_key r) = Some e \<and> ae_valid e \<and> now - ae_timestamp e < authCacheTTL"
    | (check) c' where "checks p now r" "x = fast_check (fp_accessKey p) (header r ''Authorization'')" "p' = p\<lparr>fp_cache := Some c'\<rparr>"
        "c' = AList.update (fast_key r) \<lparr>ae_valid = is_Ok x, ae_timestamp = now'\<rparr> c
         \<or> (\<exists>P. c' = filter P (AList.update (fast_key r) \<lparr>ae_valid = is_Ok x, ae_timestamp = now'\<rparr> c))"
proof -
  let ?cached = "case map_of c (fast_key r) of Some e \<Rightarrow> if now - ae_timestamp e < authCacheTTL then Some e else None | None \<Rightarrow> None"
  let ?x = "fast_check (fp_accessKey p) (header r ''Authorization'')"
  let ?u = "AList.update (fast_key r) \<lparr>ae_valid = is_Ok ?x, ae_timestamp = now'\<rparr> c"
  let ?c = "if 10000 < length ?u then filter (\<lambda>(k, e). \<not> authCacheTTL < now'' - ae_timestamp e) ?u else ?u"
  have run: "(x, p') = (if header r ''Authorization'' = '''' then (Err (ErrNew ''missing authorization header''), p)
      else case ?cached of Some e \<Rightarrow> (if ae_valid e then Ok () else Err (ErrNew ''cached: invalid credentials''), p)
      | None \<Rightarrow> (?x, p\<lparr>fp_cache := Some ?c\<rparr>))"
    unfolding assms(1) [symmetric] FastAWSProvider_Authenticate_def Let_def assms(2) option.case by (rule refl)
  show thesis
  proof (cases "header r ''Authorization'' = ''''")
    case True
    then show thesis using same run by (simp add: checks_def)
  next
    case False
    show thesis
    proof (cases ?cached)
      case None
      then have "x = ?x" "p' = p\<lparr>fp_cache := Some ?c\<rparr>" using run False by simp_all
      moreover have "?c = ?u \<or> (\<exists>P. ?c = filter P ?u)" by auto
      moreover have "checks p now r" using None False assms(2) by (auto simp: checks_def split: option.splits if_splits)
      ultimately show thesis using check [of ?c] by blast
    next
      case (Some e)
      then have "p' = p" "x = Ok () \<Longrightarrow> ae_valid e" using run False by (auto split: if_splits)
      moreover have "map_of c (fast_key r) = Some e" "now - ae_timestamp e < authCacheTTL" using Some by (auto split: option.splits if_splits)
      moreover have "\<not> checks p now r" using calculation(3,4) assms(2) by (auto simp: checks_def)
      ultimately show thesis using same by blast
    qed
  qed
qed

lemma fast_reach_inv:
  assumes "fast_reach ak log t p"
  shows "fast_inv ak log t p \<and> distinct (map fst (the (fp_cache p)))"
  using assms
proof induction
  case (fast_init p t)
  then show ?case by (simp add: fast_inv_def)
next
  case (fast_auth log t p now now' now'' r x p')
  define log' where "log' = (if checks p now r then (now', r) # log else log)"
  let ?ok = "\<lambda>log t k e. \<exists>r. (ae_timestamp e, r) \<in> set log \<and> fast_key r = k \<and> ae_timestamp e \<le> t
    \<and> ae_valid e = is_Ok (fast_check ak (header r ''Authorization''))"
  from fast_auth.IH obtain c where c: "fp_cache p = Some c" "fp_accessKey p = ak" "distinct (map fst c)"
    and inv: "\<And>k e. map_of c k = Some e \<Longrightarrow> ?ok log t k e"
    by (auto simp: fast_inv_def)
  have t: "t \<le> now''" using fast_auth.hyps(2-4) by simp
  have later: "?ok log' now'' k e" if "?ok log t k e" for k e using that t unfolding log'_def by (auto intro: order_trans)
  from fast_auth.hyps(5) c(1) show ?case unfolding log'_def [symmetric]
  proof (cases rule: fast_step_cases)
    case same
    have "fast_inv ak log' now'' p" unfolding fast_inv_def using c(1,2) later [OF inv] by blast
    then show "fast_inv ak log' now'' p' \<and> distinct (map fst (the (fp_cache p')))" using same c by simp
  next
    case (check c')
    let ?e = "\<lparr>ae_valid = is_Ok x, ae_timestamp = now'\<rparr>"
    let ?u = "AList.update (fast_key r) ?e c"
    have d: "distinct (map fst ?u)" using c(3) by (rule distinct_update)
    have "?ok log' now'' (fast_key r) ?e" using check(1,2) c(2) fast_auth.hyps(4) by (auto simp: log'_def)
    then have u: "?ok log' now'' k e" if "map_of ?u k = Some e" for k e
      using that later [OF inv, of k e] by (cases "k = fast_key r") (simp add: AList.update_conv', metis auth_entry.select_convs, simp add: AList.update_conv')
    have c': "map_of ?u k = Some e" if "map_of c' k = Some e" for k e using that check(4) map_of_filter_Some [OF d] by auto
    have "fp_accessKey p' = ak" "fp_cache p' = Some c'" using check(3) c(2) by simp_all
    then have "fast_inv ak log' now'' p'" unfolding fast_inv_def using u [OF c'] by blast
    moreover have "distinct (map fst c')" using check(4) d by (auto simp: distinct_map_filter)
    ultimately show "fast_inv ak log' now'' p' \<and> distinct (map fst (the (fp_cache p')))" using check(3) by simp
  qed
qed

text \<open>C32: an accepted request was checked, or one with the same cache key was. In every state the caching provider can reach by calls one after the other,
  if it accepts a request, then either this call checked the request's own authorization header with success, or less than five minutes before it a
  call stored the successful check of the header of a request whose header, method and path concatenate to the same string. The header
  that was checked need not be the header of the accepted request: \<open>fast_cache_collision\<close>.\<close>

theorem fast_accept_checked:
  assumes "fast_reach ak log t p" and "t \<le> now" and "FastAWSProvider_Authenticate p now now' now'' r = (Ok (), p')"
  shows "checks p now r \<and> fast_check ak (header r ''Authorization'') = Ok ()
    \<or> (\<exists>t' r'. (t', r') \<in> set log \<and> t' \<le> now \<and> now < t' + 5 * minute \<and> fast_key r' = fast_key r
         \<and> fast_check ak (header r' ''Authorization'') = Ok ())"
proof -
  obtain c where c: "fp_cache p = Some c" "fp_accessKey p = ak"
    and inv: "\<And>k e. map_of c k = Some e \<Longrightarrow> \<exists>r. (ae_timestamp e, r) \<in> set log \<and> fast_key r = k \<and> ae_timestamp e \<le> t
      \<and> ae_valid e = is_Ok (fast_check ak (header r ''Authorization''))"
    using fast_reach_inv [OF assms(1)] by (auto simp: fast_inv_def)
  from assms(3) c(1) show ?thesis
  proof (cases rule: fast_step_cases)
    case same
    then obtain e where e: "map_of c (fast_key r) = Some e" "ae_valid e" "now - ae_timestamp e < authCacheTTL" by blast
    obtain r' where r': "(ae_timestamp e, r') \<in> set log" "fast_key r' = fast_key r" "ae_timestamp e \<le> t"
      "is_Ok (fast_check ak (header r' ''Authorization''))" using inv [OF e(1)] e(2) by auto
    then have "fast_check ak (header r' ''Authorization'') = Ok ()" by (simp add: is_Ok_iff)
    moreover have "ae_timestamp e \<le> now" "now < ae_timestamp e + 5 * minute" using r'(3) assms(2) e(3) by (simp_all add: authCacheTTL_def)
    ultimately show ?thesis using r'(1,2) by blast
  next
    case (check c')
    then show ?thesis using c(2) by simp
  qed
qed

definition demo_request :: "string \<Rightarrow> string \<Rightarrow> string \<Rightarrow> request" where
  "demo_request auth method path =
     \<lparr>rq_Method = method, rq_Path = path, rq_RawQuery = '''', rq_Query = [], rq_Header = [(''Authorization'', [auth])],
      rq_RemoteAddr = ''10.0.0.1:999'', rq_Host = ''h'', rq_ContentLength = 0, rq_Body = bytes_reader []\<rparr>"

definition demo_fast :: fast_provider where
  "demo_fast = \<lparr>fp_accessKey = ''AK'', fp_secretKey = ''s'', fp_cache = Some []\<rparr>"

text \<open>The cache key is ambiguous. The key of the cache is the plain concatenation of header, method and path, so a
  request whose header is malformed and rejected by itself is accepted after another request whose
  concatenation is the same.\<close>

theorem fast_cache_collision:
  "fst (FastAWSProvider_Authenticate demo_fast 0 0 0 (demo_request ''AWS4-HMAC-SHA256 Credential=A'' ''K'' ''/GET/''))
     = Err (ErrNew ''invalid credential format'')
   \<and> fst (FastAWSProvider_Authenticate (snd (FastAWSProvider_Authenticate demo_fast 0 0 0
            (demo_request ''AWS4-HMAC-SHA256 Credential=AK/'' ''GET'' ''/''))) 1 1 1
          (demo_request ''AWS4-HMAC-SHA256 Credential=A'' ''K'' ''/GET/'')) = Ok ()"
  by code_simp

section \<open>Concrete runs\<close>

theorem V4_accepts_any_signature_witness:
  "Authenticate (AWSV4Provider ''AK'' ''secret'')
     (demo_request ''AWS4-HMAC-SHA256 Credential=AK/20240101/us-east-1/s3/aws4_request, Signature=forged'' ''DELETE'' ''/b'') = Ok ()"
  by (rule V4_accepts_any_signature [where sig = "''forged''"])
     (simp_all add: demo_request_def header_def Header_Get_def CanonicalKey_def is_token_char_def upper_char_def lower_char_def
        first_value_def)

lemma demo_header: "header (demo_request a m p) ''Authorization'' = a"
  by (simp add: demo_request_def header_def Header_Get_def CanonicalKey_def is_token_char_def upper_char_def lower_char_def
      first_value_def)

theorem Basic_accepts_credentials_witness:
  "Authenticate (BasicProvider ''u'' ''p'') (demo_request (''Basic '' @ b64_encode (bytes_of (''u'' @ '':'' @ ''p''))) ''GET'' ''/'') = Ok ()"
proof -
  have "CHR '':'' \<notin> set ''u''" by simp
  note accepts = Basic_accepts_credentials [OF demo_header [where m = "''GET''" and p = "''/''"] this]
  show ?thesis
    by (rule iffD2 [OF accepts [where password = "''p''" and identity = "''u''" and credential = "''p''"]]) (intro conjI refl)
qed

lemma demo_fast_accepts:
  "fst (FastAWSProvider_Authenticate demo_fast 0 0 0 (demo_request ''AWS AK:x'' ''GET'' ''/'')) = Ok ()"
  by code_simp

text \<open>The collision above, in the log: the second request is accepted because of the check of the first.\<close>

abbreviation "demo_first \<equiv> demo_request ''AWS4-HMAC-SHA256 Credential=AK/'' ''GET'' ''/''"
abbreviation "demo_second \<equiv> demo_request ''AWS4-HMAC-SHA256 Credential=A'' ''K'' ''/GET/''"

lemma demo_collision:
  "fst (FastAWSProvider_Authenticate (snd (FastAWSProvider_Authenticate demo_fast 0 0 0 demo_first)) 1 1 1 demo_second) = Ok ()"
  "fast_check ''AK'' (header demo_second ''Authorization'') \<noteq> Ok ()"
  by code_simp+

theorem fast_accept_checked_witness:
  "\<exists>t' r'. (t', r') \<in> {(0, demo_first)} \<and> t' \<le> 1 \<and> 1 < t' + 5 * minute \<and> fast_key r' = fast_key demo_second
     \<and> fast_check ''AK'' (header r' ''Authorization'') = Ok ()"
proof -
  obtain x p1 where f: "FastAWSProvider_Authenticate demo_fast 0 0 0 demo_first = (x, p1)" by (metis prod.collapse)
  obtain p2 where a: "FastAWSProvider_Authenticate p1 1 1 1 demo_second = (Ok (), p2)"
    using demo_collision(1) f by (metis prod.collapse snd_conv)
  have "fast_reach ''AK'' [] 0 demo_fast" by (rule fast_init) (simp_all add: demo_fast_def)
  from fast_auth [OF this _ _ _ f] have r: "fast_reach ''AK'' (if checks demo_fast 0 demo_first then [(0, demo_first)] else []) 0 p1" by simp
  have "\<not> (checks p1 1 demo_second \<and> fast_check ''AK'' (header demo_second ''Authorization'') = Ok ())" using demo_collision(2) by blast
  with fast_accept_checked [OF r _ a] show ?thesis by (auto split: if_splits)
qed

end
