(* ===== verification/Proxy_RateLimit.thy ===== *)
theory Proxy_RateLimit
  imports Auth_Provider
begin

text \<open>
  \<^verbatim>\<open>internal/proxy/ratelimit.go\<close>: the rate limiter per client address, the concurrency limiter, and the address
  of a client. The token buckets of \<^verbatim>\<open>golang.org/x/time/rate\<close> are an argument: a record of the constructor and
  of \<^verbatim>\<open>Allow\<close>, which reads the clock. Proved: a client keeps its bucket until it was idle for five minutes,
  whatever other clients do and however two of its first requests interleave; at most the configured number
  of requests run at once, and a request is turned away as too many only when that number is reached.
\<close>

section \<open>Client addresses\<close>

fun indexOf_from :: "nat \<Rightarrow> string \<Rightarrow> char \<Rightarrow> int" where
  "indexOf_from i [] c = -1"
| "indexOf_from i (x # s) c = (if x = c then int i else indexOf_from (Suc i) s c)"

definition indexOf :: "string \<Rightarrow> char \<Rightarrow> int" where
  "indexOf s c = indexOf_from 0 s c"

fun lastIndexOf_from :: "nat \<Rightarrow> string \<Rightarrow> char \<Rightarrow> int" where
  "lastIndexOf_from 0 s c = -1"
| "lastIndexOf_from (Suc i) s c = (if s ! i = c then int i else lastIndexOf_from i s c)"

definition lastIndexOf :: "string \<Rightarrow> char \<Rightarrow> int" where
  "lastIndexOf s c = lastIndexOf_from (length s) s c"

definition getClientIP :: "request \<Rightarrow> string" where
  "getClientIP r =
     (let xff = header r ''X-Forwarded-For''; xri = header r ''X-Real-IP'' in
      if xff \<noteq> '''' then
        (let comma = indexOf xff (CHR '','') in if comma \<noteq> -1 then take (nat comma) xff else xff)
      else if xri \<noteq> '''' then xri
      else
        (let colon = lastIndexOf (rq_RemoteAddr r) (CHR '':'')
         in if colon \<noteq> -1 then take (nat colon) (rq_RemoteAddr r) else rq_RemoteAddr r))"

section \<open>The rate limiter\<close>

record ('l, 'f) limiter_ops =
  lim_New :: "'f \<Rightarrow> int \<Rightarrow> 'l"
  lim_Allow :: "'l \<Rightarrow> time \<Rightarrow> bool \<times> 'l"

record 'l ip_limiter =
  il_limiter :: 'l
  il_lastSeen :: time

record 'l rate_limiter =
  rl_global :: 'l
  rl_perIP :: "(string \<times> 'l ip_limiter) list"
  rl_maxBurst :: int

definition NewRateLimiter :: "('l, 'f) limiter_ops \<Rightarrow> 'f \<Rightarrow> int \<Rightarrow> 'l rate_limiter" where
  "NewRateLimiter lim globalRPS burst =
     \<lparr>rl_global = lim_New lim globalRPS burst, rl_perIP = [], rl_maxBurst = burst\<rparr>"

text \<open>One tick of the cleanup goroutine.\<close>

definition rl_cleanup :: "'l rate_limiter \<Rightarrow> time \<Rightarrow> 'l rate_limiter" where
  "rl_cleanup rl now = rl\<lparr>rl_perIP := filter (\<lambda>(ip, l). \<not> 5 * minute < now - il_lastSeen l) (rl_perIP rl)\<rparr>"

text \<open>\<^verbatim>\<open>getLimiter\<close> in its two critical sections: the lookup under the read lock, and the second lookup and creation
  under the write lock. The bucket it returns is the one stored under the address afterwards.\<close>

definition touch_ip :: "'l rate_limiter \<Rightarrow> string \<Rightarrow> time \<Rightarrow> 'l rate_limiter" where
  "touch_ip rl ip now =
     (case map_of (rl_perIP rl) ip of
        Some l \<Rightarrow> rl\<lparr>rl_perIP := AList.update ip (l\<lparr>il_lastSeen := now\<rparr>) (rl_perIP rl)\<rparr>
      | None \<Rightarrow> rl)"

definition getLimiter_slow :: "('l, 'f) limiter_ops \<Rightarrow> 'l rate_limiter \<Rightarrow> string \<Rightarrow> 'f \<Rightarrow> time \<Rightarrow> 'l rate_limiter" where
  "getLimiter_slow lim rl ip perIPRPS now =
     (if map_of (rl_perIP rl) ip \<noteq> None then touch_ip rl ip now
      else rl\<lparr>rl_perIP := AList.update ip \<lparr>il_limiter = lim_New lim perIPRPS (rl_maxBurst rl), il_lastSeen = now\<rparr> (rl_perIP rl)\<rparr>)"

definition getLimiter :: "('l, 'f) limiter_ops \<Rightarrow> 'l rate_limiter \<Rightarrow> string \<Rightarrow> 'f \<Rightarrow> time \<Rightarrow> 'l rate_limiter" where
  "getLimiter lim rl ip perIPRPS now =
     (if map_of (rl_perIP rl) ip \<noteq> None then touch_ip rl ip now else getLimiter_slow lim rl ip perIPRPS now)"

definition allow_ip :: "('l, 'f) limiter_ops \<Rightarrow> 'l rate_limiter \<Rightarrow> string \<Rightarrow> time \<Rightarrow> bool \<times> 'l rate_limiter" where
  "allow_ip lim rl ip now =
     (case map_of (rl_perIP rl) ip of
        Some l \<Rightarrow>
          (let (ok, l') = lim_Allow lim (il_limiter l) now
           in (ok, rl\<lparr>rl_perIP := AList.update ip (l\<lparr>il_limiter := l'\<rparr>) (rl_perIP rl)\<rparr>))
      | None \<Rightarrow> (False, rl))"

text \<open>\<^verbatim>\<open>http.Error\<close>.\<close>

definition http_Error :: "string \<Rightarrow> int \<Rightarrow> response \<Rightarrow> response" where
  "http_Error msg code w =
     Write (bytes_of (msg @ [CHR 0x0A])) (WriteHeader code
       (set_header ''X-Content-Type-Options'' ''nosniff'' (set_header ''Content-Type'' ''text/plain; charset=utf-8'' w)))"

text \<open>The middleware around a handler: the three clock readings of one request are arguments.\<close>

definition RateLimiter_Middleware ::
  "('l, 'f) limiter_ops \<Rightarrow> 'f \<Rightarrow> (request \<Rightarrow> response \<Rightarrow> response) \<Rightarrow> 'l rate_limiter \<Rightarrow> time \<Rightarrow> time \<Rightarrow> time \<Rightarrow> request
     \<Rightarrow> response \<Rightarrow> response \<times> 'l rate_limiter" where
  "RateLimiter_Middleware lim perIPRPS next rl now now' now'' r w =
     (let (gok, g) = lim_Allow lim (rl_global rl) now; rl1 = rl\<lparr>rl_global := g\<rparr> in
      if \<not> gok then (http_Error ''Rate limit exceeded'' 429 w, rl1)
      else
        let ip = getClientIP r; rl2 = getLimiter lim rl1 ip perIPRPS now'; (ok, rl3) = allow_ip lim rl2 ip now'' in
        if \<not> ok then (http_Error ''Rate limit exceeded'' 429 w, rl3) else (next r w, rl3))"

section \<open>The concurrency limiter\<close>

text \<open>A channel of empty structures: how many it holds, and its capacity. \<open>running\<close> counts the requests between their
  send and the deferred receive.\<close>

record conc_state =
  cl_semaphore :: nat
  cl_running :: nat

definition NewConcurrencyLimiter :: "int \<Rightarrow> nat res" where
  "NewConcurrencyLimiter maxConcurrent =
     (if maxConcurrent < 0 then Panic ''makechan: size out of range'' else Ok (nat maxConcurrent))"

datatype conc_outcome = Admitted | TimedOut | TooBusy

text \<open>The outcomes of the \<^verbatim>\<open>select\<close>: any ready case, and the default only when none is ready.\<close>

definition conc_outcomes :: "nat \<Rightarrow> conc_state \<Rightarrow> bool \<Rightarrow> conc_outcome list" where
  "conc_outcomes cap s ctx_done =
     (let ready = (if cl_semaphore s < cap then [Admitted] else []) @ (if ctx_done then [TimedOut] else [])
      in if ready = [] then [TooBusy] else ready)"

primrec conc_apply :: "conc_outcome \<Rightarrow> conc_state \<Rightarrow> conc_state" where
  "conc_apply Admitted s = \<lparr>cl_semaphore = cl_semaphore s + 1, cl_running = cl_running s + 1\<rparr>"
| "conc_apply TimedOut s = s"
| "conc_apply TooBusy s = s"

definition conc_response :: "conc_outcome \<Rightarrow> response \<Rightarrow> response" where
  "conc_response out w =
     (case out of Admitted \<Rightarrow> w | TimedOut \<Rightarrow> http_Error ''Request timeout'' 408 w | TooBusy \<Rightarrow> http_Error ''Server too busy'' 503 w)"

inductive conc_step :: "nat \<Rightarrow> conc_state \<Rightarrow> conc_state \<Rightarrow> bool" for cap :: nat where
  conc_request: "out \<in> set (conc_outcomes cap s ctx_done) \<Longrightarrow> conc_step cap s (conc_apply out s)"
| conc_done: "0 < cl_running s \<Longrightarrow> conc_step cap s \<lparr>cl_semaphore = cl_semaphore s - 1, cl_running = cl_running s - 1\<rparr>"

inductive_cases conc_stepE: "conc_step cap s s'"

section \<open>Facts\<close>

lemma indexOf_from_eq: "indexOf_from i s c = (if Index s [c] < 0 then -1 else int i + Index s [c])"
proof (induction s arbitrary: i)
  case (Cons x s)
  have I: "Index (x # s) [c] = (if x = c then 0 else if Index s [c] < 0 then -1 else Index s [c] + 1)"
    by (simp add: HasPrefix_def Let_def)
  have step: "x \<noteq> c \<Longrightarrow> indexOf_from i (x # s) c = (if Index s [c] < 0 then -1 else int (Suc i) + Index s [c])"
    by (simp only: indexOf_from.simps Cons.IH if_False)
  show ?case unfolding I using step by (cases "x = c"; cases "Index s [c] < 0") simp_all
qed simp

lemma lastIndexOf_from_at: "c \<notin> set b \<Longrightarrow> lastIndexOf_from (length a + 1 + length b) (a @ c # b) c = int (length a)"
proof (induction b rule: rev_induct)
  case Nil
  then show ?case by (simp add: nth_append)
next
  case (snoc x b)
  have same: "k \<le> length t \<Longrightarrow> lastIndexOf_from k (t @ u) c = lastIndexOf_from k t c" for k t u
    by (induction k) (auto simp: nth_append)
  have "lastIndexOf_from (Suc (length a + 1 + length b)) (a @ c # b @ [x]) c = lastIndexOf_from (length a + 1 + length b) (a @ c # b @ [x]) c"
  proof -
    have "(a @ c # b @ [x]) ! (length a + 1 + length b) = x" using nth_append_length [of "a @ c # b" x "[]"] by simp
    then show ?thesis using snoc.prems by (simp only: lastIndexOf_from.simps) auto
  qed
  also have "\<dots> = lastIndexOf_from (length a + 1 + length b) (a @ c # b) c"
    using same [of "length a + 1 + length b" "a @ c # b" "[x]"] by simp
  finally show ?case using snoc by simp
qed

lemma lastIndexOf_at: "c \<notin> set b \<Longrightarrow> lastIndexOf (a @ c # b) c = int (length a)"
  using lastIndexOf_from_at [of c b a] by (simp add: lastIndexOf_def)

lemma allow_ip_other: "ip' \<noteq> ip \<Longrightarrow> allow_ip lim rl ip now = (ok, rl') \<Longrightarrow> map_of (rl_perIP rl') ip' = map_of (rl_perIP rl) ip'"
  by (auto simp: allow_ip_def Let_def AList.update_conv' split: option.splits prod.splits)

lemma getLimiter_other: "ip' \<noteq> ip \<Longrightarrow> map_of (rl_perIP (getLimiter lim rl ip rps now)) ip' = map_of (rl_perIP rl) ip'"
  by (auto simp: getLimiter_def getLimiter_slow_def touch_ip_def AList.update_conv' split: option.splits)

lemma getLimiter_same:
  "map_option il_limiter (map_of (rl_perIP (getLimiter lim rl ip rps now)) ip) =
     Some (case map_of (rl_perIP rl) ip of Some l \<Rightarrow> il_limiter l | None \<Rightarrow> lim_New lim rps (rl_maxBurst rl))"
  by (auto simp: getLimiter_def getLimiter_slow_def touch_ip_def AList.update_conv' split: option.splits)


lemma Middleware_denied:
  "\<not> fst (lim_Allow lim (rl_global rl) t) \<Longrightarrow>
     RateLimiter_Middleware lim rps next rl t t' t'' r w =
       (http_Error ''Rate limit exceeded'' 429 w, rl\<lparr>rl_global := snd (lim_Allow lim (rl_global rl) t)\<rparr>)"
  by (cases "lim_Allow lim (rl_global rl) t") (simp add: RateLimiter_Middleware_def)

lemma Middleware_passed:
  assumes "fst (lim_Allow lim (rl_global rl) t)"
  shows "RateLimiter_Middleware lim rps next rl t t' t'' r w =
    (let rl2 = getLimiter lim (rl\<lparr>rl_global := snd (lim_Allow lim (rl_global rl) t)\<rparr>) (getClientIP r) rps t';
         a = allow_ip lim rl2 (getClientIP r) t''
     in (if fst a then next r w else http_Error ''Rate limit exceeded'' 429 w, snd a))"
  using assms
  by (cases "lim_Allow lim (rl_global rl) t")
     (auto simp: RateLimiter_Middleware_def Let_def split: prod.splits)

lemma getLimiter_entry:
  "map_of (rl_perIP rl) ip = Some l \<Longrightarrow>
     map_of (rl_perIP (getLimiter lim rl ip rps now)) ip = Some (l\<lparr>il_lastSeen := now\<rparr>)"
  by (simp add: getLimiter_def touch_ip_def AList.update_conv')

lemma allow_ip_entry:
  "map_of (rl_perIP rl) ip = Some l \<Longrightarrow>
     fst (allow_ip lim rl ip now) = fst (lim_Allow lim (il_limiter l) now)
     \<and> map_of (rl_perIP (snd (allow_ip lim rl ip now))) ip = Some (l\<lparr>il_limiter := snd (lim_Allow lim (il_limiter l) now)\<rparr>)"
  by (simp add: allow_ip_def Let_def AList.update_conv' split: prod.splits)

lemma map_of_filter_entry:
  assumes "distinct (map fst xs)"
  shows "map_of (filter (\<lambda>(k, v). P v) xs) k = (case map_of xs k of Some v \<Rightarrow> if P v then Some v else None | None \<Rightarrow> None)"
  using assms
proof (induction xs)
  case (Cons x xs)
  then show ?case by (cases x) (auto split: option.splits simp: map_of_eq_None_iff rev_image_eqI dest: map_of_SomeD)
qed simp

section \<open>Properties\<close>

text \<open>The scans for a character agree with the library. \<^verbatim>\<open>indexOf\<close> is \<^verbatim>\<open>strings.Index\<close> of the one-character
  string, and \<^verbatim>\<open>lastIndexOf\<close> finds the position after which the character does not occur, or -1.\<close>

theorem index_scans_correct:
  "indexOf s c = Index s [c]
   \<and> lastIndexOf s c = (if c \<in> set s then int (length s) - 1 - Index (rev s) [c] else -1)"
proof -
  have "indexOf s c = Index s [c]" using Index_ge [of s "[c]"] by (simp add: indexOf_def indexOf_from_eq)
  moreover have "lastIndexOf s c = int (length s) - 1 - Index (rev s) [c]" if in_s: "c \<in> set s"
  proof -
    obtain a b where s: "s = a @ c # b" "c \<notin> set b" using split_list_last [OF in_s] by blast
    then have "Index (rev s) [c] = int (length b)" using Index_char [of c "rev b" "rev a"] by simp
    then show ?thesis using lastIndexOf_at [OF s(2), of a] s(1) by simp
  qed
  moreover have "lastIndexOf_from k s c = -1" if "c \<notin> set s" "k \<le> length s" for k
    using that by (induction k) (auto simp: Suc_le_eq)
  ultimately show ?thesis by (simp add: lastIndexOf_def)
qed

text \<open>A client keeps its token bucket. A request that reaches the per-address limit uses the bucket of its own address
  and leaves every other one alone, and the cleanup drops a bucket only when its address was not seen for
  more than five minutes.\<close>

theorem bucket_kept:
  assumes "map_of (rl_perIP rl) ip = Some l" and "distinct (map fst (rl_perIP rl))"
    and "fst (lim_Allow lim (rl_global rl) t)"
  shows "map_of (rl_perIP (snd (RateLimiter_Middleware lim rps next rl t t' t'' r w))) ip =
      (if getClientIP r = ip then Some (l\<lparr>il_lastSeen := t', il_limiter := snd (lim_Allow lim (il_limiter l) t'')\<rparr>) else Some l)
    \<and> map_of (rl_perIP (rl_cleanup rl now)) ip = (if 5 * minute < now - il_lastSeen l then None else Some l)"
proof
  let ?rl1 = "rl\<lparr>rl_global := snd (lim_Allow lim (rl_global rl) t)\<rparr>"
  let ?rl2 = "getLimiter lim ?rl1 (getClientIP r) rps t'"
  have run: "snd (RateLimiter_Middleware lim rps next rl t t' t'' r w) = snd (allow_ip lim ?rl2 (getClientIP r) t'')"
    by (simp add: Middleware_passed [OF assms(3)] Let_def)
  show "map_of (rl_perIP (snd (RateLimiter_Middleware lim rps next rl t t' t'' r w))) ip =
      (if getClientIP r = ip then Some (l\<lparr>il_lastSeen := t', il_limiter := snd (lim_Allow lim (il_limiter l) t'')\<rparr>) else Some l)"
  proof (cases "getClientIP r = ip")
    case True
    have "map_of (rl_perIP ?rl2) ip = Some (l\<lparr>il_lastSeen := t'\<rparr>)"
      unfolding True using assms(1) by (simp add: getLimiter_entry)
    then show ?thesis unfolding run using True allow_ip_entry [of ?rl2 ip "l\<lparr>il_lastSeen := t'\<rparr>" lim t''] by simp
  next
    case False
    then have ne: "ip \<noteq> getClientIP r" by simp
    then have "map_of (rl_perIP ?rl2) ip = Some l" using getLimiter_other [OF ne, of lim ?rl1] assms(1) by simp
    then show ?thesis unfolding run using allow_ip_other [OF ne prod.collapse [symmetric]] False by metis
  qed
  show "map_of (rl_perIP (rl_cleanup rl now)) ip = (if 5 * minute < now - il_lastSeen l then None else Some l)"
    using map_of_filter_entry [OF assms(2), of "\<lambda>l. \<not> 5 * minute < now - il_lastSeen l"] assms(1)
    by (simp add: rl_cleanup_def)
qed

text \<open>Two first requests of one address share a bucket. Whatever two requests of the same new address interleave, the
  second one to take the write lock finds the bucket the first one made, with the tokens already taken.\<close>

theorem first_requests_share_bucket:
  assumes "map_of (rl_perIP rl) ip = None"
  shows "map_option il_limiter (map_of (rl_perIP (getLimiter_slow lim (snd (allow_ip lim (getLimiter_slow lim rl ip rps t) ip t')) ip rps t'')) ip)
    = Some (snd (lim_Allow lim (lim_New lim rps (rl_maxBurst rl)) t'))"
proof -
  let ?e = "\<lparr>il_limiter = lim_New lim rps (rl_maxBurst rl), il_lastSeen = t\<rparr>"
  have "map_of (rl_perIP (getLimiter_slow lim rl ip rps t)) ip = Some ?e"
    using assms by (simp add: getLimiter_slow_def AList.update_conv')
  then have "map_of (rl_perIP (snd (allow_ip lim (getLimiter_slow lim rl ip rps t) ip t'))) ip
      = Some (?e\<lparr>il_limiter := snd (lim_Allow lim (lim_New lim rps (rl_maxBurst rl)) t')\<rparr>)"
    using allow_ip_entry by fastforce
  then show ?thesis by (simp add: getLimiter_slow_def touch_ip_def AList.update_conv')
qed

text \<open>C31: at most the configured number of requests run at once. In every reachable state the semaphore holds one token
  for every running request, there are at most as many as its capacity, and a request is turned away as
  too many only when exactly that many run.\<close>

theorem concurrency_bounded:
  assumes "(conc_step cap)\<^sup>*\<^sup>* \<lparr>cl_semaphore = 0, cl_running = 0\<rparr> s"
  shows "cl_semaphore s = cl_running s \<and> cl_running s \<le> cap
    \<and> (TooBusy \<in> set (conc_outcomes cap s ctx_done) \<longleftrightarrow> cl_running s = cap \<and> \<not> ctx_done)"
proof -
  have "cl_semaphore s = cl_running s \<and> cl_running s \<le> cap"
    using assms
  proof (induction rule: rtranclp_induct)
    case base
    then show ?case by simp
  next
    case (step t u)
    from step(2) show ?case
    proof cases
      case (conc_request out ctx_done)
      then show ?thesis using step(3) by (cases out) (auto simp: conc_outcomes_def Let_def split: if_splits)
    next
      case conc_done
      then show ?thesis using step(3) by (simp add: le_diff_conv trans_le_add1)
    qed
  qed
  then show ?thesis by (auto simp: conc_outcomes_def Let_def)
qed


text \<open>The address of a client. Without forwarding headers it is the remote address without its port, also for an
  IPv6 address, which has colons itself.\<close>

theorem client_address:
  assumes "header r ''X-Forwarded-For'' = ''''" and "header r ''X-Real-IP'' = ''''"
    and "rq_RemoteAddr r = host @ '':'' @ port" and "CHR '':'' \<notin> set port"
  shows "getClientIP r = host"
  using assms lastIndexOf_at [OF assms(4), of host] by (simp add: getClientIP_def)

section \<open>Concrete runs\<close>

text \<open>A bucket that counts its tokens and is never refilled.\<close>

definition count_limiter :: "(nat, nat) limiter_ops" where
  "count_limiter = \<lparr>lim_New = (\<lambda>f b. nat b), lim_Allow = (\<lambda>l t. (0 < l, l - 1))\<rparr>"

definition demo_rl :: "nat rate_limiter" where
  "demo_rl = \<lparr>rl_global = 5, rl_perIP = [(''10.0.0.1'', \<lparr>il_limiter = 2, il_lastSeen = 0\<rparr>)], rl_maxBurst = 3\<rparr>"

lemma demo_client: "getClientIP (demo_request a m p) = ''10.0.0.1''"
  by (simp add: getClientIP_def demo_request_def header_def Header_Get_def CanonicalKey_def is_token_char_def upper_char_def
      lower_char_def first_value_def lastIndexOf_def eval_nat_numeral)

theorem client_address_witness: "getClientIP (demo_request '''' ''GET'' ''/'') = ''10.0.0.1''"
  by (rule client_address [where port = "''999''"])
     (simp_all add: demo_request_def header_def Header_Get_def CanonicalKey_def is_token_char_def upper_char_def lower_char_def
        first_value_def)

theorem bucket_kept_witness:
  "map_of (rl_perIP (snd (RateLimiter_Middleware count_limiter 1 (\<lambda>r w. w) demo_rl 1 2 3 (demo_request '''' ''GET'' ''/'') fresh))) ''10.0.0.1''
     = Some \<lparr>il_limiter = 1, il_lastSeen = 2\<rparr>
   \<and> map_of (rl_perIP (rl_cleanup demo_rl 9)) ''10.0.0.1'' = Some \<lparr>il_limiter = 2, il_lastSeen = 0\<rparr>"
proof -
  have l: "map_of (rl_perIP demo_rl) ''10.0.0.1'' = Some \<lparr>il_limiter = 2, il_lastSeen = 0\<rparr>" "distinct (map fst (rl_perIP demo_rl))"
    "fst (lim_Allow count_limiter (rl_global demo_rl) 1)"
    by (simp_all add: demo_rl_def count_limiter_def)
  show ?thesis
    using bucket_kept [OF l, of 1 "\<lambda>r w. w" 2 3 "demo_request '''' ''GET'' ''/''" fresh 9]
    by (simp add: demo_client count_limiter_def minute_def second_def)
qed

theorem first_requests_share_bucket_witness:
  "map_option il_limiter (map_of (rl_perIP (getLimiter_slow count_limiter
      (snd (allow_ip count_limiter (getLimiter_slow count_limiter demo_rl ''10.0.0.2'' 1 1) ''10.0.0.2'' 2)) ''10.0.0.2'' 1 3)) ''10.0.0.2'')
   = Some 2"
  using first_requests_share_bucket [of demo_rl "''10.0.0.2''" count_limiter 1 1 2 3] by (simp add: demo_rl_def count_limiter_def)

theorem concurrency_bounded_witness:
  "\<exists>s. (conc_step 1)\<^sup>*\<^sup>* \<lparr>cl_semaphore = 0, cl_running = 0\<rparr> s \<and> cl_running s = 1 \<and> TooBusy \<in> set (conc_outcomes 1 s False)"
proof -
  let ?s0 = "\<lparr>cl_semaphore = 0, cl_running = 0\<rparr>" and ?s1 = "\<lparr>cl_semaphore = 1, cl_running = 1\<rparr>"
  have "conc_step 1 ?s0 ?s1" using conc_request [of Admitted 1 ?s0 False] by (simp add: conc_outcomes_def)
  then have r: "(conc_step 1)\<^sup>*\<^sup>* ?s0 ?s1" by (rule r_into_rtranclp)
  show ?thesis using concurrency_bounded [OF r, of False] r by (intro exI [of _ ?s1]) simp
qed

end
