(* ===== verification/S3_Handler.thy ===== *)
theory S3_Handler
  imports Storage_FileSystem Auth_Provider
begin

text \<open>
  \<^verbatim>\<open>pkg/s3/handler.go\<close>: the handlers of the S3 operations over any backend. A handler takes the state of the
  backend and a request and gives the response and the new state; a panic of the backend or of the handler
  is a value. Arguments stand for what is not in the repository: the variables of the route (\<^verbatim>\<open>gorilla/mux\<close>),
  the decoding of a request document (\<^verbatim>\<open>encoding/xml\<close>), the clock, and whether the bodies of the backend
  can seek. Logging and write errors of the connection are left out. Proved: a satisfiable range request is answered
  with exactly the requested bytes and headers that say so; what is stored over HTTP is what is
  fetched; a rejected request leaves the backend alone.
\<close>

section \<open>Errors\<close>

definition error_code :: "int \<Rightarrow> string" where
  "error_code status =
     (if status = 404 then ''NoSuchKey'' else if status = 409 then ''BucketAlreadyExists''
      else if status = 400 then ''BadRequest'' else if status = 403 then ''AccessDenied'' else ''InternalError'')"

definition sendError :: "go_error \<Rightarrow> int \<Rightarrow> response \<Rightarrow> response" where
  "sendError err status w =
     Write (xml_encode (Elem ''Error'' [] [leaf ''Code'' (error_code status), leaf ''Message'' (error_msg err)]))
       (WriteHeader status (set_header ''Content-Type'' ''application/xml'' w))"

definition set_headers :: "(string \<times> string) list \<Rightarrow> response \<Rightarrow> response" where
  "set_headers hs w = fold (\<lambda>(k, v) w. set_header k v w) hs w"

definition meta_headers :: "smap \<Rightarrow> (string \<times> string) list" where
  "meta_headers md = map (\<lambda>(k, v). (''x-amz-meta-'' @ k, v)) md"

definition send_xml :: "xml \<Rightarrow> response \<Rightarrow> response" where
  "send_xml x w = Write (xml_encode x) (set_header ''Content-Type'' ''application/xml'' w)"

text \<open>\<open>reply r status f\<close>: an error is answered with the status, a value by \<open>f\<close>.\<close>

definition reply :: "'a res \<times> 's \<Rightarrow> int \<Rightarrow> ('a \<Rightarrow> response) \<Rightarrow> response res \<times> 's" where
  "reply rs status f =
     (case rs of
        (Ok x, s) \<Rightarrow> (Ok (f x), s)
      | (Err e, s) \<Rightarrow> (Ok (sendError e status fresh), s)
      | (Panic p, s) \<Rightarrow> (Panic p, s))"

definition is_mc_client :: "request \<Rightarrow> bool" where
  "is_mc_client r =
     (let ua = ToLower (header r ''User-Agent'') in Contains ua ''minio'' \<or> Contains ua ''mc'')"

section \<open>Service and buckets\<close>

definition isValidBucket :: "'s backend \<Rightarrow> 's \<Rightarrow> string \<Rightarrow> bool res \<times> 's" where
  "isValidBucket bk s bucket =
     (case bk_BucketExists bk s bucket of
        (Ok exists, s') \<Rightarrow> (Ok exists, s')
      | (Err e, s') \<Rightarrow> (Ok False, s')
      | (Panic p, s') \<Rightarrow> (Panic p, s'))"

definition listBuckets :: "'s backend \<Rightarrow> 's \<Rightarrow> response res \<times> 's" where
  "listBuckets bk s =
     reply (bk_ListBuckets bk s) 500 (\<lambda>buckets.
       send_xml (Elem ''ListAllMyBucketsResult'' []
         [Elem ''Owner'' [] [leaf ''ID'' ''s3proxy'', leaf ''DisplayName'' ''S3Proxy''],
          Elem ''Buckets'' [] (map (\<lambda>b. Elem ''Bucket'' [] [leaf ''Name'' (bi_Name b),
             leaf ''CreationDate'' (FormatRFC3339 (bi_CreationDate b))]) buckets)]) fresh)"

definition positive_param :: "string \<Rightarrow> int \<Rightarrow> int" where
  "positive_param str dflt = (case ParseInt str of Ok n \<Rightarrow> if str \<noteq> '''' \<and> 0 < n then n else dflt | _ \<Rightarrow> dflt)"

definition listObjects :: "'s backend \<Rightarrow> 's \<Rightarrow> request \<Rightarrow> string \<Rightarrow> response res \<times> 's" where
  "listObjects bk s r bucket =
     (let prefix = Query_Get r ''prefix''; marker = Query_Get r ''marker''; delimiter = Query_Get r ''delimiter'';
          maxKeys = positive_param (Query_Get r ''max-keys'') 1000
      in reply (bk_ListObjectsWithDelimiter bk s bucket prefix marker delimiter maxKeys) 500 (\<lambda>result.
           send_xml (Elem ''ListBucketResult'' []
             ([leaf ''Name'' bucket, leaf ''Prefix'' prefix, leaf ''Marker'' marker] @ omit_empty ''NextMarker'' (lr_NextMarker result)
              @ [leaf ''MaxKeys'' (FormatInt maxKeys), leaf ''IsTruncated'' (format_bool (lr_IsTruncated result))]
              @ map (\<lambda>ob. Elem ''Contents'' [] [leaf ''Key'' (oi_Key ob), leaf ''LastModified'' (FormatRFC3339 (oi_LastModified ob)),
                   leaf ''ETag'' (oi_ETag ob), leaf ''Size'' (FormatInt (oi_Size ob)), leaf ''StorageClass'' ''STANDARD'']) (lr_Contents result)
              @ map (\<lambda>p. Elem ''CommonPrefixes'' [] [leaf ''Prefix'' p]) (lr_CommonPrefixes result))) fresh))"

definition createBucket :: "'s backend \<Rightarrow> 's \<Rightarrow> string \<Rightarrow> response res \<times> 's" where
  "createBucket bk s bucket = reply (bk_CreateBucket bk s bucket) 409 (\<lambda>_. WriteHeader 200 fresh)"

definition deleteBucket :: "'s backend \<Rightarrow> 's \<Rightarrow> string \<Rightarrow> response res \<times> 's" where
  "deleteBucket bk s bucket = reply (bk_DeleteBucket bk s bucket) 409 (\<lambda>_. WriteHeader 204 fresh)"

definition headBucket :: "'s backend \<Rightarrow> 's \<Rightarrow> string \<Rightarrow> response res \<times> 's" where
  "headBucket bk s bucket =
     reply (bk_BucketExists bk s bucket) 500 (\<lambda>exists.
       if exists then WriteHeader 200 fresh else sendError (ErrNew ''bucket not found'') 404 fresh)"

definition bucket_method :: "'s backend \<Rightarrow> 's \<Rightarrow> request \<Rightarrow> string \<Rightarrow> response res \<times> 's" where
  "bucket_method bk s r bucket =
     (if rq_Method r = ''GET'' then listObjects bk s r bucket
      else if rq_Method r = ''PUT'' then createBucket bk s bucket
      else if rq_Method r = ''DELETE'' then deleteBucket bk s bucket
      else if rq_Method r = ''HEAD'' then headBucket bk s bucket
      else (Ok fresh, s))"

definition handleBucket :: "'s backend \<Rightarrow> 's \<Rightarrow> request \<Rightarrow> string \<Rightarrow> response res \<times> 's" where
  "handleBucket bk s r bucket =
     (if is_mc_client r then
        (case isValidBucket bk s bucket of
           (Ok True, s1) \<Rightarrow> bucket_method bk s1 r bucket
         | (Ok False, s1) \<Rightarrow> (Ok (sendError (ErrNew ''bucket not found'') 404 fresh), s1)
         | (Err e, s1) \<Rightarrow> (Err e, s1)
         | (Panic p, s1) \<Rightarrow> (Panic p, s1))
      else bucket_method bk s r bucket)"

section \<open>Ranges\<close>

record byte_range =
  br_start :: int
  br_end :: int

definition parse_range_part :: "string \<Rightarrow> byte_range res" where
  "parse_range_part part =
     (if HasPrefix part ''-'' then
        res_bind (ParseInt (drop 1 part)) (\<lambda>n. Ok \<lparr>br_start = i64 (- n), br_end = -1\<rparr>)
      else if HasSuffix part ''-'' then
        res_bind (ParseInt (take (length part - 1) part)) (\<lambda>n. Ok \<lparr>br_start = n, br_end = -1\<rparr>)
      else
        let idx = Index part ''-'' in
        if idx < 0 then Err (ErrNew ''invalid range spec'')
        else res_bind (ParseInt (take (nat idx) part)) (\<lambda>start.
             res_bind (ParseInt (drop (nat idx + 1) part)) (\<lambda>e. Ok \<lparr>br_start = start, br_end = e\<rparr>)))"

fun parse_range_parts :: "string list \<Rightarrow> byte_range list res" where
  "parse_range_parts [] = Ok []"
| "parse_range_parts (p # ps) =
     (let part = TrimSpace p in
      if part = '''' then parse_range_parts ps
      else res_bind (parse_range_part part) (\<lambda>r. res_bind (parse_range_parts ps) (\<lambda>rs. Ok (r # rs))))"

definition parseRangeHeader :: "string \<Rightarrow> byte_range list res" where
  "parseRangeHeader h =
     (if \<not> HasPrefix h ''bytes='' then Err (ErrNew ''invalid range header'')
      else parse_range_parts (Split (TrimPrefix h ''bytes='') '',''))"

text \<open>The adjusted range, \<^verbatim>\<open>None\<close> when it cannot be satisfied.\<close>

definition adjust_range :: "byte_range \<Rightarrow> int \<Rightarrow> (int \<times> int) option" where
  "adjust_range rng sz =
     (let start = (if br_start rng < 0 then i64 (sz + br_start rng) else br_start rng);
          e = (if br_end rng < 0 \<or> sz \<le> br_end rng then i64 (sz - 1) else br_end rng)
      in if e < start \<or> sz \<le> start then None else Some (start, e))"

text \<open>Skipping to the start: \<^verbatim>\<open>Seek\<close>, or reading and discarding.\<close>

definition skip_to :: "bool \<Rightarrow> reader \<Rightarrow> int \<Rightarrow> reader res" where
  "skip_to seekable body start =
     (if start \<le> 0 then Ok body
      else if seekable \<or> nat start \<le> length (rd_data body) then Ok (body\<lparr>rd_data := drop (nat start) (rd_data body)\<rparr>)
      else Err (case rd_err body of Some e \<Rightarrow> e | None \<Rightarrow> ErrEOF))"

definition object_headers :: "string \<Rightarrow> int \<Rightarrow> string \<Rightarrow> time \<Rightarrow> (string \<times> string) list" where
  "object_headers contentType len etag modified =
     [(''Content-Type'', contentType), (''Content-Length'', FormatInt len), (''ETag'', etag),
      (''Last-Modified'', FormatHTTP modified), (''Accept-Ranges'', ''bytes'')]"

definition getRangeObject ::
  "'s backend \<Rightarrow> bool \<Rightarrow> 's \<Rightarrow> string \<Rightarrow> string \<Rightarrow> string \<Rightarrow> response res \<times> 's" where
  "getRangeObject bk seekable s bucket key rangeHeader =
     (case parseRangeHeader rangeHeader of
        Ok (rng # others) \<Rightarrow>
          (case bk_HeadObject bk s bucket key of
             (Err e, s1) \<Rightarrow> (Ok (sendError e 404 fresh), s1)
           | (Panic p, s1) \<Rightarrow> (Panic p, s1)
           | (Ok info, s1) \<Rightarrow>
               if others \<noteq> [] then (Ok (sendError (ErrNew ''multiple ranges not supported'') 416 fresh), s1)
               else case adjust_range rng (oi_Size info) of
                 None \<Rightarrow>
                   (Ok (sendError (ErrNew ''invalid range'') 416
                      (set_header ''Content-Range'' (''bytes */'' @ FormatInt (oi_Size info)) fresh)), s1)
               | Some (start, e) \<Rightarrow>
                   (case bk_GetObject bk s1 bucket key of
                      (Err err, s2) \<Rightarrow> (Ok (sendError err 404 fresh), s2)
                    | (Panic p, s2) \<Rightarrow> (Panic p, s2)
                    | (Ok obj, s2) \<Rightarrow>
                        (case skip_to seekable (ob_Body obj) start of
                           Err err \<Rightarrow> (Ok (sendError err 500 fresh), s2)
                         | Panic p \<Rightarrow> (Panic p, s2)
                         | Ok body \<Rightarrow>
                             let contentLength = i64 (e - start + 1) in
                             (Ok (Write (take (nat contentLength) (rd_data body)) (WriteHeader 206
                                (set_headers (meta_headers (oi_Metadata info))
                                  (set_header ''Content-Range''
                                     (''bytes '' @ FormatInt start @ ''-'' @ FormatInt e @ ''/'' @ FormatInt (oi_Size info))
                                     (set_headers (object_headers (oi_ContentType info) contentLength (oi_ETag info) (oi_LastModified info))
                                       fresh))))), s2))))
      | Panic p \<Rightarrow> (Panic p, s)
      | _ \<Rightarrow> (Ok (sendError (ErrNew ''invalid range'') 416 fresh), s))"

section \<open>Objects\<close>

definition getObject :: "'s backend \<Rightarrow> bool \<Rightarrow> 's \<Rightarrow> request \<Rightarrow> string \<Rightarrow> string \<Rightarrow> response res \<times> 's" where
  "getObject bk seekable s r bucket key =
     (let rangeHeader = header r ''Range'' in
      if rangeHeader \<noteq> '''' then getRangeObject bk seekable s bucket key rangeHeader
      else reply (bk_GetObject bk s bucket key) 404 (\<lambda>obj.
             Write (rd_data (ob_Body obj)) (set_headers (meta_headers (ob_Metadata obj))
               (set_headers (object_headers (ob_ContentType obj) (ob_Size obj) (ob_ETag obj) (ob_LastModified obj)) fresh))))"

definition smallFileLimit :: int where
  "smallFileLimit = 100 * 1024"

fun collect_metadata :: "headers \<Rightarrow> smap \<Rightarrow> smap res" where
  "collect_metadata [] md = Ok md"
| "collect_metadata ((k, vs) # hs) md =
     (if HasPrefix (ToLower k) ''x-amz-meta-'' then
        (case vs of
           [] \<Rightarrow> Panic ''index out of range [0] with length 0''
         | v # _ \<Rightarrow> collect_metadata hs (AList.update (TrimPrefix (ToLower k) ''x-amz-meta-'') v md))
      else collect_metadata hs md)"

text \<open>The body that is stored and its entity tag; a large body is passed on and gets a tag from the clock.\<close>

definition put_body :: "request \<Rightarrow> (reader \<times> string) res" where
  "put_body r =
     (let sz = rq_ContentLength r in
      if sz = 0 then Ok (bytes_reader [], dquote ''d41d8cd98f00b204e9800998ecf8427e'')
      else if sz \<le> smallFileLimit then
        (case ReadFull (rq_Body r) (nat sz) of
           (buf, None) \<Rightarrow> Ok (bytes_reader buf, dquote (hex_encode (md5 buf)))
         | (buf, Some e) \<Rightarrow> Err e)
      else Ok (rq_Body r, ''''))"

definition putObject :: "'s backend \<Rightarrow> time \<Rightarrow> 's \<Rightarrow> request \<Rightarrow> string \<Rightarrow> string \<Rightarrow> response res \<times> 's" where
  "putObject bk now s r bucket key =
     (if rq_ContentLength r < 0 then (Ok (sendError (ErrNew ''missing Content-Length'') 400 fresh), s)
      else case put_body r of
        Err e \<Rightarrow> (Ok (sendError e 400 fresh), s)
      | Panic p \<Rightarrow> (Panic p, s)
      | Ok (body, etag) \<Rightarrow>
          (case collect_metadata (rq_Header r) [] of
             Panic p \<Rightarrow> (Panic p, s)
           | Err e \<Rightarrow> (Err e, s)
           | Ok metadata \<Rightarrow>
               reply (bk_PutObject bk s bucket key body (rq_ContentLength r) metadata) 500 (\<lambda>_.
                 WriteHeader 200 (set_header ''ETag'' (if etag = '''' then dquote (FormatHex now) else etag) fresh))))"

definition deleteObject :: "'s backend \<Rightarrow> 's \<Rightarrow> string \<Rightarrow> string \<Rightarrow> response res \<times> 's" where
  "deleteObject bk s bucket key = reply (bk_DeleteObject bk s bucket key) 404 (\<lambda>_. WriteHeader 204 fresh)"

definition headObject :: "'s backend \<Rightarrow> 's \<Rightarrow> string \<Rightarrow> string \<Rightarrow> response res \<times> 's" where
  "headObject bk s bucket key =
     reply (bk_HeadObject bk s bucket key) 404 (\<lambda>info.
       WriteHeader 200 (set_headers (meta_headers (oi_Metadata info))
         (set_headers [(''Content-Length'', FormatInt (oi_Size info)), (''ETag'', oi_ETag info),
            (''Last-Modified'', FormatHTTP (oi_LastModified info))] fresh)))"

section \<open>Multipart uploads\<close>

definition initiateMultipartUpload :: "'s backend \<Rightarrow> 's \<Rightarrow> request \<Rightarrow> string \<Rightarrow> string \<Rightarrow> response res \<times> 's" where
  "initiateMultipartUpload bk s r bucket key =
     (case collect_metadata (rq_Header r) [] of
        Panic p \<Rightarrow> (Panic p, s)
      | Err e \<Rightarrow> (Err e, s)
      | Ok metadata \<Rightarrow>
          reply (bk_InitiateMultipartUpload bk s bucket key metadata) 500 (\<lambda>uploadID.
            let doc = bytes_of xml_header @ xml_encode (Elem ''InitiateMultipartUploadResult'' []
                        [leaf ''Bucket'' bucket, leaf ''Key'' key, leaf ''UploadId'' uploadID])
            in Write doc (WriteHeader 200 (set_headers [(''Content-Type'', ''application/xml''),
                 (''Content-Length'', FormatInt (int (length doc)))] fresh))))"

definition handle_uploadPart ::
  "'s backend \<Rightarrow> 's \<Rightarrow> request \<Rightarrow> string \<Rightarrow> string \<Rightarrow> string \<Rightarrow> string \<Rightarrow> response res \<times> 's" where
  "handle_uploadPart bk s r bucket key uploadID partNumberStr =
     (case ParseInt partNumberStr of
        Ok partNumber \<Rightarrow>
          if partNumber < 1 \<or> 10000 < partNumber then (Ok (sendError (ErrNew ''invalid part number'') 400 fresh), s)
          else if rq_ContentLength r < 0 then (Ok (sendError (ErrNew ''missing Content-Length'') 400 fresh), s)
          else reply (bk_UploadPart bk s bucket key uploadID partNumber (rq_Body r) (rq_ContentLength r)) 500 (\<lambda>etag.
                 WriteHeader 200 (set_header ''ETag'' etag fresh))
      | _ \<Rightarrow> (Ok (sendError (ErrNew ''invalid part number'') 400 fresh), s))"

definition completeMultipartUpload ::
  "'s backend \<Rightarrow> (reader \<Rightarrow> completed_part list res) \<Rightarrow> time \<Rightarrow> 's \<Rightarrow> request \<Rightarrow> string \<Rightarrow> string \<Rightarrow> string \<Rightarrow> response res \<times> 's" where
  "completeMultipartUpload bk decode now s r bucket key uploadID =
     (case decode (rq_Body r) of
        Err e \<Rightarrow> (Ok (sendError e 400 fresh), s)
      | Panic p \<Rightarrow> (Panic p, s)
      | Ok parts \<Rightarrow>
          reply (bk_CompleteMultipartUpload bk s bucket key uploadID parts) 500 (\<lambda>_.
            send_xml (Elem ''CompleteMultipartUploadResult'' []
              [leaf ''Location'' (''http://'' @ rq_Host r @ ''/'' @ bucket @ ''/'' @ key), leaf ''Bucket'' bucket, leaf ''Key'' key,
               leaf ''ETag'' (dquote (FormatHex now @ ''-'' @ FormatInt (int (length parts))))]) fresh))"

definition abortMultipartUpload :: "'s backend \<Rightarrow> 's \<Rightarrow> string \<Rightarrow> string \<Rightarrow> string \<Rightarrow> response res \<times> 's" where
  "abortMultipartUpload bk s bucket key uploadID =
     reply (bk_AbortMultipartUpload bk s bucket key uploadID) 500 (\<lambda>_. WriteHeader 204 fresh)"

definition handle_listParts :: "'s backend \<Rightarrow> 's \<Rightarrow> request \<Rightarrow> string \<Rightarrow> string \<Rightarrow> string \<Rightarrow> response res \<times> 's" where
  "handle_listParts bk s r bucket key uploadID =
     (let maxParts = positive_param (Query_Get r ''max-parts'') 1000;
          markerStr = Query_Get r ''part-number-marker'';
          partNumberMarker = (if markerStr = '''' then 0 else case ParseInt markerStr of Ok n \<Rightarrow> n | _ \<Rightarrow> 0)
      in reply (bk_ListParts bk s bucket key uploadID maxParts partNumberMarker) 500 (\<lambda>result.
           send_xml (Elem ''ListPartsResult'' []
             ([leaf ''Bucket'' bucket, leaf ''Key'' key, leaf ''UploadId'' uploadID, leaf ''PartNumberMarker'' (FormatInt partNumberMarker)]
              @ (if lp_NextPartNumberMarker result = 0 then []
                 else [leaf ''NextPartNumberMarker'' (FormatInt (lp_NextPartNumberMarker result))])
              @ [leaf ''MaxParts'' (FormatInt maxParts), leaf ''IsTruncated'' (format_bool (lp_IsTruncated result))]
              @ map (\<lambda>p. Elem ''Part'' [] [leaf ''PartNumber'' (FormatInt (pt_PartNumber p)),
                   leaf ''LastModified'' (FormatRFC3339 (pt_LastModified p)), leaf ''ETag'' (pt_ETag p),
                   leaf ''Size'' (FormatInt (pt_Size p))]) (lp_Parts result))) fresh))"

section \<open>Access control lists\<close>

definition getObjectACL :: "'s backend \<Rightarrow> 's \<Rightarrow> string \<Rightarrow> string \<Rightarrow> response res \<times> 's" where
  "getObjectACL bk s bucket key =
     reply (bk_GetObjectACL bk s bucket key) 500 (\<lambda>a.
       send_xml (Elem ''AccessControlPolicy'' []
         [Elem ''Owner'' [] [leaf ''ID'' (ow_ID (acl_Owner a)), leaf ''DisplayName'' (ow_DisplayName (acl_Owner a))],
          Elem ''AccessControlList'' [] (map (\<lambda>g. let e = gr_Grantee g in
            Elem ''Grant'' [] [Elem ''Grantee'' [(''xsi:type'', ge_Type e)]
                (omit_empty ''ID'' (ge_ID e) @ omit_empty ''DisplayName'' (ge_DisplayName e) @ omit_empty ''URI'' (ge_URI e)),
              leaf ''Permission'' (gr_Permission g)]) (acl_Grants a))]) fresh)"

definition putObjectACL :: "'s backend \<Rightarrow> 's \<Rightarrow> string \<Rightarrow> string \<Rightarrow> response res \<times> 's" where
  "putObjectACL bk s bucket key = reply (bk_PutObjectACL bk s bucket key None) 500 (\<lambda>_. WriteHeader 200 fresh)"

section \<open>Dispatch\<close>

definition object_method :: "'s backend \<Rightarrow> bool \<Rightarrow> time \<Rightarrow> 's \<Rightarrow> request \<Rightarrow> string \<Rightarrow> string \<Rightarrow> response res \<times> 's" where
  "object_method bk seekable now s r bucket key =
     (if rq_Method r = ''GET'' then getObject bk seekable s r bucket key
      else if rq_Method r = ''PUT'' then putObject bk now s r bucket key
      else if rq_Method r = ''DELETE'' then deleteObject bk s bucket key
      else if rq_Method r = ''HEAD'' then headObject bk s bucket key
      else (Ok fresh, s))"

definition handleObject ::
  "'s backend \<Rightarrow> (reader \<Rightarrow> completed_part list res) \<Rightarrow> bool \<Rightarrow> time \<Rightarrow> 's \<Rightarrow> request \<Rightarrow> string \<Rightarrow> string \<Rightarrow> response res \<times> 's" where
  "handleObject bk decode seekable now s r bucket key =
     (let uploadID = Query_Get r ''uploadId''; partNumber = Query_Get r ''partNumber'' in
      if uploadID \<noteq> '''' \<and> rq_Method r = ''POST'' then completeMultipartUpload bk decode now s r bucket key uploadID
      else if uploadID \<noteq> '''' \<and> rq_Method r = ''DELETE'' then abortMultipartUpload bk s bucket key uploadID
      else if uploadID \<noteq> '''' \<and> rq_Method r = ''GET'' then handle_listParts bk s r bucket key uploadID
      else if uploadID \<noteq> '''' \<and> rq_Method r = ''PUT'' \<and> partNumber \<noteq> ''''
      then handle_uploadPart bk s r bucket key uploadID partNumber
      else if map_of (rq_Query r) ''uploads'' \<noteq> None \<and> rq_Method r = ''POST'' then initiateMultipartUpload bk s r bucket key
      else if Query_Get r ''acl'' \<noteq> '''' \<and> rq_Method r = ''GET'' then getObjectACL bk s bucket key
      else if Query_Get r ''acl'' \<noteq> '''' \<and> rq_Method r = ''PUT'' then putObjectACL bk s bucket key
      else object_method bk seekable now s r bucket key)"

text \<open>The routes: what the router of \<^verbatim>\<open>gorilla/mux\<close> matched, or answered itself, is an argument.\<close>

datatype route = ServiceRoute | BucketRoute string | ObjectRoute string string | NoRoute response

definition noBucketMatcher :: "request \<Rightarrow> bool" where
  "noBucketMatcher r \<longleftrightarrow> rq_Path r = ''/'' \<or> rq_Path r = ''''"

definition Handler_ServeHTTP ::
  "'s backend \<Rightarrow> (reader \<Rightarrow> completed_part list res) \<Rightarrow> bool \<Rightarrow> (request \<Rightarrow> route) \<Rightarrow> time \<Rightarrow> 's \<Rightarrow> request \<Rightarrow> response res \<times> 's" where
  "Handler_ServeHTTP bk decode seekable match now s r =
     (case match r of
        ServiceRoute \<Rightarrow> listBuckets bk s
      | BucketRoute bucket \<Rightarrow> handleBucket bk s r bucket
      | ObjectRoute bucket key \<Rightarrow> handleObject bk decode seekable now s r bucket key
      | NoRoute w \<Rightarrow> (Ok w, s))"

definition isClientDisconnectError :: "go_error option \<Rightarrow> bool" where
  "isClientDisconnectError err =
     (case err of
        None \<Rightarrow> False
      | Some e \<Rightarrow> Contains (error_msg e) ''broken pipe'' \<or> Contains (error_msg e) ''connection reset''
          \<or> Contains (error_msg e) ''write: connection refused'')"

section \<open>Headers of a response\<close>

lemma rp_set_headers [simp]:
  "rp_Status (set_headers hs w) = rp_Status w" "rp_Body (set_headers hs w) = rp_Body w"
  by (induction hs arbitrary: w) (auto simp: set_headers_def)

lemma set_headers_Nil [simp]: "set_headers [] w = w"
  by (simp add: set_headers_def)

lemma set_headers_Cons [simp]: "set_headers ((k, v) # hs) w = set_headers hs (set_header k v w)"
  by (simp add: set_headers_def)

lemma upper_lower_char [simp]: "lower_char (upper_char c) = lower_char c" "lower_char (lower_char c) = lower_char c"
  by (auto simp: lower_char_def upper_char_def Let_def)

lemma ToLower_canonical_from [simp]: "ToLower (canonical_from up s) = ToLower s"
  by (induction up s rule: canonical_from.induct) (auto simp: ToLower_def)

lemma ToLower_Canonical [simp]: "ToLower (CanonicalKey s) = ToLower s"
  by (simp add: CanonicalKey_def)

lemma ToLower_idem [simp]: "ToLower (ToLower s) = ToLower s"
  by (simp add: ToLower_def comp_def)

lemma Canonical_neq: "ToLower k \<noteq> ToLower k' \<Longrightarrow> CanonicalKey k \<noteq> CanonicalKey k'"
  by (metis ToLower_Canonical)

lemma object_header_keys:
  "CanonicalKey ''Content-Range'' = ''Content-Range''" "CanonicalKey ''Content-Length'' = ''Content-Length''"
  "CanonicalKey ''Content-Type'' = ''Content-Type''" "CanonicalKey ''ETag'' = ''Etag''"
  "CanonicalKey ''Last-Modified'' = ''Last-Modified''" "CanonicalKey ''Accept-Ranges'' = ''Accept-Ranges''"
  by code_simp+

text \<open>A header of the user's metadata is none of the standard headers.\<close>

lemma Header_Get_meta [simp]:
  assumes "rp_Status w = 0" and "k \<in> {''Content-Type'', ''Content-Length'', ''Content-Range'', ''ETag'', ''Last-Modified'', ''Accept-Ranges''}"
  shows "Header_Get (rp_Header (set_headers (meta_headers md) w)) k = Header_Get (rp_Header w) k"
  using assms
proof (induction md arbitrary: w)
  case Nil
  then show ?case by (simp add: meta_headers_def)
next
  case (Cons kv md)
  obtain m v where kv: "kv = (m, v)" by (cases kv)
  have "list_all (\<lambda>k. hd (ToLower k) \<noteq> CHR ''x'')
      [''Content-Type'', ''Content-Length'', ''Content-Range'', ''ETag'', ''Last-Modified'', ''Accept-Ranges'']"
    by code_simp
  then have "hd (ToLower k) \<noteq> CHR ''x''" using Cons.prems(2) by auto
  moreover have "hd (ToLower (''x-amz-meta-'' @ m)) = CHR ''x''" by (simp add: ToLower_def lower_char_def)
  ultimately have "CanonicalKey (''x-amz-meta-'' @ m) \<noteq> CanonicalKey k" using Canonical_neq by metis
  then show ?case
    using Cons.IH [of "set_header (''x-amz-meta-'' @ m) v w"] Cons.prems by (simp add: kv meta_headers_def)
qed

text \<open>Metadata names in lower case are read back.\<close>

lemma Header_Get_metadata:
  assumes "rp_Status w = 0" and "wf_smap md" and "\<forall>m' \<in> fst ` set md. ToLower m' = m'" and "ToLower m = m"
  shows "Header_Get (rp_Header (set_headers (meta_headers md) w)) (''x-amz-meta-'' @ m) =
    (case map_of md m of Some v \<Rightarrow> v | None \<Rightarrow> Header_Get (rp_Header w) (''x-amz-meta-'' @ m))"
  using assms(1-3)
proof (induction md arbitrary: w)
  case Nil
  then show ?case by (simp add: meta_headers_def)
next
  case (Cons kv md)
  obtain m' v where kv: "kv = (m', v)" by (cases kv)
  have "CanonicalKey (''x-amz-meta-'' @ m') = CanonicalKey (''x-amz-meta-'' @ m) \<longleftrightarrow> m' = m"
    using Canonical_neq [of "''x-amz-meta-'' @ m'" "''x-amz-meta-'' @ m"] Cons.prems(3) assms(4)
    by (auto simp: kv ToLower_def)
  then show ?case
    using Cons.IH [of "set_header (''x-amz-meta-'' @ m') v w"] Cons.prems
    by (auto simp: kv meta_headers_def wf_smap_Cons split: option.splits)
qed

section \<open>Reading the range header\<close>

lemma TrimSpace_id: "\<forall>c \<in> set s. \<not> is_space c \<Longrightarrow> TrimSpace s = s"
proof -
  assume s: "\<forall>c \<in> set s. \<not> is_space c"
  have "dropWhile is_space t = t" if "\<forall>c \<in> set t. \<not> is_space c" for t using that by (cases t) auto
  from this [of s] this [of "rev s"] s show ?thesis by (simp add: TrimSpace_def)
qed

lemma Split_single: "CHR '','' \<notin> set s \<Longrightarrow> Split s '','' = [s]"
proof -
  have "CHR '','' \<notin> set s \<Longrightarrow> split_aux '','' acc s = [rev acc @ s]" for acc
    by (induction s arbitrary: acc) (auto simp: HasPrefix_def)
  then show "CHR '','' \<notin> set s \<Longrightarrow> Split s '','' = [s]" by (simp add: Split_def)
qed

lemma Index_after: "CHR ''-'' \<notin> set s \<Longrightarrow> Index (s @ CHR ''-'' # t) ''-'' = int (length s)"
  by (induction s) (auto simp: HasPrefix_def Let_def)

text \<open>The range requests of HTTP, as they are written and as they are meant.\<close>

datatype range_spec = From_to nat nat | From nat | Last nat

primrec range_text :: "range_spec \<Rightarrow> string" where
  "range_text (From_to a b) = dec_digits a @ ''-'' @ dec_digits b"
| "range_text (From a) = dec_digits a @ ''-''"
| "range_text (Last n) = ''-'' @ dec_digits n"

primrec satisfiable :: "range_spec \<Rightarrow> nat \<Rightarrow> bool" where
  "satisfiable (From_to a b) len = (a \<le> b \<and> a < len)"
| "satisfiable (From a) len = (a < len)"
| "satisfiable (Last n) len = (0 < n \<and> 0 < len)"

primrec selected :: "range_spec \<Rightarrow> 'a list \<Rightarrow> 'a list" where
  "selected (From_to a b) xs = take (b + 1 - a) (drop a xs)"
| "selected (From a) xs = drop a xs"
| "selected (Last n) xs = drop (length xs - n) xs"

primrec first_pos :: "range_spec \<Rightarrow> nat \<Rightarrow> nat" where
  "first_pos (From_to a b) len = a"
| "first_pos (From a) len = a"
| "first_pos (Last n) len = len - n"

primrec spec_i64 :: "range_spec \<Rightarrow> bool" where
  "spec_i64 (From_to a b) = (in_i64 (int a) \<and> in_i64 (int b))"
| "spec_i64 (From a) = in_i64 (int a)"
| "spec_i64 (Last n) = in_i64 (int n)"

primrec parsed_range :: "range_spec \<Rightarrow> byte_range" where
  "parsed_range (From_to a b) = \<lparr>br_start = int a, br_end = int b\<rparr>"
| "parsed_range (From a) = \<lparr>br_start = int a, br_end = -1\<rparr>"
| "parsed_range (Last n) = \<lparr>br_start = - int n, br_end = -1\<rparr>"

lemma ParseInt_digits: "in_i64 (int n) \<Longrightarrow> ParseInt (dec_digits n) = Ok (int n)"
  using ParseInt_FormatInt [of "int n"] by (simp add: FormatInt_def)

lemma digit_not: "is_digit c \<Longrightarrow> c \<noteq> CHR ''-'' \<and> c \<noteq> CHR '','' \<and> \<not> is_space c"
  by (auto simp: is_digit_def is_space_def)

lemma not_prefix_digits: "\<not> HasPrefix (dec_digits a @ t) ''-''"
  using hd_dec_digits(1) [of a] by (cases "dec_digits a") (auto simp: HasPrefix_def)

lemma parse_range_text:
  assumes "spec_i64 rs"
  shows "parseRangeHeader (''bytes='' @ range_text rs) = Ok [parsed_range rs]"
proof -
  have no: "CHR ''-'' \<notin> set (dec_digits n)" for n using dec_digits_digits digit_not by blast
  have "\<forall>c \<in> set (range_text rs). c \<noteq> CHR '','' \<and> \<not> is_space c"
    using dec_digits_digits digit_not by (cases rs) (auto simp: is_space_def)
  then have "Split (range_text rs) '','' = [range_text rs]" "TrimSpace (range_text rs) = range_text rs"
    by (auto intro!: Split_single TrimSpace_id)
  moreover have "range_text rs \<noteq> ''''" by (cases rs) auto
  moreover have "parse_range_part (range_text rs) = Ok (parsed_range rs)"
  proof (cases rs)
    case (From_to a b)
    have "\<not> HasSuffix (dec_digits a @ ''-'' @ dec_digits b) ''-''"
    proof
      assume "HasSuffix (dec_digits a @ ''-'' @ dec_digits b) ''-''"
      then obtain t where "dec_digits a @ ''-'' @ dec_digits b = t @ ''-''" by (auto simp: HasSuffix_iff)
      from arg_cong [OF this, of last] have "last (dec_digits b) = CHR ''-''" by simp
      then show False using no [of b] last_in_set [OF dec_digits_not_Nil, of b] by simp
    qed
    then show ?thesis
      using From_to assms no [of a] not_prefix_digits [of a "''-'' @ dec_digits b"]
      by (simp add: parse_range_part_def Let_def Index_after ParseInt_digits)
  next
    case (From a)
    then show ?thesis
      using assms not_prefix_digits [of a "''-''"] by (simp add: parse_range_part_def ParseInt_digits)
  next
    case (Last n)
    have "in_i64 (- int n)" using assms Last by (simp add: in_i64_def)
    then show ?thesis using assms Last by (simp add: parse_range_part_def HasPrefix_def ParseInt_digits)
  qed
  ultimately show ?thesis by (simp add: parseRangeHeader_def HasPrefix_def TrimPrefix_def)
qed

text \<open>The adjustment: for a satisfiable range, except a suffix longer than the object, the first and the last position.\<close>

lemma adjust_satisfiable:
  assumes "satisfiable rs len" and "spec_i64 rs" and "in_i64 (int len)" and "\<And>n. rs = Last n \<Longrightarrow> n \<le> len"
  obtains e where "adjust_range (parsed_range rs) (int len) = Some (int (first_pos rs len), int e)"
    "first_pos rs len \<le> e" "e < len"
    "\<And>xs :: 'a list. length xs = len \<Longrightarrow> selected rs xs = take (e + 1 - first_pos rs len) (drop (first_pos rs len) xs)"
proof (cases rs)
  case (From_to a b)
  then have ab: "a \<le> b" "a < len" "in_i64 (int len - 1)" using assms by (auto simp: in_i64_def)
  show thesis
  proof (cases "b < len")
    case True
    then show thesis using From_to ab that [of b] by (auto simp: adjust_range_def Let_def)
  next
    case False
    then show thesis using From_to ab that [of "len - 1"] by (auto simp: adjust_range_def Let_def of_nat_diff)
  qed
next
  case (From a)
  then show thesis
    using assms that [of "len - 1"] by (auto simp: adjust_range_def Let_def in_i64_def of_nat_diff)
next
  case (Last n)
  then have "n \<le> len" "0 < n" using assms by auto
  then show thesis
    using Last assms that [of "len - 1"] by (auto simp: adjust_range_def Let_def in_i64_def of_nat_diff)
qed

section \<open>The contract of a backend the handler reads from\<close>

text \<open>\<open>holds s b k bs info\<close>: the object is stored, \<open>info\<close> is what \<^verbatim>\<open>HeadObject\<close> says of it, and
  \<^verbatim>\<open>GetObject\<close> delivers all of \<open>bs\<close> and says the same.\<close>

locale object_reader =
  fixes bk :: "'s backend"
    and holds :: "'s \<Rightarrow> string \<Rightarrow> string \<Rightarrow> bytes \<Rightarrow> object_info \<Rightarrow> bool"
  assumes head_holds: "holds s b k bs info \<Longrightarrow> \<exists>s'. bk_HeadObject bk s b k = (Ok info, s') \<and> holds s' b k bs info"
    and get_holds: "holds s b k bs info \<Longrightarrow>
      \<exists>ob s'. bk_GetObject bk s b k = (Ok ob, s') \<and> ob_Body ob = bytes_reader bs \<and> ob_Size ob = oi_Size info
        \<and> ob_ETag ob = oi_ETag info \<and> ob_Metadata ob = oi_Metadata info \<and> holds s' b k bs info"
    and size_holds: "holds s b k bs info \<Longrightarrow> oi_Size info = int (length bs)"
begin

lemma range_served:
  assumes h: "holds s b k bs info" and parse: "parseRangeHeader h = Ok [rng]"
    and adj: "adjust_range rng (int (length bs)) = Some (st, e)" and st: "st \<le> int (length bs)"
  shows "\<exists>w s'. getRangeObject bk seekable s b k h = (Ok w, s') \<and> holds s' b k bs info
    \<and> rp_Status w = 206 \<and> rp_Body w = take (nat (i64 (e - st + 1))) (drop (nat st) bs)
    \<and> Header_Get (rp_Header w) ''Content-Length'' = FormatInt (i64 (e - st + 1))
    \<and> Header_Get (rp_Header w) ''Content-Range'' = ''bytes '' @ FormatInt st @ ''-'' @ FormatInt e @ ''/'' @ FormatInt (int (length bs))
    \<and> Header_Get (rp_Header w) ''ETag'' = oi_ETag info"
proof -
  obtain s1 where s1: "bk_HeadObject bk s b k = (Ok info, s1)" "holds s1 b k bs info" using head_holds [OF h] by blast
  obtain ob s2 where s2: "bk_GetObject bk s1 b k = (Ok ob, s2)" "ob_Body ob = bytes_reader bs" "holds s2 b k bs info"
    using get_holds [OF s1(2)] by blast
  have skip: "\<exists>body. skip_to seekable (bytes_reader bs) st = Ok body \<and> rd_data body = drop (nat st) bs"
    using st by (auto simp: skip_to_def)
  show ?thesis
    using skip s1 s2 size_holds [OF h] adj
    by (auto simp: getRangeObject_def parse object_headers_def Let_def object_header_keys)
qed

lemma range_exact:
  assumes h: "holds s b k bs info" and "satisfiable rs (length bs)" and "spec_i64 rs" and "in_i64 (int (length bs))"
    and "\<And>n. rs = Last n \<Longrightarrow> n \<le> length bs"
  shows "\<exists>w s'. getRangeObject bk seekable s b k (''bytes='' @ range_text rs) = (Ok w, s') \<and> holds s' b k bs info
    \<and> rp_Status w = 206 \<and> rp_Body w = selected rs bs
    \<and> Header_Get (rp_Header w) ''Content-Length'' = FormatInt (int (length (selected rs bs)))
    \<and> Header_Get (rp_Header w) ''Content-Range'' = ''bytes '' @ FormatInt (int (first_pos rs (length bs))) @ ''-''
        @ FormatInt (int (first_pos rs (length bs) + length (selected rs bs)) - 1) @ ''/'' @ FormatInt (int (length bs))
    \<and> Header_Get (rp_Header w) ''ETag'' = oi_ETag info"
proof -
  obtain e where e: "adjust_range (parsed_range rs) (int (length bs)) = Some (int (first_pos rs (length bs)), int e)"
    "first_pos rs (length bs) \<le> e" "e < length bs"
    "selected rs bs = take (e + 1 - first_pos rs (length bs)) (drop (first_pos rs (length bs)) bs)"
    using adjust_satisfiable [OF assms(2-5), where ?'a = byte] by metis
  define st where "st = first_pos rs (length bs)"
  have len: "length (selected rs bs) = e + 1 - st" using e(2-4) unfolding st_def by simp
  have l: "i64 (int e - int st + 1) = int (e + 1 - st)"
    using e(2,3) assms(4) unfolding st_def by (subst i64_id) (auto simp: in_i64_def)
  have last: "int (st + (e + 1 - st)) - 1 = int e" using e(2) unfolding st_def by simp
  have "int st \<le> int (length bs)" using e(2,3) unfolding st_def by simp
  from range_served [OF h parse_range_text [OF assms(3)] e(1) [folded st_def] this, of seekable]
  show ?thesis unfolding l e(4) [folded st_def] len [unfolded e(4) [folded st_def]] st_def [symmetric] last nat_int
    by blast
qed

end

text \<open>The file system: what the files of an object say.\<close>

definition fs_info :: "string \<Rightarrow> fsstate \<Rightarrow> string \<Rightarrow> string \<Rightarrow> bytes \<Rightarrow> time \<Rightarrow> object_info" where
  "fs_info base s b k bs m =
     (let md = load_metadata (fs_tree s) (obj_path base b k) in
      \<lparr>oi_Key = k, oi_Size = int (length bs), oi_ETag = mtime_etag (File bs m), oi_LastModified = m, oi_StorageClass = '''',
       oi_ContentType = content_type md, oi_Metadata = md\<rparr>)"

definition fs_holds :: "string \<Rightarrow> fsstate \<Rightarrow> string \<Rightarrow> string \<Rightarrow> bytes \<Rightarrow> object_info \<Rightarrow> bool" where
  "fs_holds base s b k bs info \<longleftrightarrow>
     (\<exists>m. lookup (fs_tree s) (obj_path base b k) = Some (File bs m) \<and> info = fs_info base s b k bs m)"

lemma HeadObject_file:
  assumes "lookup (fs_tree s) (obj_path base b k) = Some (File bs m)"
  shows "FS_HeadObject base s b k = (Ok (fs_info base s b k bs m), s)"
  using assms by (simp add: FS_HeadObject_def fs_info_def Stat_def Let_def)

interpretation fs_reader: object_reader "FileSystemBackend base" "fs_holds base"
proof
  fix s :: fsstate and b k bs info
  assume "fs_holds base s b k bs info"
  then obtain m where m: "lookup (fs_tree s) (obj_path base b k) = Some (File bs m)" "info = fs_info base s b k bs m"
    by (auto simp: fs_holds_def)
  show "oi_Size info = int (length bs)" by (simp add: m(2) fs_info_def Let_def)
  show "\<exists>s'. bk_HeadObject (FileSystemBackend base) s b k = (Ok info, s') \<and> fs_holds base s' b k bs info"
    using HeadObject_file [OF m(1)] m by (auto simp: fs_holds_def)
  show "\<exists>ob s'. bk_GetObject (FileSystemBackend base) s b k = (Ok ob, s') \<and> ob_Body ob = bytes_reader bs
      \<and> ob_Size ob = oi_Size info \<and> ob_ETag ob = oi_ETag info \<and> ob_Metadata ob = oi_Metadata info \<and> fs_holds base s' b k bs info"
    using GetObject_file [OF m(1)] m by (auto simp: fs_holds_def fs_info_def Let_def)
qed

section \<open>Storing and fetching over HTTP\<close>

lemma collect_metadata_lower:
  "collect_metadata hs md = Ok md' \<Longrightarrow> wf_smap md \<Longrightarrow> \<forall>m \<in> fst ` set md. ToLower m = m \<Longrightarrow>
   wf_smap md' \<and> (\<forall>m \<in> fst ` set md'. ToLower m = m)"
proof (induction hs md rule: collect_metadata.induct)
  case (2 k vs hs md)
  show ?case
  proof (cases "HasPrefix (ToLower k) ''x-amz-meta-''")
    case True
    obtain v ws where vs: "vs = v # ws" using "2.prems"(1) True by (cases vs) auto
    have "ToLower (TrimPrefix (ToLower k) ''x-amz-meta-'') = TrimPrefix (ToLower k) ''x-amz-meta-''"
      using True by (simp add: TrimPrefix_def) (simp add: ToLower_def drop_map comp_def)
    moreover have "fst ` set (AList.update m' x ys) = insert m' (fst ` set ys)" for m' :: string and x and ys :: smap
      by (induction ys) auto
    ultimately have low: "\<forall>m \<in> fst ` set (AList.update (TrimPrefix (ToLower k) ''x-amz-meta-'') v md). ToLower m = m"
      using "2.prems"(3) by simp
    have "collect_metadata hs (AList.update (TrimPrefix (ToLower k) ''x-amz-meta-'') v md) = Ok md'"
      using "2.prems"(1) True by (simp add: vs)
    then show ?thesis using "2.IH"(1) [OF True vs _ wf_smap_update [OF "2.prems"(2)] low] by blast
  next
    case False
    then show ?thesis using "2.IH"(2) [OF False] "2.prems" by simp
  qed
qed simp

lemma reply_Ok:
  "reply rs status f = (Ok w, s) \<longleftrightarrow> (\<exists>x. rs = (Ok x, s) \<and> w = f x) \<or> (\<exists>e. rs = (Err e, s) \<and> w = sendError e status fresh)"
  by (auto simp: reply_def split: prod.splits res.splits)

lemma rp_sendError [simp]: "rp_Status (sendError e st w) = (if rp_Status w = 0 then if st = 0 then 200 else st else rp_Status w)"
  by (simp add: sendError_def)

text \<open>The entity tag of a small body: its MD5 sum; that of the empty body is a constant of the code.\<close>

definition small_etag :: "bytes \<Rightarrow> string" where
  "small_etag bs = dquote (if bs = [] then ''d41d8cd98f00b204e9800998ecf8427e'' else hex_encode (md5 bs))"

text \<open>What an accepted \<^verbatim>\<open>PUT\<close> has handed to the backend.\<close>

lemma putObject_accepted:
  assumes "putObject bk now s r b k = (Ok w, s')" and "rp_Status w = 200"
    and "rq_ContentLength r = int (length (rd_data (rq_Body r)))"
  obtains body md where "rd_data body = rd_data (rq_Body r)" "collect_metadata (rq_Header r) [] = Ok md"
    "bk_PutObject bk s b k body (int (length (rd_data (rq_Body r)))) md = (Ok (), s')"
    "int (length (rd_data (rq_Body r))) \<le> smallFileLimit \<Longrightarrow>
       Header_Get (rp_Header w) ''ETag'' = small_etag (rd_data (rq_Body r))"
proof -
  obtain body etag md where pb: "put_body r = Ok (body, etag)" and md: "collect_metadata (rq_Header r) [] = Ok md"
    and put: "bk_PutObject bk s b k body (rq_ContentLength r) md = (Ok (), s')"
    and w: "w = WriteHeader 200 (set_header ''ETag'' (if etag = '''' then dquote (FormatHex now) else etag) fresh)"
    using assms(1,2) by (auto simp: putObject_def reply_Ok split: if_splits res.splits)
  have "rd_data body = rd_data (rq_Body r)"
    "int (length (rd_data (rq_Body r))) \<le> smallFileLimit \<Longrightarrow> etag = small_etag (rd_data (rq_Body r))"
    using pb assms(3) by (auto simp: put_body_def small_etag_def Let_def ReadFull_def split: if_splits)
  then show thesis using that [of body md] md put w assms(3) by (simp add: small_etag_def dquote_def)
qed

lemma handle_put:
  assumes "rq_Method r = ''PUT''" and "Query_Get r ''uploadId'' = ''''" and "Query_Get r ''acl'' = ''''"
  shows "handleObject bk decode seekable now s r b k = putObject bk now s r b k"
  using assms by (simp add: handleObject_def object_method_def Let_def)

lemma handle_get:
  assumes "rq_Method r = ''GET''" and "Query_Get r ''uploadId'' = ''''" and "Query_Get r ''acl'' = ''''"
  shows "handleObject bk decode seekable now s r b k = getObject bk seekable s r b k"
  using assms by (simp add: handleObject_def object_method_def Let_def)


section \<open>Properties\<close>

text \<open>C6: a range request is answered with exactly the requested bytes. For an object on the file system and a
  satisfiable range in any of the three forms of HTTP (a suffix no longer than the object), the response has the status
  206, the selected bytes and no others as body, and headers that say so, whether the body of the backend can seek or
  is read and discarded; the object is left as it was.\<close>

theorem range_response_exact:
  assumes "lookup (fs_tree s) (obj_path base b k) = Some (File bs m)" and "satisfiable rs (length bs)" and "spec_i64 rs"
    and "in_i64 (int (length bs))" and "\<And>n. rs = Last n \<Longrightarrow> n \<le> length bs"
    and "rq_Method r = ''GET''" and "rq_Query r = []" and "header r ''Range'' = ''bytes='' @ range_text rs"
  shows "\<exists>w s'. handleObject (FileSystemBackend base) decode seekable now s r b k = (Ok w, s')
    \<and> fs_holds base s' b k bs (fs_info base s b k bs m)
    \<and> rp_Status w = 206 \<and> rp_Body w = selected rs bs
    \<and> Header_Get (rp_Header w) ''Content-Length'' = FormatInt (int (length (selected rs bs)))
    \<and> Header_Get (rp_Header w) ''Content-Range'' = ''bytes '' @ FormatInt (int (first_pos rs (length bs))) @ ''-''
        @ FormatInt (int (first_pos rs (length bs) + length (selected rs bs)) - 1) @ ''/'' @ FormatInt (int (length bs))"
proof -
  have h: "fs_holds base s b k bs (fs_info base s b k bs m)" using assms(1) by (auto simp: fs_holds_def)
  have "handleObject (FileSystemBackend base) decode seekable now s r b k
      = getRangeObject (FileSystemBackend base) seekable s b k (''bytes='' @ range_text rs)"
    using assms(6-8) by (simp add: handle_get Query_Get_def first_value_def getObject_def)
  then show ?thesis using fs_reader.range_exact [OF h assms(2-5), of seekable] by auto
qed

text \<open>What is stored over HTTP is what is fetched. If a \<^verbatim>\<open>PUT\<close> is answered with 200, then a \<^verbatim>\<open>GET\<close> is answered
  with 200, the same body and its length, and every metadata header the client sent, when they are in valid UTF-8; the entity tag of the answer to
  the \<^verbatim>\<open>PUT\<close> is the MD5 sum of the body up to the limit of small files.\<close>

theorem http_put_get:
  assumes "fs_okey base b k" and "rq_Method r = ''PUT''" and "rq_Query r = []"
    and "rq_ContentLength r = int (length (rd_data (rq_Body r)))"
    and "handleObject (FileSystemBackend base) decode seekable now s r b k = (Ok w, s')" and "rp_Status w = 200"
    and "rq_Method g = ''GET''" and "rq_Query g = []" and "header g ''Range'' = ''''"
  shows "\<exists>w'. handleObject (FileSystemBackend base) decode' seekable' now' s' g b k = (Ok w', s')
    \<and> rp_Status w' = 200 \<and> rp_Body w' = rd_data (rq_Body r)
    \<and> Header_Get (rp_Header w') ''Content-Length'' = FormatInt (rq_ContentLength r)
    \<and> (\<forall>md m. collect_metadata (rq_Header r) [] = Ok md \<and> utf8_smap md \<and> ToLower m = m \<and> map_of md m \<noteq> None \<longrightarrow>
         map_of md m = Some (Header_Get (rp_Header w') (''x-amz-meta-'' @ m)))
    \<and> (rq_ContentLength r \<le> smallFileLimit \<longrightarrow> Header_Get (rp_Header w) ''ETag'' = small_etag (rd_data (rq_Body r)))"
proof -
  let ?bk = "FileSystemBackend base" and ?bs = "rd_data (rq_Body r)"
  have "putObject ?bk now s r b k = (Ok w, s')" using assms(2,3,5) by (simp add: handle_put Query_Get_def first_value_def)
  then obtain body md where body: "rd_data body = ?bs" and md: "collect_metadata (rq_Header r) [] = Ok md"
    and put: "FS_PutObject base s b k body (int (length ?bs)) md = (Ok (), s')"
    and etag: "int (length ?bs) \<le> smallFileLimit \<Longrightarrow> Header_Get (rp_Header w) ''ETag'' = small_etag ?bs"
    using putObject_accepted [OF _ assms(6,4)] by (metis FileSystemBackend_simps(1))
  note lower = collect_metadata_lower [OF md]
  obtain ob where ob: "FS_GetObject base s' b k = (Ok ob, s')" "ob_Body ob = bytes_reader ?bs" "ob_Size ob = int (length ?bs)"
    using GetObject_file [OF PutObject_stores(2) [OF assms(1) put]] body by simp
  let ?w = "Write (rd_data (ob_Body ob)) (set_headers (meta_headers (ob_Metadata ob))
    (set_headers (object_headers (ob_ContentType ob) (ob_Size ob) (ob_ETag ob) (ob_LastModified ob)) fresh))"
  have "handleObject ?bk decode' seekable' now' s' g b k = (Ok ?w, s')"
    using assms(7-9) ob(1) by (simp add: handle_get Query_Get_def first_value_def getObject_def reply_def)
  moreover have "Header_Get (rp_Header ?w) ''Content-Length'' = FormatInt (rq_ContentLength r)"
    using assms(4) ob(3) by (simp add: object_headers_def object_header_keys)
  moreover have "map_of md m = Some (Header_Get (rp_Header ?w) (''x-amz-meta-'' @ m))" if "ToLower m = m" "map_of md m \<noteq> None" "utf8_smap md" for m
  proof -
    have "md \<noteq> []" "wf_smap md" using that lower by (auto simp: wf_smap_def)
    then have maps: "map_of (ob_Metadata ob) = map_of md" "wf_smap (ob_Metadata ob)"
      using FS_get_put [OF assms(1) _ _ put] ob(1) that(3) by auto
    have "fst ` set (ob_Metadata ob) = fst ` set md" using maps(1) by (metis dom_map_of_conv_image_fst)
    then show ?thesis
      using Header_Get_metadata [OF _ maps(2) _ that(1)] maps(1) that(2) lower by (auto simp: wf_smap_def)
  qed
  ultimately show ?thesis using etag assms(4) md ob(2) by auto
qed

text \<open>C33: requests that only read change nothing. Whatever a \<^verbatim>\<open>GET\<close> or \<^verbatim>\<open>HEAD\<close> request asks for, by whatever
  route, with whatever query, range and user agent, the files are afterwards exactly what they were.\<close>

theorem reads_change_nothing:
  assumes "rq_Method r = ''GET'' \<or> rq_Method r = ''HEAD''"
    and "Handler_ServeHTTP (FileSystemBackend base) decode seekable match now s r = (x, s')"
  shows "s' = s"
proof -
  note reads = FS_GetObject_def FS_HeadObject_def FS_ListBuckets_def FS_BucketExists_def FS_GetObjectACL_def
    FS_ListObjectsWithDelimiter_def FS_ListParts_def FileSystemBackend_def
  have bucket: "handleBucket (FileSystemBackend base) s r b = (y, s1) \<Longrightarrow> s1 = s" for b y s1
    using assms(1)
    by (auto simp: handleBucket_def bucket_method_def isValidBucket_def listObjects_def headBucket_def reply_def reads Let_def
        split: prod.splits res.splits if_splits bool.splits)
  have get: "getObject (FileSystemBackend base) seekable s r b k = (y, s1) \<Longrightarrow> s1 = s" for b k y s1
    by (auto simp: getObject_def getRangeObject_def reply_def reads Let_def
        split: prod.splits res.splits if_splits list.splits option.splits)
  have object: "handleObject (FileSystemBackend base) decode seekable now s r b k = (y, s1) \<Longrightarrow> s1 = s" for b k y s1
    using assms(1) get [of b k]
    by (auto simp: handleObject_def object_method_def headObject_def handle_listParts_def getObjectACL_def reply_def reads Let_def
        split: prod.splits res.splits if_splits)
  show ?thesis
    using assms(2) bucket object
    by (auto simp: Handler_ServeHTTP_def listBuckets_def reply_def reads split: route.splits prod.splits res.splits)
qed

text \<open>C36: a part with an invalid number or without a length is rejected. Over any backend, an upload of a part whose
  number is not a decimal integer from 1 to 10000, or whose length is unknown, is answered with 400 and the
  backend is not called.\<close>

theorem invalid_part_rejected:
  assumes "rq_Method r = ''PUT''" and "Query_Get r ''uploadId'' \<noteq> ''''" and "Query_Get r ''partNumber'' \<noteq> ''''"
    and "\<not> (\<exists>n. ParseInt (Query_Get r ''partNumber'') = Ok n \<and> 1 \<le> n \<and> n \<le> 10000 \<and> 0 \<le> rq_ContentLength r)"
  shows "\<exists>w. handleObject bk decode seekable now s r b k = (Ok w, s) \<and> rp_Status w = 400"
proof (cases "ParseInt (Query_Get r ''partNumber'')")
  case (Ok n)
  then have "n < 1 \<or> 10000 < n \<or> rq_ContentLength r < 0" using assms(4) by force
  then show ?thesis using assms(1-3) Ok by (auto simp: handleObject_def handle_uploadPart_def Let_def)
qed (use assms(1-3) in \<open>simp_all add: handleObject_def handle_uploadPart_def Let_def\<close>)

text \<open>A suffix range longer than the object is answered with a wrong length. HTTP asks for the whole object; the
  code computes a negative first position, so the response announces more bytes than it sends
  and a \<^verbatim>\<open>Content-Range\<close> that starts with a negative number.\<close>

theorem long_suffix_range_wrong:
  assumes "lookup (fs_tree s) (obj_path base b k) = Some (File bs m)" and "length bs < n" and "0 < length bs" and "in_i64 (int n)"
  shows "\<exists>w s'. getRangeObject (FileSystemBackend base) seekable s b k (''bytes='' @ range_text (Last n)) = (Ok w, s')
    \<and> rp_Status w = 206 \<and> rp_Body w = bs \<and> Header_Get (rp_Header w) ''Content-Length'' = FormatInt (int n)
    \<and> Header_Get (rp_Header w) ''Content-Range'' = ''bytes '' @ FormatInt (int (length bs) - int n) @ ''-''
        @ FormatInt (int (length bs) - 1) @ ''/'' @ FormatInt (int (length bs))"
proof -
  have h: "fs_holds base s b k bs (fs_info base s b k bs m)" using assms(1) by (auto simp: fs_holds_def)
  have r: "in_i64 (int (length bs) - int n)" "in_i64 (int (length bs) - 1)" using assms(2-4) by (auto simp: in_i64_def)
  then have adj: "adjust_range (parsed_range (Last n)) (int (length bs)) = Some (int (length bs) - int n, int (length bs) - 1)"
    using assms(2,3) by (simp add: adjust_range_def Let_def)
  have p: "parseRangeHeader (''bytes='' @ range_text (Last n)) = Ok [parsed_range (Last n)]"
    using parse_range_text [of "Last n"] assms(4) by simp
  have l: "int (length bs) - 1 - (int (length bs) - int n) + 1 = int n" by simp
  from fs_reader.range_served [OF h p adj, of seekable, unfolded l i64_id [OF assms(4)]]
  show ?thesis using assms(2) by fastforce
qed

text \<open>Storing an access control list can overwrite the object. The query of \<^verbatim>\<open>PUT /b/k?acl\<close> has the value
  \<^verbatim>\<open>""\<close>, which the dispatch takes for no \<^verbatim>\<open>acl\<close> parameter at all: the document in the body of the request is
  stored as the content of the object.\<close>

theorem bare_acl_overwrites_object:
  assumes "fs_okey base b k" and "rq_Method r = ''PUT''" and "rq_Query r = [(''acl'', [''''])]"
    and "rq_ContentLength r = int (length (rd_data (rq_Body r)))"
    and "handleObject (FileSystemBackend base) decode seekable now s r b k = (Ok w, s')" and "rp_Status w = 200"
  shows "\<exists>ob. FS_GetObject base s' b k = (Ok ob, s') \<and> ob_Body ob = rq_Body r\<lparr>rd_err := None\<rparr>"
proof -
  have "putObject (FileSystemBackend base) now s r b k = (Ok w, s')"
    using assms(2,3,5) by (simp add: handle_put Query_Get_def first_value_def)
  then obtain body md where body: "rd_data body = rd_data (rq_Body r)"
    and put: "FS_PutObject base s b k body (int (length (rd_data (rq_Body r)))) md = (Ok (), s')"
    using putObject_accepted [OF _ assms(6,4)] by (metis FileSystemBackend_simps(1))
  show ?thesis using GetObject_file [OF PutObject_stores(2) [OF assms(1) put]] body by (simp add: bytes_reader_def)
qed

text \<open>A MinIO client cannot create a bucket. Its requests are answered with 404 before the method is looked at,
  unless the bucket exists.\<close>

theorem mc_cannot_create_bucket:
  assumes "is_mc_client r" and "lookup (fs_tree s) (Join [base, bucket]) = None"
  shows "\<exists>w. handleBucket (FileSystemBackend base) s r bucket = (Ok w, s) \<and> rp_Status w = 404"
  using assms
  by (auto simp: handleBucket_def isValidBucket_def FileSystemBackend_def FS_BucketExists_def Stat_def Let_def
      split: option.splits res.splits)

text \<open>C8: The handlers report success only when the backend has. Over any backend, when a request that changes an object is answered with a status below 400: a \<^verbatim>\<open>PUT\<close>
  of an object was stored by the backend without an error, with the declared length and, for a small body, exactly that many bytes of the body; a part was taken
  by the backend under the number the client gave, which is between 1 and 10000; a completed upload was completed with the parts of the document; a
  deleted object was deleted.\<close>

theorem success_is_the_backends:
  assumes "handleObject bk decode seekable now s r b k = (Ok w, s')" and "rp_Status w < 400"
  shows "(rq_Method r = ''PUT'' \<and> Query_Get r ''uploadId'' = '''' \<and> Query_Get r ''acl'' = '''' \<longrightarrow>
      (\<exists>body md. bk_PutObject bk s b k body (rq_ContentLength r) md = (Ok (), s') \<and> 0 \<le> rq_ContentLength r
        \<and> (rq_ContentLength r \<le> smallFileLimit \<longrightarrow> rd_data body = take (nat (rq_ContentLength r)) (rd_data (rq_Body r))
             \<and> rq_ContentLength r \<le> int (length (rd_data (rq_Body r))))
        \<and> (smallFileLimit < rq_ContentLength r \<longrightarrow> body = rq_Body r)))
    \<and> (rq_Method r = ''PUT'' \<and> Query_Get r ''uploadId'' \<noteq> '''' \<and> Query_Get r ''partNumber'' \<noteq> '''' \<longrightarrow>
      (\<exists>n etag. ParseInt (Query_Get r ''partNumber'') = Ok n \<and> 1 \<le> n \<and> n \<le> 10000
        \<and> bk_UploadPart bk s b k (Query_Get r ''uploadId'') n (rq_Body r) (rq_ContentLength r) = (Ok etag, s')))
    \<and> (rq_Method r = ''POST'' \<and> Query_Get r ''uploadId'' \<noteq> '''' \<longrightarrow>
      (\<exists>parts. decode (rq_Body r) = Ok parts \<and> bk_CompleteMultipartUpload bk s b k (Query_Get r ''uploadId'') parts = (Ok (), s')))
    \<and> (rq_Method r = ''DELETE'' \<and> Query_Get r ''uploadId'' = '''' \<longrightarrow> bk_DeleteObject bk s b k = (Ok (), s'))"
proof (intro conjI impI)
  assume m: "rq_Method r = ''PUT'' \<and> Query_Get r ''uploadId'' = '''' \<and> Query_Get r ''acl'' = ''''"
  then have put: "putObject bk now s r b k = (Ok w, s')" using assms(1) by (simp add: handle_put)
  then obtain body etag md where pb: "put_body r = Ok (body, etag)" "0 \<le> rq_ContentLength r"
    and b: "bk_PutObject bk s b k body (rq_ContentLength r) md = (Ok (), s')"
    using assms(2) by (auto simp: putObject_def reply_Ok split: if_splits res.splits)
  show "\<exists>body md. bk_PutObject bk s b k body (rq_ContentLength r) md = (Ok (), s') \<and> 0 \<le> rq_ContentLength r
        \<and> (rq_ContentLength r \<le> smallFileLimit \<longrightarrow> rd_data body = take (nat (rq_ContentLength r)) (rd_data (rq_Body r))
             \<and> rq_ContentLength r \<le> int (length (rd_data (rq_Body r))))
        \<and> (smallFileLimit < rq_ContentLength r \<longrightarrow> body = rq_Body r)"
  proof (intro exI conjI impI)
    show "bk_PutObject bk s b k body (rq_ContentLength r) md = (Ok (), s')" by (rule b)
    show "rd_data body = take (nat (rq_ContentLength r)) (rd_data (rq_Body r))"
      "rq_ContentLength r \<le> int (length (rd_data (rq_Body r)))" if "rq_ContentLength r \<le> smallFileLimit"
      using pb that by (auto simp: put_body_def Let_def ReadFull_def smallFileLimit_def split: if_splits option.splits)
    show "body = rq_Body r" if "smallFileLimit < rq_ContentLength r"
      using pb that by (auto simp: put_body_def Let_def smallFileLimit_def split: if_splits)
  qed (rule pb(2))
next
  assume "rq_Method r = ''PUT'' \<and> Query_Get r ''uploadId'' \<noteq> '''' \<and> Query_Get r ''partNumber'' \<noteq> ''''"
  then have "handle_uploadPart bk s r b k (Query_Get r ''uploadId'') (Query_Get r ''partNumber'') = (Ok w, s')"
    using assms(1) by (simp add: handleObject_def)
  then show "\<exists>n etag. ParseInt (Query_Get r ''partNumber'') = Ok n \<and> 1 \<le> n \<and> n \<le> 10000
        \<and> bk_UploadPart bk s b k (Query_Get r ''uploadId'') n (rq_Body r) (rq_ContentLength r) = (Ok etag, s')"
    using assms(2) by (auto simp: handle_uploadPart_def reply_Ok split: res.splits if_splits)
next
  assume "rq_Method r = ''POST'' \<and> Query_Get r ''uploadId'' \<noteq> ''''"
  then have "completeMultipartUpload bk decode now s r b k (Query_Get r ''uploadId'') = (Ok w, s')"
    using assms(1) by (simp add: handleObject_def)
  then show "\<exists>parts. decode (rq_Body r) = Ok parts \<and> bk_CompleteMultipartUpload bk s b k (Query_Get r ''uploadId'') parts = (Ok (), s')"
    using assms(2) by (auto simp: completeMultipartUpload_def reply_Ok split: res.splits)
next
  assume "rq_Method r = ''DELETE'' \<and> Query_Get r ''uploadId'' = ''''"
  then have "deleteObject bk s b k = (Ok w, s')" using assms(1) by (simp add: handleObject_def object_method_def)
  then show "bk_DeleteObject bk s b k = (Ok (), s')" using assms(2) by (auto simp: deleteObject_def reply_Ok)
qed

section \<open>Concrete requests\<close>

definition plain_request :: "string \<Rightarrow> headers \<Rightarrow> headers \<Rightarrow> bytes \<Rightarrow> request" where
  "plain_request method query hs bs =
     \<lparr>rq_Method = method, rq_Path = ''/b/x/y'', rq_RawQuery = '''', rq_Query = query, rq_Header = hs, rq_RemoteAddr = ''10.0.0.1:999'',
      rq_Host = ''h'', rq_ContentLength = int (length bs), rq_Body = bytes_reader bs\<rparr>"

lemma plain_request_simps [simp]:
  "rq_Method (plain_request method query hs bs) = method" "rq_Query (plain_request method query hs bs) = query"
  "rq_Header (plain_request method query hs bs) = hs" "rq_ContentLength (plain_request method query hs bs) = int (length bs)"
  "rq_Body (plain_request method query hs bs) = bytes_reader bs"
  by (simp_all add: plain_request_def)

lemma demo_stored:
  "lookup (fs_tree (snd (FS_PutObject ''/d'' demo_fs ''b'' ''x/y'' (bytes_reader [1, 2]) 2 [(''m'', ''v'')]))) (obj_path ''/d'' ''b'' ''x/y'')
     = Some (File [1, 2] 7)"
proof -
  obtain s' where p: "FS_PutObject ''/d'' demo_fs ''b'' ''x/y'' (bytes_reader [1, 2]) 2 [(''m'', ''v'')] = (Ok (), s')"
    using demo_put by (metis prod.collapse)
  have "fs_now demo_fs = 7" by (simp add: demo_fs_def)
  with PutObject_stores(2) [OF demo_okey(1) p] show ?thesis by (simp add: p)
qed

lemma demo_range_header:
  "header (plain_request ''GET'' [] [(''Range'', [''bytes=1-7''])] []) ''Range'' = ''bytes='' @ range_text (From_to 1 7)"
  "header (plain_request ''GET'' [] [] []) ''Range'' = ''''"
  by code_simp+

theorem range_response_exact_witness:
  "\<exists>w s'. handleObject (FileSystemBackend ''/d'') (\<lambda>_. Err ErrEOF) True 9
      (snd (FS_PutObject ''/d'' demo_fs ''b'' ''x/y'' (bytes_reader [1, 2]) 2 [(''m'', ''v'')]))
      (plain_request ''GET'' [] [(''Range'', [''bytes=1-7''])] []) ''b'' ''x/y'' = (Ok w, s')
    \<and> rp_Status w = 206 \<and> rp_Body w = [2]"
  using range_response_exact [OF demo_stored, of "From_to 1 7" "plain_request ''GET'' [] [(''Range'', [''bytes=1-7''])] []"
      "\<lambda>_. Err ErrEOF" True 9] demo_range_header(1)
  by (auto simp: in_i64_def)

lemma putObject_succeeds:
  assumes "put_body r = Ok (body, etag)" and "collect_metadata (rq_Header r) [] = Ok md" and "0 \<le> rq_ContentLength r"
    and "fst (bk_PutObject bk s b k body (rq_ContentLength r) md) = Ok ()"
  obtains w s' where "putObject bk now s r b k = (Ok w, s')" "rp_Status w = 200"
  using assms by (cases "bk_PutObject bk s b k body (rq_ContentLength r) md") (auto simp: putObject_def reply_def)

lemma demo_http_put:
  assumes "q = [] \<or> q = [(''acl'', [''''])]"
  obtains w s' where "handleObject (FileSystemBackend ''/d'') (\<lambda>_. Err ErrEOF) True 9 demo_fs
      (plain_request ''PUT'' q [(''X-Amz-Meta-M'', [''v''])] [1, 2]) ''b'' ''x/y'' = (Ok w, s')" "rp_Status w = 200"
proof -
  let ?r = "plain_request ''PUT'' q [(''X-Amz-Meta-M'', [''v''])] [1, 2]"
  have pb: "put_body ?r = Ok (bytes_reader [1, 2], dquote (hex_encode (md5 [1, 2])))"
    by (simp add: put_body_def Let_def smallFileLimit_def ReadFull_def)
  have "collect_metadata [(''X-Amz-Meta-M'', [''v''])] [] = Ok [(''m'', ''v'')]" by code_simp
  then have md: "collect_metadata (rq_Header ?r) [] = Ok [(''m'', ''v'')]" by (simp only: plain_request_simps)
  have put: "fst (bk_PutObject (FileSystemBackend ''/d'') demo_fs ''b'' ''x/y'' (bytes_reader [1, 2]) (rq_ContentLength ?r) [(''m'', ''v'')]) = Ok ()"
    using demo_put by simp
  obtain w s' where "putObject (FileSystemBackend ''/d'') 9 demo_fs ?r ''b'' ''x/y'' = (Ok w, s')" "rp_Status w = 200"
    using putObject_succeeds [OF pb md _ put] by (metis plain_request_simps(4) of_nat_0_le_iff)
  moreover have "Query_Get ?r ''uploadId'' = ''''" "Query_Get ?r ''acl'' = ''''"
    using assms by (auto simp: Query_Get_def first_value_def)
  ultimately show thesis using that by (simp add: handle_put)
qed

theorem http_put_get_witness:
  "\<exists>w s' w'. handleObject (FileSystemBackend ''/d'') (\<lambda>_. Err ErrEOF) True 9 demo_fs
      (plain_request ''PUT'' [] [(''X-Amz-Meta-M'', [''v''])] [1, 2]) ''b'' ''x/y'' = (Ok w, s')
    \<and> handleObject (FileSystemBackend ''/d'') (\<lambda>_. Err ErrEOF) True 10 s' (plain_request ''GET'' [] [] []) ''b'' ''x/y'' = (Ok w', s')
    \<and> rp_Body w' = [1, 2] \<and> Header_Get (rp_Header w') ''x-amz-meta-m'' = ''v''"
proof -
  obtain w s' where p: "handleObject (FileSystemBackend ''/d'') (\<lambda>_. Err ErrEOF) True 9 demo_fs
      (plain_request ''PUT'' [] [(''X-Amz-Meta-M'', [''v''])] [1, 2]) ''b'' ''x/y'' = (Ok w, s')" "rp_Status w = 200"
    using demo_http_put by blast
  have md: "collect_metadata [(''X-Amz-Meta-M'', [''v''])] [] = Ok [(''m'', ''v'')]" "ToLower ''m'' = ''m''" by code_simp+
  have u: "utf8_smap [(''m'', ''v'')]" by (simp add: ascii_valid)
  show ?thesis
    using http_put_get [OF demo_okey(1) _ _ _ p, of "plain_request ''GET'' [] [] []" "\<lambda>_. Err ErrEOF" True 10]
      demo_range_header(2) p(1) md u by fastforce
qed

theorem bare_acl_overwrites_object_witness:
  "\<exists>w s' ob. handleObject (FileSystemBackend ''/d'') (\<lambda>_. Err ErrEOF) True 9 demo_fs
      (plain_request ''PUT'' [(''acl'', [''''])] [(''X-Amz-Meta-M'', [''v''])] [1, 2]) ''b'' ''x/y'' = (Ok w, s')
    \<and> FS_GetObject ''/d'' s' ''b'' ''x/y'' = (Ok ob, s') \<and> rd_data (ob_Body ob) = [1, 2]"
proof -
  obtain w s' where p: "handleObject (FileSystemBackend ''/d'') (\<lambda>_. Err ErrEOF) True 9 demo_fs
      (plain_request ''PUT'' [(''acl'', [''''])] [(''X-Amz-Meta-M'', [''v''])] [1, 2]) ''b'' ''x/y'' = (Ok w, s')" "rp_Status w = 200"
    using demo_http_put by blast
  show ?thesis using bare_acl_overwrites_object [OF demo_okey(1) _ _ _ p] p(1) by auto
qed

theorem reads_change_nothing_witness:
  "snd (Handler_ServeHTTP (FileSystemBackend ''/d'') (\<lambda>_. Err ErrEOF) True (\<lambda>_. ObjectRoute ''b'' ''x/y'') 9 demo_fs
      (plain_request ''GET'' [] [] [])) = demo_fs"
  by (rule reads_change_nothing [OF _ prod.collapse [symmetric]]) simp

theorem invalid_part_rejected_witness:
  "\<exists>w. handleObject (FileSystemBackend ''/d'') (\<lambda>_. Err ErrEOF) True 9 demo_fs
      (plain_request ''PUT'' [(''uploadId'', [''u'']), (''partNumber'', [''10001''])] [] [1]) ''b'' ''x/y'' = (Ok w, demo_fs) \<and> rp_Status w = 400"
proof -
  have "ParseInt ''10001'' = Ok 10001" by code_simp
  then show ?thesis
    using invalid_part_rejected [of "plain_request ''PUT'' [(''uploadId'', [''u'']), (''partNumber'', [''10001''])] [] [1]"]
    by (simp add: Query_Get_def first_value_def)
qed

theorem long_suffix_range_wrong_witness:
  "\<exists>w s'. getRangeObject (FileSystemBackend ''/d'') True
      (snd (FS_PutObject ''/d'' demo_fs ''b'' ''x/y'' (bytes_reader [1, 2]) 2 [(''m'', ''v'')])) ''b'' ''x/y'' (''bytes='' @ range_text (Last 5)) = (Ok w, s')
    \<and> rp_Body w = [1, 2] \<and> Header_Get (rp_Header w) ''Content-Length'' = FormatInt 5"
  using long_suffix_range_wrong [OF demo_stored, of 5 True] by (auto simp: in_i64_def)

theorem mc_cannot_create_bucket_witness:
  "\<exists>w. handleBucket (FileSystemBackend ''/d'') demo_fs
      (plain_request ''PUT'' [] [(''User-Agent'', [''MinIO (linux; amd64) minio-go/v7'']) ] []) ''b'' = (Ok w, demo_fs) \<and> rp_Status w = 404"
proof -
  have "is_mc_client (plain_request ''PUT'' [] [(''User-Agent'', [''MinIO (linux; amd64) minio-go/v7''])] [])"
    "lookup (fs_tree demo_fs) (Join [''/d'', ''b'']) = None" by code_simp+
  then show ?thesis by (rule mc_cannot_create_bucket)
qed

theorem success_is_the_backends_witness:
  "\<exists>w s' body md. handleObject (FileSystemBackend ''/d'') (\<lambda>_. Err ErrEOF) True 9 demo_fs
      (plain_request ''PUT'' [] [(''X-Amz-Meta-M'', [''v''])] [1, 2]) ''b'' ''x/y'' = (Ok w, s')
    \<and> FS_PutObject ''/d'' demo_fs ''b'' ''x/y'' body 2 md = (Ok (), s') \<and> rd_data body = [1, 2]"
proof -
  let ?r = "plain_request ''PUT'' [] [(''X-Amz-Meta-M'', [''v''])] [1, 2]"
  obtain w s' where p: "handleObject (FileSystemBackend ''/d'') (\<lambda>_. Err ErrEOF) True 9 demo_fs ?r ''b'' ''x/y'' = (Ok w, s')" "rp_Status w = 200"
    using demo_http_put by blast
  have "Query_Get ?r ''uploadId'' = ''''" "Query_Get ?r ''acl'' = ''''" "2 \<le> smallFileLimit"
    by (simp_all add: Query_Get_def first_value_def smallFileLimit_def)
  then show ?thesis using success_is_the_backends [OF p(1)] p by auto
qed

end
