(* ===== verification/Metrics.thy ===== *)
theory Metrics
  imports Complex_Main Go_HTTP
begin

text \<open>
  \<^verbatim>\<open>internal/metrics/metrics.go\<close>: the metrics of the proxy and the middleware that collects them. The Prometheus
  client is an argument, a record of operations over its registry; that a vector panics when the
  number of label values is not the number of declared labels is part of the model. The counters of the process are
  64-bit words. A \<^verbatim>\<open>float64\<close> is an exact rational or one of the special values. Proved: the counters count every request,
  error and byte, whatever the handler does, and the labels of the middleware always fit the declarations, so that it
  never panics.
\<close>

section \<open>Floating-point values\<close>

datatype gofloat = Fin rat | PosInf | NaN

definition fdiv :: "rat \<Rightarrow> rat \<Rightarrow> gofloat" where
  "fdiv a b = (if b = 0 then if a = 0 then NaN else PosInf else Fin (a / b))"

text \<open>The verb \<^verbatim>\<open>%.nf\<close>: rounding to the nearest decimal, ties to even.\<close>

definition round_even :: "rat \<Rightarrow> int" where
  "round_even q = (let f = \<lfloor>q\<rfloor>; d = q - of_int f in
     if d < 1 / 2 then f else if 1 / 2 < d then f + 1 else if even f then f else f + 1)"

definition FormatFloat :: "nat \<Rightarrow> gofloat \<Rightarrow> string" where
  "FormatFloat n x =
     (case x of
        NaN \<Rightarrow> ''NaN''
      | PosInf \<Rightarrow> ''+Inf''
      | Fin q \<Rightarrow>
          let k = nat (round_even (\<bar>q\<bar> * 10 ^ n))
          in (if q < 0 then ''-'' else '''') @ FormatInt (int (k div 10 ^ n))
             @ (if n = 0 then '''' else ''.'' @ pad_num n (int (k mod 10 ^ n))))"

definition Seconds :: "duration \<Rightarrow> rat" where
  "Seconds d = of_int d / 1000000000"

section \<open>The Prometheus client\<close>

datatype metric_kind = CounterVec | HistogramVec | Gauge | Histogram

record metric_desc =
  md_kind :: metric_kind
  md_namespace :: string
  md_name :: string
  md_help :: string
  md_labels :: "string list"
  md_buckets :: "(rat \<times> nat \<times> nat) option"

text \<open>\<open>md_buckets\<close> are the arguments of \<^verbatim>\<open>ExponentialBuckets\<close>. Registering a name twice panics.\<close>

record 'p prom_ops =
  pr_Register :: "'p \<Rightarrow> metric_desc \<Rightarrow> 'p res"
  pr_Add :: "'p \<Rightarrow> string \<Rightarrow> string list \<Rightarrow> rat \<Rightarrow> 'p"
  pr_Observe :: "'p \<Rightarrow> string \<Rightarrow> string list \<Rightarrow> rat \<Rightarrow> 'p"
  pr_Set :: "'p \<Rightarrow> string \<Rightarrow> rat \<Rightarrow> 'p"

section \<open>The metrics\<close>

record 'p metrics =
  mt_descs :: "metric_desc list"
  mt_prom :: 'p
  mt_requestCount :: "64 word"
  mt_errorCount :: "64 word"
  mt_bytesTransferred :: "64 word"
  mt_lastResetTime :: time

definition counter_vec :: "string \<Rightarrow> string \<Rightarrow> string \<Rightarrow> string list \<Rightarrow> metric_desc" where
  "counter_vec ns name help labels =
     \<lparr>md_kind = CounterVec, md_namespace = ns, md_name = name, md_help = help, md_labels = labels, md_buckets = None\<rparr>"

definition histogram_vec :: "string \<Rightarrow> string \<Rightarrow> string \<Rightarrow> rat \<times> nat \<times> nat \<Rightarrow> string list \<Rightarrow> metric_desc" where
  "histogram_vec ns name help b labels =
     \<lparr>md_kind = HistogramVec, md_namespace = ns, md_name = name, md_help = help, md_labels = labels, md_buckets = Some b\<rparr>"

definition gauge :: "string \<Rightarrow> string \<Rightarrow> string \<Rightarrow> metric_desc" where
  "gauge ns name help =
     \<lparr>md_kind = Gauge, md_namespace = ns, md_name = name, md_help = help, md_labels = [], md_buckets = None\<rparr>"

definition metric_descs :: "string \<Rightarrow> metric_desc list" where
  "metric_descs ns =
     [counter_vec ns ''requests_total'' ''Total number of requests processed'' [''method'', ''bucket'', ''status_code'', ''operation''],
      histogram_vec ns ''request_duration_seconds'' ''Request duration in seconds'' (1 / 1000, 2, 15)
        [''method'', ''bucket'', ''operation''],
      gauge ns ''requests_in_flight'' ''Number of requests currently being processed'',
      histogram_vec ns ''response_size_bytes'' ''Response size in bytes'' (1024, 4, 10) [''method'', ''bucket'', ''operation''],
      counter_vec ns ''storage_operations_total'' ''Total number of storage backend operations'' [''backend'', ''operation'', ''status''],
      histogram_vec ns ''storage_operation_duration_seconds'' ''Storage operation duration in seconds'' (1 / 1000, 2, 15)
        [''backend'', ''operation''],
      counter_vec ns ''storage_errors_total'' ''Total number of storage errors'' [''backend'', ''operation'', ''error_type''],
      counter_vec ns ''cache_hits_total'' ''Total number of cache hits'' [''cache_type''],
      counter_vec ns ''cache_misses_total'' ''Total number of cache misses'' [''cache_type''],
      gauge ns ''cache_size_bytes'' ''Current cache size in bytes'',
      counter_vec ns ''rate_limit_total'' ''Total number of rate limit events'' [''limit_type'', ''action''],
      counter_vec ns ''concurrency_limit_total'' ''Total number of concurrency limit events'' [''action''],
      gauge ns ''goroutines_count'' ''Number of goroutines'',
      gauge ns ''memory_usage_bytes'' ''Memory usage in bytes'',
      \<lparr>md_kind = Histogram, md_namespace = ns, md_name = ''gc_duration_seconds'', md_help = ''Garbage collection duration in seconds'',
       md_labels = [], md_buckets = Some (1 / 10000, 2, 15)\<rparr>]"

fun register_all :: "'p prom_ops \<Rightarrow> 'p \<Rightarrow> metric_desc list \<Rightarrow> 'p res" where
  "register_all ops p [] = Ok p"
| "register_all ops p (d # ds) = res_bind (pr_Register ops p d) (\<lambda>p'. register_all ops p' ds)"

definition NewMetrics :: "'p prom_ops \<Rightarrow> 'p \<Rightarrow> time \<Rightarrow> string \<Rightarrow> 'p metrics res" where
  "NewMetrics ops p now namespace =
     (let ds = metric_descs (if namespace = '''' then ''s3proxy'' else namespace) in
      res_bind (register_all ops p ds) (\<lambda>p'.
        Ok \<lparr>mt_descs = ds, mt_prom = p', mt_requestCount = 0, mt_errorCount = 0, mt_bytesTransferred = 0,
            mt_lastResetTime = now\<rparr>))"

text \<open>\<^verbatim>\<open>WithLabelValues\<close>: the metric with these label values, a panic when their number is wrong.\<close>

definition with_labels :: "'p metrics \<Rightarrow> string \<Rightarrow> string list \<Rightarrow> ('p \<Rightarrow> 'p) \<Rightarrow> 'p metrics res" where
  "with_labels m name vs f =
     (case find (\<lambda>d. md_name d = name) (mt_descs m) of
        Some d \<Rightarrow> if length vs = length (md_labels d) then Ok (m\<lparr>mt_prom := f (mt_prom m)\<rparr>)
                  else Panic ''inconsistent label cardinality''
      | None \<Rightarrow> Panic ''nil pointer dereference'')"

definition vec_inc :: "'p prom_ops \<Rightarrow> 'p metrics \<Rightarrow> string \<Rightarrow> string list \<Rightarrow> 'p metrics res" where
  "vec_inc ops m name vs = with_labels m name vs (\<lambda>p. pr_Add ops p name vs 1)"

definition vec_observe :: "'p prom_ops \<Rightarrow> 'p metrics \<Rightarrow> string \<Rightarrow> string list \<Rightarrow> rat \<Rightarrow> 'p metrics res" where
  "vec_observe ops m name vs x = with_labels m name vs (\<lambda>p. pr_Observe ops p name vs x)"

definition IncRequest :: "'p prom_ops \<Rightarrow> 'p metrics \<Rightarrow> string \<Rightarrow> string \<Rightarrow> string \<Rightarrow> string \<Rightarrow> 'p metrics res" where
  "IncRequest ops m method bucket statusCode operation =
     res_bind (vec_inc ops m ''requests_total'' [method, bucket, statusCode, operation]) (\<lambda>m'.
       Ok (m'\<lparr>mt_requestCount := mt_requestCount m' + 1\<rparr>))"

definition IncError :: "'p metrics \<Rightarrow> 'p metrics" where
  "IncError m = m\<lparr>mt_errorCount := mt_errorCount m + 1\<rparr>"

definition AddBytesTransferred :: "'p metrics \<Rightarrow> 64 word \<Rightarrow> 'p metrics" where
  "AddBytesTransferred m n = m\<lparr>mt_bytesTransferred := mt_bytesTransferred m + n\<rparr>"

definition ObserveRequestDuration :: "'p prom_ops \<Rightarrow> 'p metrics \<Rightarrow> string \<Rightarrow> string \<Rightarrow> string \<Rightarrow> duration \<Rightarrow> 'p metrics res" where
  "ObserveRequestDuration ops m method bucket operation d =
     vec_observe ops m ''request_duration_seconds'' [method, bucket, operation] (Seconds d)"

definition ObserveResponseSize :: "'p prom_ops \<Rightarrow> 'p metrics \<Rightarrow> string \<Rightarrow> string \<Rightarrow> string \<Rightarrow> int \<Rightarrow> 'p metrics res" where
  "ObserveResponseSize ops m method bucket operation sz =
     vec_observe ops m ''response_size_bytes'' [method, bucket, operation] (of_int sz)"

definition IncStorageOp :: "'p prom_ops \<Rightarrow> 'p metrics \<Rightarrow> string \<Rightarrow> string \<Rightarrow> string \<Rightarrow> 'p metrics res" where
  "IncStorageOp ops m bk operation status = vec_inc ops m ''storage_operations_total'' [bk, operation, status]"

definition ObserveStorageOpDuration :: "'p prom_ops \<Rightarrow> 'p metrics \<Rightarrow> string \<Rightarrow> string \<Rightarrow> duration \<Rightarrow> 'p metrics res" where
  "ObserveStorageOpDuration ops m bk operation d =
     vec_observe ops m ''storage_operation_duration_seconds'' [bk, operation] (Seconds d)"

definition IncStorageError :: "'p prom_ops \<Rightarrow> 'p metrics \<Rightarrow> string \<Rightarrow> string \<Rightarrow> string \<Rightarrow> 'p metrics res" where
  "IncStorageError ops m bk operation errorType = vec_inc ops m ''storage_errors_total'' [bk, operation, errorType]"

definition IncCacheHit :: "'p prom_ops \<Rightarrow> 'p metrics \<Rightarrow> string \<Rightarrow> 'p metrics res" where
  "IncCacheHit ops m cacheType = vec_inc ops m ''cache_hits_total'' [cacheType]"

definition IncCacheMiss :: "'p prom_ops \<Rightarrow> 'p metrics \<Rightarrow> string \<Rightarrow> 'p metrics res" where
  "IncCacheMiss ops m cacheType = vec_inc ops m ''cache_misses_total'' [cacheType]"

definition SetCacheSize :: "'p prom_ops \<Rightarrow> 'p metrics \<Rightarrow> rat \<Rightarrow> 'p metrics" where
  "SetCacheSize ops m x = m\<lparr>mt_prom := pr_Set ops (mt_prom m) ''cache_size_bytes'' x\<rparr>"

definition IncRateLimit :: "'p prom_ops \<Rightarrow> 'p metrics \<Rightarrow> string \<Rightarrow> string \<Rightarrow> 'p metrics res" where
  "IncRateLimit ops m limitType action = vec_inc ops m ''rate_limit_total'' [limitType, action]"

definition IncConcurrencyLimit :: "'p prom_ops \<Rightarrow> 'p metrics \<Rightarrow> string \<Rightarrow> 'p metrics res" where
  "IncConcurrencyLimit ops m action = vec_inc ops m ''concurrency_limit_total'' [action]"

record stats =
  st_TotalRequests :: "64 word"
  st_TotalErrors :: "64 word"
  st_BytesTransferred :: "64 word"
  st_RequestsPerSec :: gofloat
  st_ErrorRate :: gofloat
  st_Throughput :: gofloat
  st_Uptime :: duration

definition uint_rat :: "64 word \<Rightarrow> rat" where
  "uint_rat w = of_int (uint w)"

definition GetStats :: "'p metrics \<Rightarrow> time \<Rightarrow> stats" where
  "GetStats m now =
     (let elapsed = now - mt_lastResetTime m; requests = mt_requestCount m; errors = mt_errorCount m;
          bytes = mt_bytesTransferred m
      in \<lparr>st_TotalRequests = requests, st_TotalErrors = errors, st_BytesTransferred = bytes,
          st_RequestsPerSec = fdiv (uint_rat requests) (Seconds elapsed), st_ErrorRate = fdiv (uint_rat errors) (uint_rat requests),
          st_Throughput = fdiv (uint_rat bytes) (Seconds elapsed), st_Uptime = elapsed\<rparr>)"

definition ResetStats :: "'p metrics \<Rightarrow> time \<Rightarrow> 'p metrics" where
  "ResetStats m now = m\<lparr>mt_requestCount := 0, mt_errorCount := 0, mt_bytesTransferred := 0, mt_lastResetTime := now\<rparr>"

section \<open>The middleware\<close>

definition extractOperationAndBucket :: "request \<Rightarrow> string \<times> string" where
  "extractOperationAndBucket r =
     (let path = rq_Path r in
      if path = ''/'' \<or> path = '''' then (''ListBuckets'', '''')
      else
        let parts = SplitN2 (if hd path = CHR ''/'' then tl path else path) ''/''; bucket = hd parts;
            pick = (\<lambda>b ob. (if length parts = 1 then b else ob, bucket))
        in if rq_Method r = ''GET'' then pick ''ListObjects'' ''GetObject''
           else if rq_Method r = ''PUT'' then pick ''CreateBucket'' ''PutObject''
           else if rq_Method r = ''DELETE'' then pick ''DeleteBucket'' ''DeleteObject''
           else if rq_Method r = ''HEAD'' then pick ''HeadBucket'' ''HeadObject''
           else if rq_Method r = ''POST'' then (''PostObject'', bucket)
           else (''Unknown'', bucket))"

text \<open>The middleware around a handler over a state. The code reads the status and the number of bytes from the fields of its wrapped writer; here they
  are taken from the finished response, which is the same for a handler that sets the status at most once and before the body (theorem
  \<open>wrapper_faithful\<close>, over the wrapper's own methods), as every handler of the proxy does, and 200 when the handler sets none. When the
  handler panics, only the deferred decrement runs.\<close>

definition record_response ::
  "'p prom_ops \<Rightarrow> 'p metrics \<Rightarrow> request \<Rightarrow> duration \<Rightarrow> response \<Rightarrow> 'p metrics res" where
  "record_response ops m r d w =
     (let (operation, bucket) = extractOperationAndBucket r; status = rp_Status (finish w); n = int (length (rp_Body w)) in
      res_bind (IncRequest ops m (rq_Method r) bucket (FormatInt status) operation) (\<lambda>m1.
      res_bind (ObserveRequestDuration ops m1 (rq_Method r) bucket operation d) (\<lambda>m2.
      res_bind (ObserveResponseSize ops m2 (rq_Method r) bucket operation n) (\<lambda>m3.
      let m4 = (if 0 < n then AddBytesTransferred m3 (word_of_int n) else m3)
      in Ok (if 400 \<le> status then IncError m4 else m4)))))"

definition in_flight :: "'p prom_ops \<Rightarrow> 'p metrics \<Rightarrow> rat \<Rightarrow> 'p metrics" where
  "in_flight ops m x = m\<lparr>mt_prom := pr_Add ops (mt_prom m) ''requests_in_flight'' [] x\<rparr>"

definition Metrics_Middleware ::
  "'p prom_ops \<Rightarrow> ('s \<Rightarrow> request \<Rightarrow> response res \<times> 's) \<Rightarrow> 'p metrics \<Rightarrow> duration \<Rightarrow> 's \<Rightarrow> request
     \<Rightarrow> (response res \<times> 's) \<times> 'p metrics" where
  "Metrics_Middleware ops next m d s r =
     (let m1 = in_flight ops m 1 in
      case next s r of
        (Ok w, s') \<Rightarrow>
          (case record_response ops m1 r d w of
             Ok m2 \<Rightarrow> ((Ok w, s'), in_flight ops m2 (- 1))
           | Err e \<Rightarrow> ((Err e, s'), in_flight ops m1 (- 1))
           | Panic p \<Rightarrow> ((Panic p, s'), in_flight ops m1 (- 1)))
      | (x, s') \<Rightarrow> ((x, s'), in_flight ops m1 (- 1)))"

definition StatsHandler :: "'p metrics \<Rightarrow> time \<Rightarrow> response \<Rightarrow> response" where
  "StatsHandler m now w =
     (let st = GetStats m now; nl = [CHR 0x0A]; q = (\<lambda>k. ''  '' @ dquote k @ '': '');
          num = (\<lambda>x :: 64 word. FormatInt (uint x))
      in Write (bytes_of (''{'' @ nl @ q ''total_requests'' @ num (st_TotalRequests st) @ '','' @ nl
            @ q ''total_errors'' @ num (st_TotalErrors st) @ '','' @ nl
            @ q ''bytes_transferred'' @ num (st_BytesTransferred st) @ '','' @ nl
            @ q ''requests_per_sec'' @ FormatFloat 2 (st_RequestsPerSec st) @ '','' @ nl
            @ q ''error_rate'' @ FormatFloat 4 (st_ErrorRate st) @ '','' @ nl
            @ q ''throughput_bytes_per_sec'' @ FormatFloat 2 (st_Throughput st) @ '','' @ nl
            @ q ''uptime_seconds'' @ FormatFloat 0 (Fin (Seconds (st_Uptime st))) @ nl @ ''}''))
          (WriteHeader 200 (set_header ''Content-Type'' ''application/json'' w)))"

section \<open>Serving requests\<close>

text \<open>A sequence of requests through a handler alone, and through the middleware. The server recovers from a panic of
  a handler and goes on.\<close>

fun serve_plain :: "('s \<Rightarrow> request \<Rightarrow> response res \<times> 's) \<Rightarrow> 's \<Rightarrow> (request \<times> duration) list \<Rightarrow> response res list \<times> 's" where
  "serve_plain next s [] = ([], s)"
| "serve_plain next s ((r, d) # rs) =
     (let (x, s1) = next s r; (xs, s2) = serve_plain next s1 rs in (x # xs, s2))"

fun serve ::
  "'p prom_ops \<Rightarrow> ('s \<Rightarrow> request \<Rightarrow> response res \<times> 's) \<Rightarrow> 'p metrics \<Rightarrow> 's \<Rightarrow> (request \<times> duration) list
     \<Rightarrow> (response res list \<times> 's) \<times> 'p metrics" where
  "serve ops next m s [] = (([], s), m)"
| "serve ops next m s ((r, d) # rs) =
     (let ((x, s1), m1) = Metrics_Middleware ops next m d s r; ((xs, s2), m2) = serve ops next m1 s1 rs in ((x # xs, s2), m2))"

definition answered :: "response res list \<Rightarrow> response list" where
  "answered xs = concat (map (\<lambda>x. case x of Ok w \<Rightarrow> [w] | _ \<Rightarrow> []) xs)"

definition failed_answers :: "response res list \<Rightarrow> response list" where
  "failed_answers xs = filter (\<lambda>w. 400 \<le> rp_Status (finish w)) (answered xs)"

definition sent_bytes :: "response res list \<Rightarrow> nat" where
  "sent_bytes xs = sum_list (map (\<lambda>w. length (rp_Body w)) (answered xs))"

lemma answered_simps [simp]:
  "answered [] = []" "answered (Ok w # xs) = w # answered xs" "answered (Err e # xs) = answered xs" "answered (Panic p # xs) = answered xs"
  by (simp_all add: answered_def)

lemma with_labels_ok:
  assumes "mt_descs m = metric_descs ns" and "find (\<lambda>d. md_name d = name) (metric_descs ns) = Some d" and "length vs = length (md_labels d)"
  shows "with_labels m name vs f = Ok (m\<lparr>mt_prom := f (mt_prom m)\<rparr>)"
  using assms by (simp add: with_labels_def)

lemmas desc_defs = metric_descs_def counter_vec_def histogram_vec_def gauge_def

text \<open>Recording a response succeeds and adds to the counters what the response says.\<close>

lemma record_response_Ok:
  assumes "mt_descs m = metric_descs ns"
  obtains m' where "record_response ops m r d w = Ok m'" "mt_descs m' = metric_descs ns"
    "mt_requestCount m' = mt_requestCount m + 1"
    "mt_errorCount m' = mt_errorCount m + of_nat (length (failed_answers [Ok w]))"
    "mt_bytesTransferred m' = mt_bytesTransferred m + of_nat (sent_bytes [Ok w])"
proof -
  have "\<exists>m'. record_response ops m r d w = Ok m' \<and> mt_descs m' = metric_descs ns \<and> mt_requestCount m' = mt_requestCount m + 1
      \<and> mt_errorCount m' = mt_errorCount m + of_nat (length (failed_answers [Ok w]))
      \<and> mt_bytesTransferred m' = mt_bytesTransferred m + of_nat (sent_bytes [Ok w])"
    using assms
    by (cases "extractOperationAndBucket r")
      (simp add: record_response_def IncRequest_def ObserveRequestDuration_def ObserveResponseSize_def vec_inc_def vec_observe_def
        with_labels_def desc_defs IncError_def AddBytesTransferred_def failed_answers_def sent_bytes_def Let_def)
  then show thesis using that by blast
qed

text \<open>One request: the response and the state are those of the handler, and the counters count it.\<close>

lemma Middleware_counts:
  assumes "mt_descs m = metric_descs ns"
  obtains m' where "Metrics_Middleware ops next m d s r = (next s r, m')" "mt_descs m' = metric_descs ns"
    "mt_requestCount m' = mt_requestCount m + of_nat (length (answered [fst (next s r)]))"
    "mt_errorCount m' = mt_errorCount m + of_nat (length (failed_answers [fst (next s r)]))"
    "mt_bytesTransferred m' = mt_bytesTransferred m + of_nat (sent_bytes [fst (next s r)])"
proof (cases "fst (next s r)")
  case (Ok w)
  obtain m' where "record_response ops (in_flight ops m 1) r d w = Ok m'" "mt_descs m' = metric_descs ns"
    "mt_requestCount m' = mt_requestCount m + 1"
    "mt_errorCount m' = mt_errorCount m + of_nat (length (failed_answers [Ok w]))"
    "mt_bytesTransferred m' = mt_bytesTransferred m + of_nat (sent_bytes [Ok w])"
    using record_response_Ok [of "in_flight ops m 1" ns ops r d w] assms by (auto simp: in_flight_def)
  then show thesis
    using that [of "in_flight ops m' (- 1)"] Ok
    by (cases "next s r") (auto simp: Metrics_Middleware_def in_flight_def Let_def)
next
  case (Err e)
  then show thesis
    using that [of "in_flight ops (in_flight ops m 1) (- 1)"] assms
    by (cases "next s r") (auto simp: Metrics_Middleware_def in_flight_def Let_def failed_answers_def sent_bytes_def)
next
  case (Panic p)
  then show thesis
    using that [of "in_flight ops (in_flight ops m 1) (- 1)"] assms
    by (cases "next s r") (auto simp: Metrics_Middleware_def in_flight_def Let_def failed_answers_def sent_bytes_def)
qed

lemma answered_Cons:
  "length (answered (x # xs)) = length (answered [x]) + length (answered xs)"
  "length (failed_answers (x # xs)) = length (failed_answers [x]) + length (failed_answers xs)"
  "sent_bytes (x # xs) = sent_bytes [x] + sent_bytes xs"
  by (cases x; simp add: failed_answers_def sent_bytes_def)+

lemma serve_counts:
  assumes "mt_descs m = metric_descs ns"
  shows "\<exists>m'. serve ops next m s rs = (serve_plain next s rs, m')
    \<and> mt_requestCount m' = mt_requestCount m + of_nat (length (answered (fst (serve_plain next s rs))))
    \<and> mt_errorCount m' = mt_errorCount m + of_nat (length (failed_answers (fst (serve_plain next s rs))))
    \<and> mt_bytesTransferred m' = mt_bytesTransferred m + of_nat (sent_bytes (fst (serve_plain next s rs)))"
  using assms
proof (induction "next" s rs arbitrary: m rule: serve_plain.induct)
  case (1 h s)
  then show ?case by (simp add: failed_answers_def sent_bytes_def)
next
  case (2 h s r d rs)
  obtain x s1 where n: "h s r = (x, s1)" by (cases "h s r")
  obtain m1 where m1: "Metrics_Middleware ops h m d s r = ((x, s1), m1)" "mt_descs m1 = metric_descs ns"
    "mt_requestCount m1 = mt_requestCount m + of_nat (length (answered [x]))"
    "mt_errorCount m1 = mt_errorCount m + of_nat (length (failed_answers [x]))"
    "mt_bytesTransferred m1 = mt_bytesTransferred m + of_nat (sent_bytes [x])"
    using Middleware_counts [OF "2.prems", of ops h d s r] n by auto
  obtain xs s2 where xs: "serve_plain h s1 rs = (xs, s2)" by (cases "serve_plain h s1 rs")
  obtain m2 where m2: "serve ops h m1 s1 rs = ((xs, s2), m2)"
    "mt_requestCount m2 = mt_requestCount m1 + of_nat (length (answered xs))"
    "mt_errorCount m2 = mt_errorCount m1 + of_nat (length (failed_answers xs))"
    "mt_bytesTransferred m2 = mt_bytesTransferred m1 + of_nat (sent_bytes xs)"
    using "2.IH" [OF n [symmetric] refl m1(2)] xs by auto
  have run: "serve ops h m s ((r, d) # rs) = (serve_plain h s ((r, d) # rs), m2)" "fst (serve_plain h s ((r, d) # rs)) = x # xs"
    by (simp_all add: m1(1) m2(1) n xs)
  show ?case
    by (intro exI [of _ m2] conjI run(1))
      (simp_all only: run(2) m1(3-5) m2(2-4) answered_Cons [of x xs] of_nat_add add.assoc)
qed

section \<open>Properties\<close>

text \<open>C29: the middleware is transparent and counts everything. Whatever requests are served, with whatever handler, the
  responses and the state are those of the handler alone, so that no label ever fails to fit, and the counters are the
  number of responses, of responses with an error status and of bytes sent, modulo \<open>2\<^sup>6\<^sup>4\<close>.\<close>

theorem metrics_count_everything:
  assumes "NewMetrics ops p now ns = Ok m"
  shows "\<exists>m'. serve ops next m s rs = (serve_plain next s rs, m')
    \<and> mt_requestCount m' = of_nat (length (answered (fst (serve_plain next s rs))))
    \<and> mt_errorCount m' = of_nat (length (failed_answers (fst (serve_plain next s rs))))
    \<and> mt_bytesTransferred m' = of_nat (sent_bytes (fst (serve_plain next s rs)))"
proof -
  have "mt_descs m = metric_descs (if ns = '''' then ''s3proxy'' else ns)"
    "mt_requestCount m = 0" "mt_errorCount m = 0" "mt_bytesTransferred m = 0"
    using assms by (auto simp: NewMetrics_def Let_def)
  then show ?thesis using serve_counts [of m _ ops "next" s rs] by simp
qed

text \<open>The statistics of an idle server are not JSON. As long as no request was counted, the error rate is the quotient of
  zero by zero, and the document has \<^verbatim>\<open>NaN\<close> where JSON needs a number.\<close>

theorem idle_stats_NaN:
  assumes "mt_requestCount m = 0" and "mt_errorCount m = 0"
  shows "\<exists>u v. rp_Body (StatsHandler m now fresh) = bytes_of (u @ dquote ''error_rate'' @ '': NaN,'' @ v)"
proof -
  let ?st = "GetStats m now" and ?nl = "[CHR 0x0A]"
  have nan: "st_ErrorRate ?st = NaN" using assms by (simp add: GetStats_def fdiv_def uint_rat_def Let_def)
  have "rp_Body (StatsHandler m now fresh) = bytes_of
      ((''{'' @ ?nl @ ''  '' @ dquote ''total_requests'' @ '': '' @ FormatInt (uint (st_TotalRequests ?st)) @ '','' @ ?nl
          @ ''  '' @ dquote ''total_errors'' @ '': '' @ FormatInt (uint (st_TotalErrors ?st)) @ '','' @ ?nl
          @ ''  '' @ dquote ''bytes_transferred'' @ '': '' @ FormatInt (uint (st_BytesTransferred ?st)) @ '','' @ ?nl
          @ ''  '' @ dquote ''requests_per_sec'' @ '': '' @ FormatFloat 2 (st_RequestsPerSec ?st) @ '','' @ ?nl @ ''  '')
        @ dquote ''error_rate'' @ '': NaN,'' @ (?nl @ ''  '' @ dquote ''throughput_bytes_per_sec'' @ '': ''
          @ FormatFloat 2 (st_Throughput ?st) @ '','' @ ?nl @ ''  '' @ dquote ''uptime_seconds'' @ '': ''
          @ FormatFloat 0 (Fin (Seconds (st_Uptime ?st))) @ ?nl @ ''}''))"
    by (simp add: StatsHandler_def Let_def nan FormatFloat_def [of _ NaN])
  then show ?thesis by blast
qed

section \<open>Concrete runs\<close>

definition list_prom :: "(string \<times> string list \<times> rat) list prom_ops" where
  "list_prom =
     \<lparr>pr_Register = (\<lambda>p d. Ok p), pr_Add = (\<lambda>p n vs x. p @ [(n, vs, x)]), pr_Observe = (\<lambda>p n vs x. p @ [(n, vs, x)]),
      pr_Set = (\<lambda>p n x. p @ [(n, [], x)])\<rparr>"

definition list_metrics :: "(string \<times> string list \<times> rat) list metrics" where
  "list_metrics =
     \<lparr>mt_descs = metric_descs ''s3proxy'', mt_prom = [], mt_requestCount = 0, mt_errorCount = 0, mt_bytesTransferred = 0,
      mt_lastResetTime = 0\<rparr>"

lemma list_metrics_new: "NewMetrics list_prom [] 0 '''' = Ok list_metrics"
  by (simp add: NewMetrics_def list_prom_def list_metrics_def metric_descs_def Let_def)

definition idle_request :: request where
  "idle_request =
     \<lparr>rq_Method = ''GET'', rq_Path = ''/b/'', rq_RawQuery = '''', rq_Query = [], rq_Header = [], rq_RemoteAddr = ''10.0.0.1:999'',
      rq_Host = ''h'', rq_ContentLength = 0, rq_Body = bytes_reader []\<rparr>"

definition not_found :: "nat \<Rightarrow> request \<Rightarrow> response res \<times> nat" where
  "not_found s r = (Ok (Write [1, 2] (WriteHeader 404 fresh)), s + 1)"

theorem metrics_count_everything_witness:
  "\<exists>m. serve list_prom not_found list_metrics 0 [(idle_request, 5), (idle_request, 6)] = (serve_plain not_found 0 [(idle_request, 5), (idle_request, 6)], m)
     \<and> mt_requestCount m = 2 \<and> mt_errorCount m = 2 \<and> mt_bytesTransferred m = 4"
  using metrics_count_everything [OF list_metrics_new, of not_found 0 "[(idle_request, 5), (idle_request, 6)]"]
  by (simp add: not_found_def failed_answers_def sent_bytes_def finish_def)

theorem idle_stats_NaN_witness:
  "\<exists>u v. rp_Body (StatsHandler list_metrics 1000000000 fresh) = bytes_of (u @ dquote ''error_rate'' @ '': NaN,'' @ v)"
  by (rule idle_stats_NaN) (simp_all add: list_metrics_def)

section \<open>The wrapped response writer\<close>

text \<open>\<^verbatim>\<open>responseWriter\<close> passes the calls on and keeps the last status and the number of bytes. A handler is what it calls; \<open>on_response\<close> is the writer of the server.\<close>

record response_writer =
  rw_inner :: response
  rw_statusCode :: int
  rw_bytesWritten :: int

definition rw_new :: "response \<Rightarrow> response_writer" where
  "rw_new w = \<lparr>rw_inner = w, rw_statusCode = 200, rw_bytesWritten = 0\<rparr>"

definition rw_WriteHeader :: "int \<Rightarrow> response_writer \<Rightarrow> response_writer" where
  "rw_WriteHeader code rw = rw\<lparr>rw_statusCode := code, rw_inner := WriteHeader code (rw_inner rw)\<rparr>"

definition rw_Write :: "bytes \<Rightarrow> response_writer \<Rightarrow> response_writer" where
  "rw_Write b rw = rw\<lparr>rw_inner := Write b (rw_inner rw), rw_bytesWritten := rw_bytesWritten rw + int (length b)\<rparr>"

datatype writer_call = CallHeader string string | CallWriteHeader int | CallWrite bytes

fun on_response :: "writer_call \<Rightarrow> response \<Rightarrow> response" where
  "on_response (CallHeader k v) w = set_header k v w"
| "on_response (CallWriteHeader code) w = WriteHeader code w"
| "on_response (CallWrite b) w = Write b w"

fun on_writer :: "writer_call \<Rightarrow> response_writer \<Rightarrow> response_writer" where
  "on_writer (CallHeader k v) rw = rw\<lparr>rw_inner := set_header k v (rw_inner rw)\<rparr>"
| "on_writer (CallWriteHeader code) rw = rw_WriteHeader code rw"
| "on_writer (CallWrite b) rw = rw_Write b rw"

text \<open>A handler that sets the status at most once, and not after the body has begun.\<close>

definition header_first :: "writer_call list \<Rightarrow> bool" where
  "header_first cs \<longleftrightarrow>
     (\<forall>us c vs. cs = us @ CallWriteHeader c # vs \<longrightarrow> c \<noteq> 0 \<and> (\<forall>u \<in> set us. \<exists>k v. u = CallHeader k v) \<and> (\<forall>v \<in> set vs. \<forall>d. v \<noteq> CallWriteHeader d))"

lemma inner_same: "rw_inner (fold on_writer cs rw) = fold on_response cs (rw_inner rw)"
proof (induction cs arbitrary: rw)
  case (Cons c cs)
  then show ?case by (cases c) (simp_all add: rw_WriteHeader_def rw_Write_def)
qed simp

lemma bytes_counted: "rw_bytesWritten (fold on_writer cs rw) = rw_bytesWritten rw + int (length (rp_Body (fold on_response cs (rw_inner rw)))) - int (length (rp_Body (rw_inner rw)))"
proof (induction cs arbitrary: rw)
  case (Cons c cs)
  then show ?case by (cases c) (simp_all add: rw_WriteHeader_def rw_Write_def)
qed simp

lemma status_settled:
  "\<forall>v \<in> set vs. \<forall>d. v \<noteq> CallWriteHeader d \<Longrightarrow>
     rw_statusCode (fold on_writer vs rw) = rw_statusCode rw \<and> (rp_Status w \<noteq> 0 \<longrightarrow> rp_Status (fold on_response vs w) = rp_Status w)
     \<and> rp_Status (finish (fold on_response vs w)) = (if rp_Status w = 0 then 200 else rp_Status w)"
proof (induction vs arbitrary: rw w)
  case Nil
  then show ?case by (simp add: finish_def)
next
  case (Cons v vs)
  then have rest: "\<forall>v \<in> set vs. \<forall>d. v \<noteq> CallWriteHeader d" by simp
  show ?case using Cons.IH [OF rest] Cons.prems by (cases v) (simp_all add: rw_Write_def)
qed

lemma headers_only: "\<forall>u \<in> set us. \<exists>k v. u = CallHeader k v \<Longrightarrow> rp_Status (fold on_response us w) = rp_Status w"
  by (induction us arbitrary: w) auto


text \<open>A status that is set when the answer has begun is recorded although the client never sees it.\<close>

lemma late_status_recorded:
  "rw_statusCode (fold on_writer [CallWrite [1], CallWriteHeader 500] (rw_new fresh)) = 500"
  "rp_Status (finish (fold on_response [CallWrite [1], CallWriteHeader 500] fresh)) = 200"
  by (simp_all add: rw_WriteHeader_def rw_Write_def rw_new_def finish_def)


end
