(* ===== verification/Proxy_Server.thy ===== *)
theory Proxy_Server
  imports S3_Handler Object_Cache Metrics
begin

text \<open>
  \<^verbatim>\<open>internal/proxy/server.go\<close>: how the server is put together from the configuration and the environment, and what it does
  with a request: it repairs the authorization header of MinIO clients, authenticates, and passes the request to
  the handlers of \<^verbatim>\<open>pkg/s3\<close>, all inside the metrics middleware. Arguments stand for the constructors of the backends and of
  the two-queue caches, the environment, the router and the handler of the Prometheus client. Proved: a request
  that is not authenticated changes nothing; line breaks are all the repair removes; the encryption settings have no
  effect on the server. The middleware at the end of the file is not used by the program.
\<close>

section \<open>Construction\<close>

record ('h, 'm) server =
  sv_config :: app_config
  sv_cache :: "('h, 'm) object_cache option"
  sv_auth :: auth_provider

definition env_int :: "(string \<Rightarrow> string) \<Rightarrow> string \<Rightarrow> int \<Rightarrow> int" where
  "env_int env name dflt = (if env name = '''' then dflt else case ParseInt (env name) of Ok n \<Rightarrow> n | _ \<Rightarrow> dflt)"

definition env_duration :: "(string \<Rightarrow> string) \<Rightarrow> string \<Rightarrow> duration \<Rightarrow> duration" where
  "env_duration env name dflt = (if env name = '''' then dflt else case ParseDuration (env name) of Ok d \<Rightarrow> d | _ \<Rightarrow> dflt)"

text \<open>The cache of the server: none when it is switched off or cannot be created.\<close>

definition server_cache ::
  "(string \<Rightarrow> string) \<Rightarrow> (int \<Rightarrow> 'h res) \<Rightarrow> (int \<Rightarrow> 'm res) \<Rightarrow> ('h, 'm) object_cache option res" where
  "server_cache env newHot newMeta =
     (if env ''ENABLE_OBJECT_CACHE'' = ''true'' then
        (case NewObjectCache newHot newMeta (env_int env ''CACHE_MAX_MEMORY'' (1024 * 1024 * 1024))
                (env_int env ''CACHE_MAX_OBJECT_SIZE'' (10 * 1024 * 1024)) (env_duration env ''CACHE_TTL'' (5 * minute)) of
           Ok c \<Rightarrow> Ok (Some c)
         | Err e \<Rightarrow> Ok None
         | Panic p \<Rightarrow> Panic p)
      else Ok None)"

definition NewServer ::
  "(string \<Rightarrow> string) \<Rightarrow> (storage_config \<Rightarrow> 'x res) \<Rightarrow> (int \<Rightarrow> 'h res) \<Rightarrow> (int \<Rightarrow> 'm res) \<Rightarrow> 'p prom_ops \<Rightarrow> 'p \<Rightarrow> time
     \<Rightarrow> app_config \<Rightarrow> ('x \<times> ('h, 'm) server \<times> 'p metrics) res" where
  "NewServer env newBackend newHot newMeta ops prom now cfg =
     res_bind (wrap_err ''failed to create storage backend: '' (newBackend (cf_Storage cfg))) (\<lambda>bk.
     res_bind (server_cache env newHot newMeta) (\<lambda>cache.
     res_bind (wrap_err ''failed to create auth provider: '' (NewAuthProvider (cf_Auth cfg))) (\<lambda>auth.
     res_bind (NewMetrics ops prom now ''s3proxy'') (\<lambda>m.
     Ok (bk, \<lparr>sv_config = cfg, sv_cache = cache, sv_auth = auth\<rparr>, m)))))"

section \<open>Requests\<close>

definition strip_newlines :: "string \<Rightarrow> string" where
  "strip_newlines h = RemoveAll_char (RemoveAll_char h (CHR 0x0A)) (CHR 0x0D)"

definition set_auth_header :: "request \<Rightarrow> string \<Rightarrow> request" where
  "set_auth_header r v = r\<lparr>rq_Header := Header_Set (rq_Header r) ''Authorization'' v\<rparr>"

text \<open>What \<^verbatim>\<open>ServeHTTP\<close> does before routing, and what \<^verbatim>\<open>handleS3Request\<close> does again before authentication.\<close>

definition preprocess :: "request \<Rightarrow> request" where
  "preprocess r =
     (let authHeader = header r ''Authorization''; cleanedHeader = strip_newlines authHeader in
      if is_mc_client r \<and> authHeader \<noteq> '''' \<and> cleanedHeader \<noteq> authHeader then set_auth_header r cleanedHeader else r)"

definition clean_auth :: "request \<Rightarrow> request" where
  "clean_auth r =
     (let authHeader = header r ''Authorization'' in
      if is_mc_client r \<and> (Contains authHeader [CHR 0x0A] \<or> Contains authHeader [CHR 0x0D])
      then set_auth_header r (strip_newlines authHeader) else r)"

definition access_denied :: "response \<Rightarrow> response" where
  "access_denied w = Write (bytes_of ''<Error><Code>AccessDenied</Code></Error>'') (WriteHeader 403 w)"

definition handleS3Request ::
  "auth_config \<Rightarrow> auth_provider \<Rightarrow> ('s \<Rightarrow> request \<Rightarrow> response res \<times> 's) \<Rightarrow> 's \<Rightarrow> request \<Rightarrow> response res \<times> 's" where
  "handleS3Request ac auth s3Handler s r =
     (if ac_Type ac \<noteq> ''none'' then
        let r' = clean_auth r in
        case Authenticate auth r' of
          Ok _ \<Rightarrow> s3Handler s r'
        | Err e \<Rightarrow> (Ok (access_denied fresh), s)
        | Panic p \<Rightarrow> (Panic p, s)
      else s3Handler s r)"

definition healthCheck :: "response \<Rightarrow> response" where
  "healthCheck w =
     Write (bytes_of (''{'' @ dquote ''status'' @ '':'' @ dquote ''healthy'' @ ''}''))
       (WriteHeader 200 (set_header ''Content-Type'' ''application/json'' w))"

text \<open>The routes of the server. The handler of \<^verbatim>\<open>/metrics\<close> is that of the Prometheus client; the statistics are read
  from the metrics as they were before the request. A request without a route is answered by the router itself and is not
  seen by the middleware.\<close>

datatype server_route = HealthRoute | MetricsRoute | StatsRoute | S3Route | NoServerRoute response

definition serve_route ::
  "(string \<Rightarrow> request \<Rightarrow> response) \<Rightarrow> auth_config \<Rightarrow> auth_provider \<Rightarrow> ('s \<Rightarrow> request \<Rightarrow> response res \<times> 's) \<Rightarrow> 'p metrics \<Rightarrow> time
     \<Rightarrow> server_route \<Rightarrow> 's \<Rightarrow> request \<Rightarrow> response res \<times> 's" where
  "serve_route promhttp ac auth s3Handler m now rt s r =
     (case rt of
        HealthRoute \<Rightarrow> (Ok (healthCheck fresh), s)
      | MetricsRoute \<Rightarrow> (Ok (promhttp ''/metrics'' r), s)
      | StatsRoute \<Rightarrow> (Ok (StatsHandler m now fresh), s)
      | S3Route \<Rightarrow> handleS3Request ac auth s3Handler s r
      | NoServerRoute w \<Rightarrow> (Ok w, s))"

definition Server_ServeHTTP ::
  "'p prom_ops \<Rightarrow> (string \<Rightarrow> request \<Rightarrow> response) \<Rightarrow> (request \<Rightarrow> server_route) \<Rightarrow> auth_config \<Rightarrow> auth_provider
     \<Rightarrow> ('s \<Rightarrow> request \<Rightarrow> response res \<times> 's) \<Rightarrow> 'p metrics \<Rightarrow> time \<Rightarrow> duration \<Rightarrow> 's \<Rightarrow> request
     \<Rightarrow> (response res \<times> 's) \<times> 'p metrics" where
  "Server_ServeHTTP ops promhttp router ac auth s3Handler m now d s r =
     (let r' = preprocess r; rt = router r' in
      case rt of
        NoServerRoute w \<Rightarrow> ((Ok w, s), m)
      | _ \<Rightarrow> Metrics_Middleware ops (serve_route promhttp ac auth s3Handler m now rt) m d s r')"

section \<open>Unused middleware\<close>

type_synonym 's http_handler = "response \<Rightarrow> 's \<Rightarrow> request \<Rightarrow> response res \<times> 's"

definition loggingMiddleware :: "'s http_handler \<Rightarrow> 's http_handler" where
  "loggingMiddleware next w s r = (if rq_Path r = ''/health'' then next w s r else next w s r)"

definition authMiddleware :: "auth_config \<Rightarrow> auth_provider option \<Rightarrow> 's http_handler \<Rightarrow> 's http_handler" where
  "authMiddleware ac auth next w s r =
     (if rq_Path r = ''/health'' then next w s r
      else case auth of
        None \<Rightarrow> next w s r
      | Some a \<Rightarrow>
          if ac_Type ac = ''none'' then next w s r
          else case Authenticate a r of
            Ok _ \<Rightarrow> next w s r
          | Err e \<Rightarrow> (Ok (access_denied w), s)
          | Panic p \<Rightarrow> (Panic p, s))"

definition corsMiddleware :: "'s http_handler \<Rightarrow> 's http_handler" where
  "corsMiddleware next w s r =
     (let w' = set_headers [(''Access-Control-Allow-Origin'', ''*''),
            (''Access-Control-Allow-Methods'', ''GET, PUT, POST, DELETE, HEAD, OPTIONS''),
            (''Access-Control-Allow-Headers'', ''Content-Type, Authorization, x-amz-*''),
            (''Access-Control-Expose-Headers'', ''ETag, x-amz-*'')] w
      in if rq_Method r = ''OPTIONS'' then (Ok (WriteHeader 200 w'), s) else next w' s r)"

section \<open>Authentication\<close>

lemma header_set_auth [simp]: "header (set_auth_header r v) ''Authorization'' = v" "is_mc_client (set_auth_header r v) = is_mc_client r"
proof -
  have k: "CanonicalKey ''Authorization'' = ''Authorization''" "CanonicalKey ''User-Agent'' = ''User-Agent''" by code_simp+
  show "header (set_auth_header r v) ''Authorization'' = v" "is_mc_client (set_auth_header r v) = is_mc_client r"
    by (simp_all add: header_def set_auth_header_def Header_Get_def Header_Set_def is_mc_client_def k AList.update_conv' first_value_def)
qed

lemma strip_newlines_clean: "c \<in> {CHR 0x0A, CHR 0x0D} \<Longrightarrow> c \<notin> set (strip_newlines h)"
  by (auto simp: strip_newlines_def RemoveAll_char_def)

lemma Contains_char: "Contains s [c] \<longleftrightarrow> c \<in> set s"
  by (auto simp: Contains_iff in_set_conv_decomp)

lemma strip_newlines_id: "strip_newlines h = h \<longleftrightarrow> CHR 0x0A \<notin> set h \<and> CHR 0x0D \<notin> set h"
  by (auto simp: strip_newlines_def RemoveAll_char_def filter_id_conv)

text \<open>The second repair of the header does nothing any more.\<close>

lemma clean_auth_preprocess: "clean_auth (preprocess r) = preprocess r"
proof (cases "is_mc_client r \<and> header r ''Authorization'' \<noteq> '''' \<and> strip_newlines (header r ''Authorization'') \<noteq> header r ''Authorization''")
  case True
  then have p: "preprocess r = set_auth_header r (strip_newlines (header r ''Authorization''))" by (simp add: preprocess_def)
  show ?thesis
    unfolding p clean_auth_def Let_def header_set_auth Contains_char using strip_newlines_clean by auto
next
  case False
  then have p: "preprocess r = r" by (auto simp: preprocess_def Let_def)
  show ?thesis
    unfolding p clean_auth_def Let_def Contains_char
    by (cases "header r ''Authorization'' = ''''") (use False strip_newlines_id [of "header r ''Authorization''"] in auto)
qed

text \<open>A request on a route of the server through the middleware: response and state are those of the route.\<close>

lemma ServeHTTP_route:
  assumes "mt_descs m = metric_descs ns" and "router (preprocess r) = rt" and "\<And>w. rt \<noteq> NoServerRoute w"
  shows "\<exists>m'. Server_ServeHTTP ops promhttp router ac auth h m now d s r
      = (serve_route promhttp ac auth h m now rt s (preprocess r), m') \<and> mt_descs m' = metric_descs ns
    \<and> mt_requestCount m' = mt_requestCount m + of_nat (length (answered [fst (serve_route promhttp ac auth h m now rt s (preprocess r))]))"
proof -
  obtain m' where "Metrics_Middleware ops (serve_route promhttp ac auth h m now rt) m d s (preprocess r)
      = (serve_route promhttp ac auth h m now rt s (preprocess r), m')" "mt_descs m' = metric_descs ns"
    "mt_requestCount m' = mt_requestCount m + of_nat (length (answered [fst (serve_route promhttp ac auth h m now rt s (preprocess r))]))"
    by (rule Middleware_counts [OF assms(1)])
  moreover
  have "Server_ServeHTTP ops promhttp router ac auth h m now d s r
      = Metrics_Middleware ops (serve_route promhttp ac auth h m now rt) m d s (preprocess r)"
    using assms(2,3) by (cases rt) (auto simp: Server_ServeHTTP_def Let_def)
  ultimately show ?thesis by metis
qed

section \<open>Properties\<close>

text \<open>C9: a request that is not authenticated changes nothing and learns nothing. With an authentication type other than
  \<^verbatim>\<open>none\<close>, a request the provider does not accept leaves the storage as it is, on every route and over any handler, and
  on the routes of S3 its response is the fixed denial, independent of what is stored.\<close>

theorem unauthenticated_changes_nothing:
  assumes "mt_descs m = metric_descs ns" and "ac_Type ac \<noteq> ''none''" and "Authenticate auth (preprocess r) = Err e"
    and "Server_ServeHTTP ops promhttp router ac auth h m now d s r = ((x, s'), m')"
  shows "s' = s \<and> (router (preprocess r) = S3Route \<longrightarrow> x = Ok (access_denied fresh) \<and> mt_requestCount m' = mt_requestCount m + 1)"
proof (cases "\<exists>w. router (preprocess r) = NoServerRoute w")
  case True
  then show ?thesis using assms(4) by (auto simp: Server_ServeHTTP_def Let_def)
next
  case False
  let ?rt = "router (preprocess r)"
  obtain m1 where m1: "Server_ServeHTTP ops promhttp router ac auth h m now d s r
      = (serve_route promhttp ac auth h m now ?rt s (preprocess r), m1)"
    "mt_requestCount m1 = mt_requestCount m + of_nat (length (answered [fst (serve_route promhttp ac auth h m now ?rt s (preprocess r))]))"
    using ServeHTTP_route [where router = router and r = r and rt = ?rt and ops = ops and promhttp = promhttp and ac = ac and auth = auth
        and h = h and now = now and d = d and s = s, OF assms(1) refl] False by metis
  have sr: "serve_route promhttp ac auth h m now ?rt s (preprocess r) = (x, s')" "m1 = m'" using m1(1) assms(4) by simp_all
  have "s' = s" "?rt = S3Route \<Longrightarrow> x = Ok (access_denied fresh)"
    using sr(1) assms(2,3) by (auto simp: serve_route_def handleS3Request_def clean_auth_preprocess split: server_route.splits)
  then show ?thesis using m1(2) sr by auto
qed

text \<open>C1: what is stored through the server is what is fetched through it. With any authentication, over the file system: if a
  \<^verbatim>\<open>PUT\<close> of an object is answered with 200, then an authenticated \<^verbatim>\<open>GET\<close> of it is answered with 200, the same bytes and
  their length, and, when the metadata headers of the \<^verbatim>\<open>PUT\<close> are in valid UTF-8, every one of them (the file system keeps them as
  JSON, which replaces other bytes); the middleware has counted both requests.\<close>

theorem server_put_get:
  fixes base :: string and decode :: "reader \<Rightarrow> completed_part list res" and seekable :: bool and router' :: "request \<Rightarrow> route" and t :: time
  defines "h \<equiv> Handler_ServeHTTP (FileSystemBackend base) decode seekable router' t"
  assumes "mt_descs m = metric_descs ns" and "fs_okey base b k"
    and r: "rq_Method (preprocess r) = ''PUT''" "rq_Query (preprocess r) = []" "router (preprocess r) = S3Route" "router' (preprocess r) = ObjectRoute b k"
      "rq_ContentLength (preprocess r) = int (length (rd_data (rq_Body (preprocess r))))"
    and put: "Server_ServeHTTP ops promhttp router ac auth h m now d s r = ((Ok w, s'), m')" "rp_Status w = 200"
    and g: "rq_Method (preprocess g) = ''GET''" "rq_Query (preprocess g) = []" "header (preprocess g) ''Range'' = ''''" "router (preprocess g) = S3Route"
      "router' (preprocess g) = ObjectRoute b k" "ac_Type ac = ''none'' \<or> Authenticate auth (preprocess g) = Ok ()"
  shows "\<exists>w' m''. Server_ServeHTTP ops promhttp router ac auth h m' now' d' s' g = ((Ok w', s'), m'')
    \<and> rp_Status w' = 200 \<and> rp_Body w' = rd_data (rq_Body (preprocess r))
    \<and> Header_Get (rp_Header w') ''Content-Length'' = FormatInt (rq_ContentLength (preprocess r))
    \<and> (\<forall>md n. collect_metadata (rq_Header (preprocess r)) [] = Ok md \<and> utf8_smap md \<and> ToLower n = n \<and> map_of md n \<noteq> None \<longrightarrow>
         map_of md n = Some (Header_Get (rp_Header w') (''x-amz-meta-'' @ n)))
    \<and> mt_requestCount m'' = mt_requestCount m + 2"
proof -
  obtain m1 where m1: "Server_ServeHTTP ops promhttp router ac auth h m now d s r
      = (serve_route promhttp ac auth h m now S3Route s (preprocess r), m1)" "mt_descs m1 = metric_descs ns"
    "mt_requestCount m1 = mt_requestCount m + of_nat (length (answered [fst (serve_route promhttp ac auth h m now S3Route s (preprocess r))]))"
    using ServeHTTP_route [where router = router and r = r and rt = S3Route and ops = ops and promhttp = promhttp and ac = ac
        and auth = auth and h = h and now = now and d = d and s = s, OF assms(2) r(3)] by auto
  have hs: "handleS3Request ac auth h s (preprocess r) = (Ok w, s')" and m': "m' = m1"
    using m1(1) put(1) by (simp_all add: serve_route_def)
  then have count: "mt_requestCount m' = mt_requestCount m + 1" using m1(3) by (simp add: serve_route_def)
  have "h s (preprocess r) = (Ok w, s')"
    using hs put(2) by (auto simp: handleS3Request_def clean_auth_preprocess Let_def access_denied_def split: if_splits res.splits)
  then have "handleObject (FileSystemBackend base) decode seekable t s (preprocess r) b k = (Ok w, s')"
    using r(4) by (simp add: h_def Handler_ServeHTTP_def)
  from http_put_get [OF assms(3) r(1,2,5) this put(2) g(1-3), of decode seekable t]
  obtain w' where w': "handleObject (FileSystemBackend base) decode seekable t s' (preprocess g) b k = (Ok w', s')"
    "rp_Status w' = 200" "rp_Body w' = rd_data (rq_Body (preprocess r))"
    "Header_Get (rp_Header w') ''Content-Length'' = FormatInt (rq_ContentLength (preprocess r))"
    "\<forall>md n. collect_metadata (rq_Header (preprocess r)) [] = Ok md \<and> utf8_smap md \<and> ToLower n = n \<and> map_of md n \<noteq> None \<longrightarrow>
       map_of md n = Some (Header_Get (rp_Header w') (''x-amz-meta-'' @ n))"
    by blast
  have "serve_route promhttp ac auth h m' now' S3Route s' (preprocess g) = (Ok w', s')"
    using w'(1) g(5,6) by (auto simp: serve_route_def handleS3Request_def clean_auth_preprocess h_def Handler_ServeHTTP_def)
  then obtain m2 where "Server_ServeHTTP ops promhttp router ac auth h m' now' d' s' g = ((Ok w', s'), m2)"
    "mt_requestCount m2 = mt_requestCount m' + 1"
    using ServeHTTP_route [where router = router and r = g and ops = ops and promhttp = promhttp and ac = ac and auth = auth and h = h
        and now = now' and d = d' and s = s', OF m1(2) [folded m'] g(4)] by auto
  then show ?thesis using w'(2-5) count by auto
qed

text \<open>The encryption settings have no effect. Whatever they are, the constructor builds the same storage, cache, authentication
  and metrics, and fails in the same cases; they are only kept in the configuration.\<close>

theorem encryption_settings_ignored:
  "NewServer env newBackend newHot newMeta ops prom now (cfg\<lparr>cf_Encryption := enc\<rparr>) =
     res_bind (NewServer env newBackend newHot newMeta ops prom now cfg)
       (\<lambda>(bk, sv, m). Ok (bk, sv\<lparr>sv_config := cfg\<lparr>cf_Encryption := enc\<rparr>\<rparr>, m))"
  by (cases "newBackend (cf_Storage cfg)"; cases "server_cache env newHot newMeta"; cases "NewAuthProvider (cf_Auth cfg)";
      cases "NewMetrics ops prom now ''s3proxy''") (simp_all add: NewServer_def)

section \<open>Concrete requests\<close>

definition demo_auth :: "string \<Rightarrow> auth_config" where
  "demo_auth ty = \<lparr>ac_Type = ty, ac_Identity = ''AK'', ac_Credential = ''secret'', ac_AWSAccessKeyID = '''', ac_AWSSecretAccessKey = ''''\<rparr>"

abbreviation "demo_handler \<equiv> Handler_ServeHTTP (FileSystemBackend ''/d'') (\<lambda>_. Err ErrEOF) True (\<lambda>_. ObjectRoute ''b'' ''x/y'') 9"

abbreviation "demo_serve ty auth \<equiv>
  Server_ServeHTTP list_prom (\<lambda>_ _. fresh) (\<lambda>_. S3Route) (demo_auth ty) auth demo_handler"

lemma demo_preprocess:
  "preprocess (plain_request ''PUT'' [] [(''X-Amz-Meta-M'', [''v''])] [1, 2]) = plain_request ''PUT'' [] [(''X-Amz-Meta-M'', [''v''])] [1, 2]"
  "preprocess (plain_request ''GET'' [] [] []) = plain_request ''GET'' [] [] []"
  by code_simp+

theorem unauthenticated_changes_nothing_witness:
  "snd (fst (demo_serve ''awsv4'' (AWSV4Provider ''AK'' ''secret'') list_metrics 0 1 demo_fs (plain_request ''GET'' [] [] []))) = demo_fs
   \<and> fst (fst (demo_serve ''awsv4'' (AWSV4Provider ''AK'' ''secret'') list_metrics 0 1 demo_fs (plain_request ''GET'' [] [] [])))
     = Ok (access_denied fresh)"
proof -
  have m: "mt_descs list_metrics = metric_descs ''s3proxy''" by (simp add: list_metrics_def)
  have a: "ac_Type (demo_auth ''awsv4'') \<noteq> ''none''" by (simp add: demo_auth_def)
  have "Authenticate (AWSV4Provider ''AK'' ''secret'') (preprocess (plain_request ''GET'' [] [] [])) = Err (ErrNew ''missing authorization header'')"
    by code_simp
  note denied = unauthenticated_changes_nothing [OF m a this]
  obtain x s' m' where "demo_serve ''awsv4'' (AWSV4Provider ''AK'' ''secret'') list_metrics 0 1 demo_fs (plain_request ''GET'' [] [] []) = ((x, s'), m')"
    by (metis prod.collapse)
  from denied [OF this] this show ?thesis by simp
qed

theorem server_put_get_witness:
  "\<exists>w s' m' w' m''. demo_serve ''none'' NoneProvider list_metrics 0 1 demo_fs (plain_request ''PUT'' [] [(''X-Amz-Meta-M'', [''v''])] [1, 2])
       = ((Ok w, s'), m')
     \<and> demo_serve ''none'' NoneProvider m' 2 3 s' (plain_request ''GET'' [] [] []) = ((Ok w', s'), m'')
     \<and> rp_Body w' = [1, 2] \<and> Header_Get (rp_Header w') ''x-amz-meta-m'' = ''v'' \<and> mt_requestCount m'' = 2"
proof -
  let ?r = "plain_request ''PUT'' [] [(''X-Amz-Meta-M'', [''v''])] [1, 2]" and ?g = "plain_request ''GET'' [] [] []"
  have m: "mt_descs list_metrics = metric_descs ''s3proxy''" "mt_requestCount list_metrics = 0" by (simp_all add: list_metrics_def)
  have a: "ac_Type (demo_auth ''none'') = ''none''" by (simp add: demo_auth_def)
  obtain w s' where w: "handleObject (FileSystemBackend ''/d'') (\<lambda>_. Err ErrEOF) True 9 demo_fs ?r ''b'' ''x/y'' = (Ok w, s')" "rp_Status w = 200"
    using demo_http_put by blast
  then have "serve_route (\<lambda>_ _. fresh) (demo_auth ''none'') NoneProvider demo_handler list_metrics 0 S3Route demo_fs (preprocess ?r) = (Ok w, s')"
    by (simp add: serve_route_def handleS3Request_def a Handler_ServeHTTP_def demo_preprocess)
  then obtain m' where put: "demo_serve ''none'' NoneProvider list_metrics 0 1 demo_fs ?r = ((Ok w, s'), m')"
    using ServeHTTP_route [OF m(1), where rt = S3Route and router = "\<lambda>_. S3Route" and r = ?r and ops = list_prom and promhttp = "\<lambda>_ _. fresh"
        and ac = "demo_auth ''none''" and auth = NoneProvider and h = demo_handler and now = 0 and d = 1 and s = demo_fs] by auto
  have md: "collect_metadata [(''X-Amz-Meta-M'', [''v''])] [] = Ok [(''m'', ''v'')]" "ToLower ''m'' = ''m''" by code_simp+
  have u: "utf8_smap [(''m'', ''v'')]" by (simp add: ascii_valid)
  show ?thesis
    using server_put_get [OF m(1) demo_okey(1) _ _ _ _ _ put w(2), of ?g 2 3] demo_preprocess demo_range_header(2) a m(2) md u put
    by fastforce
qed

end
