(* ===== verification/Go_Stream.thy ===== *)
theory Go_Stream
  imports Go_Base
begin

text \<open>
  Readers as the code sees them when it depends on how the bytes are cut into single \<^verbatim>\<open>Read\<close> calls. A \<open>stream\<close> is a source
  that delivers its bytes in given pieces, possibly empty ones, and ends with an error; it reports that error together with its
  last bytes (\<open>st_eager\<close>) or in a call of its own, which \<^verbatim>\<open>io.Reader\<close> both allows. The locale \<open>byte_reader\<close> is the contract of
  \<^verbatim>\<open>io.Reader\<close>: what is delivered is exactly what was left, in order, and reading ends. A reader that keeps it is drained
  completely by every sequence of reads; the buffering and wrapping readers of the components interpret it.
\<close>

section \<open>Sources\<close>

record stream =
  st_pieces :: "bytes list"
  st_err :: "go_error option"
  st_eager :: bool

text \<open>The error a reader ends with; \<open>None\<close> stands for \<^verbatim>\<open>io.EOF\<close>.\<close>

definition end_error :: "go_error option \<Rightarrow> go_error" where
  "end_error e = (case e of None \<Rightarrow> ErrEOF | Some x \<Rightarrow> x)"

definition clean_end :: "go_error option \<Rightarrow> go_error option" where
  "clean_end e = (if e = Some ErrEOF then None else e)"

definition stream_Read :: "nat \<Rightarrow> stream \<Rightarrow> (bytes \<times> go_error option) \<times> stream" where
  "stream_Read p s =
     (case st_pieces s of
        [] \<Rightarrow> (([], Some (end_error (st_err s))), s)
      | x # xs \<Rightarrow>
          if length x \<le> p then ((x, if xs = [] \<and> st_eager s then Some (end_error (st_err s)) else None), s\<lparr>st_pieces := xs\<rparr>)
          else ((take p x, None), s\<lparr>st_pieces := drop p x # xs\<rparr>))"

definition stream_left :: "stream \<Rightarrow> bytes" where
  "stream_left s = concat (st_pieces s)"

definition stream_steps :: "stream \<Rightarrow> nat" where
  "stream_steps s = sum_list (map (\<lambda>x. Suc (length x)) (st_pieces s))"

text \<open>A source that is given by the bytes it delivers in all, as one piece.\<close>

definition stream_of :: "reader \<Rightarrow> stream" where
  "stream_of r = \<lparr>st_pieces = [rd_data r], st_err = rd_err r, st_eager = False\<rparr>"

lemma stream_Read_cases:
  assumes "stream_Read p s = ((bs, e), s')"
  shows "stream_left s = bs @ stream_left s'" and "st_err s' = st_err s" and "length bs \<le> p"
    and "e = None \<Longrightarrow> 0 < p \<Longrightarrow> stream_steps s' + length bs + (if bs = [] then 1 else 0) \<le> stream_steps s"
    and "e = Some x \<Longrightarrow> x = end_error (st_err s) \<and> st_pieces s' = []"
    and "stream_steps s' + length bs \<le> stream_steps s"
  using assms by (auto simp: stream_Read_def stream_left_def stream_steps_def split: list.splits if_splits)

lemma stream_of_simps [simp]:
  "stream_left (stream_of r) = rd_data r" "st_err (stream_of r) = rd_err r" "stream_steps (stream_of r) = Suc (length (rd_data r))"
  by (simp_all add: stream_of_def stream_left_def stream_steps_def)

lemma stream_exhausted: "st_pieces s = [] \<Longrightarrow> stream_left s = []"
  by (simp add: stream_left_def)

section \<open>Draining\<close>

text \<open>A client that reads until it gets an error; the \<open>i\<close>-th read has a buffer of \<open>ps i\<close> bytes. No fuel left is \<open>None\<close>.\<close>

fun drain_with ::
  "(nat \<Rightarrow> 's \<Rightarrow> (bytes \<times> go_error option) res \<times> 's) \<Rightarrow> (nat \<Rightarrow> nat) \<Rightarrow> nat \<Rightarrow> 's \<Rightarrow> reader res option" where
  "drain_with rd ps 0 s = None"
| "drain_with rd ps (Suc f) s =
     (case rd (ps 0) s of
        (Ok (bs, Some e), s') \<Rightarrow> Some (Ok \<lparr>rd_data = bs, rd_err = (if e = ErrEOF then None else Some e)\<rparr>)
      | (Ok (bs, None), s') \<Rightarrow>
          map_option (\<lambda>x. res_bind x (\<lambda>r. Ok (r\<lparr>rd_data := bs @ rd_data r\<rparr>))) (drain_with rd (\<lambda>i. ps (Suc i)) f s')
      | (Err e, s') \<Rightarrow> Some (Err e)
      | (Panic m, s') \<Rightarrow> Some (Panic m))"

text \<open>The buffer of \<^verbatim>\<open>io.Copy\<close>.\<close>

definition copyBufSize :: nat where
  "copyBufSize = 32 * 1024"

locale byte_reader =
  fixes rd :: "nat \<Rightarrow> 's \<Rightarrow> (bytes \<times> go_error option) res \<times> 's"
    and ok :: "nat \<Rightarrow> bool"
    and inv :: "'s \<Rightarrow> bool"
    and left :: "'s \<Rightarrow> bytes"
    and final :: "'s \<Rightarrow> go_error option"
    and steps :: "'s \<Rightarrow> nat"
  assumes read_returns: "inv s \<Longrightarrow> ok p \<Longrightarrow> \<exists>bs e s'. rd p s = (Ok (bs, e), s')"
    and read_inv: "inv s \<Longrightarrow> ok p \<Longrightarrow> rd p s = (Ok (bs, e), s') \<Longrightarrow> inv s'"
    and read_fits: "inv s \<Longrightarrow> ok p \<Longrightarrow> rd p s = (Ok (bs, e), s') \<Longrightarrow> length bs \<le> p"
    and read_left: "inv s \<Longrightarrow> ok p \<Longrightarrow> rd p s = (Ok (bs, e), s') \<Longrightarrow> left s = bs @ left s' \<and> final s' = final s"
    and read_steps: "inv s \<Longrightarrow> ok p \<Longrightarrow> rd p s = (Ok (bs, None), s') \<Longrightarrow> steps s' < steps s"
    and read_end: "inv s \<Longrightarrow> ok p \<Longrightarrow> rd p s = (Ok (bs, Some x), s') \<Longrightarrow> left s' = [] \<and> x = end_error (final s)"
begin

text \<open>A reader that keeps the contract is drained completely, whatever the sizes of the reads.\<close>

lemma drain_complete:
  assumes "inv s" and "\<And>i. ok (ps i)" and "steps s < f"
  shows "drain_with rd ps f s = Some (Ok \<lparr>rd_data = left s, rd_err = clean_end (final s)\<rparr>)"
  using assms
proof (induction f arbitrary: s ps)
  case 0
  then show ?case by simp
next
  case (Suc f)
  obtain bs e s' where r: "rd (ps 0) s = (Ok (bs, e), s')" using read_returns Suc.prems(1,2) by blast
  note facts = read_inv [OF Suc.prems(1,2) r] read_left [OF Suc.prems(1,2) r]
  show ?case
  proof (cases e)
    case None
    then have "steps s' < f" using read_steps [OF Suc.prems(1,2)] r Suc.prems(3) by fastforce
    with Suc.IH [of s' "\<lambda>i. ps (Suc i)"] Suc.prems facts show ?thesis by (simp add: r None)
  next
    case (Some x)
    with r have "left s' = []" "x = end_error (final s)" using read_end [OF Suc.prems(1,2)] by auto
    with facts show ?thesis by (auto simp: r Some end_error_def clean_end_def split: option.splits)
  qed
qed

end

text \<open>Draining ends when every read that returns bytes or nothing makes progress.\<close>

lemma drain_returns:
  assumes "\<And>p r bs r'. 0 < p \<Longrightarrow> rd p r = (Ok (bs, None), r') \<Longrightarrow> m r' < (m r :: nat)" and "\<forall>i. 0 < ps i" and "m r < f"
  shows "drain_with rd ps f r \<noteq> None"
  using assms(2,3)
proof (induction f arbitrary: ps r)
  case (Suc f)
  obtain x r' where x: "rd (ps 0) r = (x, r')" by (cases "rd (ps 0) r")
  have "x = Ok (bs, None) \<Longrightarrow> m r' < f" for bs using assms(1) [of "ps 0" r bs r'] x Suc.prems by (simp add: less_Suc_eq_le)
  then show ?case using Suc.IH [of "\<lambda>i. ps (Suc i)" r'] Suc.prems(1) by (auto simp: x split: res.splits option.splits prod.splits)
qed simp

section \<open>Sources keep the contract\<close>

definition plain_Read :: "nat \<Rightarrow> stream \<Rightarrow> (bytes \<times> go_error option) res \<times> stream" where
  "plain_Read p s = (case stream_Read p s of (x, s') \<Rightarrow> (Ok x, s'))"

lemma plain_Read_Ok: "plain_Read p s = (Ok (bs, e), s') \<longleftrightarrow> stream_Read p s = ((bs, e), s')"
  by (auto simp: plain_Read_def split: prod.splits)

interpretation source: byte_reader plain_Read "\<lambda>p. 0 < p" "\<lambda>_. True" stream_left st_err stream_steps
proof unfold_locales
  fix s p
  show "\<exists>bs e s'. plain_Read p s = (Ok (bs, e), s')" by (cases "stream_Read p s") (auto simp: plain_Read_def)
next
  fix s p bs e s'
  assume r: "plain_Read p s = (Ok (bs, e), s')"
  then show "length bs \<le> p" "stream_left s = bs @ stream_left s' \<and> st_err s' = st_err s"
    using stream_Read_cases unfolding plain_Read_Ok by auto
next
  fix s and p :: nat and bs s'
  assume "0 < p" and "plain_Read p s = (Ok (bs, None), s')"
  then have "stream_steps s' + length bs + (if bs = [] then 1 else 0) \<le> stream_steps s"
    using stream_Read_cases(4) unfolding plain_Read_Ok by blast
  then show "stream_steps s' < stream_steps s" by (cases bs) auto
next
  fix s p bs e s'
  assume "plain_Read p s = (Ok (bs, Some e), s')"
  then show "stream_left s' = [] \<and> e = end_error (st_err s)"
    using stream_Read_cases(5) stream_exhausted unfolding plain_Read_Ok by blast
qed simp

end
