(* ===== verification/Storage_S3.thy ===== *)
theory Storage_S3
  imports Storage_Backend Go_Crypto Go_Stream TTL_Cache
begin

text \<open>
  \<^verbatim>\<open>internal/storage/s3.go\<close>: the backend that forwards to S3 services. A virtual bucket is mapped to a real bucket, a key
  prefix and a client of its own. The AWS SDK is an argument: a record of operations of a client \<open>'k\<close> over the state \<open>'c\<close> of the
  service, on the fields of the input and output structures the code sets and reads; pointers it tests for \<^verbatim>\<open>nil\<close> are options. The body
  of an object is the list of pieces its successive reads deliver, and the sizes of the reads of the client an argument. A nil bucket configuration panics where the code
  dereferences it. The map of sessions, which is only written, is left out. Proved: virtual keys are recovered from real
  ones; prefixes separate virtual buckets; a large upload is cut into the parts of a reference definition; what the decoding
  reader does to the bytes of an object.
\<close>

section \<open>The decoding reader\<close>

definition multipartThreshold :: int where
  "multipartThreshold = 5 * 1024 * 1024"

definition partSize :: nat where
  "partSize = 5 * 1024 * 1024"

definition chunkBufSize :: nat where
  "chunkBufSize = 8192"

record chunk_reader =
  cr_pieces :: "bytes list"
  cr_err :: "go_error option"
  cr_buffer :: bytes
  cr_inChunk :: bool
  cr_done :: bool

definition newChunkedDecodingReader :: "bytes list \<Rightarrow> go_error option \<Rightarrow> chunk_reader" where
  "newChunkedDecodingReader pieces err =
     \<lparr>cr_pieces = pieces, cr_err = err, cr_buffer = [], cr_inChunk = False, cr_done = False\<rparr>"

text \<open>One read of the wrapped body into the buffer of the reader.\<close>

fun piece_Read :: "bytes list \<Rightarrow> go_error option \<Rightarrow> (bytes \<times> go_error option) \<times> bytes list" where
  "piece_Read [] err = (([], Some (case err of None \<Rightarrow> ErrEOF | Some e \<Rightarrow> e)), [])"
| "piece_Read (x # xs) err =
     (if length x \<le> chunkBufSize then ((x, None), xs)
      else ((take chunkBufSize x, None), drop chunkBufSize x # xs))"

definition chunk_signature :: string where
  "chunk_signature = '';chunk-signature=''"

definition end_marker :: bytes where
  "end_marker = bytes_of (''0'' @ [CHR 0x0D, CHR 0x0A, CHR 0x0D, CHR 0x0A])"

definition strip_chunk_header :: "bool \<Rightarrow> bytes \<Rightarrow> bytes \<times> bool" where
  "strip_chunk_header inChunk data =
     (let idx = Index (string_of data) chunk_signature; endIdx = Index (string_of data) [CHR 0x0A] in
      if \<not> inChunk \<and> data \<noteq> [] \<and> 0 < idx \<and> idx < 20 \<and> idx < endIdx then (drop (nat endIdx + 1) data, True) else (data, inChunk))"

definition strip_end_marker :: "bytes \<Rightarrow> bytes \<times> bool" where
  "strip_end_marker data =
     (if HasSuffix (string_of data) (string_of end_marker) then (take (length data - 5) data, True) else (data, False))"

definition chunked_Read :: "nat \<Rightarrow> chunk_reader \<Rightarrow> (bytes \<times> go_error option) \<times> chunk_reader" where
  "chunked_Read p c =
     (if cr_done c then (([], Some ErrEOF), c)
      else if cr_buffer c \<noteq> [] then ((take p (cr_buffer c), None), c\<lparr>cr_buffer := drop p (cr_buffer c)\<rparr>)
      else
        let ((got, err), rest) = piece_Read (cr_pieces c) (cr_err c); c1 = c\<lparr>cr_pieces := rest\<rparr> in
        if got = [] then (([], err), c1)
        else
          let (d1, inC) = strip_chunk_header (cr_inChunk c1) got; (d2, fin) = strip_end_marker d1 in
          ((take p d2, None), c1\<lparr>cr_inChunk := inC, cr_done := (cr_done c1 \<or> fin), cr_buffer := drop p d2\<rparr>))"

definition pieces_left :: "chunk_reader \<Rightarrow> nat" where
  "pieces_left c = 2 * sum_list (map (\<lambda>x. Suc (length x)) (cr_pieces c)) + length (cr_buffer c)"

text \<open>What a client gets that reads the body with buffers of \<open>qs 0\<close>, \<open>qs 1\<close>, ... bytes until the end or an error. The fuel is enough when
  every buffer has room: proved below.\<close>

definition chunked_call :: "nat \<Rightarrow> chunk_reader \<Rightarrow> (bytes \<times> go_error option) res \<times> chunk_reader" where
  "chunked_call p c = (case chunked_Read p c of (x, c') \<Rightarrow> (Ok x, c'))"

definition decoded_body :: "(nat \<Rightarrow> nat) \<Rightarrow> bytes list \<Rightarrow> go_error option \<Rightarrow> reader" where
  "decoded_body qs pieces err =
     (let c = newChunkedDecodingReader pieces err in
      case drain_with chunked_call qs (Suc (pieces_left c)) c of Some (Ok r) \<Rightarrow> r | _ \<Rightarrow> bytes_reader [])"

section \<open>The metadata cache\<close>

record cached_metadata =
  cm_info :: object_info
  cm_expiry :: time

record metadata_cache =
  mc_cache :: "(string \<times> cached_metadata) list"
  mc_ttl :: duration

definition MetadataCache_Get :: "metadata_cache \<Rightarrow> time \<Rightarrow> string \<Rightarrow> object_info option" where
  "MetadataCache_Get m now key =
     (case map_of (mc_cache m) key of
        Some entry \<Rightarrow> if now < cm_expiry entry then Some (cm_info entry) else None
      | None \<Rightarrow> None)"

definition MetadataCache_Set :: "metadata_cache \<Rightarrow> time \<Rightarrow> string \<Rightarrow> object_info \<Rightarrow> metadata_cache" where
  "MetadataCache_Set m now key info =
     m\<lparr>mc_cache := AList.update key \<lparr>cm_info = info, cm_expiry = now + mc_ttl m\<rparr> (mc_cache m)\<rparr>"

definition MetadataCache_Delete :: "metadata_cache \<Rightarrow> string \<Rightarrow> metadata_cache" where
  "MetadataCache_Delete m key = m\<lparr>mc_cache := AList.delete key (mc_cache m)\<rparr>"

section \<open>The SDK\<close>

record aws_config =
  aw_Region :: string
  aw_Endpoint :: "string option"
  aw_S3ForcePathStyle :: bool
  aw_DisableSSL :: bool
  aw_Credentials :: "(string \<times> string) option"
  aw_Profile :: string

record s3_put_input =
  pi_Bucket :: string
  pi_Key :: string
  pi_Metadata :: smap
  pi_ServerSideEncryption :: "string option"
  pi_SSEKMSKeyId :: "string option"

record s3_get_output =
  go_Body :: "bytes list"
  go_BodyErr :: "go_error option"
  go_ContentType :: string
  go_ContentLength :: int
  go_ETag :: string
  go_LastModified :: time
  go_Metadata :: "(string \<times> string option) list"
  go_ServerSideEncryption :: "string option"
  go_SSEKMSKeyId :: "string option"

record s3_head_output =
  ho_ContentLength :: int
  ho_ETag :: string
  ho_LastModified :: time
  ho_StorageClass :: string
  ho_Metadata :: "(string \<times> string option) list"

record s3_list_input =
  li_Bucket :: string
  li_MaxKeys :: int
  li_Prefix :: "string option"
  li_Marker :: "string option"
  li_Delimiter :: "string option"

record s3_list_output =
  lo_IsTruncated :: bool
  lo_Contents :: "object_info list"
  lo_NextMarker :: "string option"
  lo_CommonPrefixes :: "string list"

record s3_acl_output =
  ao_Owner :: "owner option"
  ao_Grants :: "(grantee option \<times> string) list"

record s3_parts_output =
  po_IsTruncated :: bool
  po_Parts :: "part list"
  po_NextPartNumberMarker :: "int option"

record ('k, 'c) s3_sdk =
  sdk_NewSession :: "aws_config \<Rightarrow> 'k res"
  sdk_ListBuckets :: "'k \<Rightarrow> 'c \<Rightarrow> bucket_info list res \<times> 'c"
  sdk_CreateBucket :: "'k \<Rightarrow> string \<Rightarrow> 'c \<Rightarrow> unit res \<times> 'c"
  sdk_DeleteBucket :: "'k \<Rightarrow> string \<Rightarrow> 'c \<Rightarrow> unit res \<times> 'c"
  sdk_HeadBucket :: "'k \<Rightarrow> string \<Rightarrow> 'c \<Rightarrow> unit res \<times> 'c"
  sdk_ListObjects :: "'k \<Rightarrow> s3_list_input \<Rightarrow> 'c \<Rightarrow> s3_list_output res \<times> 'c"
  sdk_GetObject :: "'k \<Rightarrow> string \<Rightarrow> string \<Rightarrow> 'c \<Rightarrow> s3_get_output res \<times> 'c"
  sdk_PutObject :: "'k \<Rightarrow> s3_put_input \<Rightarrow> reader \<Rightarrow> int \<Rightarrow> 'c \<Rightarrow> unit res \<times> 'c"
  sdk_DeleteObject :: "'k \<Rightarrow> string \<Rightarrow> string \<Rightarrow> 'c \<Rightarrow> unit res \<times> 'c"
  sdk_HeadObject :: "'k \<Rightarrow> string \<Rightarrow> string \<Rightarrow> 'c \<Rightarrow> s3_head_output res \<times> 'c"
  sdk_GetObjectAcl :: "'k \<Rightarrow> string \<Rightarrow> string \<Rightarrow> 'c \<Rightarrow> s3_acl_output res \<times> 'c"
  sdk_CreateMultipartUpload :: "'k \<Rightarrow> s3_put_input \<Rightarrow> 'c \<Rightarrow> string option res \<times> 'c"
  sdk_UploadPart :: "'k \<Rightarrow> string \<Rightarrow> string \<Rightarrow> string option \<Rightarrow> int \<Rightarrow> bytes \<Rightarrow> 'c \<Rightarrow> string option res \<times> 'c"
  sdk_CompleteMultipartUpload :: "'k \<Rightarrow> string \<Rightarrow> string \<Rightarrow> string option \<Rightarrow> (int \<times> string option) list \<Rightarrow> 'c \<Rightarrow> unit res \<times> 'c"
  sdk_AbortMultipartUpload :: "'k \<Rightarrow> string \<Rightarrow> string \<Rightarrow> string option \<Rightarrow> 'c \<Rightarrow> unit res \<times> 'c"
  sdk_ListParts :: "'k \<Rightarrow> string \<Rightarrow> string \<Rightarrow> string \<Rightarrow> int \<Rightarrow> int option \<Rightarrow> 'c \<Rightarrow> s3_parts_output res \<times> 'c"

definition StringValue :: "string option \<Rightarrow> string" where
  "StringValue p = (case p of Some s \<Rightarrow> s | None \<Rightarrow> '''')"

section \<open>Buckets and clients\<close>

text \<open>The parts of \<^verbatim>\<open>S3Backend\<close> that never change, and its state: the clients made so far, the metadata cache, the service and
  the clock.\<close>

record 'k s3_backend =
  sb_defaultClient :: 'k
  sb_config :: s3_storage_config

record ('k, 'c) s3state =
  s3_clients :: "(string \<times> 'k) list"
  s3_metadataCache :: metadata_cache
  s3_service :: 'c
  s3_clock :: "nat \<Rightarrow> time"
  s3_ticks :: nat

definition bucketConfigs :: "'k s3_backend \<Rightarrow> (string \<times> bucket_config option) list" where
  "bucketConfigs b = ss_BucketConfigs (sb_config b)"

definition mapBucket :: "'k s3_backend \<Rightarrow> string \<Rightarrow> string res" where
  "mapBucket b virtualBucket =
     (let simple = Ok (case map_of (ss_BucketMapping (sb_config b)) virtualBucket of Some realBucket \<Rightarrow> realBucket | None \<Rightarrow> virtualBucket) in
      case map_of (bucketConfigs b) virtualBucket of
        Some None \<Rightarrow> nil_deref
      | Some (Some cfg) \<Rightarrow> if bc_RealName cfg \<noteq> '''' then Ok (bc_RealName cfg) else simple
      | None \<Rightarrow> simple)"

definition with_slash :: "string \<Rightarrow> string" where
  "with_slash prefix = (if HasSuffix prefix ''/'' then prefix else prefix @ ''/'')"

definition getPrefixForBucket :: "'k s3_backend \<Rightarrow> string \<Rightarrow> string res" where
  "getPrefixForBucket b virtualBucket =
     (case map_of (bucketConfigs b) virtualBucket of
        Some None \<Rightarrow> nil_deref
      | Some (Some cfg) \<Rightarrow> Ok (if bc_Prefix cfg \<noteq> '''' then with_slash (bc_Prefix cfg) else '''')
      | None \<Rightarrow> Ok '''')"

definition add_prefix :: "string \<Rightarrow> string \<Rightarrow> string" where
  "add_prefix prefix key = (if prefix = '''' then key else if HasPrefix key ''/'' then prefix @ drop 1 key else prefix @ key)"

definition remove_key_prefix :: "string \<Rightarrow> string \<Rightarrow> string" where
  "remove_key_prefix prefix key = (if prefix = '''' then key else TrimPrefix key prefix)"

definition addPrefixToKey :: "'k s3_backend \<Rightarrow> string \<Rightarrow> string \<Rightarrow> string res" where
  "addPrefixToKey b virtualBucket key = res_bind (getPrefixForBucket b virtualBucket) (\<lambda>prefix. Ok (add_prefix prefix key))"

definition removePrefixFromKey :: "'k s3_backend \<Rightarrow> string \<Rightarrow> string \<Rightarrow> string res" where
  "removePrefixFromKey b virtualBucket key = res_bind (getPrefixForBucket b virtualBucket) (\<lambda>prefix. Ok (remove_key_prefix prefix key))"

definition GetBucketConfig :: "'k s3_backend \<Rightarrow> string \<Rightarrow> bucket_config option" where
  "GetBucketConfig b bucket = (case map_of (bucketConfigs b) bucket of Some cfg \<Rightarrow> cfg | None \<Rightarrow> None)"

definition client_config :: "s3_storage_config \<Rightarrow> bucket_config \<Rightarrow> aws_config" where
  "client_config sc cfg =
     \<lparr>aw_Region = bc_Region cfg,
      aw_Endpoint = (if bc_Endpoint cfg \<noteq> '''' then Some (bc_Endpoint cfg)
                     else if ss_Endpoint sc \<noteq> '''' then Some (ss_Endpoint sc) else None),
      aw_S3ForcePathStyle = ss_UsePathStyle sc, aw_DisableSSL = ss_DisableSSL sc,
      aw_Credentials = (if bc_AccessKey cfg \<noteq> '''' \<and> bc_SecretKey cfg \<noteq> '''' then Some (bc_AccessKey cfg, bc_SecretKey cfg)
                        else if ss_AccessKey sc \<noteq> '''' \<and> ss_SecretKey sc \<noteq> '''' then Some (ss_AccessKey sc, ss_SecretKey sc)
                        else None),
      aw_Profile = ''''\<rparr>"

definition client_key :: "bucket_config \<Rightarrow> string" where
  "client_key cfg = (if bc_Endpoint cfg \<noteq> '''' then bc_Endpoint cfg @ ''_'' @ bc_Region cfg else bc_Region cfg)"

definition getOrCreateClient ::
  "('k, 'c) s3_sdk \<Rightarrow> 'k s3_backend \<Rightarrow> bucket_config \<Rightarrow> ('k, 'c) s3state \<Rightarrow> 'k res \<times> ('k, 'c) s3state" where
  "getOrCreateClient sdk b cfg s =
     (case map_of (s3_clients s) (client_key cfg) of
        Some client \<Rightarrow> (Ok client, s)
      | None \<Rightarrow>
          (case sdk_NewSession sdk (client_config (sb_config b) cfg) of
             Ok client \<Rightarrow> (Ok client, s\<lparr>s3_clients := AList.update (client_key cfg) client (s3_clients s)\<rparr>)
           | Err e \<Rightarrow> (Err (ErrWrap (''failed to create AWS session for region '' @ bc_Region cfg @ '': '') e), s)
           | Panic p \<Rightarrow> (Panic p, s)))"

fun config_of_real :: "string \<Rightarrow> (string \<times> bucket_config option) list \<Rightarrow> bucket_config option res" where
  "config_of_real bucket [] = Ok None"
| "config_of_real bucket ((v, None) # cs) = nil_deref"
| "config_of_real bucket ((v, Some cfg) # cs) = (if bc_RealName cfg = bucket then Ok (Some cfg) else config_of_real bucket cs)"

definition getClientForBucket ::
  "('k, 'c) s3_sdk \<Rightarrow> 'k s3_backend \<Rightarrow> string \<Rightarrow> ('k, 'c) s3state \<Rightarrow> 'k res \<times> ('k, 'c) s3state" where
  "getClientForBucket sdk b bucket s =
     (case map_of (bucketConfigs b) bucket of
        Some None \<Rightarrow> (nil_deref, s)
      | Some (Some cfg) \<Rightarrow> getOrCreateClient sdk b cfg s
      | None \<Rightarrow>
          (case config_of_real bucket (bucketConfigs b) of
             Ok (Some cfg) \<Rightarrow> getOrCreateClient sdk b cfg s
           | Ok None \<Rightarrow> (Ok (sb_defaultClient b), s)
           | Err e \<Rightarrow> (Err e, s)
           | Panic p \<Rightarrow> (Panic p, s)))"

definition NewS3Backend ::
  "('k, 'c) s3_sdk \<Rightarrow> 'c \<Rightarrow> (nat \<Rightarrow> time) \<Rightarrow> s3_storage_config \<Rightarrow> ('k s3_backend \<times> ('k, 'c) s3state) res" where
  "NewS3Backend sdk service clock cfg =
     res_bind (wrap_err ''failed to create AWS session: '' (sdk_NewSession sdk
        \<lparr>aw_Region = ss_Region cfg, aw_Endpoint = (if ss_Endpoint cfg \<noteq> '''' then Some (ss_Endpoint cfg) else None),
         aw_S3ForcePathStyle = ss_UsePathStyle cfg, aw_DisableSSL = ss_DisableSSL cfg,
         aw_Credentials = (if ss_AccessKey cfg \<noteq> '''' \<and> ss_SecretKey cfg \<noteq> '''' then Some (ss_AccessKey cfg, ss_SecretKey cfg) else None),
         aw_Profile = ss_Profile cfg\<rparr>)) (\<lambda>client.
     if \<exists>c \<in> set (ss_BucketConfigs cfg). snd c = None then nil_deref
     else Ok (\<lparr>sb_defaultClient = client, sb_config = cfg\<rparr>,
         \<lparr>s3_clients = [], s3_metadataCache = \<lparr>mc_cache = [], mc_ttl = 30 * second\<rparr>, s3_service = service, s3_clock = clock,
          s3_ticks = 0\<rparr>))"

text \<open>A call of the service with the client of a bucket, its error wrapped in a message.\<close>

definition call ::
  "('k, 'c) s3_sdk \<Rightarrow> 'k s3_backend \<Rightarrow> string \<Rightarrow> string \<Rightarrow> ('k \<Rightarrow> 'c \<Rightarrow> 'a res \<times> 'c) \<Rightarrow> ('k, 'c) s3state \<Rightarrow> 'a res \<times> ('k, 'c) s3state" where
  "call sdk b bucket msg f s =
     rs_bind (rs_wrap ''failed to get client for bucket: '' (getClientForBucket sdk b bucket s)) (\<lambda>client s1.
       case f client (s3_service s1) of (x, c) \<Rightarrow> rs_wrap msg (x, s1\<lparr>s3_service := c\<rparr>))"

text \<open>The real names of a virtual bucket and key.\<close>

definition target :: "'k s3_backend \<Rightarrow> string \<Rightarrow> string \<Rightarrow> (string \<times> string) res" where
  "target b bucket key = res_bind (mapBucket b bucket) (\<lambda>realBucket. res_bind (addPrefixToKey b bucket key) (\<lambda>realKey. Ok (realBucket, realKey)))"

section \<open>Bucket operations\<close>

text \<open>The clock is read once for every configured bucket.\<close>

fun virtual_buckets ::
  "(string \<times> bucket_config option) list \<Rightarrow> bucket_info list \<Rightarrow> (nat \<Rightarrow> time) \<Rightarrow> nat \<Rightarrow> bucket_info list res" where
  "virtual_buckets [] real clock n = Ok []"
| "virtual_buckets ((v, None) # cs) real clock n = nil_deref"
| "virtual_buckets ((v, Some cfg) # cs) real clock n =
     res_bind (virtual_buckets cs real clock (Suc n)) (\<lambda>bs.
       Ok (\<lparr>bi_Name = v, bi_CreationDate = (case find (\<lambda>r. bi_Name r = bc_RealName cfg) (rev real) of
              Some r \<Rightarrow> bi_CreationDate r | None \<Rightarrow> clock n)\<rparr> # bs))"

definition S3_ListBuckets :: "('k, 'c) s3_sdk \<Rightarrow> 'k s3_backend \<Rightarrow> ('k, 'c) s3state \<Rightarrow> bucket_info list res \<times> ('k, 'c) s3state" where
  "S3_ListBuckets sdk b s =
     (case sdk_ListBuckets sdk (sb_defaultClient b) (s3_service s) of (x, c) \<Rightarrow>
        rs_bind (rs_wrap ''failed to list buckets: '' (x, s\<lparr>s3_service := c\<rparr>)) (\<lambda>real s1.
          (virtual_buckets (bucketConfigs b) real (s3_clock s1) (s3_ticks s1),
           s1\<lparr>s3_ticks := s3_ticks s1 + length (bucketConfigs b)\<rparr>)))"

definition S3_CreateBucket :: "('k, 'c) s3_sdk \<Rightarrow> 'k s3_backend \<Rightarrow> ('k, 'c) s3state \<Rightarrow> string \<Rightarrow> unit res \<times> ('k, 'c) s3state" where
  "S3_CreateBucket sdk b s bucket =
     rs_bind (mapBucket b bucket, s) (\<lambda>realBucket.
       call sdk b bucket ''failed to create bucket: '' (\<lambda>client. sdk_CreateBucket sdk client realBucket))"

definition S3_DeleteBucket :: "('k, 'c) s3_sdk \<Rightarrow> 'k s3_backend \<Rightarrow> ('k, 'c) s3state \<Rightarrow> string \<Rightarrow> unit res \<times> ('k, 'c) s3state" where
  "S3_DeleteBucket sdk b s bucket =
     rs_bind (mapBucket b bucket, s) (\<lambda>realBucket.
       call sdk b bucket ''failed to delete bucket: '' (\<lambda>client. sdk_DeleteBucket sdk client realBucket))"

definition S3_BucketExists :: "('k, 'c) s3_sdk \<Rightarrow> 'k s3_backend \<Rightarrow> ('k, 'c) s3state \<Rightarrow> string \<Rightarrow> bool res \<times> ('k, 'c) s3state" where
  "S3_BucketExists sdk b s bucket =
     (if map_of (bucketConfigs b) bucket \<noteq> None then (Ok True, s)
      else rs_bind (mapBucket b bucket, s) (\<lambda>realBucket s0.
        rs_bind (rs_wrap ''failed to get client for bucket: '' (getClientForBucket sdk b bucket s0)) (\<lambda>client s1.
          case sdk_HeadBucket sdk client realBucket (s3_service s1) of
            (Ok _, c) \<Rightarrow> (Ok True, s1\<lparr>s3_service := c\<rparr>)
          | (Err e, c) \<Rightarrow> ((if Contains (error_msg e) ''NotFound'' then Ok False else Err e), s1\<lparr>s3_service := c\<rparr>)
          | (Panic p, c) \<Rightarrow> (Panic p, s1\<lparr>s3_service := c\<rparr>))))"

section \<open>Listing\<close>

definition listed_object :: "string \<Rightarrow> string \<Rightarrow> object_info \<Rightarrow> object_info list" where
  "listed_object bucketPrefix delimiter ob =
     (let virtualKey = remove_key_prefix bucketPrefix (oi_Key ob) in
      if bucketPrefix \<noteq> '''' \<and> \<not> HasPrefix (oi_Key ob) bucketPrefix then []
      else if delimiter = ''/'' \<and> HasSuffix virtualKey ''/'' then []
      else [\<lparr>oi_Key = virtualKey, oi_Size = oi_Size ob, oi_ETag = oi_ETag ob, oi_LastModified = oi_LastModified ob,
             oi_StorageClass = oi_StorageClass ob, oi_ContentType = '''', oi_Metadata = []\<rparr>])"

definition listed_prefix :: "string \<Rightarrow> string \<Rightarrow> string list" where
  "listed_prefix bucketPrefix p =
     (if bucketPrefix \<noteq> '''' \<and> \<not> HasPrefix p bucketPrefix then [] else [remove_key_prefix bucketPrefix p])"

definition virtual_listing :: "string \<Rightarrow> string \<Rightarrow> s3_list_output \<Rightarrow> list_objects_result" where
  "virtual_listing bucketPrefix delimiter resp =
     \<lparr>lr_IsTruncated = lo_IsTruncated resp, lr_Contents = concat (map (listed_object bucketPrefix delimiter) (lo_Contents resp)),
      lr_NextMarker = (case lo_NextMarker resp of Some m \<Rightarrow> remove_key_prefix bucketPrefix m | None \<Rightarrow> ''''),
      lr_CommonPrefixes = concat (map (listed_prefix bucketPrefix) (lo_CommonPrefixes resp))\<rparr>"

definition S3_ListObjectsWithDelimiter ::
  "('k, 'c) s3_sdk \<Rightarrow> 'k s3_backend \<Rightarrow> ('k, 'c) s3state \<Rightarrow> string \<Rightarrow> string \<Rightarrow> string \<Rightarrow> string \<Rightarrow> int
     \<Rightarrow> list_objects_result res \<times> ('k, 'c) s3state" where
  "S3_ListObjectsWithDelimiter sdk b s bucket prefix marker delimiter maxKeys =
     rs_bind (mapBucket b bucket, s) (\<lambda>realBucket s0.
     rs_bind (getPrefixForBucket b bucket, s0) (\<lambda>bucketPrefix s1.
       let some = (\<lambda>x y. if x = '''' then None else Some y);
           input = \<lparr>li_Bucket = realBucket, li_MaxKeys = maxKeys, li_Prefix = some (bucketPrefix @ prefix) (bucketPrefix @ prefix),
                    li_Marker = some marker (add_prefix bucketPrefix marker), li_Delimiter = some delimiter delimiter\<rparr>
       in rs_bind (call sdk b bucket ''failed to list objects: '' (\<lambda>client. sdk_ListObjects sdk client input) s1) (\<lambda>resp s2.
            (Ok (virtual_listing bucketPrefix delimiter resp), s2))))"

definition S3_ListObjects ::
  "('k, 'c) s3_sdk \<Rightarrow> 'k s3_backend \<Rightarrow> ('k, 'c) s3state \<Rightarrow> string \<Rightarrow> string \<Rightarrow> string \<Rightarrow> int
     \<Rightarrow> list_objects_result res \<times> ('k, 'c) s3state" where
  "S3_ListObjects sdk b s bucket prefix marker maxKeys = S3_ListObjectsWithDelimiter sdk b s bucket prefix marker '''' maxKeys"

section \<open>Objects\<close>

definition cacheKey :: "string \<Rightarrow> string \<Rightarrow> string" where
  "cacheKey bucket key = bucket @ ''/'' @ key"

definition forget :: "string \<Rightarrow> ('k, 'c) s3state \<Rightarrow> ('k, 'c) s3state" where
  "forget k s = s\<lparr>s3_metadataCache := MetadataCache_Delete (s3_metadataCache s) k\<rparr>"

definition non_nil :: "(string \<times> string option) list \<Rightarrow> smap" where
  "non_nil md = concat (map (\<lambda>(k, v). case v of Some x \<Rightarrow> [(k, x)] | None \<Rightarrow> []) md)"

definition kms_metadata :: "s3_get_output \<Rightarrow> smap \<Rightarrow> smap" where
  "kms_metadata resp md =
     (if go_ServerSideEncryption resp = Some ''aws:kms'' then
        let md1 = AList.update ''x-amz-server-side-encryption'' ''aws:kms'' md in
        case go_SSEKMSKeyId resp of
          Some k \<Rightarrow> AList.update ''x-amz-server-side-encryption-aws-kms-key-id'' k md1
        | None \<Rightarrow> md1
      else md)"

text \<open>\<open>qs\<close>: the sizes of the buffers with which the client reads the body.\<close>

definition S3_GetObject ::
  "('k, 'c) s3_sdk \<Rightarrow> 'k s3_backend \<Rightarrow> (nat \<Rightarrow> nat) \<Rightarrow> ('k, 'c) s3state \<Rightarrow> string \<Rightarrow> string \<Rightarrow> s3_object res \<times> ('k, 'c) s3state" where
  "S3_GetObject sdk b qs s bucket key =
     rs_bind (target b bucket key, s) (\<lambda>(realBucket, realKey) s0.
     rs_bind (call sdk b bucket ''failed to get object: '' (\<lambda>client. sdk_GetObject sdk client realBucket realKey) s0) (\<lambda>resp s1.
       (Ok \<lparr>ob_Body = decoded_body qs (go_Body resp) (go_BodyErr resp), ob_ContentType = go_ContentType resp,
            ob_Size = go_ContentLength resp, ob_ETag = go_ETag resp, ob_Metadata = kms_metadata resp (non_nil (go_Metadata resp)),
            ob_LastModified = go_LastModified resp\<rparr>, s1)))"

text \<open>The input of a store: the KMS headers are taken out of the metadata.\<close>

definition put_input :: "string \<Rightarrow> string \<Rightarrow> smap \<Rightarrow> s3_put_input" where
  "put_input realBucket realKey metadata =
     (let is_kms = (\<lambda>k. HasPrefix k ''x-amz-server-side-encryption'');
          kmsHeaders = filter (\<lambda>(k, v). is_kms k) metadata;
          kms = map_of kmsHeaders ''x-amz-server-side-encryption'' = Some ''aws:kms''
      in \<lparr>pi_Bucket = realBucket, pi_Key = realKey, pi_Metadata = filter (\<lambda>(k, v). \<not> is_kms k) metadata,
          pi_ServerSideEncryption = (if kms then Some ''aws:kms'' else None),
          pi_SSEKMSKeyId = (if kms then map_of kmsHeaders ''x-amz-server-side-encryption-aws-kms-key-id'' else None)\<rparr>)"

text \<open>The loop over the parts of a large upload. An error of the reader or of an upload aborts the upload, whose own error
  is ignored; the end of the data ends the loop, also an unexpected one.\<close>

definition upload_abort :: "('k, 'c) s3_sdk \<Rightarrow> 'k \<Rightarrow> string \<Rightarrow> string \<Rightarrow> string option \<Rightarrow> 'c \<Rightarrow> 'c" where
  "upload_abort sdk client realBucket realKey uploadID c = snd (sdk_AbortMultipartUpload sdk client realBucket realKey uploadID c)"

function put_parts ::
  "('k, 'c) s3_sdk \<Rightarrow> 'k \<Rightarrow> string \<Rightarrow> string \<Rightarrow> string option \<Rightarrow> int \<Rightarrow> reader \<Rightarrow> (int \<times> string option) list \<Rightarrow> 'c
     \<Rightarrow> (int \<times> string option) list res \<times> 'c" where
  "put_parts sdk client realBucket realKey uploadID partNumber r parts c =
     (case ReadFull r partSize of
        (buf, readErr) \<Rightarrow>
          if readErr \<noteq> None \<and> readErr \<noteq> Some ErrEOF \<and> readErr \<noteq> Some ErrUnexpectedEOF then
            (Err (ErrWrap ''failed to read part: '' (the readErr)), upload_abort sdk client realBucket realKey uploadID c)
          else if buf = [] then (Ok parts, c)
          else
            (case sdk_UploadPart sdk client realBucket realKey uploadID partNumber buf c of
               (Err e, c1) \<Rightarrow>
                 (Err (ErrWrap (''failed to upload part '' @ FormatInt partNumber @ '': '') e),
                  upload_abort sdk client realBucket realKey uploadID c1)
             | (Panic p, c1) \<Rightarrow> (Panic p, c1)
             | (Ok etag, c1) \<Rightarrow>
                 let parts' = parts @ [(partNumber, etag)] in
                 if readErr \<noteq> None then (Ok parts', c1)
                 else put_parts sdk client realBucket realKey uploadID (partNumber + 1) (r\<lparr>rd_data := drop partSize (rd_data r)\<rparr>) parts' c1))"
  by pat_completeness auto
termination
  by (relation "measure (\<lambda>(sdk, client, b, k, u, n, r, ps, c). length (rd_data r))")
    (auto simp: ReadFull_def partSize_def split: if_splits)

declare put_parts.simps [simp del]

definition putObjectMultipart ::
  "('k, 'c) s3_sdk \<Rightarrow> 'k s3_backend \<Rightarrow> ('k, 'c) s3state \<Rightarrow> string \<Rightarrow> string \<Rightarrow> string \<Rightarrow> reader \<Rightarrow> smap \<Rightarrow> unit res \<times> ('k, 'c) s3state" where
  "putObjectMultipart sdk b s virtualBucket realBucket key reader metadata =
     rs_bind (rs_wrap ''failed to get client for bucket: '' (getClientForBucket sdk b virtualBucket s)) (\<lambda>client s0.
     rs_bind (addPrefixToKey b virtualBucket key, s0) (\<lambda>realKey s1.
     case sdk_CreateMultipartUpload sdk client (put_input realBucket realKey metadata) (s3_service s1) of (x, c1) \<Rightarrow>
     rs_bind (rs_wrap ''failed to initiate multipart upload: '' (x, s1\<lparr>s3_service := c1\<rparr>)) (\<lambda>uploadID s2.
     case put_parts sdk client realBucket realKey uploadID 1 reader [] (s3_service s2) of (y, c2) \<Rightarrow>
     rs_bind (y, s2\<lparr>s3_service := c2\<rparr>) (\<lambda>parts s3.
     case sdk_CompleteMultipartUpload sdk client realBucket realKey uploadID parts (s3_service s3) of (z, c3) \<Rightarrow>
     rs_bind (rs_wrap ''failed to complete multipart upload: '' (z, s3\<lparr>s3_service := c3\<rparr>)) (\<lambda>_ s4.
       (Ok (), forget (cacheKey virtualBucket key) s4))))))"

text \<open>\<open>seeker r\<close>: the reader is also an \<^verbatim>\<open>io.ReadSeeker\<close>.\<close>

definition S3_PutObject ::
  "('k, 'c) s3_sdk \<Rightarrow> 'k s3_backend \<Rightarrow> (reader \<Rightarrow> bool) \<Rightarrow> ('k, 'c) s3state \<Rightarrow> string \<Rightarrow> string \<Rightarrow> reader \<Rightarrow> int \<Rightarrow> smap
     \<Rightarrow> unit res \<times> ('k, 'c) s3state" where
  "S3_PutObject sdk b seeker s bucket key reader sz metadata =
     rs_bind (target b bucket key, s) (\<lambda>(realBucket, realKey) s0.
       let store = (\<lambda>body s1.
             rs_bind (call sdk b bucket ''failed to put object: ''
                (\<lambda>client. sdk_PutObject sdk client (put_input realBucket realKey metadata) body sz) s1) (\<lambda>_ s2.
               (Ok (), forget (cacheKey bucket key) s2)))
       in if seeker reader then store reader s0
          else if 0 < sz \<and> sz \<le> multipartThreshold then
            rs_bind (rs_wrap ''failed to read data: '' (ReadAll reader, s0)) (\<lambda>data. store (bytes_reader data))
          else putObjectMultipart sdk b s0 bucket realBucket key reader metadata)"

definition S3_DeleteObject ::
  "('k, 'c) s3_sdk \<Rightarrow> 'k s3_backend \<Rightarrow> ('k, 'c) s3state \<Rightarrow> string \<Rightarrow> string \<Rightarrow> unit res \<times> ('k, 'c) s3state" where
  "S3_DeleteObject sdk b s bucket key =
     rs_bind (target b bucket key, s) (\<lambda>(realBucket, realKey) s0.
     rs_bind (call sdk b bucket ''failed to delete object: '' (\<lambda>client. sdk_DeleteObject sdk client realBucket realKey) s0) (\<lambda>_ s1.
       (Ok (), forget (cacheKey bucket key) s1)))"

definition S3_HeadObject ::
  "('k, 'c) s3_sdk \<Rightarrow> 'k s3_backend \<Rightarrow> ('k, 'c) s3state \<Rightarrow> string \<Rightarrow> string \<Rightarrow> object_info res \<times> ('k, 'c) s3state" where
  "S3_HeadObject sdk b s bucket key =
     rs_bind (target b bucket key, s) (\<lambda>(realBucket, realKey) s0.
       let now = s3_clock s0 (s3_ticks s0); s1 = (if map_of (mc_cache (s3_metadataCache s0)) (cacheKey bucket key) = None then s0
                                                   else s0\<lparr>s3_ticks := Suc (s3_ticks s0)\<rparr>)
       in case MetadataCache_Get (s3_metadataCache s0) now (cacheKey bucket key) of
            Some info \<Rightarrow> (Ok info, s1)
          | None \<Rightarrow>
              rs_bind (call sdk b bucket ''failed to head object: '' (\<lambda>client. sdk_HeadObject sdk client realBucket realKey) s1) (\<lambda>resp s2.
                let info = \<lparr>oi_Key = key, oi_Size = ho_ContentLength resp, oi_ETag = ho_ETag resp, oi_LastModified = ho_LastModified resp,
                            oi_StorageClass = ho_StorageClass resp, oi_ContentType = '''', oi_Metadata = non_nil (ho_Metadata resp)\<rparr>
                in (Ok info, s2\<lparr>s3_metadataCache := MetadataCache_Set (s3_metadataCache s2) (s3_clock s2 (s3_ticks s2)) (cacheKey bucket key) info,
                                s3_ticks := Suc (s3_ticks s2)\<rparr>)))"

section \<open>Access control lists\<close>

definition S3_GetObjectACL ::
  "('k, 'c) s3_sdk \<Rightarrow> 'k s3_backend \<Rightarrow> ('k, 'c) s3state \<Rightarrow> string \<Rightarrow> string \<Rightarrow> acl res \<times> ('k, 'c) s3state" where
  "S3_GetObjectACL sdk b s bucket key =
     rs_bind (target b bucket key, s) (\<lambda>(realBucket, realKey) s0.
     rs_bind (call sdk b bucket ''failed to get object ACL: '' (\<lambda>client. sdk_GetObjectAcl sdk client realBucket realKey) s0) (\<lambda>resp s1.
       (case ao_Owner resp of
          None \<Rightarrow> nil_deref
        | Some o' \<Rightarrow> Ok \<lparr>acl_Owner = o', acl_Grants = map (\<lambda>(g, p). \<lparr>gr_Grantee = (case g of Some g' \<Rightarrow> g'
              | None \<Rightarrow> \<lparr>ge_Type = '''', ge_ID = '''', ge_DisplayName = '''', ge_URI = ''''\<rparr>), gr_Permission = p\<rparr>) (ao_Grants resp)\<rparr>, s1)))"

definition S3_PutObjectACL :: "('k, 'c) s3state \<Rightarrow> string \<Rightarrow> string \<Rightarrow> acl option \<Rightarrow> unit res \<times> ('k, 'c) s3state" where
  "S3_PutObjectACL s bucket key a = (Ok (), s)"

section \<open>Multipart uploads\<close>

definition S3_InitiateMultipartUpload ::
  "('k, 'c) s3_sdk \<Rightarrow> 'k s3_backend \<Rightarrow> ('k, 'c) s3state \<Rightarrow> string \<Rightarrow> string \<Rightarrow> smap \<Rightarrow> string res \<times> ('k, 'c) s3state" where
  "S3_InitiateMultipartUpload sdk b s bucket key metadata =
     rs_bind (target b bucket key, s) (\<lambda>(realBucket, realKey) s0.
     rs_bind (call sdk b bucket ''failed to initiate multipart upload: '' (\<lambda>client. sdk_CreateMultipartUpload sdk client
         \<lparr>pi_Bucket = realBucket, pi_Key = realKey, pi_Metadata = metadata, pi_ServerSideEncryption = None, pi_SSEKMSKeyId = None\<rparr>) s0)
       (\<lambda>resp s1. (Ok (StringValue resp), s1)))"

definition S3_UploadPart ::
  "('k, 'c) s3_sdk \<Rightarrow> 'k s3_backend \<Rightarrow> ('k, 'c) s3state \<Rightarrow> string \<Rightarrow> string \<Rightarrow> string \<Rightarrow> int \<Rightarrow> reader \<Rightarrow> int
     \<Rightarrow> string res \<times> ('k, 'c) s3state" where
  "S3_UploadPart sdk b s bucket key uploadID partNumber reader sz =
     rs_bind (target b bucket key, s) (\<lambda>(realBucket, realKey) s0.
     rs_bind (rs_wrap ''failed to read part data: '' (ReadAll reader, s0)) (\<lambda>data s1.
     rs_bind (call sdk b bucket ''failed to upload part: ''
         (\<lambda>client. sdk_UploadPart sdk client realBucket realKey (Some uploadID) partNumber data) s1)
       (\<lambda>etag s2. (Ok (StringValue etag), s2))))"

definition S3_CompleteMultipartUpload ::
  "('k, 'c) s3_sdk \<Rightarrow> 'k s3_backend \<Rightarrow> ('k, 'c) s3state \<Rightarrow> string \<Rightarrow> string \<Rightarrow> string \<Rightarrow> completed_part list
     \<Rightarrow> unit res \<times> ('k, 'c) s3state" where
  "S3_CompleteMultipartUpload sdk b s bucket key uploadID parts =
     rs_bind (target b bucket key, s) (\<lambda>(realBucket, realKey).
       call sdk b bucket ''failed to complete multipart upload: '' (\<lambda>client. sdk_CompleteMultipartUpload sdk client realBucket realKey
         (Some uploadID) (map (\<lambda>p. (cp_PartNumber p, Some (cp_ETag p))) parts)))"

definition S3_AbortMultipartUpload ::
  "('k, 'c) s3_sdk \<Rightarrow> 'k s3_backend \<Rightarrow> ('k, 'c) s3state \<Rightarrow> string \<Rightarrow> string \<Rightarrow> string \<Rightarrow> unit res \<times> ('k, 'c) s3state" where
  "S3_AbortMultipartUpload sdk b s bucket key uploadID =
     rs_bind (target b bucket key, s) (\<lambda>(realBucket, realKey).
       call sdk b bucket ''failed to abort multipart upload: ''
         (\<lambda>client. sdk_AbortMultipartUpload sdk client realBucket realKey (Some uploadID)))"

definition S3_ListParts ::
  "('k, 'c) s3_sdk \<Rightarrow> 'k s3_backend \<Rightarrow> ('k, 'c) s3state \<Rightarrow> string \<Rightarrow> string \<Rightarrow> string \<Rightarrow> int \<Rightarrow> int
     \<Rightarrow> list_parts_result res \<times> ('k, 'c) s3state" where
  "S3_ListParts sdk b s bucket key uploadID maxParts partNumberMarker =
     rs_bind (target b bucket key, s) (\<lambda>(realBucket, realKey) s0.
     rs_bind (call sdk b bucket ''failed to list parts: '' (\<lambda>client. sdk_ListParts sdk client realBucket realKey uploadID maxParts
         (if 0 < partNumberMarker then Some partNumberMarker else None)) s0) (\<lambda>resp s1.
       (Ok \<lparr>lp_Bucket = bucket, lp_Key = key, lp_UploadID = uploadID, lp_PartNumberMarker = 0,
            lp_NextPartNumberMarker = (case po_NextPartNumberMarker resp of Some n \<Rightarrow> n | None \<Rightarrow> 0), lp_MaxParts = 0,
            lp_IsTruncated = po_IsTruncated resp, lp_Parts = po_Parts resp\<rparr>, s1)))"

definition S3Backend :: "('k, 'c) s3_sdk \<Rightarrow> 'k s3_backend \<Rightarrow> (reader \<Rightarrow> bool) \<Rightarrow> (nat \<Rightarrow> nat) \<Rightarrow> ('k, 'c) s3state backend" where
  "S3Backend sdk b seeker qs =
     \<lparr>bk_ListBuckets = S3_ListBuckets sdk b, bk_CreateBucket = S3_CreateBucket sdk b, bk_DeleteBucket = S3_DeleteBucket sdk b,
      bk_BucketExists = S3_BucketExists sdk b, bk_ListObjects = S3_ListObjects sdk b,
      bk_ListObjectsWithDelimiter = S3_ListObjectsWithDelimiter sdk b, bk_GetObject = S3_GetObject sdk b qs,
      bk_PutObject = S3_PutObject sdk b seeker, bk_DeleteObject = S3_DeleteObject sdk b, bk_HeadObject = S3_HeadObject sdk b,
      bk_GetObjectACL = S3_GetObjectACL sdk b, bk_PutObjectACL = S3_PutObjectACL,
      bk_InitiateMultipartUpload = S3_InitiateMultipartUpload sdk b, bk_UploadPart = S3_UploadPart sdk b,
      bk_CompleteMultipartUpload = S3_CompleteMultipartUpload sdk b, bk_AbortMultipartUpload = S3_AbortMultipartUpload sdk b,
      bk_ListParts = S3_ListParts sdk b\<rparr>"

section \<open>The metadata cache keeps the contract of a cache that expires\<close>

interpretation metadata_ttl: ttl_cache MetadataCache_Get MetadataCache_Set MetadataCache_Delete mc_ttl "\<lambda>_ _. True"
  by unfold_locales
    (auto simp: MetadataCache_Get_def MetadataCache_Set_def MetadataCache_Delete_def AList.update_conv' AList.delete_conv'
      split: option.splits if_splits)

section \<open>The decoding reader ends\<close>

lemma piece_Read_cases:
  assumes "piece_Read ps err = ((got, e), rest)"
  obtains (ended) "ps = []" "got = []" "e \<noteq> None" "rest = []"
    | (more) "e = None" "concat ps = got @ concat rest" "ps \<noteq> []"
        "2 * sum_list (map (\<lambda>x. Suc (length x)) rest) + length got < 2 * sum_list (map (\<lambda>x. Suc (length x)) ps)"
proof (cases ps)
  case Nil
  then show thesis using assms that(1) by (auto split: option.splits)
next
  case (Cons x xs)
  then show thesis using assms that(2) by (cases "length x \<le> chunkBufSize") (auto simp: chunkBufSize_def)
qed

lemma length_strip:
  "length (fst (strip_chunk_header b d)) \<le> length d" "length (fst (strip_end_marker d)) \<le> length d"
  by (simp_all add: strip_chunk_header_def strip_end_marker_def Let_def)

lemma chunked_Read_less:
  assumes "chunked_Read p c = ((bs, None), c')" and "0 < p"
  shows "pieces_left c' < pieces_left c"
proof (cases "cr_done c \<or> cr_buffer c \<noteq> []")
  case True
  then have "\<not> cr_done c" "c' = c\<lparr>cr_buffer := drop p (cr_buffer c)\<rparr>" "cr_buffer c \<noteq> []"
    using assms(1) by (auto simp: chunked_Read_def split: if_splits)
  then show ?thesis using assms(2) by (cases "cr_buffer c") (auto simp: pieces_left_def)
next
  case False
  obtain got e rest where p: "piece_Read (cr_pieces c) (cr_err c) = ((got, e), rest)" by (metis prod.collapse)
  obtain d1 inC where d1: "strip_chunk_header (cr_inChunk c) got = (d1, inC)" by (cases "strip_chunk_header (cr_inChunk c) got")
  obtain d2 fin where d2: "strip_end_marker d1 = (d2, fin)" by (cases "strip_end_marker d1")
  have len: "length d2 \<le> length got"
    using length_strip(1) [of "cr_inChunk c" got] length_strip(2) [of d1] by (simp add: d1 d2)
  have "cr_pieces c' = rest \<and> length (cr_buffer c') \<le> length got \<and> (e = None \<or> got \<noteq> [])"
    using assms(1) False len by (auto simp: chunked_Read_def p d1 d2 Let_def split: if_splits)
  then show ?thesis using False by (cases rule: piece_Read_cases [OF p]) (auto simp: pieces_left_def)
qed

lemma chunked_call_Ok: "chunked_call p c = (Ok (bs, e), c') \<longleftrightarrow> chunked_Read p c = ((bs, e), c')"
  by (auto simp: chunked_call_def split: prod.splits)

text \<open>Draining ends for any body, and never panics.\<close>

lemma chunked_drain_Ok: "drain_with chunked_call qs f c = Some x \<Longrightarrow> \<exists>r. x = Ok r"
proof (induction f arbitrary: qs c x)
  case (Suc f)
  obtain bs e c' where r: "chunked_call (qs 0) c = (Ok (bs, e), c')" by (cases "chunked_Read (qs 0) c") (auto simp: chunked_call_def)
  show ?case
  proof (cases e)
    case None
    then show ?thesis using Suc.prems r Suc.IH [of "\<lambda>i. qs (Suc i)" c'] by fastforce
  qed (use Suc.prems r in auto)
qed simp

lemma decoded_body_returns:
  assumes "\<forall>i. 0 < qs i" and "pieces_left (newChunkedDecodingReader pieces err) < f"
  shows "\<exists>r. drain_with chunked_call qs f (newChunkedDecodingReader pieces err) = Some (Ok r)"
proof -
  have "drain_with chunked_call qs f (newChunkedDecodingReader pieces err) \<noteq> None"
    using assms by (intro drain_returns [of _ pieces_left]) (auto simp: chunked_call_Ok intro: chunked_Read_less)
  then show ?thesis using chunked_drain_Ok by fastforce
qed

text \<open>A piece that the reader leaves alone: no chunk header in it, and no end marker at its end. On such pieces the reader keeps the
  contract of a byte stream, whatever the sizes of the reads.\<close>

definition plain_piece :: "bytes \<Rightarrow> bool" where
  "plain_piece x \<longleftrightarrow> length x \<le> chunkBufSize \<and> \<not> Contains (string_of x) chunk_signature \<and> \<not> HasSuffix (string_of x) (string_of end_marker)"

definition plain_reader :: "chunk_reader \<Rightarrow> bool" where
  "plain_reader c \<longleftrightarrow> \<not> cr_done c \<and> (\<forall>x \<in> set (cr_pieces c). plain_piece x)"

lemma strip_plain: "plain_piece x \<Longrightarrow> strip_chunk_header b x = (x, b)" "plain_piece x \<Longrightarrow> strip_end_marker x = (x, False)"
  using Index_ge [of "string_of x" chunk_signature]
  by (auto simp: plain_piece_def strip_chunk_header_def strip_end_marker_def Contains_def Let_def)

lemma chunked_Read_plain:
  assumes "plain_reader c" and "chunked_Read p c = ((bs, e), c')"
  obtains (buffered) "cr_buffer c \<noteq> []" "bs = take p (cr_buffer c)" "e = None" "c' = c\<lparr>cr_buffer := drop p (cr_buffer c)\<rparr>"
    | (piece) x xs where "cr_buffer c = []" "cr_pieces c = x # xs" "bs = take p x" "e = None" "c' = c\<lparr>cr_pieces := xs, cr_buffer := drop p x\<rparr>"
    | (ended) "cr_buffer c = []" "cr_pieces c = []" "bs = []" "e = Some (end_error (cr_err c))" "c' = c"
proof (cases "cr_buffer c = []")
  case True
  show thesis
  proof (cases "cr_pieces c")
    case Nil
    then show thesis using assms True ended by (cases c) (auto simp: chunked_Read_def plain_reader_def end_error_def split: option.splits)
  next
    case (Cons x xs)
    then have x: "plain_piece x" "length x \<le> chunkBufSize" using assms(1) by (auto simp: plain_reader_def plain_piece_def)
    have "chunked_Read p c = ((take p x, None), c\<lparr>cr_pieces := xs, cr_buffer := drop p x\<rparr>)"
    proof (cases "x = []")
      case x: True
      have "c\<lparr>cr_pieces := xs\<rparr> = c\<lparr>cr_pieces := xs, cr_buffer := []\<rparr>" using True by (cases c) simp
      then show ?thesis using assms(1) True Cons x by (simp add: chunked_Read_def plain_reader_def)
    next
      case False
      have "c\<lparr>cr_pieces := xs, cr_inChunk := cr_inChunk c, cr_done := False, cr_buffer := d\<rparr> = c\<lparr>cr_pieces := xs, cr_buffer := d\<rparr>" for d
        using assms(1) by (cases c) (simp add: plain_reader_def)
      then show ?thesis using assms(1) True Cons x False strip_plain [OF x(1)] by (simp add: chunked_Read_def plain_reader_def)
    qed
    then show thesis using assms(2) piece [OF True Cons] by simp
  qed
next
  case False
  then show thesis using assms buffered by (auto simp: chunked_Read_def plain_reader_def)
qed

interpretation chunked: byte_reader chunked_call "\<lambda>p. 0 < p" plain_reader "\<lambda>c. cr_buffer c @ concat (cr_pieces c)" cr_err pieces_left
proof unfold_locales
  fix c p bs e c' x
  show "\<exists>bs e c'. chunked_call p c = (Ok (bs, e), c')" by (cases "chunked_Read p c") (auto simp: chunked_call_def)
  assume c: "plain_reader c" and p: "0 < p"
  show "chunked_call p c = (Ok (bs, None), c') \<Longrightarrow> pieces_left c' < pieces_left c" using chunked_Read_less p by (auto simp: chunked_call_Ok)
  note cases = chunked_Read_plain [OF c, where p = p]
  show "chunked_call p c = (Ok (bs, e), c') \<Longrightarrow> plain_reader c'"
    using c by (auto simp: chunked_call_Ok plain_reader_def elim!: cases)
  show "chunked_call p c = (Ok (bs, e), c') \<Longrightarrow> length bs \<le> p" by (auto simp: chunked_call_Ok elim!: cases)
  show "chunked_call p c = (Ok (bs, e), c') \<Longrightarrow>
      cr_buffer c @ concat (cr_pieces c) = bs @ cr_buffer c' @ concat (cr_pieces c') \<and> cr_err c' = cr_err c"
    by (auto simp: chunked_call_Ok elim!: cases)
  show "chunked_call p c = (Ok (bs, Some x), c') \<Longrightarrow> cr_buffer c' @ concat (cr_pieces c') = [] \<and> x = end_error (cr_err c)"
    by (auto simp: chunked_call_Ok elim!: cases)
qed

section \<open>Prefixes\<close>

lemma remove_add_prefix: "\<not> HasPrefix key ''/'' \<Longrightarrow> remove_key_prefix prefix (add_prefix prefix key) = key"
  by (simp add: remove_key_prefix_def add_prefix_def)

lemma add_prefix_has: "p \<noteq> '''' \<Longrightarrow> HasPrefix (add_prefix p key) p"
  by (simp add: add_prefix_def)

lemma HasPrefix_common: "HasPrefix s p \<Longrightarrow> HasPrefix s q \<Longrightarrow> HasPrefix p q \<or> HasPrefix q p"
  by (auto simp: HasPrefix_iff append_eq_append_conv2)

lemma listed_key:
  assumes "ob \<in> set (lr_Contents (virtual_listing p d resp))"
  shows "\<exists>real \<in> set (lo_Contents resp). oi_Key real = p @ oi_Key ob \<and> oi_Size ob = oi_Size real \<and> oi_ETag ob = oi_ETag real"
proof -
  obtain real where real: "real \<in> set (lo_Contents resp)" "ob \<in> set (listed_object p d real)"
    using assms by (auto simp: virtual_listing_def)
  then have ob: "oi_Key ob = remove_key_prefix p (oi_Key real)" "oi_Size ob = oi_Size real" "oi_ETag ob = oi_ETag real"
    "p = '''' \<or> HasPrefix (oi_Key real) p"
    by (auto simp: listed_object_def Let_def split: if_splits)
  have "oi_Key real = p @ oi_Key ob"
  proof (cases "p = ''''")
    case False
    then obtain t where "oi_Key real = p @ t" using ob(4) by (auto simp: HasPrefix_iff)
    then show ?thesis using ob(1) False by (simp add: remove_key_prefix_def)
  qed (use ob(1) in \<open>simp add: remove_key_prefix_def\<close>)
  then show ?thesis using real(1) ob(2,3) by blast
qed

section \<open>Large uploads\<close>

text \<open>The reference: the parts are uploaded one after the other, numbered from the given number on.\<close>

fun upload_list ::
  "('k, 'c) s3_sdk \<Rightarrow> 'k \<Rightarrow> string \<Rightarrow> string \<Rightarrow> string option \<Rightarrow> int \<Rightarrow> bytes list \<Rightarrow> (int \<times> string option) list \<Rightarrow> 'c
     \<Rightarrow> (int \<times> string option) list res \<times> 'c" where
  "upload_list sdk client b k u n [] parts c = (Ok parts, c)"
| "upload_list sdk client b k u n (x # xs) parts c =
     (case sdk_UploadPart sdk client b k u n x c of
        (Ok etag, c1) \<Rightarrow> upload_list sdk client b k u (n + 1) xs (parts @ [(n, etag)]) c1
      | (Err e, c1) \<Rightarrow> (Err (ErrWrap (''failed to upload part '' @ FormatInt n @ '': '') e), upload_abort sdk client b k u c1)
      | (Panic p, c1) \<Rightarrow> (Panic p, c1))"

lemma partSize_pos [simp]: "0 < partSize" "partSize \<noteq> 0"
  by (simp_all add: partSize_def)

text \<open>A body that ends, also one that ends unexpectedly.\<close>

lemma upload_parts_chunks:
  assumes "rd_err r = None \<or> rd_err r = Some ErrUnexpectedEOF"
  shows "put_parts sdk client b k u n r parts c = upload_list sdk client b k u n (chunks_of partSize (rd_data r)) parts c"
  using assms
proof (induction sdk client b k u n r parts c rule: put_parts.induct)
  case (1 sdk client b k u n r parts c)
  consider (full) "partSize \<le> length (rd_data r)" | (last) "rd_data r \<noteq> []" "length (rd_data r) < partSize" | (empty) "rd_data r = []"
    by fastforce
  then show ?case
  proof cases
    case full
    then have ne: "rd_data r \<noteq> []" using partSize_pos by (metis length_0_conv not_less)
    have rf: "ReadFull r partSize = (take partSize (rd_data r), None)" using full by (simp add: ReadFull_def)
    have IH: "put_parts sdk client b k u (n + 1) (r\<lparr>rd_data := drop partSize (rd_data r)\<rparr>) (parts @ [(n, etag)]) c1
        = upload_list sdk client b k u (n + 1) (chunks_of partSize (drop partSize (rd_data r))) (parts @ [(n, etag)]) c1"
      if "sdk_UploadPart sdk client b k u n (take partSize (rd_data r)) c = (Ok etag, c1)" for etag c1
      using "1.IH" [OF rf [symmetric] _ _ that [symmetric]] "1.prems" ne partSize_pos by simp
    show ?thesis
      using ne IH by (subst put_parts.simps, subst chunks_of.simps) (simp add: rf Let_def split: prod.splits res.splits)
  next
    case last
    then have "ReadFull r partSize = (rd_data r, Some ErrUnexpectedEOF)" using "1.prems" by (auto simp: ReadFull_def)
    moreover have "chunks_of partSize (rd_data r) = [rd_data r]" using last by (simp add: chunks_of.simps)
    ultimately show ?thesis
      using last by (subst put_parts.simps) (simp add: Let_def split: prod.splits res.splits)
  next
    case empty
    then have "ReadFull r partSize = ([], Some ErrEOF) \<or> ReadFull r partSize = ([], Some ErrUnexpectedEOF)"
      using "1.prems" by (auto simp: ReadFull_def)
    then show ?thesis using empty by (subst put_parts.simps) (auto simp: chunks_of.simps)
  qed
qed

lemma chunks_full: "x \<in> set (butlast (chunks_of n xs)) \<Longrightarrow> length x = n"
proof (induction n xs rule: chunks_of.induct)
  case (1 n xs)
  have empty: "chunks_of n [] = []" by (simp add: chunks_of.simps)
  show ?case
  proof (cases "n = 0 \<or> xs = [] \<or> length xs \<le> n")
    case True
    then have "butlast (chunks_of n xs) = []" using empty by (subst chunks_of.simps) auto
    then show ?thesis using "1.prems" by simp
  next
    case False
    then have "drop n xs \<noteq> []" by simp
    then have "chunks_of n (drop n xs) \<noteq> []" using False by (subst chunks_of.simps) simp
    then have "x = take n xs \<or> x \<in> set (butlast (chunks_of n (drop n xs)))"
      using "1.prems" False by (subst (asm) chunks_of.simps) (auto split: if_splits)
    then show ?thesis using "1.IH" False by auto
  qed
qed

section \<open>Properties\<close>

text \<open>C16: virtual buckets do not reach into each other. Two virtual buckets with prefixes of which neither starts with the other
  never address the same real object, even in the same real bucket; a key without a leading slash is recovered from the
  real one; and whatever the service lists, a listing of a virtual bucket has only objects below its own prefix.\<close>

theorem virtual_buckets_isolated:
  assumes "getPrefixForBucket b v = Ok p" and "getPrefixForBucket b v' = Ok p'" and "p \<noteq> ''''" and "p' \<noteq> ''''"
    and "\<not> HasPrefix p p'" and "\<not> HasPrefix p' p"
    and "target b v key = Ok (rb, rk)" and "target b v' key' = Ok (rb', rk')"
  shows "rk \<noteq> rk' \<and> (\<not> HasPrefix key ''/'' \<longrightarrow> removePrefixFromKey b v rk = Ok key)
    \<and> (\<forall>d resp. \<forall>ob \<in> set (lr_Contents (virtual_listing p d resp)).
         (\<exists>real \<in> set (lo_Contents resp). oi_Key real = p @ oi_Key ob) \<and> p @ oi_Key ob \<noteq> rk')"
proof -
  have rk: "rk = add_prefix p key" "rk' = add_prefix p' key'"
    using assms(1,2,7,8) by (auto simp: target_def addPrefixToKey_def)
  then have pre: "HasPrefix rk p" "HasPrefix rk' p'" using add_prefix_has assms(3,4) by auto
  have "rk \<noteq> rk'" using HasPrefix_common [OF pre(1)] pre(2) assms(5,6) by blast
  moreover have "p @ x \<noteq> rk'" for x using HasPrefix_common [OF pre(2), of p] assms(5,6) by auto
  moreover have "\<not> HasPrefix key ''/'' \<longrightarrow> removePrefixFromKey b v rk = Ok key"
    using rk(1) assms(1) remove_add_prefix by (simp add: removePrefixFromKey_def)
  ultimately show ?thesis using listed_key by blast
qed

text \<open>C17: a large upload is cut into parts as the service requires. The loop uploads, in order and numbered from 1, the pieces of the body;
  they are the whole body, none is empty, and all but the last have the size of a part.\<close>

theorem upload_parts_split:
  assumes "rd_err r = None"
  shows "put_parts sdk client b k u 1 r [] c = upload_list sdk client b k u 1 (chunks_of partSize (rd_data r)) [] c
    \<and> concat (chunks_of partSize (rd_data r)) = rd_data r \<and> [] \<notin> set (chunks_of partSize (rd_data r))
    \<and> (\<forall>x \<in> set (butlast (chunks_of partSize (rd_data r))). length x = partSize)"
proof -
  have "[] \<notin> set (chunks_of n xs)" for n and xs :: bytes
  proof (induction n xs rule: chunks_of.induct)
    case (1 n xs)
    then show ?case by (subst chunks_of.simps) auto
  qed
  moreover have "put_parts sdk client b k u 1 r [] c = upload_list sdk client b k u 1 (chunks_of partSize (rd_data r)) [] c"
    using assms by (intro upload_parts_chunks) simp
  moreover have "concat (chunks_of partSize (rd_data r)) = rd_data r" by (intro concat_chunks_of partSize_pos)
  moreover have "\<forall>x \<in> set (butlast (chunks_of partSize (rd_data r))). length x = partSize" using chunks_full by blast
  ultimately show ?thesis by simp
qed

text \<open>An upload that breaks off is stored as if it were complete. A body whose connection is lost ends with an unexpected end of
  file; the loop takes that for the end of the data, so the multipart upload of the truncated body is completed and reported
  as a success, exactly like one that ends properly.\<close>

theorem truncated_upload_completed:
  "putObjectMultipart sdk b s v rb key \<lparr>rd_data = bs, rd_err = Some ErrUnexpectedEOF\<rparr> md
     = putObjectMultipart sdk b s v rb key \<lparr>rd_data = bs, rd_err = None\<rparr> md"
  by (simp add: putObjectMultipart_def upload_parts_chunks)

text \<open>C19: an object without chunk markers is delivered as it is. Reading a body through the decoding reader ends, for any body and whatever
  positive sizes the reads have; and if no piece of at most 8 KB in which the body arrives has a chunk signature in it or ends with the marker of the
  last chunk, the bytes read are the body and the error is the body's. (A piece that ends with such a marker loses it:
  \<open>decoded_body_drops_tail\<close>.)\<close>

theorem decoded_body_plain:
  assumes "\<forall>i. 0 < qs i"
  shows "(\<exists>r. drain_with chunked_call qs (Suc (pieces_left (newChunkedDecodingReader pieces err))) (newChunkedDecodingReader pieces err) = Some (Ok r)
      \<and> decoded_body qs pieces err = r)
   \<and> ((\<forall>x \<in> set pieces. plain_piece x) \<longrightarrow>
      decoded_body qs pieces err = \<lparr>rd_data = concat pieces, rd_err = clean_end err\<rparr>)"
proof -
  let ?c = "newChunkedDecodingReader pieces err"
  obtain r where "drain_with chunked_call qs (Suc (pieces_left ?c)) ?c = Some (Ok r)" using decoded_body_returns [OF assms] by blast
  then have r: "drain_with chunked_call qs (Suc (pieces_left ?c)) ?c = Some (Ok r) \<and> decoded_body qs pieces err = r"
    by (simp add: decoded_body_def Let_def del: drain_with.simps)
  have "decoded_body qs pieces err = \<lparr>rd_data = concat pieces, rd_err = clean_end err\<rparr>" if "\<forall>x \<in> set pieces. plain_piece x"
    using chunked.drain_complete [of ?c qs "Suc (pieces_left ?c)"] that assms
    by (simp add: plain_reader_def newChunkedDecodingReader_def decoded_body_def Let_def del: drain_with.simps)
  with r show ?thesis by blast
qed

text \<open>The decoding reader takes the last five bytes of an object for a marker when they look like one; and what did not fit into the buffer of the
  read that saw the marker is lost, because the reader is done before its own buffer is empty.\<close>

lemma decoded_body_drops_tail:
  assumes "length (bs @ end_marker) \<le> chunkBufSize" and "\<not> Contains (string_of (bs @ end_marker)) chunk_signature"
  shows "decoded_body qs [bs @ end_marker] None = bytes_reader (take (qs 0) bs)"
proof -
  let ?c = "newChunkedDecodingReader [bs @ end_marker] None" and ?c' = "\<lambda>d. \<lparr>cr_pieces = [], cr_err = None, cr_buffer = d, cr_inChunk = False, cr_done = True\<rparr>"
  have e: "length end_marker = 5" by (simp add: end_marker_def)
  then have "bs @ end_marker \<noteq> []" by auto
  have idx: "\<not> 0 < Index (string_of (bs @ end_marker)) chunk_signature" using assms(2) by (auto simp: Contains_def)
  have suf: "HasSuffix (string_of (bs @ end_marker)) (string_of end_marker)" by (simp add: string_of_def)
  have "chunked_call (qs 0) ?c = (Ok (take (qs 0) bs, None), ?c' (drop (qs 0) bs))"
    using assms(1) e idx suf \<open>bs @ end_marker \<noteq> []\<close>
    by (simp add: chunked_call_def chunked_Read_def newChunkedDecodingReader_def strip_chunk_header_def strip_end_marker_def Let_def)
  moreover have "chunked_call q (?c' d) = (Ok ([], Some ErrEOF), ?c' d)" for q d by (simp add: chunked_call_def chunked_Read_def)
  moreover obtain f where "Suc (pieces_left ?c) = Suc (Suc f)" by (cases "pieces_left ?c") (auto simp: pieces_left_def newChunkedDecodingReader_def)
  ultimately show ?thesis by (simp add: decoded_body_def Let_def bytes_reader_def)
qed

text \<open>Clients are kept by endpoint and region only: a second bucket in the same region is served with the client, and the
  credentials, of the first.\<close>

lemma client_ignores_credentials:
  assumes "getOrCreateClient sdk b cfg s = (Ok client, s')" and "client_key cfg' = client_key cfg"
  shows "getOrCreateClient sdk b cfg' s' = (Ok client, s')"
  using assms by (auto simp: getOrCreateClient_def AList.update_conv' split: option.splits res.splits)

section \<open>Concrete runs\<close>

text \<open>A service that keeps the parts it is sent.\<close>

definition not_here :: "'a res" where
  "not_here = Err (ErrNew ''not here'')"

definition part_log :: "(unit, (int \<times> bytes) list) s3_sdk" where
  "part_log =
     \<lparr>sdk_NewSession = (\<lambda>_. Ok ()), sdk_ListBuckets = (\<lambda>k c. (not_here, c)), sdk_CreateBucket = (\<lambda>k b c. (not_here, c)),
       sdk_DeleteBucket = (\<lambda>k b c. (not_here, c)), sdk_HeadBucket = (\<lambda>k b c. (not_here, c)), sdk_ListObjects = (\<lambda>k i c. (not_here, c)),
       sdk_GetObject = (\<lambda>k b y c. (not_here, c)), sdk_PutObject = (\<lambda>k i r n c. (not_here, c)), sdk_DeleteObject = (\<lambda>k b y c. (not_here, c)),
       sdk_HeadObject = (\<lambda>k b y c. (not_here, c)), sdk_GetObjectAcl = (\<lambda>k b y c. (not_here, c)), sdk_CreateMultipartUpload = (\<lambda>k i c. (Ok (Some ''u''), c)),
       sdk_UploadPart = (\<lambda>k b y u n bs c. (Ok (Some ''e''), c @ [(n, bs)])), sdk_CompleteMultipartUpload = (\<lambda>k b y u ps c. (Ok (), c)),
       sdk_AbortMultipartUpload = (\<lambda>k b y u c. (Ok (), [])), sdk_ListParts = (\<lambda>k b y u n m c. (not_here, c))\<rparr>"

theorem upload_parts_split_witness:
  "put_parts part_log () ''b'' ''k'' (Some ''u'') 1 (bytes_reader [1, 2]) [] [] = (Ok [(1, Some ''e'')], [(1, [1, 2])])"
proof -
  have "chunks_of partSize [1, 2 :: byte] = [[1, 2]]" by (simp add: chunks_of.simps partSize_def)
  then show ?thesis
    using upload_parts_split [of "bytes_reader [1, 2]" part_log "()" "''b''" "''k''" "Some ''u''" "[]"] by (simp add: part_log_def Let_def)
qed

theorem decoded_body_plain_witness: "decoded_body (\<lambda>_. 1) [[1, 2], [3]] None = bytes_reader [1, 2, 3]"
proof -
  have "list_all plain_piece [[1, 2], [3]]" by code_simp
  then show ?thesis using decoded_body_plain [of "\<lambda>_. 1" "[[1, 2], [3]]" None] by (simp add: list_all_iff bytes_reader_def clean_end_def)
qed

definition demo_bucket_config :: "string \<Rightarrow> bucket_config" where
  "demo_bucket_config p =
     \<lparr>bc_RealName = ''r'', bc_Prefix = p, bc_Region = ''eu'', bc_Endpoint = '''', bc_AccessKey = '''', bc_SecretKey = '''', bc_KMSKeyID = '''',
      bc_KMSEncryptionContext = []\<rparr>"

definition demo_s3 :: "unit s3_backend" where
  "demo_s3 =
     \<lparr>sb_defaultClient = (), sb_config = \<lparr>ss_Endpoint = '''', ss_Region = '''', ss_AccessKey = '''', ss_SecretKey = '''', ss_Profile = '''',
        ss_UsePathStyle = True, ss_DisableSSL = False, ss_BucketMapping = [],
        ss_BucketConfigs = [(''a'', Some (demo_bucket_config ''t1'')), (''b'', Some (demo_bucket_config ''t2/''))]\<rparr>\<rparr>"

theorem virtual_buckets_isolated_witness:
  "target demo_s3 ''a'' ''k'' = Ok (''r'', ''t1/k'') \<and> target demo_s3 ''b'' ''k'' = Ok (''r'', ''t2/k'')
   \<and> ''t1/k'' \<noteq> ''t2/k'' \<and> removePrefixFromKey demo_s3 ''a'' ''t1/k'' = Ok ''k''"
proof -
  have t: "target demo_s3 ''a'' ''k'' = Ok (''r'', ''t1/k'')" "target demo_s3 ''b'' ''k'' = Ok (''r'', ''t2/k'')"
    "getPrefixForBucket demo_s3 ''a'' = Ok ''t1/''" "getPrefixForBucket demo_s3 ''b'' = Ok ''t2/''"
    "\<not> HasPrefix ''t1/'' ''t2/''" "\<not> HasPrefix ''t2/'' ''t1/''" "\<not> HasPrefix ''k'' ''/''"
    by code_simp+
  show ?thesis using virtual_buckets_isolated [OF t(3,4) _ _ t(5,6) t(1,2)] t(1,2,7) by blast
qed

end
