(* ===== verification/S3_Handler_KMS.thy ===== *)
theory S3_Handler_KMS
  imports S3_Handler KMS_Manager Storage_S3
begin

text \<open>
  \<^verbatim>\<open>pkg/s3/handler_kms.go\<close>: the variant of the handlers that adds the headers of server-side encryption with KMS keys to what is
  stored. A metadata map may be nil, which matters here: the callee adds its headers to a map of its own when the caller
  has none. That the storage is an S3 backend, which has bucket configurations, is an argument. The server does not use
  this handler, and its \<^verbatim>\<open>handleObject\<close> is not on any route. Proved: what an S3 service is asked to encrypt with.
\<close>

record kms_handler =
  hk_kmsManager :: "manager option"
  hk_kmsConfig :: "kms_key_config option"

definition NewHandlerWithKMS ::
  "(string \<Rightarrow> kms_client res) \<Rightarrow> kworld \<Rightarrow> time \<Rightarrow> time \<Rightarrow> kms_key_config option \<Rightarrow> kms_handler res \<times> kworld" where
  "NewHandlerWithKMS load kw now now' kmsCfg =
     (case kmsCfg of
        Some c \<Rightarrow>
          if kk_Enabled c then
            (case Manager_New load kw now now' (Some (ConfigFromAppConfig kmsCfg)) of
               (Ok m, kw') \<Rightarrow> (Ok \<lparr>hk_kmsManager = m, hk_kmsConfig = kmsCfg\<rparr>, kw')
             | (Err e, kw') \<Rightarrow> (Err e, kw')
             | (Panic p, kw') \<Rightarrow> (Panic p, kw'))
          else (Ok \<lparr>hk_kmsManager = None, hk_kmsConfig = kmsCfg\<rparr>, kw)
      | None \<Rightarrow> (Ok \<lparr>hk_kmsManager = None, hk_kmsConfig = kmsCfg\<rparr>, kw))"

text \<open>The metadata that is stored, and what the caller's map is afterwards: its own map with the headers added, nil when it was nil.\<close>

definition kms_stored :: "manager option \<Rightarrow> (string \<Rightarrow> bucket_config option) option \<Rightarrow> string \<Rightarrow> smap option \<Rightarrow> smap option" where
  "kms_stored mo s3cfg bucket metadata =
     (if Manager_IsEnabled mo then
        let bucketKMSConfig = (case s3cfg of
              None \<Rightarrow> None
            | Some get \<Rightarrow> (case get bucket of None \<Rightarrow> None | Some c \<Rightarrow> BucketConfigFromAppConfig (Some c)));
            kmsHeaders = (case Manager_GetEncryptionHeaders mo bucketKMSConfig of None \<Rightarrow> [] | Some h \<Rightarrow> h)
        in Some (sm_merge (case metadata of None \<Rightarrow> [] | Some m \<Rightarrow> m) kmsHeaders)
      else metadata)"

definition putObjectWithKMS ::
  "'s backend \<Rightarrow> kms_handler \<Rightarrow> (string \<Rightarrow> bucket_config option) option \<Rightarrow> 's \<Rightarrow> string \<Rightarrow> string \<Rightarrow> reader \<Rightarrow> int \<Rightarrow> smap option
     \<Rightarrow> (unit res \<times> 's) \<times> smap option" where
  "putObjectWithKMS bk h s3cfg s bucket key body sz metadata =
     (let stored = kms_stored (hk_kmsManager h) s3cfg bucket metadata;
          md = (case stored of None \<Rightarrow> [] | Some m \<Rightarrow> m)
      in (bk_PutObject bk s bucket key body sz md, if metadata = None then None else stored))"

definition getObjectWithKMS :: "'s backend \<Rightarrow> kms_handler \<Rightarrow> 's \<Rightarrow> string \<Rightarrow> string \<Rightarrow> s3_object res \<times> 's" where
  "getObjectWithKMS bk h s bucket key = bk_GetObject bk s bucket key"

text \<open>The encryption a client asks for: the key and the context are kept, the kind is not.\<close>

definition client_sse :: "request \<Rightarrow> smap option \<Rightarrow> smap option" where
  "client_sse r metadata =
     (if header r ''x-amz-server-side-encryption'' = ''aws:kms'' then
        let m = (case metadata of None \<Rightarrow> [] | Some m \<Rightarrow> m);
            set = (\<lambda>k m. if header r k = '''' then m else AList.update k (header r k) m)
        in Some (set ''x-amz-server-side-encryption-context'' (set ''x-amz-server-side-encryption-aws-kms-key-id'' m))
      else metadata)"

definition putObjectKMS ::
  "'s backend \<Rightarrow> kms_handler \<Rightarrow> (string \<Rightarrow> bucket_config option) option \<Rightarrow> time \<Rightarrow> 's \<Rightarrow> request \<Rightarrow> string \<Rightarrow> string
     \<Rightarrow> response res \<times> 's" where
  "putObjectKMS bk h s3cfg now s r bucket key =
     (if rq_ContentLength r < 0 then (Ok (sendError (ErrNew ''missing Content-Length'') 400 fresh), s)
      else case collect_metadata (rq_Header r) [] of
        Panic p \<Rightarrow> (Panic p, s)
      | Err e \<Rightarrow> (Err e, s)
      | Ok md \<Rightarrow>
          let metadata = client_sse r (if md = [] then None else Some md);
              (rs, after) = putObjectWithKMS bk h s3cfg s bucket key (rq_Body r) (rq_ContentLength r) metadata;
              keyId = (case after of None \<Rightarrow> None | Some m \<Rightarrow> map_of m ''x-amz-server-side-encryption-aws-kms-key-id'')
          in reply rs 500 (\<lambda>_.
               let w = set_header ''ETag'' (dquote (FormatHex now)) fresh in
               WriteHeader 200 (if Manager_IsEnabled (hk_kmsManager h) then
                  (case keyId of
                     Some k \<Rightarrow> set_headers [(''x-amz-server-side-encryption'', ''aws:kms''), (''x-amz-server-side-encryption-aws-kms-key-id'', k)] w
                   | None \<Rightarrow> w) else w)))"

text \<open>\<^verbatim>\<open>sendError\<close> with a nil error calls a method of it after the status is written: a panic.\<close>

definition handleObjectKMS ::
  "'s backend \<Rightarrow> (reader \<Rightarrow> completed_part list res) \<Rightarrow> bool \<Rightarrow> kms_handler \<Rightarrow> (string \<Rightarrow> bucket_config option) option \<Rightarrow> time \<Rightarrow> 's \<Rightarrow> request
     \<Rightarrow> string \<Rightarrow> string \<Rightarrow> response res \<times> 's" where
  "handleObjectKMS bk decode seekable h s3cfg now s r bucket key0 =
     (let key = TrimSuffix key0 ''/''; uploadId = Query_Get r ''uploadId''; partNumber = Query_Get r ''partNumber''; m = rq_Method r in
      if key = '''' then handleBucket bk s r bucket
      else if uploadId \<noteq> '''' \<and> partNumber \<noteq> '''' \<and> m = ''PUT'' then handle_uploadPart bk s r bucket key uploadId partNumber
      else if uploadId \<noteq> '''' \<and> partNumber = '''' \<and> m = ''POST'' then completeMultipartUpload bk decode now s r bucket key uploadId
      else if uploadId \<noteq> '''' \<and> partNumber = '''' \<and> m = ''DELETE'' then abortMultipartUpload bk s bucket key uploadId
      else if m = ''POST'' \<and> Query_Get r ''uploads'' \<noteq> '''' then initiateMultipartUpload bk s r bucket key
      else if Query_Get r ''acl'' \<noteq> '''' then
        (if m = ''GET'' then getObjectACL bk s bucket key
         else if m = ''PUT'' then putObjectACL bk s bucket key
         else (nil_deref, s))
      else if m = ''GET'' then getObject bk seekable s r bucket key
      else if m = ''PUT'' then putObjectKMS bk h s3cfg now s r bucket key
      else if m = ''HEAD'' then headObject bk s bucket key
      else if m = ''DELETE'' then deleteObject bk s bucket key
      else (nil_deref, s))"

definition KMSHandler_Close :: "kms_handler \<Rightarrow> kworld \<Rightarrow> kms_handler \<times> kworld" where
  "KMSHandler_Close h kw =
     (case hk_kmsManager h of
        None \<Rightarrow> (h, kw)
      | Some m \<Rightarrow> (let (m', kw') = Manager_Close (Some m) kw in (h\<lparr>hk_kmsManager := m'\<rparr>, kw')))"

section \<open>What the service is asked to encrypt with\<close>

abbreviation "sse_kind \<equiv> ''x-amz-server-side-encryption''"
abbreviation "sse_key \<equiv> ''x-amz-server-side-encryption-aws-kms-key-id''"

definition handler_headers :: "manager option \<Rightarrow> (string \<Rightarrow> bucket_config option) option \<Rightarrow> string \<Rightarrow> smap" where
  "handler_headers mo s3cfg bucket =
     (case Manager_GetEncryptionHeaders mo (case s3cfg of
              None \<Rightarrow> None
            | Some get \<Rightarrow> (case get bucket of None \<Rightarrow> None | Some c \<Rightarrow> BucketConfigFromAppConfig (Some c))) of
        None \<Rightarrow> [] | Some h \<Rightarrow> h)"

lemma headers_kind:
  assumes "Manager_IsEnabled mo" and "Manager_GetEncryptionHeaders mo bc = Some h"
  shows "map_of h sse_kind = Some ''aws:kms''" and "wf_smap h"
  using assms
  by (auto simp: Manager_GetEncryptionHeaders_def Let_def AList.update_conv' wf_smap_def AList.distinct_update split: if_splits prod.splits)

lemma handler_headers_kind:
  assumes "Manager_IsEnabled mo"
  shows "map_of (handler_headers mo s3cfg bucket) sse_kind = Some ''aws:kms''" and "wf_smap (handler_headers mo s3cfg bucket)"
proof -
  have "\<exists>h. Manager_GetEncryptionHeaders mo bc = Some h" for bc using assms by (simp add: Manager_GetEncryptionHeaders_def Let_def split: prod.splits)
  then obtain h where h: "Manager_GetEncryptionHeaders mo (case s3cfg of None \<Rightarrow> None
      | Some get \<Rightarrow> (case get bucket of None \<Rightarrow> None | Some c \<Rightarrow> BucketConfigFromAppConfig (Some c))) = Some h" by blast
  show "map_of (handler_headers mo s3cfg bucket) sse_kind = Some ''aws:kms''" "wf_smap (handler_headers mo s3cfg bucket)"
    using headers_kind [OF assms h] by (simp_all add: handler_headers_def h)
qed

lemma map_of_kms_filter: "HasPrefix k sse_kind \<Longrightarrow> map_of (filter (\<lambda>(k, v). HasPrefix k sse_kind) md) k = map_of md k"
  by (induction md) auto

lemma headers_only_sse:
  assumes "Manager_GetEncryptionHeaders mo bc = Some h" and "\<not> HasPrefix k sse_kind"
  shows "map_of h k = None"
proof -
  have "k \<noteq> sse_kind" "k \<noteq> sse_key" "k \<noteq> ''x-amz-server-side-encryption-context''" using assms(2) by (auto simp: HasPrefix_def)
  then show ?thesis using assms(1)
    by (auto simp: Manager_GetEncryptionHeaders_def Let_def AList.update_conv' split: if_splits prod.splits)
qed

lemma handler_headers_only_sse: "\<not> HasPrefix k sse_kind \<Longrightarrow> map_of (handler_headers mo s3cfg bucket) k = None"
  by (auto simp: handler_headers_def headers_only_sse split: option.split)

text \<open>What the input of a store says when the headers are merged into the client's metadata.\<close>

definition asks_for :: "manager option \<Rightarrow> (string \<Rightarrow> bucket_config option) option \<Rightarrow> string \<Rightarrow> smap \<Rightarrow> s3_put_input \<Rightarrow> bool" where
  "asks_for mo s3cfg bucket md i \<longleftrightarrow>
     pi_ServerSideEncryption i = Some ''aws:kms''
     \<and> pi_SSEKMSKeyId i = (case map_of (handler_headers mo s3cfg bucket) sse_key of Some k \<Rightarrow> Some k | None \<Rightarrow> map_of md sse_key)
     \<and> (\<forall>k. map_of (pi_Metadata i) k = (if HasPrefix k sse_kind then None else map_of md k))"

lemma map_of_plain_filter:
  "map_of (filter (\<lambda>(k, v). \<not> HasPrefix k sse_kind) md) k = (if HasPrefix k sse_kind then None else map_of md k)"
  by (induction md) auto

lemma put_input_asks_for:
  fixes metadata :: "smap option"
  defines "md \<equiv> case metadata of None \<Rightarrow> [] | Some m \<Rightarrow> m"
  assumes "Manager_IsEnabled mo"
  shows "asks_for mo s3cfg bucket md (put_input realBucket realKey (the (kms_stored mo s3cfg bucket metadata)))"
proof -
  let ?h = "handler_headers mo s3cfg bucket"
  have st: "the (kms_stored mo s3cfg bucket metadata) = sm_merge md ?h"
    using assms by (simp add: kms_stored_def handler_headers_def Let_def)
  have m: "map_of (sm_merge md ?h) = map_of md ++ map_of ?h" using map_of_sm_merge handler_headers_kind(2) [OF assms(2)] .
  have p: "HasPrefix sse_kind sse_kind" "HasPrefix sse_key sse_kind" by (simp_all add: HasPrefix_def)
  have "map_of (filter (\<lambda>(k, v). HasPrefix k sse_kind) (sm_merge md ?h)) sse_kind = Some ''aws:kms''"
    using handler_headers_kind(1) [OF assms(2)] by (simp add: map_of_kms_filter [OF p(1)] m map_add_def)
  moreover have "map_of (filter (\<lambda>(k, v). HasPrefix k sse_kind) (sm_merge md ?h)) sse_key
      = (case map_of ?h sse_key of Some k \<Rightarrow> Some k | None \<Rightarrow> map_of md sse_key)"
    by (simp add: map_of_kms_filter [OF p(2)] m map_add_def split: option.splits)
  ultimately show ?thesis
    unfolding st asks_for_def by (auto simp: put_input_def Let_def map_of_plain_filter m map_add_def handler_headers_only_sse)
qed

section \<open>A service that keeps a log\<close>

text \<open>The same service, whose state also has the inputs with which an object is stored or a multipart upload is begun.\<close>

definition unlogged :: "('c \<Rightarrow> 'a \<times> 'c) \<Rightarrow> 'c \<times> 'l \<Rightarrow> 'a \<times> 'c \<times> 'l" where
  "unlogged f cl = (let (x, c') = f (fst cl) in (x, c', snd cl))"

definition logged :: "('k, 'c) s3_sdk \<Rightarrow> ('k, 'c \<times> s3_put_input list) s3_sdk" where
  "logged sdk =
     \<lparr>sdk_NewSession = sdk_NewSession sdk, sdk_ListBuckets = (\<lambda>k. unlogged (sdk_ListBuckets sdk k)),
      sdk_CreateBucket = (\<lambda>k b. unlogged (sdk_CreateBucket sdk k b)), sdk_DeleteBucket = (\<lambda>k b. unlogged (sdk_DeleteBucket sdk k b)),
      sdk_HeadBucket = (\<lambda>k b. unlogged (sdk_HeadBucket sdk k b)), sdk_ListObjects = (\<lambda>k i. unlogged (sdk_ListObjects sdk k i)),
      sdk_GetObject = (\<lambda>k b o'. unlogged (sdk_GetObject sdk k b o')),
      sdk_PutObject = (\<lambda>k i r n cl. unlogged (sdk_PutObject sdk k i r n) (fst cl, snd cl @ [i])),
      sdk_DeleteObject = (\<lambda>k b o'. unlogged (sdk_DeleteObject sdk k b o')), sdk_HeadObject = (\<lambda>k b o'. unlogged (sdk_HeadObject sdk k b o')),
      sdk_GetObjectAcl = (\<lambda>k b o'. unlogged (sdk_GetObjectAcl sdk k b o')),
      sdk_CreateMultipartUpload = (\<lambda>k i cl. unlogged (sdk_CreateMultipartUpload sdk k i) (fst cl, snd cl @ [i])),
      sdk_UploadPart = (\<lambda>k b o' u n d. unlogged (sdk_UploadPart sdk k b o' u n d)),
      sdk_CompleteMultipartUpload = (\<lambda>k b o' u ps. unlogged (sdk_CompleteMultipartUpload sdk k b o' u ps)),
      sdk_AbortMultipartUpload = (\<lambda>k b o' u. unlogged (sdk_AbortMultipartUpload sdk k b o' u)),
      sdk_ListParts = (\<lambda>k b o' u n m. unlogged (sdk_ListParts sdk k b o' u n m))\<rparr>"

abbreviation "log_of s \<equiv> snd (s3_service s)"

lemma unlogged_log: "unlogged f cl = (x, cl') \<Longrightarrow> snd cl' = snd cl"
  by (auto simp: unlogged_def split: prod.splits)

lemma getClientForBucket_service: "getClientForBucket sdk b bucket s = (r, s') \<Longrightarrow> s3_service s' = s3_service s"
  by (auto simp: getClientForBucket_def getOrCreateClient_def split: option.splits res.splits)

lemma put_parts_log:
  "put_parts (logged sdk) client rb rk u n r ps c = (x, c') \<Longrightarrow> snd c' = snd c"
proof (induction "logged sdk" client rb rk u n r ps c arbitrary: x c' rule: put_parts.induct)
  case (1 client rb rk u n r ps c)
  have a: "snd (upload_abort (logged sdk) client rb rk u c0) = snd c0" for c0
    by (simp add: upload_abort_def logged_def unlogged_def case_prod_unfold Let_def)
  obtain buf e where rf: "ReadFull r partSize = (buf, e)" by (metis prod.collapse)
  obtain y c1 where up: "sdk_UploadPart (logged sdk) client rb rk u n buf c = (y, c1)" by (metis prod.collapse)
  then have c1: "snd c1 = snd c" by (auto simp: logged_def dest: unlogged_log)
  show ?case
    using 1(2) 1(1) [OF rf [symmetric] _ _ up [symmetric]] c1
    by (subst (asm) put_parts.simps) (auto simp: rf up a Let_def split: if_splits res.splits)
qed

lemma rs_bind_cases:
  assumes "rs_bind rs f = (r, s')"
  obtains (Ok) x s where "rs = (Ok x, s)" "f x s = (r, s')" | (fails) "snd rs = s'" "\<forall>y. r \<noteq> Ok y"
  using assms by (cases rs; cases "fst rs") (auto simp: rs_bind_def)

lemma rs_wrap_cases:
  assumes "rs_wrap msg (x, s) = (r, s')"
  shows "s' = s \<and> (\<forall>y. r = Ok y \<longleftrightarrow> x = Ok y)"
  using assms by (cases x) (auto simp: rs_wrap_def)

lemma call_log:
  assumes "call sdk b bucket msg f s = (r, s')" and "\<And>k c x c'. f k c = (x, c') \<Longrightarrow> snd c' = snd c @ [i]"
  shows "log_of s' = log_of s @ [i] \<or> log_of s' = log_of s \<and> (\<forall>y. r \<noteq> Ok y)"
proof -
  obtain x s1 where g: "getClientForBucket sdk b bucket s = (x, s1)" by (metis prod.collapse)
  have s1: "s3_service s1 = s3_service s" using getClientForBucket_service [OF g] .
  from assms(1) [unfolded call_def g] show ?thesis
  proof (cases rule: rs_bind_cases)
    case (Ok k s2)
    have "s2 = s1" using rs_wrap_cases [OF Ok(1)] by simp
    moreover obtain y c where f: "f k (s3_service s2) = (y, c)" by (metis prod.collapse)
    ultimately have "s3_service s' = c" using Ok(2) by (auto dest!: rs_wrap_cases)
    then show ?thesis using assms(2) [OF f] s1 \<open>s2 = s1\<close> by simp
  next
    case fails
    then show ?thesis using s1 by (cases x) (auto simp: rs_wrap_def)
  qed
qed

lemma put_log: "sdk_PutObject (logged sdk) k i body sz c = (x, c') \<Longrightarrow> snd c' = snd c @ [i]"
  and create_log: "sdk_CreateMultipartUpload (logged sdk) k i c = (y, c') \<Longrightarrow> snd c' = snd c @ [i]"
  and complete_log: "sdk_CompleteMultipartUpload (logged sdk) k rb rk u ps c = (z, c') \<Longrightarrow> snd c' = snd c"
  by (auto simp: logged_def dest!: unlogged_log)

lemma store_log:
  assumes "rs_bind (call (logged sdk) b bucket msg (\<lambda>client. sdk_PutObject (logged sdk) client i body sz) s) (\<lambda>_ s2. (Ok (), forget k s2)) = (r, s')"
  shows "log_of s' = log_of s @ [i] \<or> log_of s' = log_of s \<and> r \<noteq> Ok ()"
  using assms
proof (cases rule: rs_bind_cases)
  case (Ok x s1)
  then show ?thesis using call_log [OF Ok(1) put_log] by (auto simp: forget_def)
next
  case fails
  obtain x where c: "call (logged sdk) b bucket msg (\<lambda>client. sdk_PutObject (logged sdk) client i body sz) s = (x, s')"
    using fails(1) by (metis prod.collapse)
  show ?thesis using call_log [OF c put_log] fails(2) by auto
qed

text \<open>Once the upload is begun, nothing more is logged.\<close>

lemma finish_log:
  assumes "rs_bind (case put_parts (logged sdk) client rb rk u 1 reader [] (s3_service s) of (y, c2) \<Rightarrow> (y, s\<lparr>s3_service := c2\<rparr>)) (\<lambda>parts s3.
      case sdk_CompleteMultipartUpload (logged sdk) client rb rk u parts (s3_service s3) of (z, c3) \<Rightarrow>
      rs_bind (rs_wrap msg (z, s3\<lparr>s3_service := c3\<rparr>)) (\<lambda>_ s4. (Ok (), forget k s4))) = (r, s')"
  shows "log_of s' = log_of s"
proof -
  obtain y c2 where p: "put_parts (logged sdk) client rb rk u 1 reader [] (s3_service s) = (y, c2)" by (metis prod.collapse)
  note c2 = put_parts_log [OF p]
  from assms [unfolded p] show ?thesis
  proof (cases rule: rs_bind_cases)
    case (Ok parts s3)
    obtain z c3 where q: "sdk_CompleteMultipartUpload (logged sdk) client rb rk u parts (s3_service s3) = (z, c3)" by (metis prod.collapse)
    show ?thesis using Ok c2 complete_log [OF q] q by (cases z) (auto simp: rs_bind_def rs_wrap_def forget_def)
  qed (use c2 in auto)
qed

lemma multipart_log:
  assumes "putObjectMultipart (logged sdk) b s bucket rb key reader md = (r, s')" and "addPrefixToKey b bucket key = Ok rk"
  shows "log_of s' = log_of s @ [put_input rb rk md] \<or> log_of s' = log_of s \<and> r \<noteq> Ok ()"
proof -
  obtain x s1 where g: "getClientForBucket (logged sdk) b bucket s = (x, s1)" by (metis prod.collapse)
  have s1: "s3_service s1 = s3_service s" using getClientForBucket_service [OF g] .
  show ?thesis
  proof (cases x)
    case (Ok client)
    obtain u c1 where c: "sdk_CreateMultipartUpload (logged sdk) client (put_input rb rk md) (s3_service s1) = (u, c1)" by (metis prod.collapse)
    have c1: "snd c1 = log_of s @ [put_input rb rk md]" using create_log [OF c] s1 by simp
    show ?thesis
    proof (cases u)
      case u: (Ok uid)
      have "log_of s' = snd c1"
        using assms g Ok c u finish_log [where s = "s1\<lparr>s3_service := c1\<rparr>"]
        by (simp add: putObjectMultipart_def rs_bind_def [of "(Ok _, _)"] rs_wrap_def case_prod_unfold)
      then show ?thesis using c1 by simp
    qed (use assms g Ok c c1 in \<open>auto simp: putObjectMultipart_def rs_bind_def rs_wrap_def\<close>)
  qed (use assms g s1 in \<open>auto simp: putObjectMultipart_def rs_bind_def rs_wrap_def\<close>)
qed

lemma S3_PutObject_log:
  assumes "target b bucket key = Ok (rb, rk)" and "S3_PutObject (logged sdk) b seeker s bucket key reader sz md = (r, s')"
  shows "log_of s' = log_of s @ [put_input rb rk md] \<or> log_of s' = log_of s \<and> r \<noteq> Ok ()"
proof -
  have k: "addPrefixToKey b bucket key = Ok rk" using assms(1)
    by (cases "mapBucket b bucket"; cases "addPrefixToKey b bucket key") (auto simp: target_def)
  note put = assms(2) [unfolded S3_PutObject_def assms(1) rs_bind_simps Let_def prod.case]
  consider "seeker reader" | "\<not> seeker reader" "0 < sz \<and> sz \<le> multipartThreshold" | "\<not> seeker reader" "\<not> (0 < sz \<and> sz \<le> multipartThreshold)"
    by blast
  then show ?thesis
  proof cases
    case 1
    then show ?thesis using put by (simp only: if_True) (rule store_log)
  next
    case 2
    then show ?thesis
      using put by (cases "ReadAll reader") (auto simp: rs_wrap_def rs_bind_def [of "(Err _, _)"] rs_bind_def [of "(Panic _, _)"] dest!: store_log)
  next
    case 3
    then have "putObjectMultipart (logged sdk) b s bucket rb key reader md = (r, s')" using put by (simp only: if_False)
    then show ?thesis using k by (rule multipart_log)
  qed
qed

section \<open>Properties\<close>

text \<open>C18: the kind of encryption and the key reach the service. With an enabled KMS manager over an S3 backend, whatever metadata and
  encryption headers the client sent and on whichever path the object is stored, a store sends the service at most one input that begins
  an object, and exactly one when it succeeds; that input names the real bucket and key, asks for encryption with KMS and with the key the
  manager chose for the bucket (the client's key when the manager has none), and its metadata is the client's without encryption
  headers. The encryption context the manager adds is among the headers that are left out.\<close>

theorem kms_headers_reach_service:
  assumes "Manager_IsEnabled (hk_kmsManager h)" and "target b bucket key = Ok (realBucket, realKey)"
    and "putObjectWithKMS (S3Backend (logged sdk) b seeker qs) h s3cfg s bucket key body sz metadata = ((r, s'), after)"
  shows "\<exists>inputs. log_of s' = log_of s @ inputs \<and> length inputs \<le> 1 \<and> (r = Ok () \<longrightarrow> length inputs = 1)
    \<and> (\<forall>i \<in> set inputs. pi_Bucket i = realBucket \<and> pi_Key i = realKey
         \<and> asks_for (hk_kmsManager h) s3cfg bucket (case metadata of None \<Rightarrow> [] | Some m \<Rightarrow> m) i)"
proof -
  let ?md = "the (kms_stored (hk_kmsManager h) s3cfg bucket metadata)"
  have "S3_PutObject (logged sdk) b seeker s bucket key body sz ?md = (r, s')"
    using assms(1,3) by (auto simp: putObjectWithKMS_def S3Backend_def kms_stored_def Let_def)
  from S3_PutObject_log [OF assms(2) this] put_input_asks_for [OF assms(1)] show ?thesis
    by (elim disjE) (auto intro!: exI [of _ "[put_input realBucket realKey ?md]"] simp: put_input_def Let_def)
qed

text \<open>Without a manager the encryption a client asks for is lost: the kind of encryption is not copied, so the service is not asked to
  encrypt and the key is dropped.\<close>

lemma client_encryption_lost:
  assumes "\<not> Manager_IsEnabled mo" and "map_of md sse_kind = None"
  shows "pi_ServerSideEncryption (put_input rb rk (the (kms_stored mo s3cfg bucket (client_sse r (Some md))))) = None"
proof -
  have "HasPrefix sse_kind sse_kind" by (simp add: HasPrefix_def)
  moreover have "map_of (the (client_sse r (Some md))) sse_kind = None"
    using assms(2) by (simp add: client_sse_def Let_def AList.update_conv')
  ultimately have "map_of (filter (\<lambda>(k, v). HasPrefix k sse_kind) (the (client_sse r (Some md)))) sse_kind = None"
    by (simp only: map_of_kms_filter)
  then show ?thesis using assms(1) by (simp add: kms_stored_def put_input_def Let_def)
qed

text \<open>A request for a multipart upload in its usual form, \<^verbatim>\<open>POST ?uploads\<close>, panics: its value is empty, and the default branch
  sends a nil error.\<close>

lemma bare_uploads_panics:
  assumes "rq_Method r = ''POST''" and "rq_Query r = [(''uploads'', [''''])]" and "TrimSuffix key ''/'' \<noteq> ''''"
  shows "handleObjectKMS bk decode seekable h s3cfg now s r bucket key = (nil_deref, s)"
  using assms by (simp add: handleObjectKMS_def Query_Get_def first_value_def Let_def)

section \<open>Concrete runs\<close>

definition demo_manager :: manager where
  "demo_manager =
     \<lparr>mg_client = Some \<lparr>cl_WithContext = (\<lambda>_. Ok ()), cl_DescribeKey = (\<lambda>_ _. Err ErrEOF), cl_GenerateDataKey = (\<lambda>_ _ _ _. Err ErrEOF), cl_Decrypt = (\<lambda>_ _ _ _. Err ErrEOF),
        cl_GetKeyRotationStatus = (\<lambda>_ _. Err ErrEOF), cl_EnableKeyRotation = (\<lambda>_ _. Err ErrEOF)\<rparr>,
      mg_config = Some \<lparr>kc_Enabled = True, kc_DefaultKeyID = ''key-1'', kc_KeySpec = ''AES_256'', kc_Region = ''eu'', kc_EncryptionContext = [],
        kc_DataKeyCacheTTL = 1, kc_ValidateKeys = False, kc_EnableKeyRotation = False\<rparr>,
      mg_keyCache = Some [], mg_dataKeyCache = None\<rparr>"

definition demo_sdk :: "(unit, unit) s3_sdk" where
  "demo_sdk =
     \<lparr>sdk_NewSession = (\<lambda>_. Ok ()), sdk_ListBuckets = (\<lambda>_ c. (Ok [], c)), sdk_CreateBucket = (\<lambda>_ _ c. (Ok (), c)),
      sdk_DeleteBucket = (\<lambda>_ _ c. (Ok (), c)), sdk_HeadBucket = (\<lambda>_ _ c. (Ok (), c)), sdk_ListObjects = (\<lambda>_ _ c. (Err ErrEOF, c)),
      sdk_GetObject = (\<lambda>_ _ _ c. (Err ErrEOF, c)), sdk_PutObject = (\<lambda>_ _ _ _ c. (Ok (), c)), sdk_DeleteObject = (\<lambda>_ _ _ c. (Ok (), c)),
      sdk_HeadObject = (\<lambda>_ _ _ c. (Err ErrEOF, c)), sdk_GetObjectAcl = (\<lambda>_ _ _ c. (Err ErrEOF, c)),
      sdk_CreateMultipartUpload = (\<lambda>_ _ c. (Ok None, c)), sdk_UploadPart = (\<lambda>_ _ _ _ _ _ c. (Ok None, c)),
      sdk_CompleteMultipartUpload = (\<lambda>_ _ _ _ _ c. (Ok (), c)), sdk_AbortMultipartUpload = (\<lambda>_ _ _ _ c. (Ok (), c)),
      sdk_ListParts = (\<lambda>_ _ _ _ _ _ c. (Err ErrEOF, c))\<rparr>"

definition demo_s3 :: "unit s3_backend \<times> (unit, unit \<times> s3_put_input list) s3state" where
  "demo_s3 =
     (\<lparr>sb_defaultClient = (), sb_config = \<lparr>ss_Endpoint = '''', ss_Region = ''eu'', ss_AccessKey = '''', ss_SecretKey = '''', ss_Profile = '''',
         ss_UsePathStyle = False, ss_DisableSSL = False, ss_BucketMapping = [(''b'', ''r'')], ss_BucketConfigs = []\<rparr>\<rparr>,
      \<lparr>s3_clients = [], s3_metadataCache = \<lparr>mc_cache = [], mc_ttl = 1\<rparr>, s3_service = ((), []), s3_clock = int, s3_ticks = 0\<rparr>)"

abbreviation "demo_put \<equiv> putObjectWithKMS (S3Backend (logged demo_sdk) (fst demo_s3) (\<lambda>_. True) (\<lambda>_. 512))
  \<lparr>hk_kmsManager = Some demo_manager, hk_kmsConfig = None\<rparr> None (snd demo_s3) ''b'' ''k'' (bytes_reader [1]) 1 (Some [(sse_key, ''mine''), (''m'', ''v'')])"

theorem kms_headers_reach_service_witness:
  "\<exists>s' after i. demo_put = ((Ok (), s'), after) \<and> log_of s' = [i] \<and> pi_Bucket i = ''r'' \<and> pi_SSEKMSKeyId i = Some ''key-1''
     \<and> map_of (pi_Metadata i) ''m'' = Some ''v''"
proof -
  have e: "Manager_IsEnabled (hk_kmsManager \<lparr>hk_kmsManager = Some demo_manager, hk_kmsConfig = None\<rparr>)"
    by (simp add: Manager_IsEnabled_def demo_manager_def)
  have h: "map_of (handler_headers (Some demo_manager) None ''b'') sse_key = Some ''key-1''"
    using e by (simp add: handler_headers_def Manager_GetEncryptionHeaders_def demo_manager_def Let_def)
  have t: "target (fst demo_s3) ''b'' ''k'' = Ok (''r'', ''k'')"
    by (simp add: target_def mapBucket_def addPrefixToKey_def getPrefixForBucket_def demo_s3_def bucketConfigs_def add_prefix_def Let_def)
  obtain r s' after where p: "demo_put = ((r, s'), after)" by (metis prod.collapse)
  have "fst (fst demo_put) = Ok ()"
    by (simp add: putObjectWithKMS_def S3Backend_def S3_PutObject_def t [unfolded demo_s3_def, simplified] call_def rs_bind_def rs_wrap_def getClientForBucket_def demo_s3_def
        bucketConfigs_def logged_def unlogged_def demo_sdk_def Let_def)
  then have r: "r = Ok ()" using p by simp
  have "log_of (snd demo_s3) = []" by (simp add: demo_s3_def)
  with kms_headers_reach_service [OF e t p] obtain i where "log_of s' = [i]" "pi_Bucket i = ''r''"
    "asks_for (Some demo_manager) None ''b'' [(sse_key, ''mine''), (''m'', ''v'')] i"
    by (auto simp: r length_Suc_conv)
  then show ?thesis using p r h by (auto simp: asks_for_def HasPrefix_def)
qed

end
