(* ===== verification/Azure_Readers.thy ===== *)
theory Azure_Readers
  imports Go_Stream
begin

text \<open>
  The buffering readers of \<^verbatim>\<open>internal/storage/azure.go\<close>. Each has a buffer \<open>br_buf\<close> (empty for \<^verbatim>\<open>nil\<close>) of which the bytes from
  \<open>br_pos\<close> to \<open>br_n\<close> are still to be delivered, over a source. Reads of a certain size bypass the buffer, and the high-performance
  reader exchanges its buffer when the size of the reads changes. As long as all reads are of the same class of sizes the readers
  keep the contract \<open>byte_reader\<close>; across classes they deliver wrong bytes, or panic.
\<close>

record buf_reader =
  br_src :: stream
  br_buf :: bytes
  br_pos :: nat
  br_n :: nat
  br_err :: "go_error option"

definition new_buf_reader :: "stream \<Rightarrow> buf_reader" where
  "new_buf_reader src = \<lparr>br_src = src, br_buf = [], br_pos = 0, br_n = 0, br_err = None\<rparr>"

abbreviation KB :: nat where "KB \<equiv> 1024"

abbreviation MB :: nat where "MB \<equiv> 1024 * 1024"

section \<open>The code\<close>

text \<open>The read goes past the buffer.\<close>

definition bypass :: "nat \<Rightarrow> buf_reader \<Rightarrow> (bytes \<times> go_error option) res \<times> buf_reader" where
  "bypass p r = (case stream_Read p (br_src r) of (x, src) \<Rightarrow> (Ok x, r\<lparr>br_src := src\<rparr>))"

text \<open>One read of the source into the whole buffer; what was in the buffer beyond it stays.\<close>

definition fill :: "buf_reader \<Rightarrow> go_error option \<times> buf_reader" where
  "fill r =
     (case stream_Read (length (br_buf r)) (br_src r) of ((got, err), src) \<Rightarrow>
        (err, r\<lparr>br_src := src, br_buf := got @ drop (length got) (br_buf r), br_n := length got\<rparr>))"

text \<open>\<^verbatim>\<open>n = copy(p, r.buf[r.pos:r.n])\<close>, which panics when the buffer is shorter than \<^verbatim>\<open>r.n\<close>.\<close>

definition copy_out :: "nat \<Rightarrow> buf_reader \<Rightarrow> (bytes \<times> go_error option) res \<times> buf_reader" where
  "copy_out p r =
     (if length (br_buf r) < br_n r then (Panic ''slice bounds out of range'', r)
      else let bs = take p (take (br_n r - br_pos r) (drop (br_pos r) (br_buf r))) in (Ok (bs, None), r\<lparr>br_pos := br_pos r + length bs\<rparr>))"

definition refill_and_copy :: "nat \<Rightarrow> buf_reader \<Rightarrow> (bytes \<times> go_error option) res \<times> buf_reader" where
  "refill_and_copy p r =
     (if br_n r \<le> br_pos r then
        (case fill r of (err, r') \<Rightarrow> if br_n r' = 0 then (Ok ([], err), r') else copy_out p (r'\<lparr>br_pos := 0\<rparr>))
      else copy_out p r)"

definition choose_buf :: "nat \<Rightarrow> buf_reader \<Rightarrow> buf_reader" where
  "choose_buf p r =
     (if 64 * KB \<le> p then
        (if br_buf r = [] \<or> length (br_buf r) < 512 * KB then r\<lparr>br_buf := replicate (512 * KB) 0\<rparr> else r)
      else
        (if br_buf r = [] \<or> length (br_buf r) \<noteq> 64 * KB then r\<lparr>br_buf := replicate (64 * KB) 0\<rparr> else r))"

definition azureHighPerfReader_Read :: "nat \<Rightarrow> buf_reader \<Rightarrow> (bytes \<times> go_error option) res \<times> buf_reader" where
  "azureHighPerfReader_Read p r = (if MB \<le> p then bypass p r else refill_and_copy p (choose_buf p r))"

definition azureFastReader_Read :: "nat \<Rightarrow> buf_reader \<Rightarrow> (bytes \<times> go_error option) res \<times> buf_reader" where
  "azureFastReader_Read p r =
     (if 256 * KB \<le> p then bypass p r
      else refill_and_copy p (if br_buf r = [] then r\<lparr>br_buf := replicate (256 * KB) 0\<rparr> else r))"

definition azureFastUploadReader_Read :: "nat \<Rightarrow> buf_reader \<Rightarrow> (bytes \<times> go_error option) res \<times> buf_reader" where
  "azureFastUploadReader_Read p r0 =
     (if MB \<le> p then bypass p r0
      else
        let r = (if br_buf r0 = [] then r0\<lparr>br_buf := replicate MB 0\<rparr> else r0) in
        if br_n r \<le> br_pos r then
          (case br_err r of
             Some e \<Rightarrow> (Ok ([], Some e), r)
           | None \<Rightarrow>
               (case fill r of (err, r') \<Rightarrow>
                  let r'' = r'\<lparr>br_err := err, br_pos := 0\<rparr> in if br_n r' = 0 then (Ok ([], err), r'') else copy_out p r''))
        else copy_out p r)"

section \<open>What is left to deliver\<close>

definition br_pending :: "buf_reader \<Rightarrow> bytes" where
  "br_pending r = take (br_n r - br_pos r) (drop (br_pos r) (br_buf r))"

definition br_left :: "buf_reader \<Rightarrow> bytes" where
  "br_left r = br_pending r @ stream_left (br_src r)"

definition br_steps :: "buf_reader \<Rightarrow> nat" where
  "br_steps r = 2 * stream_steps (br_src r) + length (br_pending r)"

definition br_final :: "buf_reader \<Rightarrow> go_error option" where
  "br_final r = st_err (br_src r)"

lemmas br_defs = br_left_def br_steps_def br_final_def br_pending_def

definition br_empty :: "buf_reader \<Rightarrow> bool" where
  "br_empty r \<longleftrightarrow> br_n r \<le> br_pos r"

lemma new_buf_reader_simps [simp]:
  "br_left (new_buf_reader src) = stream_left src" "br_final (new_buf_reader src) = st_err src"
  "br_steps (new_buf_reader src) = 2 * stream_steps src" "br_empty (new_buf_reader src)" "br_err (new_buf_reader src) = None"
  "br_buf (new_buf_reader src) = []" "br_n (new_buf_reader src) = 0" "br_pos (new_buf_reader src) = 0" "br_src (new_buf_reader src) = src"
  by (simp_all add: new_buf_reader_def br_defs br_empty_def)

lemma br_empty_pending: "br_empty r \<Longrightarrow> br_pending r = []"
  by (simp add: br_empty_def br_pending_def)

text \<open>A change of the buffer is not noticed while it holds nothing.\<close>

lemma br_buf_irrelevant:
  assumes "br_empty r"
  shows "br_left (r\<lparr>br_buf := b\<rparr>) = br_left r" "br_steps (r\<lparr>br_buf := b\<rparr>) = br_steps r" "br_empty (r\<lparr>br_buf := b\<rparr>)"
  using assms by (simp_all add: br_defs br_empty_def)

lemma bypass_spec:
  assumes "bypass p r = (x, r')" and "br_empty r"
  obtains bs e where "x = Ok (bs, e)" "length bs \<le> p" "br_empty r'" "br_left r = bs @ br_left r'" "br_final r' = br_final r"
    "e = None \<Longrightarrow> 0 < p \<Longrightarrow> br_steps r' < br_steps r" "\<And>y. e = Some y \<Longrightarrow> br_left r' = [] \<and> y = end_error (br_final r)"
    "br_buf r' = br_buf r" "br_err r' = br_err r" "br_n r' = br_n r"
proof -
  obtain bs e src where s: "stream_Read p (br_src r) = ((bs, e), src)" by (metis prod.collapse)
  then have r': "x = Ok (bs, e)" "r' = r\<lparr>br_src := src\<rparr>" using assms(1) by (auto simp: bypass_def)
  note st = stream_Read_cases [OF s]
  have empty: "br_pending r = []" "br_pending r' = []" using assms(2) by (simp_all add: r' br_pending_def br_empty_def)
  show ?thesis
  proof (rule that [OF r'(1)])
    show "length bs \<le> p" "br_empty r'" "br_left r = bs @ br_left r'" "br_final r' = br_final r"
      "br_buf r' = br_buf r" "br_err r' = br_err r" "br_n r' = br_n r"
      using st(1-3) assms(2) empty by (simp_all add: r'(2) br_left_def br_final_def br_empty_def)
    show "br_steps r' < br_steps r" if "e = None" "0 < p" using st(4) [OF that] empty by (cases bs) (auto simp: r'(2) br_steps_def)
    show "br_left r' = [] \<and> y = end_error (br_final r)" if "e = Some y" for y
      using st(5) [OF that] empty stream_exhausted by (simp add: r'(2) br_left_def br_final_def)
  qed
qed

lemma copy_out_spec:
  assumes "copy_out p r = (x, r')" and "br_n r \<le> length (br_buf r)" and "\<not> br_empty r" and "0 < p"
  obtains bs where "x = Ok (bs, None)" "length bs \<le> p" "bs \<noteq> []" "br_left r = bs @ br_left r'" "br_final r' = br_final r"
    "br_steps r = br_steps r' + length bs" "br_buf r' = br_buf r" "br_err r' = br_err r" "br_n r' = br_n r" "br_src r' = br_src r"
proof -
  define bs where "bs = take p (br_pending r)"
  have r': "x = Ok (bs, None)" "r' = r\<lparr>br_pos := br_pos r + length bs\<rparr>"
    using assms(1,2) by (auto simp: copy_out_def bs_def br_pending_def Let_def)
  have pend: "br_pending r' = drop (length bs) (br_pending r)"
    using assms(2,3) by (simp add: r'(2) br_pending_def drop_take add.commute)
  have "br_pending r \<noteq> []" using assms(2,3) by (simp add: br_pending_def br_empty_def)
  then have ne: "bs \<noteq> []" using assms(4) by (simp add: bs_def)
  have split: "br_pending r = bs @ br_pending r'" unfolding pend by (simp add: bs_def min_def)
  have same: "br_src r' = br_src r" "br_buf r' = br_buf r" "br_err r' = br_err r" "br_n r' = br_n r" by (simp_all add: r'(2))
  have "length bs \<le> p" by (simp add: bs_def)
  moreover have "br_left r = bs @ br_left r'" "br_steps r = br_steps r' + length bs" "br_final r' = br_final r"
    unfolding br_left_def br_steps_def br_final_def split same by simp_all
  ultimately show ?thesis using that [OF r'(1) _ ne] same by blast
qed

lemma fill_spec:
  assumes "fill r = (err, r')" and "br_empty r" and "br_buf r \<noteq> []"
  shows "br_n r' \<le> length (br_buf r')" "length (br_buf r') = length (br_buf r)" "br_left (r'\<lparr>br_pos := 0\<rparr>) = br_left r"
    "br_final r' = br_final r" "br_n r' = 0 \<Longrightarrow> err = None \<Longrightarrow> br_steps r' < br_steps r"
    "br_steps (r'\<lparr>br_pos := 0\<rparr>) \<le> br_steps r" "br_n r' = 0 \<Longrightarrow> err = Some y \<Longrightarrow> br_left r' = [] \<and> y = end_error (br_final r)"
    "err = Some y \<Longrightarrow> st_pieces (br_src r') = [] \<and> y = end_error (br_final r)" "br_err r' = br_err r"
proof -
  obtain got e src where s: "stream_Read (length (br_buf r)) (br_src r) = ((got, e), src)" by (metis prod.collapse)
  then have r': "e = err" "r' = r\<lparr>br_src := src, br_buf := got @ drop (length got) (br_buf r), br_n := length got\<rparr>"
    using assms(1) by (auto simp: fill_def)
  note st = stream_Read_cases [OF s]
  have empty: "br_pending r = []" using br_empty_pending assms(2) .
  show "br_n r' \<le> length (br_buf r')" "length (br_buf r') = length (br_buf r)" "br_final r' = br_final r" "br_err r' = br_err r"
    using st(2,3) by (simp_all add: r' br_final_def)
  show "br_left (r'\<lparr>br_pos := 0\<rparr>) = br_left r" using st(1) empty by (simp add: r' br_left_def br_pending_def)
  show "br_steps (r'\<lparr>br_pos := 0\<rparr>) \<le> br_steps r"
    using st(6) empty by (simp add: r' br_steps_def br_pending_def)
  show "br_steps r' < br_steps r" if "br_n r' = 0" "err = None"
    using st(4) that assms(3) empty r'(1) by (auto simp: r'(2) br_steps_def br_pending_def)
  show "br_left r' = [] \<and> y = end_error (br_final r)" if "br_n r' = 0" "err = Some y"
    using st(5) [of y] that r'(1) stream_exhausted by (auto simp: r'(2) br_left_def br_pending_def br_final_def)
  show "st_pieces (br_src r') = [] \<and> y = end_error (br_final r)" if "err = Some y"
    using st(5) [of y] that r'(1) by (auto simp: r'(2) br_final_def)
qed

text \<open>One read of a buffering reader that keeps the contract.\<close>

definition good_read :: "nat \<Rightarrow> buf_reader \<Rightarrow> (bytes \<times> go_error option) res \<times> buf_reader \<Rightarrow> bool" where
  "good_read p r y \<longleftrightarrow>
     (\<exists>bs e r'. y = (Ok (bs, e), r') \<and> length bs \<le> p \<and> br_left r = bs @ br_left r' \<and> br_final r' = br_final r
        \<and> (e = None \<longrightarrow> br_steps r' < br_steps r) \<and> (\<forall>x. e = Some x \<longrightarrow> br_left r' = [] \<and> x = end_error (br_final r)))"

lemma good_readI:
  assumes "y = (Ok (bs, e), r')" and "length bs \<le> p" and "br_left r = bs @ br_left r'" and "br_final r' = br_final r"
    and "e = None \<Longrightarrow> br_steps r' < br_steps r" and "\<And>x. e = Some x \<Longrightarrow> br_left r' = [] \<and> x = end_error (br_final r)"
  shows "good_read p r y"
  using assms by (auto simp: good_read_def)

lemma good_read_bypass:
  assumes "br_empty r" and "0 < p"
  shows "good_read p r (bypass p r)" and "br_empty (snd (bypass p r))"
proof -
  obtain x r' where b: "bypass p r = (x, r')" by (cases "bypass p r")
  show "good_read p r (bypass p r)"
    by (rule bypass_spec [OF b assms(1)]) (auto simp: b assms(2) intro!: good_readI)
  show "br_empty (snd (bypass p r))" by (rule bypass_spec [OF b assms(1)]) (simp add: b)
qed

lemma good_read_copy:
  assumes "br_n r \<le> length (br_buf r)" and "\<not> br_empty r" and "0 < p"
  shows "good_read p r (copy_out p r)" and "br_buf (snd (copy_out p r)) = br_buf r" and "br_n (snd (copy_out p r)) = br_n r"
    and "br_err (snd (copy_out p r)) = br_err r" and "br_src (snd (copy_out p r)) = br_src r"
proof -
  obtain x r' where c: "copy_out p r = (x, r')" by (cases "copy_out p r")
  from copy_out_spec [OF c assms] obtain bs where bs: "x = Ok (bs, None)" "length bs \<le> p" "bs \<noteq> []" "br_left r = bs @ br_left r'"
    "br_final r' = br_final r" "br_steps r = br_steps r' + length bs"
    and same: "br_buf r' = br_buf r" "br_err r' = br_err r" "br_n r' = br_n r" "br_src r' = br_src r" by metis
  show "br_buf (snd (copy_out p r)) = br_buf r" "br_n (snd (copy_out p r)) = br_n r" "br_err (snd (copy_out p r)) = br_err r"
    "br_src (snd (copy_out p r)) = br_src r" by (simp_all add: c same)
  show "good_read p r (copy_out p r)" by (rule good_readI [of _ bs None r']) (simp_all add: c bs)
qed

text \<open>A read that continues another one that delivered nothing.\<close>

lemma good_read_after:
  assumes "good_read p r' y" and "br_left r' = br_left r" and "br_final r' = br_final r" and "br_steps r' \<le> br_steps r"
  shows "good_read p r y"
  using assms by (fastforce simp: good_read_def)

lemma good_read_refill:
  assumes "br_empty r \<or> br_n r \<le> length (br_buf r)" and "br_buf r \<noteq> []" and "0 < p"
  shows "good_read p r (refill_and_copy p r)" and "length (br_buf (snd (refill_and_copy p r))) = length (br_buf r)"
    and "br_n (snd (refill_and_copy p r)) \<le> length (br_buf r)"
proof -
  obtain err r' where f: "fill r = (err, r')" by (cases "fill r")
  let ?r = "r'\<lparr>br_pos := 0\<rparr>"
  show "good_read p r (refill_and_copy p r)"
  proof (cases "br_empty r")
    case True
    note fl = fill_spec [OF f True assms(2)]
    show ?thesis
    proof (cases "br_n r' = 0")
      case n0: True
      have "br_left r = br_left r'" using fl(3) n0 by (simp add: br_defs)
      with True n0 fl(4,5,7) f show ?thesis
        by (intro good_readI [of _ "[]" err r']) (auto simp: refill_and_copy_def br_empty_def)
    next
      case False
      then have "good_read p ?r (copy_out p ?r)" using good_read_copy(1) [of ?r p] fl(1) assms(3) by (simp add: br_empty_def)
      then have "good_read p r (copy_out p ?r)" using good_read_after fl(3,4,6) by (simp add: br_final_def)
      with True False f show ?thesis by (simp add: refill_and_copy_def br_empty_def)
    qed
  next
    case False
    with good_read_copy(1) assms show ?thesis by (auto simp: refill_and_copy_def br_empty_def)
  qed
  have "length (br_buf (snd (refill_and_copy p r))) = length (br_buf r) \<and> br_n (snd (refill_and_copy p r)) \<le> length (br_buf r)"
  proof (cases "br_empty r")
    case True
    note fl = fill_spec [OF f True assms(2)]
    show ?thesis
    proof (cases "br_n r' = 0")
      case False
      then have "\<not> br_empty ?r" by (simp add: br_empty_def)
      with good_read_copy(2,3) [of ?r p] fl(1,2) assms(3) True False f show ?thesis by (simp add: refill_and_copy_def br_empty_def)
    qed (use True f fl(2) in \<open>simp add: refill_and_copy_def br_empty_def\<close>)
  next
    case False
    with good_read_copy(2,3) assms show ?thesis by (auto simp: refill_and_copy_def br_empty_def)
  qed
  then show "length (br_buf (snd (refill_and_copy p r))) = length (br_buf r)"
    "br_n (snd (refill_and_copy p r)) \<le> length (br_buf r)" by simp_all
qed

lemma byte_readerI:
  assumes "\<And>p r. ok p \<Longrightarrow> I r \<Longrightarrow> good_read p r (rd p r) \<and> I (snd (rd p r))"
  shows "byte_reader rd ok I br_left br_final br_steps"
  by (unfold_locales; drule (1) assms [rotated]) (auto simp: good_read_def)

section \<open>The readers keep the contract within a class of sizes\<close>

datatype size_class = Small | Medium | Bypass

definition hp_class :: "nat \<Rightarrow> size_class" where
  "hp_class p = (if MB \<le> p then Bypass else if 64 * KB \<le> p then Medium else Small)"

definition hp_inv :: "size_class \<Rightarrow> buf_reader \<Rightarrow> bool" where
  "hp_inv c r \<longleftrightarrow> br_empty r
     \<or> br_n r \<le> length (br_buf r) \<and> (c = Small \<and> length (br_buf r) = 64 * KB \<or> c = Medium \<and> 512 * KB \<le> length (br_buf r))"

lemma choose_buf_spec:
  assumes "hp_inv (hp_class p) r" and "hp_class p \<noteq> Bypass"
  shows "br_left (choose_buf p r) = br_left r" "br_final (choose_buf p r) = br_final r" "br_steps (choose_buf p r) = br_steps r"
    "br_buf (choose_buf p r) \<noteq> []" "br_empty (choose_buf p r) \<or> br_n (choose_buf p r) \<le> length (br_buf (choose_buf p r))"
    "hp_class p = Small \<and> length (br_buf (choose_buf p r)) = 64 * KB \<or> hp_class p = Medium \<and> 512 * KB \<le> length (br_buf (choose_buf p r))"
proof -
  let ?b = "br_buf r"
  have "choose_buf p r = r \<and> ?b \<noteq> [] \<and> (hp_class p = Small \<and> length ?b = 64 * KB \<or> hp_class p = Medium \<and> 512 * KB \<le> length ?b)
    \<or> br_empty r \<and> (\<exists>m. choose_buf p r = r\<lparr>br_buf := replicate m 0\<rparr> \<and> 0 < m
         \<and> (hp_class p = Small \<and> m = 64 * KB \<or> hp_class p = Medium \<and> 512 * KB \<le> m))"
    using assms by (fastforce simp: choose_buf_def hp_inv_def hp_class_def split: if_splits)
  with assms(1) show "br_left (choose_buf p r) = br_left r" "br_final (choose_buf p r) = br_final r"
    "br_steps (choose_buf p r) = br_steps r" "br_buf (choose_buf p r) \<noteq> []"
    "br_empty (choose_buf p r) \<or> br_n (choose_buf p r) \<le> length (br_buf (choose_buf p r))"
    "hp_class p = Small \<and> length (br_buf (choose_buf p r)) = 64 * KB \<or> hp_class p = Medium \<and> 512 * KB \<le> length (br_buf (choose_buf p r))"
    by (auto simp: br_buf_irrelevant br_final_def hp_inv_def)
qed

interpretation high_perf: byte_reader azureHighPerfReader_Read "\<lambda>p. 0 < p \<and> hp_class p = c" "hp_inv c" br_left br_final br_steps for c
proof (rule byte_readerI)
  fix p r
  assume p: "0 < p \<and> hp_class p = c" and i: "hp_inv c r"
  show "good_read p r (azureHighPerfReader_Read p r) \<and> hp_inv c (snd (azureHighPerfReader_Read p r))"
  proof (cases "c = Bypass")
    case True
    then have "MB \<le> p" "br_empty r" using p i by (auto simp: hp_class_def hp_inv_def split: if_splits)
    then show ?thesis using good_read_bypass p by (simp add: azureHighPerfReader_Read_def hp_inv_def)
  next
    case False
    have "hp_inv (hp_class p) r" "hp_class p \<noteq> Bypass" "\<not> MB \<le> p" using p i False by (auto simp: hp_class_def split: if_splits)
    note ch = choose_buf_spec [OF this(1,2)] and rd = good_read_refill [OF choose_buf_spec(5,4) [OF this(1,2)]]
    have "good_read p r (refill_and_copy p (choose_buf p r))"
      by (rule good_read_after [OF rd(1)]) (simp_all add: ch(1-3) p)
    then show ?thesis using rd(2,3) [of p] ch(6) p \<open>\<not> MB \<le> p\<close> by (auto simp: azureHighPerfReader_Read_def hp_inv_def)
  qed
qed

definition fast_class :: "nat \<Rightarrow> size_class" where
  "fast_class p = (if 256 * KB \<le> p then Bypass else Small)"

definition fast_inv :: "size_class \<Rightarrow> buf_reader \<Rightarrow> bool" where
  "fast_inv c r \<longleftrightarrow> br_empty r \<or> br_n r \<le> length (br_buf r) \<and> c \<noteq> Bypass"

lemma nonempty_buf: "\<not> br_empty r \<Longrightarrow> br_n r \<le> length (br_buf r) \<Longrightarrow> br_buf r \<noteq> []"
  by (auto simp: br_empty_def)

lemma first_buffer:
  assumes "br_empty r \<or> br_n r \<le> length (br_buf r)" and "0 < m"
  defines "r1 \<equiv> if br_buf r = [] then r\<lparr>br_buf := replicate m 0\<rparr> else r"
  shows "br_left r1 = br_left r" "br_final r1 = br_final r" "br_steps r1 = br_steps r" "br_buf r1 \<noteq> []"
    "br_empty r1 \<or> br_n r1 \<le> length (br_buf r1)"
proof -
  have "br_buf r = [] \<Longrightarrow> br_empty r" using assms(1) nonempty_buf by blast
  with assms(1,2) show "br_left r1 = br_left r" "br_final r1 = br_final r" "br_steps r1 = br_steps r" "br_buf r1 \<noteq> []"
    "br_empty r1 \<or> br_n r1 \<le> length (br_buf r1)"
    by (auto simp: r1_def br_buf_irrelevant br_final_def)
qed

interpretation fast: byte_reader azureFastReader_Read "\<lambda>p. 0 < p \<and> fast_class p = c" "fast_inv c" br_left br_final br_steps for c
proof (rule byte_readerI)
  fix p r
  assume p: "0 < p \<and> fast_class p = c" and i: "fast_inv c r"
  show "good_read p r (azureFastReader_Read p r) \<and> fast_inv c (snd (azureFastReader_Read p r))"
  proof (cases "c = Bypass")
    case True
    then have "256 * KB \<le> p" "br_empty r" using p i by (auto simp: fast_class_def fast_inv_def split: if_splits)
    then show ?thesis using good_read_bypass p by (simp add: azureFastReader_Read_def fast_inv_def)
  next
    case False
    let ?r = "if br_buf r = [] then r\<lparr>br_buf := replicate (256 * KB) 0\<rparr> else r"
    have b: "br_empty r \<or> br_n r \<le> length (br_buf r)" "\<not> 256 * KB \<le> p" using i p False by (auto simp: fast_inv_def fast_class_def)
    have "0 < 256 * KB" by simp
    note fb = first_buffer [OF b(1) this] and rd = good_read_refill [OF first_buffer(5,4) [OF b(1) this]]
    have "good_read p r (refill_and_copy p ?r)" by (rule good_read_after [OF rd(1)]) (use fb(1-3) p in auto)
    then show ?thesis using rd(2,3) [of p] False p b(2) by (simp add: azureFastReader_Read_def fast_inv_def)
  qed
qed

definition upload_class :: "nat \<Rightarrow> size_class" where
  "upload_class p = (if MB \<le> p then Bypass else Small)"

definition upload_inv :: "size_class \<Rightarrow> buf_reader \<Rightarrow> bool" where
  "upload_inv c r \<longleftrightarrow> (if c = Bypass then br_empty r
     else (br_empty r \<or> br_n r \<le> length (br_buf r)) \<and> (\<forall>e. br_err r = Some e \<longrightarrow> st_pieces (br_src r) = [] \<and> e = end_error (br_final r)))"

lemma upload_buffered:
  assumes i: "upload_inv Small r" and p: "0 < p" "p < MB"
  shows "good_read p r (azureFastUploadReader_Read p r) \<and> upload_inv Small (snd (azureFastUploadReader_Read p r))"
proof -
  define r1 where "r1 = (if br_buf r = [] then r\<lparr>br_buf := replicate MB 0\<rparr> else r)"
  have b: "br_empty r \<or> br_n r \<le> length (br_buf r)" and m: "0 < MB" using i by (simp_all add: upload_inv_def)
  note fb = first_buffer [OF b m, folded r1_def]
  have e1: "br_err r1 = br_err r" "br_src r1 = br_src r" by (simp_all add: r1_def)
  have i1: "br_err r1 = Some e \<Longrightarrow> st_pieces (br_src r1) = [] \<and> e = end_error (br_final r1)" for e
    using i by (simp add: upload_inv_def e1 fb(2))
  have "good_read p r1 (azureFastUploadReader_Read p r) \<and> upload_inv Small (snd (azureFastUploadReader_Read p r))"
  proof (cases "br_empty r1")
    case False
    then have n: "br_n r1 \<le> length (br_buf r1)" using fb(5) by simp
    have "azureFastUploadReader_Read p r = copy_out p r1"
      using False p by (simp add: azureFastUploadReader_Read_def Let_def r1_def br_empty_def)
    with good_read_copy [OF n False p(1)] n i1 show ?thesis by (simp add: upload_inv_def br_final_def)
  next
    case True
    show ?thesis
    proof (cases "br_err r1")
      case (Some e)
      then have a: "azureFastUploadReader_Read p r = (Ok ([], Some e), r1)"
        using True p by (simp add: azureFastUploadReader_Read_def Let_def r1_def [symmetric] br_empty_def)
      have "br_left r1 = []" using i1 [OF Some] True by (simp add: br_left_def br_empty_pending stream_exhausted)
      with a i1 [OF Some] True Some show ?thesis by (auto simp: upload_inv_def intro!: good_readI)
    next
      case None
      obtain err r2 where f: "fill r1 = (err, r2)" by (cases "fill r1")
      note fl = fill_spec [OF f True fb(4)]
      let ?r = "r2\<lparr>br_err := err, br_pos := 0\<rparr>"
      have a: "azureFastUploadReader_Read p r = (if br_n r2 = 0 then (Ok ([], err), ?r) else copy_out p ?r)"
        using True p None f by (simp add: azureFastUploadReader_Read_def Let_def r1_def [symmetric] br_empty_def)
      have q: "br_left ?r = br_left r1" "br_final ?r = br_final r1" "br_steps ?r \<le> br_steps r1" "br_n ?r \<le> length (br_buf ?r)"
        using fl(1,3,4,6) by (simp_all add: br_defs)
      have ie: "upload_inv Small ?r" using fl(1,8) q(2) by (auto simp: upload_inv_def)
      show ?thesis
      proof (cases "br_n r2 = 0")
        case n0: True
        have "br_steps ?r = br_steps r2" "br_left ?r = br_left r2" using n0 by (simp_all add: br_defs)
        note st = this
        have "good_read p r1 (Ok ([], err), ?r)"
        proof (rule good_readI [of _ "[]" err ?r])
          show "br_steps ?r < br_steps r1" if "err = None" unfolding st using fl(5) n0 that .
          show "br_left ?r = [] \<and> x = end_error (br_final r1)" if "err = Some x" for x unfolding st using fl(7) n0 that .
        qed (simp_all only: q list.size append_Nil le0)
        with a n0 ie show ?thesis by simp
      next
        case False
        then have "\<not> br_empty ?r" by (simp add: br_empty_def)
        note cp = good_read_copy [OF q(4) this p(1)]
        have "good_read p r1 (copy_out p ?r)" by (rule good_read_after [OF cp(1)]) (use q in auto)
        moreover have "upload_inv Small (snd (copy_out p ?r))"
          using ie q(4) unfolding upload_inv_def br_final_def cp(2-5) by simp
        ultimately show ?thesis using a False by simp
      qed
    qed
  qed
  moreover have "good_read p r y" if "good_read p r1 y" for y by (rule good_read_after [OF that]) (simp_all add: fb(1-3))
  ultimately show ?thesis by blast
qed

interpretation upload: byte_reader azureFastUploadReader_Read "\<lambda>p. 0 < p \<and> upload_class p = c" "upload_inv c" br_left br_final br_steps for c
proof (rule byte_readerI)
  fix p r
  assume p: "0 < p \<and> upload_class p = c" and i: "upload_inv c r"
  show "good_read p r (azureFastUploadReader_Read p r) \<and> upload_inv c (snd (azureFastUploadReader_Read p r))"
  proof (cases "MB \<le> p")
    case True
    with p i have "br_empty r" "c = Bypass" by (auto simp: upload_inv_def upload_class_def)
    with True good_read_bypass p show ?thesis by (simp add: azureFastUploadReader_Read_def upload_inv_def)
  next
    case False
    with p have "c = Small" by (auto simp: upload_class_def)
    with upload_buffered i p False show ?thesis by simp
  qed
qed

section \<open>Reads of different classes\<close>

text \<open>The high-performance reader exchanges its buffer while it still holds bytes. After a small read, a medium read delivers
  zeros in place of the bytes that were buffered; after a medium read with more than 64 KB left, a small read
  panics. The readers that bypass the buffer skip what it holds.\<close>

lemma medium_read_after_small_delivers_zeros:
  assumes "length (br_buf r) = 64 * KB" and "br_pos r < br_n r" and "br_n r \<le> 64 * KB" and "64 * KB \<le> p" and "p < MB"
  shows "fst (azureHighPerfReader_Read p r) = Ok (replicate (br_n r - br_pos r) 0, None)"
proof -
  have "br_buf r \<noteq> []" using assms(1) by auto
  then have "choose_buf p r = r\<lparr>br_buf := replicate (512 * KB) 0\<rparr>" using assms(1,4) by (simp add: choose_buf_def)
  moreover have "min p (min (br_n r - br_pos r) (512 * KB - br_pos r)) = br_n r - br_pos r" using assms(2-4) by simp
  ultimately show ?thesis using assms by (simp add: azureHighPerfReader_Read_def refill_and_copy_def copy_out_def Let_def)
qed

lemma small_read_after_medium_panics:
  assumes "length (br_buf r) = 512 * KB" and "br_pos r < br_n r" and "64 * KB < br_n r" and "p < 64 * KB"
  shows "fst (azureHighPerfReader_Read p r) = Panic ''slice bounds out of range''"
proof -
  have "br_buf r \<noteq> []" using assms(1) by auto
  then have "choose_buf p r = r\<lparr>br_buf := replicate (64 * KB) 0\<rparr>" using assms(1,4) by (simp add: choose_buf_def)
  with assms show ?thesis by (simp add: azureHighPerfReader_Read_def refill_and_copy_def copy_out_def)
qed

lemma large_read_skips_buffer:
  assumes "256 * KB \<le> p"
  shows "azureFastReader_Read p r = bypass p r" and "br_pending (snd (azureFastReader_Read p r)) = br_pending r"
  using assms by (simp_all add: azureFastReader_Read_def bypass_def br_pending_def split: prod.splits)

end
