(* ===== verification/Storage_Azure.thy ===== *)
theory Storage_Azure
  imports Storage_Backend Go_Crypto Azure_Readers
begin

text \<open>
  \<^verbatim>\<open>internal/storage/azure.go\<close>: the backend that forwards to Azure Blob Storage. The SDK is an argument: a record of operations
  of a client \<open>'k\<close> over the state \<open>'c\<close> of the service, on the fields of the options and responses the code sets and reads. A
  body comes as the stream of its reads. What the client of an object gets depends on the sizes of its reads, which are an argument of
  \<open>AZ_GetObject\<close>: the object carries what reading its body to the end in these sizes delivers, and a read that panics is a panic of the call. Metadata names are
  rewritten to what Azure accepts and back, names that end with a slash are stored as \<^verbatim>\<open>.dir\<close> markers, and parts are
  staged as blocks. The loop over the segments of a container listing has fuel. The buffer pool is the number of pointers that were put
  into it, since taking one of them out panics; whether it hands out a stored item is a choice of the run.
\<close>

section \<open>The SDK\<close>

record az_props =
  zp_ContentLength :: int
  zp_ETag :: string
  zp_LastModified :: time
  zp_ContentType :: string
  zp_Metadata :: smap

record az_download =
  zd_Body :: stream
  zd_ETag :: string
  zd_LastModified :: time
  zd_ContentType :: string
  zd_Metadata :: smap

record az_blob_item =
  zb_Name :: string
  zb_ContentLength :: "int option"
  zb_Etag :: string
  zb_LastModified :: time
  zb_Metadata :: "smap option"

record az_list_options =
  zo_Prefix :: string
  zo_MaxResults :: int
  zo_DetailsMetadata :: bool

record az_segment =
  zs_BlobItems :: "az_blob_item list"
  zs_BlobPrefixes :: "string list"
  zs_NextMarker :: "string option"

text \<open>\<open>az_NewService\<close> is \<^verbatim>\<open>url.Parse\<close> of the endpoint followed by the SDK's constructors; \<open>az_ServiceCode\<close> is the code of an error
  that is a \<^verbatim>\<open>StorageError\<close>.\<close>

record ('r, 'k, 'c) az_sdk =
  az_NewAnonymousCredential :: 'r
  az_NewSharedKeyCredential :: "string \<Rightarrow> string \<Rightarrow> 'r res"
  az_NewService :: "'r \<Rightarrow> string \<Rightarrow> 'k res"
  az_ServiceCode :: "go_error \<Rightarrow> string option"
  az_ListContainersSegment :: "'k \<Rightarrow> string option \<Rightarrow> 'c \<Rightarrow> ((string \<times> time) list \<times> string option) res \<times> 'c"
  az_CreateContainer :: "'k \<Rightarrow> string \<Rightarrow> 'c \<Rightarrow> unit res \<times> 'c"
  az_DeleteContainer :: "'k \<Rightarrow> string \<Rightarrow> 'c \<Rightarrow> unit res \<times> 'c"
  az_ContainerProperties :: "'k \<Rightarrow> string \<Rightarrow> 'c \<Rightarrow> unit res \<times> 'c"
  az_ListBlobsHierarchy :: "'k \<Rightarrow> string \<Rightarrow> string option \<Rightarrow> string \<Rightarrow> az_list_options \<Rightarrow> 'c \<Rightarrow> az_segment res \<times> 'c"
  az_ListBlobsFlat :: "'k \<Rightarrow> string \<Rightarrow> string option \<Rightarrow> az_list_options \<Rightarrow> 'c \<Rightarrow> az_segment res \<times> 'c"
  az_GetProperties :: "'k \<Rightarrow> string \<Rightarrow> string \<Rightarrow> 'c \<Rightarrow> az_props res \<times> 'c"
  az_Download :: "'k \<Rightarrow> string \<Rightarrow> string \<Rightarrow> 'c \<Rightarrow> az_download res \<times> 'c"
  az_Upload :: "'k \<Rightarrow> string \<Rightarrow> string \<Rightarrow> bytes \<Rightarrow> string \<Rightarrow> smap \<Rightarrow> 'c \<Rightarrow> unit res \<times> 'c"
  az_UploadStream :: "'k \<Rightarrow> string \<Rightarrow> string \<Rightarrow> reader \<Rightarrow> nat \<Rightarrow> nat \<Rightarrow> string \<Rightarrow> smap \<Rightarrow> 'c \<Rightarrow> unit res \<times> 'c"
  az_Delete :: "'k \<Rightarrow> string \<Rightarrow> string \<Rightarrow> 'c \<Rightarrow> unit res \<times> 'c"
  az_StageBlock :: "'k \<Rightarrow> string \<Rightarrow> string \<Rightarrow> string \<Rightarrow> bytes \<Rightarrow> 'c \<Rightarrow> unit res \<times> 'c"
  az_CommitBlockList :: "'k \<Rightarrow> string \<Rightarrow> string \<Rightarrow> string list \<Rightarrow> smap \<Rightarrow> 'c \<Rightarrow> unit res \<times> 'c"
  az_UncommittedBlocks :: "'k \<Rightarrow> string \<Rightarrow> string \<Rightarrow> 'c \<Rightarrow> (string \<times> int) list res \<times> 'c"

section \<open>The backend\<close>

record 'k azure_backend =
  ab_serviceURL :: 'k
  ab_accountName :: string
  ab_containerName :: string

record 'c azstate =
  as_service :: 'c
  as_clock :: "nat \<Rightarrow> time"
  as_ticks :: nat
  as_pool :: nat
  as_reuse :: "nat \<Rightarrow> bool"
  as_gets :: nat

definition azure_endpoint :: "azure_storage_config \<Rightarrow> string" where
  "azure_endpoint cfg =
     (let endpoint = (if az_Endpoint cfg = '''' then ''https://'' @ az_AccountName cfg @ ''.blob.core.windows.net'' else az_Endpoint cfg) in
      if az_UseSAS cfg \<and> az_SASToken cfg \<noteq> '''' then
        (if \<not> Contains endpoint ''?'' then endpoint @ ''?'' @ az_SASToken cfg else endpoint @ ''&'' @ az_SASToken cfg)
      else endpoint)"

definition NewAzureBackend :: "('r, 'k, 'c) az_sdk \<Rightarrow> azure_storage_config \<Rightarrow> 'k azure_backend res" where
  "NewAzureBackend sdk cfg =
     res_bind (if az_UseSAS cfg then Ok (az_NewAnonymousCredential sdk)
               else wrap_err ''invalid credentials: '' (az_NewSharedKeyCredential sdk (az_AccountName cfg) (az_AccountKey cfg))) (\<lambda>credential.
     res_bind (wrap_err ''invalid endpoint: '' (az_NewService sdk credential (azure_endpoint cfg))) (\<lambda>serviceURL.
     Ok \<lparr>ab_serviceURL = serviceURL, ab_accountName = az_AccountName cfg,
         ab_containerName = (if az_ContainerName cfg = '''' then ''$root'' else az_ContainerName cfg)\<rparr>))"

text \<open>A call of the service, its error wrapped in a message.\<close>

definition az_call :: "string \<Rightarrow> ('c \<Rightarrow> 'a res \<times> 'c) \<Rightarrow> 'c azstate \<Rightarrow> 'a res \<times> 'c azstate" where
  "az_call msg f s = (case f (as_service s) of (x, c) \<Rightarrow> rs_wrap msg (x, s\<lparr>as_service := c\<rparr>))"

section \<open>Containers\<close>

text \<open>\<^verbatim>\<open>Marker.NotDone\<close>: the marker of the first call is nil, the marker after the last segment is empty.\<close>

definition NotDone :: "string option \<Rightarrow> bool" where
  "NotDone marker \<longleftrightarrow> marker \<noteq> Some ''''"

fun list_containers ::
  "nat \<Rightarrow> ('r, 'k, 'c) az_sdk \<Rightarrow> 'k \<Rightarrow> string option \<Rightarrow> bucket_info list \<Rightarrow> 'c azstate \<Rightarrow> (bucket_info list res \<times> 'c azstate) option" where
  "list_containers 0 sdk k marker buckets s = None"
| "list_containers (Suc f) sdk k marker buckets s =
     (if NotDone marker then
        (case az_call ''failed to list containers: '' (az_ListContainersSegment sdk k marker) s of
           (Ok (items, next), s') \<Rightarrow>
             list_containers f sdk k next (buckets @ map (\<lambda>(n, t). \<lparr>bi_Name = n, bi_CreationDate = t\<rparr>) items) s'
         | (Err e, s') \<Rightarrow> Some (Err e, s')
         | (Panic p, s') \<Rightarrow> Some (Panic p, s'))
      else Some (Ok buckets, s))"

definition AZ_ListBuckets ::
  "nat \<Rightarrow> ('r, 'k, 'c) az_sdk \<Rightarrow> 'k azure_backend \<Rightarrow> 'c azstate \<Rightarrow> (bucket_info list res \<times> 'c azstate) option" where
  "AZ_ListBuckets fuel sdk a s = list_containers fuel sdk (ab_serviceURL a) None [] s"

definition AZ_CreateBucket :: "('r, 'k, 'c) az_sdk \<Rightarrow> 'k azure_backend \<Rightarrow> 'c azstate \<Rightarrow> string \<Rightarrow> unit res \<times> 'c azstate" where
  "AZ_CreateBucket sdk a s bucket = az_call ''failed to create container: '' (az_CreateContainer sdk (ab_serviceURL a) bucket) s"

definition AZ_DeleteBucket :: "('r, 'k, 'c) az_sdk \<Rightarrow> 'k azure_backend \<Rightarrow> 'c azstate \<Rightarrow> string \<Rightarrow> unit res \<times> 'c azstate" where
  "AZ_DeleteBucket sdk a s bucket = az_call ''failed to delete container: '' (az_DeleteContainer sdk (ab_serviceURL a) bucket) s"

definition AZ_BucketExists :: "('r, 'k, 'c) az_sdk \<Rightarrow> 'k azure_backend \<Rightarrow> 'c azstate \<Rightarrow> string \<Rightarrow> bool res \<times> 'c azstate" where
  "AZ_BucketExists sdk a s bucket =
     (case az_ContainerProperties sdk (ab_serviceURL a) bucket (as_service s) of
        (Ok _, c) \<Rightarrow> (Ok True, s\<lparr>as_service := c\<rparr>)
      | (Err e, c) \<Rightarrow> ((if az_ServiceCode sdk e = Some ''ContainerNotFound'' then Ok False else Err e), s\<lparr>as_service := c\<rparr>)
      | (Panic p, c) \<Rightarrow> (Panic p, s\<lparr>as_service := c\<rparr>))"

section \<open>Metadata names\<close>

definition azureMetadataMapping :: smap where
  "azureMetadataMapping =
     [(''x-amz-meta-encryption-algorithm'', ''xamzmetaencryptionalgorithm''), (''x-amz-meta-encryption-key-id'', ''xamzmetaencryptionkeyid''),
      (''x-amz-meta-encryption-dek'', ''xamzmetaencryptiondek''), (''x-amz-meta-encryption-nonce'', ''xamzmetaencryptionnonce''),
      (''x-amz-meta-encrypted-size'', ''xamzmetaencryptedsize''), (''x-amz-server-side-encryption'', ''xamzserversideencryption''),
      (''x-encryption-key'', ''xencryptionkey''), (''x-encryption-algorithm'', ''xencryptionalgorithm''), (''timestamp'', ''timestamp''),
      (''test'', ''test''), (''s3proxymd5'', ''s3proxyMD5''), (''s3proxydirectorymarker'', ''s3proxyDirectoryMarker''),
      (''s3proxyoriginalkey'', ''s3proxyOriginalKey''), (''content-type'', ''contenttype'')]"

definition azureMetadataReverseMapping :: smap where
  "azureMetadataReverseMapping =
     [(''xamzmetaencryptionalgorithm'', ''x-amz-meta-encryption-algorithm''), (''xamzmetaencryptionkeyid'', ''x-amz-meta-encryption-key-id''),
      (''xamzmetaencryptiondek'', ''x-amz-meta-encryption-dek''), (''xamzmetaencryptionnonce'', ''x-amz-meta-encryption-nonce''),
      (''xamzmetaencryptedsize'', ''x-amz-meta-encrypted-size''), (''xamzserversideencryption'', ''x-amz-server-side-encryption''),
      (''xencryptionkey'', ''x-encryption-key''), (''xencryptionalgorithm'', ''x-encryption-algorithm''), (''s3proxymd5'', ''s3proxyMD5''),
      (''s3proxydirectorymarker'', ''s3proxyDirectoryMarker''), (''contenttype'', ''content-type''), (''s3proxyoriginalkey'', ''s3proxyOriginalKey'')]"

definition is_letter :: "char \<Rightarrow> bool" where
  "is_letter ch \<longleftrightarrow> (let n = of_char ch :: nat in 97 \<le> n \<and> n \<le> 122 \<or> 65 \<le> n \<and> n \<le> 90)"

text \<open>Letters are kept, and digits that are not the first byte; a name that would start with a digit gets an \<^verbatim>\<open>x\<close>.\<close>

definition sanitize_key :: "string \<Rightarrow> string" where
  "sanitize_key k =
     (let kept = filter is_letter (take 1 k) @ filter (\<lambda>ch. is_letter ch \<or> is_digit ch) (drop 1 k) in
      if kept \<noteq> [] \<and> is_digit (hd kept) then CHR ''x'' # kept else kept)"

definition azure_name :: "string \<Rightarrow> string" where
  "azure_name k = (case map_of azureMetadataMapping (ToLower k) of Some mappedKey \<Rightarrow> mappedKey | None \<Rightarrow> sanitize_key k)"

definition sanitizeAzureMetadata :: "smap \<Rightarrow> smap" where
  "sanitizeAzureMetadata metadata =
     fold (\<lambda>(k, v) sanitized. if azure_name k = '''' then sanitized else AList.update (azure_name k) v sanitized) metadata []"

definition s3_name :: "string \<Rightarrow> string" where
  "s3_name k = (case map_of azureMetadataReverseMapping (ToLower k) of Some originalKey \<Rightarrow> originalKey | None \<Rightarrow> k)"

definition desanitizeAzureMetadata :: "smap \<Rightarrow> smap" where
  "desanitizeAzureMetadata metadata = fold (\<lambda>(k, v). AList.update (s3_name k) v) metadata []"

definition isEncryptedMetadata :: "smap \<Rightarrow> bool" where
  "isEncryptedMetadata metadata \<longleftrightarrow> sm_get metadata ''xamzmetaencryptionalgorithm'' \<noteq> ''''"

definition normalizedKey :: "string \<Rightarrow> string" where
  "normalizedKey key = (if HasSuffix key ''/'' \<and> key \<noteq> ''/'' then TrimSuffix key ''/'' @ ''/.dir'' else key)"

text \<open>The stored MD5 stands for the ETag.\<close>

definition stored_etag :: "smap \<Rightarrow> string \<Rightarrow> string" where
  "stored_etag metadata etag = (case map_of metadata ''s3proxyMD5'' of Some md5Hash \<Rightarrow> dquote md5Hash | None \<Rightarrow> etag)"

section \<open>Listing\<close>

definition item_key :: "az_blob_item \<Rightarrow> string" where
  "item_key blob =
     (case zb_Metadata blob of
        Some md \<Rightarrow>
          if HasSuffix (zb_Name blob) ''/.dir'' \<and> map_of md ''s3proxyDirectoryMarker'' = Some ''true'' then
            (case map_of md ''s3proxyOriginalKey'' of Some origKey \<Rightarrow> origKey | None \<Rightarrow> TrimSuffix (zb_Name blob) ''/.dir'' @ ''/'')
          else zb_Name blob
      | None \<Rightarrow> zb_Name blob)"

text \<open>The first argument says whether the stored MD5 is used as the ETag, which only the hierarchical listing does.\<close>

definition item_info :: "bool \<Rightarrow> az_blob_item \<Rightarrow> object_info res" where
  "item_info hierarchy blob =
     (let md = (case zb_Metadata blob of Some m \<Rightarrow> m | None \<Rightarrow> []) in
      case zb_ContentLength blob of
        None \<Rightarrow> nil_deref
      | Some n \<Rightarrow>
          Ok \<lparr>oi_Key = item_key blob, oi_Size = n, oi_ETag = (if hierarchy then stored_etag md (zb_Etag blob) else zb_Etag blob),
              oi_LastModified = zb_LastModified blob, oi_StorageClass = '''', oi_ContentType = '''',
              oi_Metadata = desanitizeAzureMetadata md\<rparr>)"

fun item_infos :: "bool \<Rightarrow> az_blob_item list \<Rightarrow> object_info list res" where
  "item_infos hierarchy [] = Ok []"
| "item_infos hierarchy (b # bs) =
     res_bind (item_info hierarchy b) (\<lambda>i. res_bind (item_infos hierarchy bs) (\<lambda>is. Ok (i # is)))"

text \<open>\<^verbatim>\<open>int32(x)\<close>.\<close>

definition i32 :: "int \<Rightarrow> int" where
  "i32 x = (x + 2 ^ 31) mod 2 ^ 32 - 2 ^ 31"

definition max_results :: "int \<Rightarrow> int" where
  "max_results maxKeys = (if 0x7FFFFFFF < maxKeys then 0x7FFFFFFF else i32 maxKeys)"

definition listing_of :: "bool \<Rightarrow> az_segment \<Rightarrow> list_objects_result res" where
  "listing_of hierarchy resp =
     res_bind (item_infos hierarchy (zs_BlobItems resp)) (\<lambda>contents.
       Ok \<lparr>lr_IsTruncated = NotDone (zs_NextMarker resp), lr_Contents = contents,
           lr_NextMarker = (case zs_NextMarker resp of Some m \<Rightarrow> m | None \<Rightarrow> ''''),
           lr_CommonPrefixes = (if hierarchy then zs_BlobPrefixes resp else [])\<rparr>)"

definition AZ_ListObjectsWithDelimiter ::
  "('r, 'k, 'c) az_sdk \<Rightarrow> 'k azure_backend \<Rightarrow> 'c azstate \<Rightarrow> string \<Rightarrow> string \<Rightarrow> string \<Rightarrow> string \<Rightarrow> int
     \<Rightarrow> list_objects_result res \<times> 'c azstate" where
  "AZ_ListObjectsWithDelimiter sdk a s bucket prefix marker delimiter maxKeys =
     (let options = \<lparr>zo_Prefix = prefix, zo_MaxResults = max_results maxKeys, zo_DetailsMetadata = False\<rparr>;
          azMarker = (if marker \<noteq> '''' then Some marker else None); hierarchy = (delimiter \<noteq> '''') in
      rs_bind (az_call ''failed to list blobs: ''
          (if hierarchy then az_ListBlobsHierarchy sdk (ab_serviceURL a) bucket azMarker delimiter options
           else az_ListBlobsFlat sdk (ab_serviceURL a) bucket azMarker options) s)
        (\<lambda>resp s'. (listing_of hierarchy resp, s')))"

definition AZ_ListObjects ::
  "('r, 'k, 'c) az_sdk \<Rightarrow> 'k azure_backend \<Rightarrow> 'c azstate \<Rightarrow> string \<Rightarrow> string \<Rightarrow> string \<Rightarrow> int
     \<Rightarrow> list_objects_result res \<times> 'c azstate" where
  "AZ_ListObjects sdk a s bucket prefix marker maxKeys = AZ_ListObjectsWithDelimiter sdk a s bucket prefix marker ''/'' maxKeys"

section \<open>Reading objects\<close>

datatype azure_body = PlainBody stream | HighPerfBody buf_reader | FastBody buf_reader

definition wrapWithOptimizedReader :: "stream \<Rightarrow> bool \<Rightarrow> azure_body" where
  "wrapWithOptimizedReader stream isEncrypted = (if isEncrypted then PlainBody stream else HighPerfBody (new_buf_reader stream))"

definition wrapWithFastReader :: "stream \<Rightarrow> bool \<Rightarrow> azure_body" where
  "wrapWithFastReader stream isEncrypted = (if isEncrypted then PlainBody stream else FastBody (new_buf_reader stream))"

text \<open>Reading a body to its end: the \<open>i\<close>-th read of the client has a buffer of \<open>ps i\<close> bytes (\<^verbatim>\<open>io.Copy\<close> always 32 KB,
  \<^verbatim>\<open>io.ReadAll\<close> what is free in its growing slice). The fuel is proved to be enough: \<open>body_reader_returns\<close>.\<close>

fun body_steps :: "azure_body \<Rightarrow> nat" where
  "body_steps (PlainBody s) = stream_steps s"
| "body_steps (HighPerfBody r) = br_steps r"
| "body_steps (FastBody r) = br_steps r"

fun drain_body :: "(nat \<Rightarrow> nat) \<Rightarrow> nat \<Rightarrow> azure_body \<Rightarrow> reader res option" where
  "drain_body ps f (PlainBody s) = drain_with plain_Read ps f s"
| "drain_body ps f (HighPerfBody r) = drain_with azureHighPerfReader_Read ps f r"
| "drain_body ps f (FastBody r) = drain_with azureFastReader_Read ps f r"

definition body_reader :: "(nat \<Rightarrow> nat) \<Rightarrow> azure_body \<Rightarrow> reader res" where
  "body_reader ps b = (case drain_body ps (Suc (body_steps b)) b of Some r \<Rightarrow> r | None \<Rightarrow> Panic ''no more fuel'')"

definition AZ_GetObject ::
  "('r, 'k, 'c) az_sdk \<Rightarrow> 'k azure_backend \<Rightarrow> (nat \<Rightarrow> nat) \<Rightarrow> 'c azstate \<Rightarrow> string \<Rightarrow> string \<Rightarrow> s3_object res \<times> 'c azstate" where
  "AZ_GetObject sdk a ps s bucket key =
     (let k = ab_serviceURL a in
      rs_bind (az_call ''failed to get blob properties: '' (az_GetProperties sdk k bucket (normalizedKey key)) s) (\<lambda>props s1.
        let sz = zp_ContentLength props in
        if 1024 * 1024 \<le> sz \<and> \<not> isEncryptedMetadata (zp_Metadata props) then
          rs_bind (az_call ''failed to download blob: '' (az_Download sdk k bucket key) s1) (\<lambda>resp s2.
            let metadata = desanitizeAzureMetadata (zp_Metadata props) in
            (res_bind (body_reader ps (wrapWithOptimizedReader (zd_Body resp) (isEncryptedMetadata (zp_Metadata props)))) (\<lambda>body.
             Ok \<lparr>ob_Body = body, ob_ContentType = zp_ContentType props, ob_Size = sz, ob_ETag = stored_etag metadata (zp_ETag props),
                 ob_Metadata = metadata, ob_LastModified = zp_LastModified props\<rparr>), s2))
        else
          rs_bind (az_call ''failed to download blob: '' (az_Download sdk k bucket (normalizedKey key)) s1) (\<lambda>resp s2.
            let metadata = desanitizeAzureMetadata (zd_Metadata resp) in
            (res_bind (body_reader ps (wrapWithFastReader (zd_Body resp) (isEncryptedMetadata (zd_Metadata resp)))) (\<lambda>body.
             Ok \<lparr>ob_Body = body, ob_ContentType = zd_ContentType resp, ob_Size = sz, ob_ETag = stored_etag metadata (zd_ETag resp),
                 ob_Metadata = metadata, ob_LastModified = zd_LastModified resp\<rparr>), s2))))"

section \<open>Storing objects\<close>

definition clear_conflict :: "('r, 'k, 'c) az_sdk \<Rightarrow> 'k \<Rightarrow> string \<Rightarrow> string \<Rightarrow> 'c azstate \<Rightarrow> unit res \<times> 'c azstate" where
  "clear_conflict sdk k bucket baseKey s =
     (case az_GetProperties sdk k bucket baseKey (as_service s) of
        (Ok _, c) \<Rightarrow>
          (case az_Delete sdk k bucket baseKey c of
             (Panic p, c') \<Rightarrow> (Panic p, s\<lparr>as_service := c'\<rparr>)
           | (_, c') \<Rightarrow> (Ok (), s\<lparr>as_service := c'\<rparr>))
      | (Err _, c) \<Rightarrow> (Ok (), s\<lparr>as_service := c\<rparr>)
      | (Panic p, c) \<Rightarrow> (Panic p, s\<lparr>as_service := c\<rparr>))"

definition dir_metadata :: "string \<Rightarrow> smap \<Rightarrow> smap" where
  "dir_metadata key metadata =
     AList.update ''s3proxyMD5'' ''d41d8cd98f00b204e9800998ecf8427e''
       (AList.update ''s3proxyOriginalKey'' key (AList.update ''s3proxyDirectoryMarker'' ''true'' metadata))"

definition marker_step ::
  "('r, 'k, 'c) az_sdk \<Rightarrow> 'k \<Rightarrow> string \<Rightarrow> string \<Rightarrow> smap \<Rightarrow> 'c azstate \<Rightarrow> smap res \<times> 'c azstate" where
  "marker_step sdk k bucket key metadata s =
     (if HasSuffix key ''/'' \<and> key \<noteq> ''/'' then
        rs_bind (clear_conflict sdk k bucket (TrimSuffix key ''/'') s) (\<lambda>_ s1. (Ok (dir_metadata key metadata), s1))
      else (Ok metadata, s))"

text \<open>Taking a buffer: an item that was put back is a pointer, and the assertion that it is a slice panics.\<close>

definition pool_Get :: "'c azstate \<Rightarrow> unit res \<times> 'c azstate" where
  "pool_Get s =
     (let s' = s\<lparr>as_gets := Suc (as_gets s)\<rparr> in
      if 0 < as_pool s \<and> as_reuse s (as_gets s) then
        (Panic ''interface conversion: interface {} is *[]uint8, not []uint8'', s'\<lparr>as_pool := as_pool s - 1\<rparr>)
      else (Ok (), s'))"

text \<open>A small body is read into memory: from a \<^verbatim>\<open>bytes.Reader\<close> (\<open>buffered\<close>) as much as there is, otherwise exactly \<open>sz\<close> bytes into a pooled
  buffer, which goes back to the pool when \<^verbatim>\<open>PutObject\<close> returns, also after an error or a panic below.\<close>

definition small_body :: "(reader \<Rightarrow> bool) \<Rightarrow> 'c azstate \<Rightarrow> reader \<Rightarrow> int \<Rightarrow> bytes res \<times> 'c azstate" where
  "small_body buffered s reader sz =
     (if buffered reader then
        (if sz < 0 then (Panic ''runtime error: makeslice: len out of range'', s)
         else (Ok (take (nat sz) (rd_data reader) @ replicate (nat sz - length (rd_data reader)) 0), s))
      else
        rs_bind (pool_Get s) (\<lambda>_ s1.
          if sz < 0 then (Panic ''runtime error: slice bounds out of range'', s1)
          else
            (case ReadFull reader (nat sz) of
               (data, None) \<Rightarrow> (Ok data, s1\<lparr>as_pool := Suc (as_pool s1)\<rparr>)
             | (_, Some e) \<Rightarrow> (Err (ErrWrap ''failed to read data: '' e), s1\<lparr>as_pool := Suc (as_pool s1)\<rparr>))))"

text \<open>What \<^verbatim>\<open>UploadStreamToBlockBlob\<close> reads from a body through the buffering reader, with buffers of \<open>bufferSize\<close> bytes.\<close>

definition upload_body :: "nat \<Rightarrow> reader \<Rightarrow> reader" where
  "upload_body bufferSize r =
     (let b = new_buf_reader (stream_of r) in
      case drain_with azureFastUploadReader_Read (\<lambda>_. bufferSize) (Suc (br_steps b)) b of Some (Ok x) \<Rightarrow> x | _ \<Rightarrow> bytes_reader [])"

definition octet_stream :: string where
  "octet_stream = ''application/octet-stream''"

definition large_metadata :: "'c azstate \<Rightarrow> int \<Rightarrow> smap \<Rightarrow> smap \<times> 'c azstate" where
  "large_metadata s sz metadata =
     (if map_of metadata ''s3proxyMD5'' \<noteq> None then (metadata, s)
      else (AList.update ''s3proxyMD5'' (''large-file-'' @ FormatInt sz @ ''-'' @ FormatInt (as_clock s (as_ticks s) div second)) metadata,
            s\<lparr>as_ticks := Suc (as_ticks s)\<rparr>))"

definition AZ_PutObject ::
  "('r, 'k, 'c) az_sdk \<Rightarrow> 'k azure_backend \<Rightarrow> (reader \<Rightarrow> bool) \<Rightarrow> 'c azstate \<Rightarrow> string \<Rightarrow> string \<Rightarrow> reader \<Rightarrow> int \<Rightarrow> smap
     \<Rightarrow> unit res \<times> 'c azstate" where
  "AZ_PutObject sdk a buffered s bucket key reader sz metadata0 =
     (let k = ab_serviceURL a in
      rs_bind (marker_step sdk k bucket key (sanitizeAzureMetadata metadata0) s) (\<lambda>metadata s1.
        if sz < 256 * 1024 then
          rs_bind (small_body buffered s1 reader sz) (\<lambda>data.
            az_call ''failed to upload blob: '' (az_Upload sdk k bucket (normalizedKey key) data octet_stream
              (AList.update ''s3proxyMD5'' (hex_encode (md5 data)) metadata)))
        else
          let (md, s2) = large_metadata s1 sz metadata;
              upload = (\<lambda>body bufferSize maxBuffers.
                az_call ''failed to upload blob: ''
                  (az_UploadStream sdk k bucket (normalizedKey key) body bufferSize maxBuffers octet_stream md) s2) in
          if 8 * 1024 * 1024 \<le> sz \<and> sz \<le> 12 * 1024 * 1024 then upload reader (2 * 1024 * 1024) 16
          else if 1024 * 1024 \<le> sz then upload (upload_body (512 * 1024) reader) (512 * 1024) 8
          else upload (upload_body (256 * 1024) reader) (256 * 1024) 4))"

definition AZ_DeleteObject ::
  "('r, 'k, 'c) az_sdk \<Rightarrow> 'k azure_backend \<Rightarrow> 'c azstate \<Rightarrow> string \<Rightarrow> string \<Rightarrow> unit res \<times> 'c azstate" where
  "AZ_DeleteObject sdk a s bucket key = az_call ''failed to delete blob: '' (az_Delete sdk (ab_serviceURL a) bucket (normalizedKey key)) s"

section \<open>Object information\<close>

definition head_info :: "string \<Rightarrow> az_props \<Rightarrow> object_info" where
  "head_info key props =
     \<lparr>oi_Key = key, oi_Size = zp_ContentLength props, oi_ETag = stored_etag (zp_Metadata props) (zp_ETag props),
      oi_LastModified = zp_LastModified props, oi_StorageClass = '''', oi_ContentType = '''',
      oi_Metadata = desanitizeAzureMetadata (zp_Metadata props)\<rparr>"

definition is_folder :: "smap \<Rightarrow> bool" where
  "is_folder metadata \<longleftrightarrow>
     map_of metadata ''s3proxyDirectoryMarker'' = Some ''true'' \<or> map_of metadata ''hdi_isfolder'' = Some ''true''
     \<or> map_of metadata ''Hdi_isfolder'' = Some ''true''"

definition head_file ::
  "('r, 'k, 'c) az_sdk \<Rightarrow> 'k \<Rightarrow> 'c azstate \<Rightarrow> string \<Rightarrow> string \<Rightarrow> object_info res \<times> 'c azstate" where
  "head_file sdk k s bucket key =
     (case az_GetProperties sdk k bucket key (as_service s) of
        (Ok props, c) \<Rightarrow>
          ((if is_folder (zp_Metadata props) then Err (ErrNew ''object not found'') else Ok (head_info key props)), s\<lparr>as_service := c\<rparr>)
      | (Err e, c) \<Rightarrow>
          (case az_GetProperties sdk k bucket (key @ ''/.dir'') c of
             (Ok _, c') \<Rightarrow> (Err (ErrNew ''object not found''), s\<lparr>as_service := c'\<rparr>)
           | (Err _, c') \<Rightarrow> (Err (ErrWrap ''failed to get blob properties: '' e), s\<lparr>as_service := c'\<rparr>)
           | (Panic p, c') \<Rightarrow> (Panic p, s\<lparr>as_service := c'\<rparr>))
      | (Panic p, c) \<Rightarrow> (Panic p, s\<lparr>as_service := c\<rparr>))"

definition result_key :: "string \<Rightarrow> smap \<Rightarrow> string" where
  "result_key key metadata =
     (if map_of metadata ''s3proxyDirectoryMarker'' = Some ''true'' then
        (case map_of metadata ''s3proxyOriginalKey'' of Some origKey \<Rightarrow> origKey | None \<Rightarrow> key)
      else key)"

definition AZ_HeadObject ::
  "('r, 'k, 'c) az_sdk \<Rightarrow> 'k azure_backend \<Rightarrow> 'c azstate \<Rightarrow> string \<Rightarrow> string \<Rightarrow> object_info res \<times> 'c azstate" where
  "AZ_HeadObject sdk a s bucket key =
     (let k = ab_serviceURL a in
      if \<not> HasSuffix key ''/'' then head_file sdk k s bucket key
      else
        rs_bind (az_call ''failed to get blob properties: '' (az_GetProperties sdk k bucket (TrimSuffix key ''/'' @ ''/.dir'')) s)
          (\<lambda>props s'. (Ok (head_info (result_key key (zp_Metadata props)) props), s')))"

definition AZ_GetObjectACL :: "'k azure_backend \<Rightarrow> 'c azstate \<Rightarrow> string \<Rightarrow> string \<Rightarrow> acl res \<times> 'c azstate" where
  "AZ_GetObjectACL a s bucket key =
     (let n = ab_accountName a in
      (Ok \<lparr>acl_Owner = \<lparr>ow_ID = n, ow_DisplayName = n\<rparr>,
           acl_Grants = [\<lparr>gr_Grantee = \<lparr>ge_Type = ''CanonicalUser'', ge_ID = n, ge_DisplayName = n, ge_URI = ''''\<rparr>,
                          gr_Permission = ''FULL_CONTROL''\<rparr>]\<rparr>, s))"

definition AZ_PutObjectACL :: "'c azstate \<Rightarrow> string \<Rightarrow> string \<Rightarrow> acl option \<Rightarrow> unit res \<times> 'c azstate" where
  "AZ_PutObjectACL s bucket key acl = (Ok (), s)"

section \<open>Multipart uploads\<close>

definition AZ_InitiateMultipartUpload :: "'c azstate \<Rightarrow> string \<Rightarrow> string \<Rightarrow> smap \<Rightarrow> string res \<times> 'c azstate" where
  "AZ_InitiateMultipartUpload s bucket key metadata =
     (Ok (key @ ''-'' @ FormatInt (as_clock s (as_ticks s))), s\<lparr>as_ticks := Suc (as_ticks s)\<rparr>)"

text \<open>The verb \<^verbatim>\<open>%05d\<close>: five places, of which a sign is one.\<close>

definition blockID :: "int \<Rightarrow> string" where
  "blockID n = (if n < 0 then CHR ''-'' # pad_num 4 (- n) else pad_num 5 n)"

definition AZ_UploadPart ::
  "('r, 'k, 'c) az_sdk \<Rightarrow> 'k azure_backend \<Rightarrow> 'c azstate \<Rightarrow> string \<Rightarrow> string \<Rightarrow> string \<Rightarrow> int \<Rightarrow> reader \<Rightarrow> int
     \<Rightarrow> string res \<times> 'c azstate" where
  "AZ_UploadPart sdk a s bucket key uploadID partNumber reader sz =
     rs_bind (rs_wrap ''failed to read part data: '' (ReadAll reader, s)) (\<lambda>data s1.
     rs_bind (az_call ''failed to stage block: '' (az_StageBlock sdk (ab_serviceURL a) bucket key (blockID partNumber) data) s1) (\<lambda>_ s2.
       (Ok (dquote (blockID partNumber)), s2)))"

definition AZ_CompleteMultipartUpload ::
  "('r, 'k, 'c) az_sdk \<Rightarrow> 'k azure_backend \<Rightarrow> 'c azstate \<Rightarrow> string \<Rightarrow> string \<Rightarrow> string \<Rightarrow> completed_part list \<Rightarrow> unit res \<times> 'c azstate" where
  "AZ_CompleteMultipartUpload sdk a s bucket key uploadID parts =
     az_call ''failed to commit block list: ''
       (az_CommitBlockList sdk (ab_serviceURL a) bucket key (map (\<lambda>p. blockID (cp_PartNumber p)) parts) []) s"

definition AZ_AbortMultipartUpload :: "'c azstate \<Rightarrow> string \<Rightarrow> string \<Rightarrow> string \<Rightarrow> unit res \<times> 'c azstate" where
  "AZ_AbortMultipartUpload s bucket key uploadID = (Ok (), s)"

fun block_parts :: "int \<Rightarrow> int \<Rightarrow> int \<Rightarrow> (string \<times> int) list \<Rightarrow> part list \<Rightarrow> part list" where
  "block_parts i marker maxParts [] parts = parts"
| "block_parts i marker maxParts ((name, sz) # blocks) parts =
     block_parts (i + 1) marker maxParts blocks
       (if marker < i + 1 \<and> int (length parts) < maxParts
        then parts @ [\<lparr>pt_PartNumber = i + 1, pt_ETag = name, pt_Size = sz, pt_LastModified = 0\<rparr>] else parts)"

definition AZ_ListParts ::
  "('r, 'k, 'c) az_sdk \<Rightarrow> 'k azure_backend \<Rightarrow> 'c azstate \<Rightarrow> string \<Rightarrow> string \<Rightarrow> string \<Rightarrow> int \<Rightarrow> int
     \<Rightarrow> list_parts_result res \<times> 'c azstate" where
  "AZ_ListParts sdk a s bucket key uploadID maxParts partNumberMarker =
     rs_bind (az_call ''failed to get block list: '' (az_UncommittedBlocks sdk (ab_serviceURL a) bucket key) s) (\<lambda>blocks s'.
       let parts = block_parts 0 partNumberMarker maxParts blocks []; truncated = partNumberMarker + maxParts < int (length blocks) in
       (Ok \<lparr>lp_Bucket = bucket, lp_Key = key, lp_UploadID = uploadID, lp_PartNumberMarker = 0,
            lp_NextPartNumberMarker = (if truncated then partNumberMarker + int (length parts) else 0), lp_MaxParts = 0,
            lp_IsTruncated = truncated, lp_Parts = parts\<rparr>, s'))"

text \<open>The implementation of the interface. A listing of containers that does not return within \<open>fuel\<close> segments has no result in the code.\<close>

definition AzureBackend :: "nat \<Rightarrow> ('r, 'k, 'c) az_sdk \<Rightarrow> 'k azure_backend \<Rightarrow> (reader \<Rightarrow> bool) \<Rightarrow> (nat \<Rightarrow> nat) \<Rightarrow> 'c azstate backend" where
  "AzureBackend fuel sdk a buffered ps =
     \<lparr>bk_ListBuckets = (\<lambda>s. case AZ_ListBuckets fuel sdk a s of Some x \<Rightarrow> x | None \<Rightarrow> (Panic ''no more fuel'', s)),
      bk_CreateBucket = AZ_CreateBucket sdk a, bk_DeleteBucket = AZ_DeleteBucket sdk a,
      bk_BucketExists = AZ_BucketExists sdk a, bk_ListObjects = AZ_ListObjects sdk a,
      bk_ListObjectsWithDelimiter = AZ_ListObjectsWithDelimiter sdk a, bk_GetObject = AZ_GetObject sdk a ps,
      bk_PutObject = AZ_PutObject sdk a buffered, bk_DeleteObject = AZ_DeleteObject sdk a, bk_HeadObject = AZ_HeadObject sdk a,
      bk_GetObjectACL = AZ_GetObjectACL a, bk_PutObjectACL = AZ_PutObjectACL, bk_InitiateMultipartUpload = AZ_InitiateMultipartUpload,
      bk_UploadPart = AZ_UploadPart sdk a, bk_CompleteMultipartUpload = AZ_CompleteMultipartUpload sdk a,
      bk_AbortMultipartUpload = AZ_AbortMultipartUpload, bk_ListParts = AZ_ListParts sdk a\<rparr>"

section \<open>Bodies\<close>

text \<open>Every read of a buffering reader that returns without an error uses something up, whatever the sizes of the other reads.\<close>

definition reads_left :: "buf_reader \<Rightarrow> nat" where
  "reads_left r = 2 * stream_steps (br_src r) + (br_n r - br_pos r)"

lemma bypass_progress:
  assumes "bypass p r = (Ok (bs, None), r')" and "0 < p"
  shows "reads_left r' < reads_left r"
  using assms stream_Read_cases(4) [of p "br_src r"] by (cases bs) (fastforce simp: bypass_def reads_left_def split: prod.splits)+

lemma copy_out_progress:
  assumes "copy_out p r = (Ok (bs, None), r')" and "0 < p" and "br_pos r < br_n r"
  shows "reads_left r' < reads_left r"
  using assms by (auto simp: copy_out_def reads_left_def Let_def split: if_splits)

lemma refill_progress:
  assumes "refill_and_copy p r = (Ok (bs, None), r')" and "0 < p" and "br_buf r \<noteq> []"
  shows "reads_left r' < reads_left r"
proof (cases "br_n r \<le> br_pos r")
  case False
  then show ?thesis using copy_out_progress assms by (simp add: refill_and_copy_def)
next
  case True
  obtain got err src where g: "stream_Read (length (br_buf r)) (br_src r) = ((got, err), src)" by (metis prod.collapse)
  let ?r = "r\<lparr>br_src := src, br_buf := got @ drop (length got) (br_buf r), br_n := length got\<rparr>"
  have f: "fill r = (err, ?r)" using g by (simp add: fill_def)
  show ?thesis
  proof (cases "got = []")
    case empty: True
    then have "err = None" "r' = ?r" using assms(1) True f by (auto simp: refill_and_copy_def)
    then show ?thesis using stream_Read_cases(4) [OF g] assms(3) empty by (simp add: reads_left_def)
  next
    case False
    then have c: "copy_out p (?r\<lparr>br_pos := 0\<rparr>) = (Ok (bs, None), r')" using assms(1) True f by (simp add: refill_and_copy_def)
    have "reads_left r' < reads_left (?r\<lparr>br_pos := 0\<rparr>)" using copy_out_progress [OF c assms(2)] False by simp
    moreover have "reads_left (?r\<lparr>br_pos := 0\<rparr>) \<le> reads_left r" using stream_Read_cases(6) [OF g] by (simp add: reads_left_def)
    ultimately show ?thesis by simp
  qed
qed

lemma reader_progress:
  assumes "0 < p"
  shows "azureHighPerfReader_Read p r = (Ok (bs, None), r') \<Longrightarrow> reads_left r' < reads_left r"
    and "azureFastReader_Read p r = (Ok (bs, None), r') \<Longrightarrow> reads_left r' < reads_left r"
proof -
  have ch: "br_buf (choose_buf p r) \<noteq> []" "reads_left (choose_buf p r) = reads_left r"
    "br_buf (if br_buf r = [] then r\<lparr>br_buf := replicate (256 * KB) 0\<rparr> else r) \<noteq> []"
    "reads_left (if br_buf r = [] then r\<lparr>br_buf := replicate (256 * KB) 0\<rparr> else r) = reads_left r"
    by (auto simp: choose_buf_def reads_left_def)
  show "azureHighPerfReader_Read p r = (Ok (bs, None), r') \<Longrightarrow> reads_left r' < reads_left r"
    using bypass_progress [OF _ assms] refill_progress [OF _ assms ch(1)] ch(2) by (auto simp: azureHighPerfReader_Read_def split: if_splits)
  show "azureFastReader_Read p r = (Ok (bs, None), r') \<Longrightarrow> reads_left r' < reads_left r"
    using bypass_progress [OF _ assms] refill_progress [OF _ assms ch(3)] ch(4) by (auto simp: azureFastReader_Read_def split: if_splits)
qed

lemma plain_progress: "0 < p \<Longrightarrow> plain_Read p s = (Ok (bs, None), s') \<Longrightarrow> stream_steps s' < stream_steps s"
  using source.read_steps by blast

lemma body_reader_returns:
  assumes "\<forall>i. 0 < ps i" and "b = wrapWithOptimizedReader s e \<or> b = wrapWithFastReader s e"
  shows "drain_body ps (Suc (body_steps b)) b \<noteq> None"
proof -
  have n: "reads_left (new_buf_reader s) < Suc (br_steps (new_buf_reader s))" by (simp add: reads_left_def)
  have "drain_with plain_Read ps (Suc (stream_steps s)) s \<noteq> None"
    by (rule drain_returns [where m = stream_steps, OF plain_progress assms(1)]) simp_all
  moreover have "drain_with azureHighPerfReader_Read ps (Suc (br_steps (new_buf_reader s))) (new_buf_reader s) \<noteq> None"
    by (rule drain_returns [where m = reads_left, OF reader_progress(1) assms(1) n])
  moreover have "drain_with azureFastReader_Read ps (Suc (br_steps (new_buf_reader s))) (new_buf_reader s) \<noteq> None"
    by (rule drain_returns [where m = reads_left, OF reader_progress(2) assms(1) n])
  ultimately show ?thesis using assms(2) by (auto simp: wrapWithOptimizedReader_def wrapWithFastReader_def simp del: drain_with.simps)
qed

text \<open>A client whose reads are all of one class of sizes.\<close>

definition uniform_reads :: "(nat \<Rightarrow> nat) \<Rightarrow> bool" where
  "uniform_reads ps \<longleftrightarrow> (\<exists>c. \<forall>i. hp_class (ps i) = c) \<and> (\<exists>c. \<forall>i. fast_class (ps i) = c)"

lemma body_reader_PlainBody:
  assumes "\<forall>i. 0 < ps i"
  shows "body_reader ps (PlainBody s) = Ok \<lparr>rd_data = stream_left s, rd_err = clean_end (st_err s)\<rparr>"
  using source.drain_complete [where s = s and ps = ps and f = "Suc (stream_steps s)"] assms by (simp add: body_reader_def del: drain_with.simps)

text \<open>What the client gets: all of the source when the body is plain, and through the buffering readers when its reads are uniform.\<close>

lemma body_reader_wrapped:
  assumes "\<forall>i. 0 < ps i" and "e \<or> uniform_reads ps"
  shows "body_reader ps (wrapWithOptimizedReader s e) = Ok \<lparr>rd_data = stream_left s, rd_err = clean_end (st_err s)\<rparr>"
    and "body_reader ps (wrapWithFastReader s e) = Ok \<lparr>rd_data = stream_left s, rd_err = clean_end (st_err s)\<rparr>"
proof -
  have "drain_with azureHighPerfReader_Read ps (Suc (2 * stream_steps s)) (new_buf_reader s) = Some (Ok \<lparr>rd_data = stream_left s, rd_err = clean_end (st_err s)\<rparr>)
    \<and> drain_with azureFastReader_Read ps (Suc (2 * stream_steps s)) (new_buf_reader s) = Some (Ok \<lparr>rd_data = stream_left s, rd_err = clean_end (st_err s)\<rparr>)"
    if u: "uniform_reads ps"
  proof -
    obtain c d where "\<forall>i. hp_class (ps i) = c" "\<forall>i. fast_class (ps i) = d" using u by (auto simp: uniform_reads_def)
    then show ?thesis
      using high_perf.drain_complete [where c = c and s = "new_buf_reader s" and ps = ps and f = "Suc (2 * stream_steps s)"]
        fast.drain_complete [where c = d and s = "new_buf_reader s" and ps = ps and f = "Suc (2 * stream_steps s)"] assms(1)
      by (simp add: hp_inv_def fast_inv_def del: drain_with.simps)
  qed
  moreover note body_reader_PlainBody [OF assms(1), of s, unfolded body_reader_def drain_body.simps body_steps.simps]
  ultimately show "body_reader ps (wrapWithOptimizedReader s e) = Ok \<lparr>rd_data = stream_left s, rd_err = clean_end (st_err s)\<rparr>"
    "body_reader ps (wrapWithFastReader s e) = Ok \<lparr>rd_data = stream_left s, rd_err = clean_end (st_err s)\<rparr>"
    using assms(2) by (auto simp: wrapWithOptimizedReader_def wrapWithFastReader_def body_reader_def simp del: drain_with.simps)
qed

lemma upload_body_complete:
  assumes "0 < n" and "n < MB"
  shows "upload_body n r = \<lparr>rd_data = rd_data r, rd_err = clean_end (rd_err r)\<rparr>"
  using upload.drain_complete [where c = Small and s = "new_buf_reader (stream_of r)" and ps = "\<lambda>_. n" and f = "Suc (2 * Suc (length (rd_data r)))"] assms
  by (simp add: upload_body_def Let_def upload_inv_def upload_class_def del: drain_with.simps)

section \<open>Names that come back\<close>

text \<open>The SDK lowers the names of the metadata it returns.\<close>

definition lower_names :: "smap \<Rightarrow> smap" where
  "lower_names md = map (\<lambda>(k, v). (ToLower k, v)) md"

definition recoverable :: "string \<Rightarrow> bool" where
  "recoverable k \<longleftrightarrow> azure_name k \<noteq> '''' \<and> s3_name (ToLower (azure_name k)) = k"

lemma encryption_names_recoverable:
  "list_all recoverable [''x-amz-meta-encryption-algorithm'', ''x-amz-meta-encryption-key-id'', ''x-amz-meta-encryption-dek'',
     ''x-amz-meta-encryption-nonce'', ''x-amz-meta-encrypted-size'', ''x-amz-server-side-encryption'', ''content-type'', ''timestamp'', ''author'']"
  by code_simp

lemma dashed_name_changed: "\<not> recoverable ''my-key'' \<and> s3_name (ToLower (azure_name ''my-key'')) = ''mykey''"
  by code_simp

lemma ToLower_ToLower [simp]: "ToLower (ToLower s) = ToLower s"
  by (auto simp: ToLower_def lower_char_def Let_def)

lemma dash_ToLower [simp]: "CHR ''-'' \<in> set (ToLower s) \<longleftrightarrow> CHR ''-'' \<in> set s"
proof -
  have dash: "c = CHR ''-'' \<longleftrightarrow> of_char c = (45 :: nat)" for c
    using of_char_eq_iff [of c "CHR ''-''", where 'a = nat] by simp
  have "lower_char c = CHR ''-'' \<longleftrightarrow> c = CHR ''-''" for c
  proof (cases "65 \<le> (of_char c :: nat) \<and> (of_char c :: nat) \<le> 90")
    case True
    then have "of_char (lower_char c) = (of_char c + 32 :: nat)" by (simp add: lower_char_def take_bit_eq_mod)
    with True show ?thesis unfolding dash by linarith
  qed (auto simp: lower_char_def Let_def)
  then show ?thesis unfolding ToLower_def set_map by (metis (no_types, lifting) imageE imageI)
qed

text \<open>The names the code hands to Azure have no dash, so that no two of them, in lower case, become the same name on the way back.\<close>

lemma azure_name_clean: "CHR ''-'' \<notin> set (azure_name k)"
proof (cases "map_of azureMetadataMapping (ToLower k)")
  case None
  have "CHR ''-'' \<notin> set (sanitize_key k)"
    by (auto simp: sanitize_key_def Let_def is_letter_def is_digit_def dest!: in_set_takeD in_set_dropD)
  with None show ?thesis by (simp add: azure_name_def)
next
  case (Some n)
  moreover have "list_all (\<lambda>(k, v). CHR ''-'' \<notin> set v) azureMetadataMapping" by code_simp
  ultimately show ?thesis using map_of_SomeD [OF Some] by (auto simp: azure_name_def list_all_iff)
qed

lemma s3_name_inj: "inj_on s3_name {n. ToLower n = n \<and> CHR ''-'' \<notin> set n}"
proof (rule inj_onI, clarsimp)
  fix x y
  assume c: "ToLower x = x" "CHR ''-'' \<notin> set x" "ToLower y = y" "CHR ''-'' \<notin> set y" and eq: "s3_name x = s3_name y"
  have dirty: "list_all (\<lambda>(k, v). ToLower v \<noteq> v \<or> CHR ''-'' \<in> set v) azureMetadataReverseMapping" by code_simp
  have inj: "distinct (map snd azureMetadataReverseMapping)" by code_simp
  let ?m = "map_of azureMetadataReverseMapping"
  have not_value: "?m n \<noteq> Some x \<and> ?m n \<noteq> Some y" for n
    using dirty c by (auto simp: list_all_iff dest!: map_of_SomeD)
  show "x = y"
  proof (cases "?m x"; cases "?m y")
    fix a assume "?m x = Some a" "?m y = None"
    then show ?thesis using c eq not_value by (simp add: s3_name_def)
  next
    fix a assume "?m x = None" "?m y = Some a"
    then show ?thesis using c eq not_value by (simp add: s3_name_def)
  next
    fix a b assume "?m x = Some a" "?m y = Some b"
    then have "(x, a) \<in> set azureMetadataReverseMapping" "(y, a) \<in> set azureMetadataReverseMapping"
      using c(1,3) eq by (auto simp: s3_name_def dest: map_of_SomeD)
    then show ?thesis using eq_key_imp_eq_value [of "map prod.swap azureMetadataReverseMapping" a x y] inj by (force simp: comp_def)
  next
    assume "?m x = None" "?m y = None"
    then show ?thesis using c(1,3) eq by (simp add: s3_name_def)
  qed
qed

text \<open>Renaming the keys of a map with new names.\<close>

lemma update_fresh: "k \<notin> fst ` set m \<Longrightarrow> AList.update k v m = m @ [(k, v)]"
  by (induction m) auto

lemma fold_rename:
  assumes "distinct (map (\<lambda>x. f (fst x)) xs)" and "\<And>x. x \<in> set xs \<Longrightarrow> f (fst x) \<notin> fst ` set acc"
  shows "fold (\<lambda>(k, v). AList.update (f k) v) xs acc = acc @ map (\<lambda>(k, v). (f k, v)) xs"
  using assms
proof (induction xs arbitrary: acc)
  case (Cons x xs)
  obtain k v where x: "x = (k, v)" by (cases x)
  have "AList.update (f k) v acc = acc @ [(f k, v)]"
    using Cons.prems(2) [of x] by (intro update_fresh) (simp add: x)
  moreover have "f (fst y) \<notin> fst ` set (acc @ [(f k, v)])" if "y \<in> set xs" for y
    using Cons.prems(1) Cons.prems(2) [of y] that by (auto simp: x dest: sym)
  ultimately show ?case using Cons.IH [of "acc @ [(f k, v)]"] Cons.prems(1) by (simp add: x)
qed simp

text \<open>Metadata whose names stay different in Azure, and different from the name of the MD5.\<close>

definition azure_distinct :: "smap \<Rightarrow> bool" where
  "azure_distinct md \<longleftrightarrow>
     distinct (map (\<lambda>x. ToLower (azure_name (fst x))) md) \<and> ''s3proxymd5'' \<notin> (\<lambda>x. ToLower (azure_name (fst x))) ` set md"

lemma sanitize_distinct:
  assumes "azure_distinct md"
  shows "sanitizeAzureMetadata md = map (\<lambda>(k, v). (azure_name k, v)) (filter (\<lambda>x. azure_name (fst x) \<noteq> '''') md)"
proof -
  have "distinct (map ToLower (map (\<lambda>x. azure_name (fst x)) md))" using assms by (simp add: azure_distinct_def comp_def)
  then have "distinct (map (\<lambda>x. azure_name (fst x)) md)" unfolding distinct_map by blast
  then have "distinct (map (\<lambda>x. azure_name (fst x)) (filter (\<lambda>x. azure_name (fst x) \<noteq> '''') md))" by (rule distinct_map_filter)
  then have "fold (\<lambda>(k, v). AList.update (azure_name k) v) (filter (\<lambda>x. azure_name (fst x) \<noteq> '''') md) []
      = map (\<lambda>(k, v). (azure_name k, v)) (filter (\<lambda>x. azure_name (fst x) \<noteq> '''') md)"
    using fold_rename [of azure_name _ "[]"] by simp
  moreover have "sanitizeAzureMetadata md = fold (\<lambda>(k, v). AList.update (azure_name k) v) (filter (\<lambda>x. azure_name (fst x) \<noteq> '''') md) []"
    unfolding sanitizeAzureMetadata_def fold_filter by (intro fold_cong) auto
  ultimately show ?thesis by simp
qed

lemma md5_fresh:
  assumes "azure_distinct md"
  shows "''s3proxyMD5'' \<notin> fst ` set (sanitizeAzureMetadata md)"
proof
  have low: "ToLower ''s3proxyMD5'' = ''s3proxymd5''" by code_simp
  assume "''s3proxyMD5'' \<in> fst ` set (sanitizeAzureMetadata md)"
  then have "''s3proxymd5'' \<in> (\<lambda>x. ToLower (azure_name (fst x))) ` set md"
    using low by (force simp: sanitize_distinct [OF assms])
  with assms show False by (simp add: azure_distinct_def)
qed

lemma lower_names_md5:
  assumes "azure_distinct md"
  shows "wf_smap (lower_names (AList.update ''s3proxyMD5'' h (sanitizeAzureMetadata md)))"
    and "\<forall>n \<in> fst ` set (lower_names (AList.update ''s3proxyMD5'' h (sanitizeAzureMetadata md))). ToLower n = n \<and> CHR ''-'' \<notin> set n"
    and "(k, v) \<in> set md \<Longrightarrow> azure_name k \<noteq> '''' \<Longrightarrow>
      (ToLower (azure_name k), v) \<in> set (lower_names (AList.update ''s3proxyMD5'' h (sanitizeAzureMetadata md)))"
    and "(''s3proxymd5'', h) \<in> set (lower_names (AList.update ''s3proxyMD5'' h (sanitizeAzureMetadata md)))"
proof -
  let ?f = "filter (\<lambda>x. azure_name (fst x) \<noteq> '''') md"
  have low: "ToLower ''s3proxyMD5'' = ''s3proxymd5''" by code_simp
  note fresh = md5_fresh [OF assms]
  have ln: "lower_names (AList.update ''s3proxyMD5'' h (sanitizeAzureMetadata md))
      = map (\<lambda>x. (ToLower (azure_name (fst x)), snd x)) ?f @ [(''s3proxymd5'', h)]"
    unfolding lower_names_def update_fresh [OF fresh] by (simp add: sanitize_distinct [OF assms] low case_prod_unfold)
  have "distinct (map (\<lambda>x. ToLower (azure_name (fst x))) ?f)" using assms by (simp add: azure_distinct_def distinct_map_filter)
  then show "wf_smap (lower_names (AList.update ''s3proxyMD5'' h (sanitizeAzureMetadata md)))"
    using assms by (auto simp: ln wf_smap_def comp_def azure_distinct_def image_iff)
  have "ToLower ''s3proxymd5'' = ''s3proxymd5'' \<and> CHR ''-'' \<notin> set ''s3proxymd5''" by code_simp
  then show "\<forall>n \<in> fst ` set (lower_names (AList.update ''s3proxyMD5'' h (sanitizeAzureMetadata md))). ToLower n = n \<and> CHR ''-'' \<notin> set n"
    using azure_name_clean by (auto simp: ln)
  show "(ToLower (azure_name k), v) \<in> set (lower_names (AList.update ''s3proxyMD5'' h (sanitizeAzureMetadata md)))"
    if "(k, v) \<in> set md" "azure_name k \<noteq> ''''" using that by (force simp: ln)
  show "(''s3proxymd5'', h) \<in> set (lower_names (AList.update ''s3proxyMD5'' h (sanitizeAzureMetadata md)))" by (simp add: ln)
qed

text \<open>What the service returns of metadata: the lowered names with their values, in any order.\<close>

definition returned_metadata :: "smap \<Rightarrow> smap \<Rightarrow> bool" where
  "returned_metadata md zm \<longleftrightarrow> wf_smap zm \<and> (wf_smap (lower_names md) \<longrightarrow> set zm = set (lower_names md))"

lemma desanitize_lookup:
  assumes "wf_smap zm" and "\<forall>n \<in> fst ` set zm. ToLower n = n \<and> CHR ''-'' \<notin> set n" and "(n, v) \<in> set zm"
  shows "map_of (desanitizeAzureMetadata zm) (s3_name n) = Some v"
proof -
  have "inj_on s3_name (fst ` set zm)" by (rule inj_on_subset [OF s3_name_inj]) (use assms(2) in blast)
  moreover have d: "distinct (map fst zm)" using assms(1) by (simp add: wf_smap_def)
  ultimately have "distinct (map s3_name (map fst zm))" by (simp add: distinct_map del: map_map)
  then have "distinct (map (\<lambda>x. s3_name (fst x)) zm)" by (simp add: comp_def)
  then have e: "desanitizeAzureMetadata zm = map (\<lambda>(k, v). (s3_name k, v)) zm"
    and "distinct (map fst (map (\<lambda>(k, v). (s3_name k, v)) zm))"
    using fold_rename [of s3_name zm "[]"] by (simp_all add: desanitizeAzureMetadata_def comp_def case_prod_unfold)
  then show ?thesis using assms(3) by (force simp: e intro: map_of_is_SomeI)
qed

lemma metadata_survives:
  assumes "azure_distinct md" and "returned_metadata (AList.update ''s3proxyMD5'' h (sanitizeAzureMetadata md)) zm"
  shows "map_of md k = Some v \<Longrightarrow> recoverable k \<Longrightarrow> map_of (desanitizeAzureMetadata zm) k = Some v"
    and "map_of (desanitizeAzureMetadata zm) ''s3proxyMD5'' = Some h"
proof -
  note ln = lower_names_md5 [OF assms(1), where h = h]
  have z: "wf_smap zm" "set zm = set (lower_names (AList.update ''s3proxyMD5'' h (sanitizeAzureMetadata md)))"
    using assms(2) ln(1) by (simp_all add: returned_metadata_def)
  note lookup = desanitize_lookup [OF z(1), unfolded z(2), OF ln(2)]
  show "map_of (desanitizeAzureMetadata zm) k = Some v" if "map_of md k = Some v" "recoverable k"
    using lookup [OF ln(3) [OF map_of_SomeD [OF that(1)]]] that(2) unfolding recoverable_def by argo
  have "s3_name ''s3proxymd5'' = ''s3proxyMD5''" by code_simp
  with lookup [OF ln(4)] show "map_of (desanitizeAzureMetadata zm) ''s3proxyMD5'' = Some h" by simp
qed

section \<open>What is stored is what is read\<close>

text \<open>What the code relies on of the service: a blob that was uploaded, at once or as a stream, has the length, the bytes and the
  metadata of the upload, until it is changed, and reading changes nothing. An upload from a reader that fails does not
  succeed.\<close>

definition blob_holds :: "('r, 'k, 'c) az_sdk \<Rightarrow> 'k \<Rightarrow> string \<Rightarrow> string \<Rightarrow> bytes \<Rightarrow> smap \<Rightarrow> 'c \<Rightarrow> bool" where
  "blob_holds sdk k b n data md c \<longleftrightarrow>
     (\<exists>props. az_GetProperties sdk k b n c = (Ok props, c) \<and> zp_ContentLength props = int (length data)
        \<and> returned_metadata md (zp_Metadata props))
     \<and> (\<exists>resp. az_Download sdk k b n c = (Ok resp, c) \<and> stream_left (zd_Body resp) = data \<and> st_err (zd_Body resp) = None
        \<and> returned_metadata md (zd_Metadata resp))"

definition az_lawful :: "('r, 'k, 'c) az_sdk \<Rightarrow> 'k \<Rightarrow> bool" where
  "az_lawful sdk k \<longleftrightarrow>
     (\<forall>b n data ct md c c'. az_Upload sdk k b n data ct md c = (Ok (), c') \<longrightarrow> blob_holds sdk k b n data md c')
     \<and> (\<forall>b n r size count ct md c c'. az_UploadStream sdk k b n r size count ct md c = (Ok (), c') \<longrightarrow>
          rd_err r = None \<and> blob_holds sdk k b n (rd_data r) md c')"

lemma az_call_Ok: "az_call msg f s = (Ok x, s') \<longleftrightarrow> (\<exists>c. f (as_service s) = (Ok x, c) \<and> s' = s\<lparr>as_service := c\<rparr>)"
  by (auto simp: az_call_def rs_wrap_Ok split: prod.splits)

lemma small_body_Ok:
  assumes "small_body buffered s r sz = (Ok data, s')" and "sz = int (length (rd_data r))"
  shows "data = rd_data r"
  using assms by (auto simp: small_body_def rs_bind_Ok ReadFull_def split: if_splits prod.splits option.splits)

lemma put_holds:
  assumes law: "az_lawful sdk (ab_serviceURL a)" and key: "\<not> HasSuffix key ''/''" and md: "azure_distinct md"
    and put: "AZ_PutObject sdk a buffered s bucket key r sz md = (Ok (), s')" and sz: "sz = int (length (rd_data r))"
  shows "\<exists>h. blob_holds sdk (ab_serviceURL a) bucket key (rd_data r) (AList.update ''s3proxyMD5'' h (sanitizeAzureMetadata md)) (as_service s')
    \<and> (sz < 256 * 1024 \<longrightarrow> h = hex_encode (md5 (rd_data r)))"
proof (cases "sz < 256 * 1024")
  case True
  with put key obtain data s1 where d: "small_body buffered s r sz = (Ok data, s1)"
    and u: "az_call ''failed to upload blob: '' (az_Upload sdk (ab_serviceURL a) bucket key data octet_stream
      (AList.update ''s3proxyMD5'' (hex_encode (md5 data)) (sanitizeAzureMetadata md))) s1 = (Ok (), s')"
    by (auto simp: AZ_PutObject_def marker_step_def normalizedKey_def Let_def rs_bind_Ok)
  with small_body_Ok [OF d sz] law
  have "blob_holds sdk (ab_serviceURL a) bucket key (rd_data r)
      (AList.update ''s3proxyMD5'' (hex_encode (md5 (rd_data r))) (sanitizeAzureMetadata md)) (as_service s')"
    by (auto simp: az_lawful_def az_call_Ok)
  then show ?thesis by blast
next
  case False
  obtain md2 s2 where l: "large_metadata s sz (sanitizeAzureMetadata md) = (md2, s2)" by fastforce
  have "map_of (sanitizeAzureMetadata md) ''s3proxyMD5'' = None" using md5_fresh [OF md] by (simp add: map_of_eq_None_iff)
  then obtain h where h: "md2 = AList.update ''s3proxyMD5'' h (sanitizeAzureMetadata md)" using l by (auto simp: large_metadata_def)
  have "\<exists>body n m. rd_data body = rd_data r \<and>
      az_call ''failed to upload blob: '' (az_UploadStream sdk (ab_serviceURL a) bucket key body n m octet_stream md2) s2 = (Ok (), s')"
    using put key False l upload_body_complete [of "512 * 1024" r] upload_body_complete [of "256 * 1024" r]
    by (auto simp: AZ_PutObject_def marker_step_def normalizedKey_def Let_def split: if_splits) (metis reader.select_convs(1))+
  with law h False show ?thesis by (fastforce simp: az_lawful_def az_call_Ok)
qed

lemma get_held:
  assumes "blob_holds sdk (ab_serviceURL a) bucket key data md (as_service s)" and "\<not> HasSuffix key ''/''"
    and ps: "\<forall>i. 0 < ps i" and u: "(\<forall>zm. returned_metadata md zm \<longrightarrow> isEncryptedMetadata zm) \<or> uniform_reads ps"
  shows "\<exists>ob zm etag. AZ_GetObject sdk a ps s bucket key = (Ok ob, s) \<and> ob_Body ob = bytes_reader data \<and> ob_Size ob = int (length data)
    \<and> returned_metadata md zm \<and> ob_Metadata ob = desanitizeAzureMetadata zm \<and> ob_ETag ob = stored_etag (ob_Metadata ob) etag"
proof -
  obtain props resp where p: "az_GetProperties sdk (ab_serviceURL a) bucket key (as_service s) = (Ok props, as_service s)"
      "zp_ContentLength props = int (length data)" "returned_metadata md (zp_Metadata props)"
    and d: "az_Download sdk (ab_serviceURL a) bucket key (as_service s) = (Ok resp, as_service s)"
      "stream_left (zd_Body resp) = data" "st_err (zd_Body resp) = None" "returned_metadata md (zd_Metadata resp)"
    using assms(1) by (auto simp: blob_holds_def)
  have s: "s\<lparr>as_service := as_service s\<rparr> = s" by simp
  have b: "\<lparr>rd_data = data, rd_err = clean_end None\<rparr> = bytes_reader data" by (simp add: bytes_reader_def clean_end_def)
  have e: "isEncryptedMetadata (zp_Metadata props) \<or> uniform_reads ps" "isEncryptedMetadata (zd_Metadata resp) \<or> uniform_reads ps"
    using u p(3) d(4) by auto
  have w: "body_reader ps (wrapWithOptimizedReader (zd_Body resp) (isEncryptedMetadata (zp_Metadata props))) = Ok (bytes_reader data)"
    "body_reader ps (wrapWithFastReader (zd_Body resp) (isEncryptedMetadata (zd_Metadata resp))) = Ok (bytes_reader data)"
    using body_reader_wrapped(1) [OF ps e(1)] body_reader_wrapped(2) [OF ps e(2)] d(2,3) b by simp_all
  show ?thesis
  proof (cases "1024 * 1024 \<le> int (length data) \<and> \<not> isEncryptedMetadata (zp_Metadata props)")
    case True
    then show ?thesis
      using w(1) p(3) by (simp add: AZ_GetObject_def normalizedKey_def assms(2) az_call_def p(1,2) d(1-3) s Let_def) blast
  next
    case False
    then show ?thesis
      using w(2) d(4) by (auto simp: AZ_GetObject_def normalizedKey_def assms(2) az_call_def p(1,2) d(1-3) s Let_def)
  qed
qed

text \<open>What an encrypted object is stored with marks it for the reading side.\<close>

lemma encrypted_recognised:
  assumes "azure_distinct md" and "map_of md ''x-amz-meta-encryption-algorithm'' = Some v" and "v \<noteq> ''''"
    and "returned_metadata (AList.update ''s3proxyMD5'' h (sanitizeAzureMetadata md)) zm"
  shows "isEncryptedMetadata zm"
proof -
  note ln = lower_names_md5 [OF assms(1), where h = h]
  have n: "azure_name ''x-amz-meta-encryption-algorithm'' \<noteq> ''''"
    "ToLower (azure_name ''x-amz-meta-encryption-algorithm'') = ''xamzmetaencryptionalgorithm''" by code_simp+
  have "(''xamzmetaencryptionalgorithm'', v) \<in> set zm"
    using ln(3) [OF map_of_SomeD [OF assms(2)] n(1)] ln(1) n(2) assms(4) by (simp add: returned_metadata_def)
  then have "map_of zm ''xamzmetaencryptionalgorithm'' = Some v"
    using assms(4) by (auto simp: returned_metadata_def wf_smap_def intro: map_of_is_SomeI)
  then show ?thesis using assms(3) by (simp add: isEncryptedMetadata_def sm_get_def)
qed

lemma block_parts_page:
  assumes "0 \<le> marker" and "int (length parts) \<le> m" and "i \<le> marker \<longrightarrow> parts = []"
  shows "block_parts i marker m blocks parts =
    parts @ map (\<lambda>(j, name, sz). \<lparr>pt_PartNumber = j + 1, pt_ETag = name, pt_Size = sz, pt_LastModified = 0\<rparr>)
      (take (nat m - length parts) (drop (nat (marker - i)) (zip (map (\<lambda>j. i + int j) [0..<length blocks]) blocks)))"
  using assms
proof (induction i marker m blocks parts rule: block_parts.induct)
  case (1 i marker m parts)
  then show ?case by simp
next
  case (2 i marker m name sz blocks parts)
  let ?mk = "\<lambda>(j, name, sz). \<lparr>pt_PartNumber = j + 1, pt_ETag = name, pt_Size = sz, pt_LastModified = 0\<rparr>"
  have shift: "zip (map (\<lambda>j. i + int j) [0..<Suc (length blocks)]) ((name, sz) # blocks)
      = (i, name, sz) # zip (map (\<lambda>j. (i + 1) + int j) [0..<length blocks]) blocks"
    by (simp add: upt_conv_Cons map_Suc_upt [symmetric] comp_def del: upt_Suc) (simp add: algebra_simps)
  show ?case
  proof (cases "marker < i + 1")
    case past: True
    then have "nat (marker - i) = 0" "nat (marker - (i + 1)) = 0" by simp_all
    show ?thesis
    proof (cases "int (length parts) < m")
      case True
      then have n: "nat m - length parts = Suc (nat m - Suc (length parts))" by simp
      have "int (length (parts @ [?mk (i, name, sz)])) \<le> m" using True by simp
      with "2.IH" [unfolded if_P [OF conjI [OF past True]]] "2.prems"(1) past
      show ?thesis by (simp add: shift n True \<open>nat (marker - i) = 0\<close> \<open>nat (marker - (i + 1)) = 0\<close> del: upt_Suc)
    next
      case False
      with "2.prems"(2) have "nat m - length parts = 0" by simp
      with "2.IH" "2.prems"(1,2) past False show ?thesis by simp
    qed
  next
    case False
    then have "nat (marker - i) = Suc (nat (marker - (i + 1)))" "parts = []" using "2.prems"(3) by simp_all
    with "2.IH" "2.prems"(1,2) False show ?thesis by (simp add: shift del: upt_Suc)
  qed
qed

section \<open>Properties\<close>

text \<open>C5: what is stored in Azure is what is read back. If the service keeps what it is given, then after an object of any size was stored
  under a name that does not end with a slash, with metadata whose names stay different in Azure, through whichever of the upload
  paths its size selects, a client that reads the body in pieces of one class of sizes (as \<^verbatim>\<open>io.Copy\<close> does) gets exactly its bytes and its length,
  every metadata entry whose name Azure can hold comes back with its name and value, and for an object below 256 KB the ETag is
  the MD5 of its bytes. (For a name that ends with a slash see \<open>large_marker_unreadable\<close>, for reads of mixed sizes
  \<open>medium_read_after_small_delivers_zeros\<close>.)\<close>

theorem azure_put_get:
  assumes "az_lawful sdk (ab_serviceURL a)" and "\<not> HasSuffix key ''/''" and "azure_distinct md"
    and "AZ_PutObject sdk a buffered s bucket key r (int (length (rd_data r))) md = (Ok (), s')"
    and "\<forall>i. 0 < ps i" and "uniform_reads ps"
  shows "\<exists>ob. AZ_GetObject sdk a ps s' bucket key = (Ok ob, s') \<and> ob_Body ob = bytes_reader (rd_data r) \<and> ob_Size ob = int (length (rd_data r))
    \<and> (\<forall>k v. map_of md k = Some v \<longrightarrow> recoverable k \<longrightarrow> map_of (ob_Metadata ob) k = Some v)
    \<and> (length (rd_data r) < 256 * 1024 \<longrightarrow> ob_ETag ob = dquote (hex_encode (md5 (rd_data r))))"
proof -
  obtain h where h: "blob_holds sdk (ab_serviceURL a) bucket key (rd_data r) (AList.update ''s3proxyMD5'' h (sanitizeAzureMetadata md)) (as_service s')"
      "int (length (rd_data r)) < 256 * 1024 \<longrightarrow> h = hex_encode (md5 (rd_data r))"
    using put_holds [OF assms(1-4) refl] by blast
  obtain ob zm etag where ob: "AZ_GetObject sdk a ps s' bucket key = (Ok ob, s')" "ob_Body ob = bytes_reader (rd_data r)"
      "ob_Size ob = int (length (rd_data r))" "returned_metadata (AList.update ''s3proxyMD5'' h (sanitizeAzureMetadata md)) zm"
      "ob_Metadata ob = desanitizeAzureMetadata zm" "ob_ETag ob = stored_etag (ob_Metadata ob) etag"
    using get_held [OF h(1) assms(2,5)] assms(6) by blast
  note md = metadata_survives [OF assms(3) ob(4)]
  from md(2) ob(5,6) have "ob_ETag ob = dquote h" by (simp add: stored_etag_def)
  with ob(1-3,5) md(1) h(2) show ?thesis by auto
qed

text \<open>C37: buffered reading loses nothing. Whatever the pieces in which the source delivers its bytes, reading any of the three buffering readers to its end, with
  any sequence of reads that are all of one class of sizes, ends and delivers exactly the bytes of the source, in order, and its final error.\<close>

theorem azure_readers_complete:
  assumes "\<forall>i. 0 < ps i" and "2 * stream_steps src < f"
  defines "all \<equiv> Some (Ok \<lparr>rd_data = stream_left src, rd_err = clean_end (st_err src)\<rparr>)"
  shows "((\<forall>i. hp_class (ps i) = c) \<longrightarrow> drain_with azureHighPerfReader_Read ps f (new_buf_reader src) = all)
    \<and> ((\<forall>i. fast_class (ps i) = c) \<longrightarrow> drain_with azureFastReader_Read ps f (new_buf_reader src) = all)
    \<and> ((\<forall>i. upload_class (ps i) = c) \<longrightarrow> drain_with azureFastUploadReader_Read ps f (new_buf_reader src) = all)"
  using high_perf.drain_complete [where c = c and s = "new_buf_reader src" and ps = ps and f = f]
    fast.drain_complete [where c = c and s = "new_buf_reader src" and ps = ps and f = f]
    upload.drain_complete [where c = c and s = "new_buf_reader src" and ps = ps and f = f] assms(1,2)
  by (simp add: all_def hp_inv_def fast_inv_def upload_inv_def)

text \<open>The pool of upload buffers breaks the next upload. A small upload from a network body puts a pointer into the pool; when the pool hands it out
  again, the next such upload panics before it reads its body, and nothing is stored.\<close>

theorem pooled_buffer_panics:
  assumes "\<not> buffered r" and "sz < 256 * 1024" and "AZ_PutObject sdk a buffered s b k r sz md = (Ok (), s')"
    and "as_reuse s' (as_gets s')" and "\<not> buffered r'" and "sz' < 256 * 1024" and "\<not> HasSuffix k' ''/''"
  shows "fst (AZ_PutObject sdk a buffered s' b' k' r' sz' md') = Panic ''interface conversion: interface {} is *[]uint8, not []uint8''
    \<and> as_service (snd (AZ_PutObject sdk a buffered s' b' k' r' sz' md')) = as_service s'"
proof -
  have "0 < as_pool s'"
    using assms(1-3)
    by (auto simp: AZ_PutObject_def Let_def rs_bind_Ok small_body_def az_call_Ok split: if_splits prod.splits option.splits)
  then have "small_body buffered s' r' sz'
      = (Panic ''interface conversion: interface {} is *[]uint8, not []uint8'', s'\<lparr>as_gets := Suc (as_gets s'), as_pool := as_pool s' - 1\<rparr>)"
    using assms(4,5) by (simp add: small_body_def pool_Get_def Let_def)
  with assms(6,7) show ?thesis by (simp add: AZ_PutObject_def marker_step_def Let_def)
qed

text \<open>Pages of parts are complete. A listing of parts is exactly the blocks after the marker, at most as many as were asked for, numbered by their
  position; it is marked as truncated exactly when blocks remain, and then the next marker is where it ended.\<close>

theorem azure_parts_page:
  assumes "AZ_ListParts sdk a s b k u m marker = (Ok r, s')" and "0 \<le> marker" and "0 \<le> m"
  shows "\<exists>blocks. az_UncommittedBlocks sdk (ab_serviceURL a) b k (as_service s) = (Ok blocks, as_service s')
    \<and> lp_Parts r = map (\<lambda>(j, name, sz). \<lparr>pt_PartNumber = j + 1, pt_ETag = name, pt_Size = sz, pt_LastModified = 0\<rparr>)
        (take (nat m) (drop (nat marker) (zip (map int [0..<length blocks]) blocks)))
    \<and> (lp_IsTruncated r \<longleftrightarrow> marker + m < int (length blocks)) \<and> (lp_IsTruncated r \<longrightarrow> lp_NextPartNumberMarker r = marker + m)"
proof -
  obtain blocks where bl: "az_UncommittedBlocks sdk (ab_serviceURL a) b k (as_service s) = (Ok blocks, as_service s')"
    and r: "lp_Parts r = block_parts 0 marker m blocks []" "lp_IsTruncated r \<longleftrightarrow> marker + m < int (length blocks)"
      "lp_IsTruncated r \<Longrightarrow> lp_NextPartNumberMarker r = marker + int (length (lp_Parts r))"
    using assms(1) by (auto simp: AZ_ListParts_def rs_bind_Ok az_call_Ok Let_def)
  note page = block_parts_page [of marker "[]" m 0 blocks]
  then have "lp_IsTruncated r \<Longrightarrow> int (length (lp_Parts r)) = m" using assms(2,3) r(1,2) by simp
  with bl r page assms(2,3) show ?thesis by auto
qed

text \<open>The listing of containers returns all of them when the service lists them in finitely many segments.\<close>

lemma list_containers_complete:
  assumes "\<And>i. i < n \<Longrightarrow> NotDone (mk i) \<and> az_ListContainersSegment sdk k (mk i) (as_service s) = (Ok (seg i, mk (Suc i)), as_service s)"
    and "mk n = Some ''''" and "j \<le> n"
  shows "list_containers (Suc (n - j)) sdk k (mk j) acc s
    = Some (Ok (acc @ map (\<lambda>(nm, t). \<lparr>bi_Name = nm, bi_CreationDate = t\<rparr>) (concat (map seg [j..<n]))), s)"
  using assms(3)
proof (induction "n - j" arbitrary: j acc)
  case 0
  then show ?case using assms(2) by (simp add: NotDone_def)
next
  case (Suc d)
  then have j: "j < n" "d = n - Suc j" by simp_all
  have "az_call ''failed to list containers: '' (az_ListContainersSegment sdk k (mk j)) s = (Ok (seg j, mk (Suc j)), s)"
    using assms(1) [OF j(1)] by (simp add: az_call_def)
  then have "list_containers (Suc (n - j)) sdk k (mk j) acc s = list_containers (Suc (n - Suc j)) sdk k (mk (Suc j))
      (acc @ map (\<lambda>(nm, t). \<lparr>bi_Name = nm, bi_CreationDate = t\<rparr>) (seg j)) s"
    using assms(1) [OF j(1)] j(1) by (subst list_containers.simps(2)) (simp add: Suc_diff_Suc del: list_containers.simps)
  with Suc.hyps(1) [OF j(2)] j show ?case by (simp add: upt_conv_Cons del: upt_Suc list_containers.simps)
qed

text \<open>A page size is passed on as long as it fits 32 bits.\<close>

lemma max_results_bounds: "0 \<le> n \<Longrightarrow> max_results n = min n 0x7FFFFFFF"
  by (simp add: max_results_def i32_def)

section \<open>Where the code does not do what it means to\<close>

text \<open>The SDK expects the identifier of a block in base64. The identifiers of all parts a client may upload are five digits, which
  no base64 text has as its length.\<close>

lemma length_dec_digits: "n < 10 ^ k \<Longrightarrow> 0 < k \<Longrightarrow> length (dec_digits n) \<le> k"
proof (induction k arbitrary: n)
  case (Suc k)
  show ?case
  proof (cases "n < 10")
    case False
    then have "0 < k" using Suc.prems(1) by (cases k) auto
    with Suc.IH [of "n div 10"] Suc.prems(1) False show ?thesis by (subst dec_digits.simps) (auto simp: less_mult_imp_div_less)
  qed (subst dec_digits.simps; simp)
qed simp

lemma b64_quads_length: "b64_quads s = Some bs \<Longrightarrow> length s mod 4 = 0"
  by (induction s arbitrary: bs rule: b64_quads.induct) (auto split: option.splits if_splits)

lemma block_id_not_base64:
  assumes "0 \<le> n" and "n < 100000"
  shows "b64_decode (blockID n) = Err (ErrNew ''illegal base64 data'')"
proof -
  have "length (dec_digits (nat n)) \<le> 5" using length_dec_digits [of "nat n" 5] assms by simp
  then have l: "length (blockID n) = 5" using assms by (simp add: blockID_def pad_num_def FormatInt_def Let_def)
  have "is_digit c" if "c \<in> set (blockID n)" for c
    using that assms dec_digits_digits by (auto simp: blockID_def pad_num_def FormatInt_def Let_def is_digit_def split: if_splits)
  then have "filter (\<lambda>c. c \<noteq> CHR 0x0A \<and> c \<noteq> CHR 0x0D) (blockID n) = blockID n" by (intro filter_True) (fastforce simp: is_digit_def)
  moreover have "b64_quads (blockID n) = None" using b64_quads_length [of "blockID n"] l by (cases "b64_quads (blockID n)") auto
  ultimately show ?thesis by (simp add: b64_decode_def)
qed

text \<open>A large object whose name ends with a slash is stored as a marker but downloaded under its own name, which Azure does not have.\<close>

lemma large_marker_unreadable:
  assumes "HasSuffix key ''/''" and "key \<noteq> ''/''" and "1024 * 1024 \<le> zp_ContentLength props" and "\<not> isEncryptedMetadata (zp_Metadata props)"
    and "az_GetProperties sdk (ab_serviceURL a) bucket (TrimSuffix key ''/'' @ ''/.dir'') (as_service s) = (Ok props, c)"
    and "az_Download sdk (ab_serviceURL a) bucket key c = (Err e, c')"
  shows "AZ_GetObject sdk a ps s bucket key = (Err (ErrWrap ''failed to download blob: '' e), s\<lparr>as_service := c'\<rparr>)"
  using assms by (simp add: AZ_GetObject_def normalizedKey_def az_call_def Let_def)

text \<open>\<^verbatim>\<open>HeadObject\<close> looks for the MD5 under a name with capital letters, which the SDK never returns: it reports the service's ETag where
  \<^verbatim>\<open>GetObject\<close> reports the MD5.\<close>

lemma head_ignores_stored_md5:
  assumes "\<forall>n \<in> fst ` set (zp_Metadata props). ToLower n = n"
  shows "oi_ETag (head_info key props) = zp_ETag props"
proof -
  have "ToLower ''s3proxyMD5'' \<noteq> ''s3proxyMD5''" by code_simp
  then have "map_of (zp_Metadata props) ''s3proxyMD5'' = None" using assms by (auto simp: map_of_eq_None_iff)
  then show ?thesis by (simp add: head_info_def stored_etag_def)
qed

text \<open>The listing does not ask for metadata, so directory markers are listed under the names of their blobs.\<close>

lemma markers_listed_raw: "zb_Metadata blob = None \<Longrightarrow> item_key blob = zb_Name blob"
  by (simp add: item_key_def)

section \<open>Concrete runs\<close>

text \<open>A service that keeps blobs in memory.\<close>

type_synonym mem = "((string \<times> string) \<times> (bytes \<times> smap)) list"

definition mem_store :: "string \<Rightarrow> string \<Rightarrow> bytes \<Rightarrow> smap \<Rightarrow> mem \<Rightarrow> mem" where
  "mem_store b n data md c = AList.update (b, n) (data, fold (\<lambda>(k, v). AList.update (ToLower k) v) md []) c"

definition az_absent :: go_error where
  "az_absent = ErrNew ''BlobNotFound''"

definition mem_sdk :: "(unit, unit, mem) az_sdk" where
  "mem_sdk =
     \<lparr>az_NewAnonymousCredential = (), az_NewSharedKeyCredential = (\<lambda>_ _. Ok ()), az_NewService = (\<lambda>_ _. Ok ()), az_ServiceCode = (\<lambda>_. None),
      az_ListContainersSegment = (\<lambda>k m c. (Ok ([(''b'', 0)], Some ''''), c)), az_CreateContainer = (\<lambda>k b c. (Ok (), c)),
      az_DeleteContainer = (\<lambda>k b c. (Ok (), c)), az_ContainerProperties = (\<lambda>k b c. (Ok (), c)),
      az_ListBlobsHierarchy = (\<lambda>k b m d opt c. (Err az_absent, c)), az_ListBlobsFlat = (\<lambda>k b m opt c. (Err az_absent, c)),
      az_GetProperties = (\<lambda>k b n c. (case map_of c (b, n) of None \<Rightarrow> Err az_absent
         | Some (d, md) \<Rightarrow> Ok \<lparr>zp_ContentLength = int (length d), zp_ETag = ''e'', zp_LastModified = 0, zp_ContentType = '''', zp_Metadata = md\<rparr>, c)),
      az_Download = (\<lambda>k b n c. (case map_of c (b, n) of None \<Rightarrow> Err az_absent
         | Some (d, md) \<Rightarrow> Ok \<lparr>zd_Body = stream_of (bytes_reader d), zd_ETag = ''e'', zd_LastModified = 0, zd_ContentType = '''', zd_Metadata = md\<rparr>, c)),
      az_Upload = (\<lambda>k b n d ct md c. (Ok (), mem_store b n d md c)),
      az_UploadStream = (\<lambda>k b n r sz mb ct md c. (case rd_err r of None \<Rightarrow> (Ok (), mem_store b n (rd_data r) md c) | Some e \<Rightarrow> (Err e, c))),
      az_Delete = (\<lambda>k b n c. (Ok (), AList.delete (b, n) c)), az_StageBlock = (\<lambda>k b n i d c. (Ok (), c)),
      az_CommitBlockList = (\<lambda>k b n is md c. (Ok (), c)), az_UncommittedBlocks = (\<lambda>k b n c. (Ok [(''00001'', 4), (''00002'', 5)], c))\<rparr>"

lemma mem_lawful: "az_lawful mem_sdk k"
proof -
  have wf: "wf_smap (fold (\<lambda>(k, v). AList.update (ToLower k) v) md acc)" if "wf_smap acc" for md acc
    using that by (induction md arbitrary: acc) auto
  have "returned_metadata md (fold (\<lambda>(k, v). AList.update (ToLower k) v) md [])" for md
    using wf [of "[]"] fold_rename [of ToLower md "[]"]
    by (auto simp: returned_metadata_def wf_smap_def lower_names_def comp_def case_prod_unfold)
  then have "blob_holds mem_sdk k b n data md (mem_store b n data md c)" for b n data md c
    by (simp add: blob_holds_def mem_sdk_def mem_store_def AList.update_conv')
  then show ?thesis by (auto simp: az_lawful_def mem_sdk_def split: option.splits)
qed

definition demo_azure :: "unit azure_backend" where
  "demo_azure = \<lparr>ab_serviceURL = (), ab_accountName = ''acc'', ab_containerName = ''$root''\<rparr>"

definition demo_azs :: "mem azstate" where
  "demo_azs = \<lparr>as_service = [], as_clock = (\<lambda>_. 0), as_ticks = 0, as_pool = 0, as_reuse = (\<lambda>_. True), as_gets = 0\<rparr>"

lemma demo_azure_put:
  "AZ_PutObject mem_sdk demo_azure (\<lambda>_. False) demo_azs ''b'' ''k'' (bytes_reader [1, 2]) 2 [(''author'', ''me'')]
    = (Ok (), demo_azs\<lparr>as_service := mem_store ''b'' ''k'' [1, 2]
        (AList.update ''s3proxyMD5'' (hex_encode (md5 [1, 2])) (sanitizeAzureMetadata [(''author'', ''me'')])) [], as_gets := 1, as_pool := 1\<rparr>)"
proof -
  have "\<not> HasSuffix ''k'' ''/''" by code_simp
  then show ?thesis
    by (simp add: AZ_PutObject_def marker_step_def normalizedKey_def small_body_def pool_Get_def demo_azs_def ReadFull_def az_call_def
        mem_sdk_def Let_def)
qed

theorem azure_put_get_witness:
  "\<exists>ob s'. AZ_PutObject mem_sdk demo_azure (\<lambda>_. False) demo_azs ''b'' ''k'' (bytes_reader [1, 2]) 2 [(''author'', ''me'')] = (Ok (), s')
     \<and> AZ_GetObject mem_sdk demo_azure (\<lambda>_. copyBufSize) s' ''b'' ''k'' = (Ok ob, s') \<and> ob_Body ob = bytes_reader [1, 2]
     \<and> map_of (ob_Metadata ob) ''author'' = Some ''me''"
proof -
  have k: "\<not> HasSuffix ''k'' ''/''" by code_simp
  have n: "ToLower (azure_name ''author'') = ''author''" by code_simp
  have d: "azure_distinct [(''author'', ''me'')]" by (simp add: azure_distinct_def n)
  have r: "recoverable ''author''" using encryption_names_recoverable by simp
  obtain s' where p: "AZ_PutObject mem_sdk demo_azure (\<lambda>_. False) demo_azs ''b'' ''k'' (bytes_reader [1, 2]) 2 [(''author'', ''me'')] = (Ok (), s')"
    by (rule that [OF demo_azure_put])
  then have q: "AZ_PutObject mem_sdk demo_azure (\<lambda>_. False) demo_azs ''b'' ''k'' (bytes_reader [1, 2]) (int (length (rd_data (bytes_reader [1, 2]))))
      [(''author'', ''me'')] = (Ok (), s')" by simp
  have u: "\<forall>i::nat. 0 < copyBufSize" "uniform_reads (\<lambda>_. copyBufSize)" by (simp_all add: copyBufSize_def uniform_reads_def)
  obtain ob where "AZ_GetObject mem_sdk demo_azure (\<lambda>_. copyBufSize) s' ''b'' ''k'' = (Ok ob, s')"
    "ob_Body ob = bytes_reader [1, 2]" "map_of (ob_Metadata ob) ''author'' = Some ''me''" using azure_put_get [OF mem_lawful k d q u] r
    by (metis map_of_Cons_code(2) rd_bytes_reader(1))
  with p show ?thesis by blast
qed

theorem azure_readers_complete_witness:
  "drain_with azureFastReader_Read (\<lambda>_. 1) 11 (new_buf_reader \<lparr>st_pieces = [[1], [], [2]], st_err = None, st_eager = True\<rparr>)
     = Some (Ok (bytes_reader [1, 2]))"
  using azure_readers_complete [of "\<lambda>_. 1" "\<lparr>st_pieces = [[1], [], [2]], st_err = None, st_eager = True\<rparr>" 11 Small]
  by (simp add: stream_steps_def stream_left_def fast_class_def bytes_reader_def clean_end_def)

theorem pooled_buffer_panics_witness:
  "\<exists>s'. AZ_PutObject mem_sdk demo_azure (\<lambda>_. False) demo_azs ''b'' ''k'' (bytes_reader [1, 2]) 2 [(''author'', ''me'')] = (Ok (), s')
     \<and> fst (AZ_PutObject mem_sdk demo_azure (\<lambda>_. False) s' ''b'' ''j'' (bytes_reader [3]) 1 [])
         = Panic ''interface conversion: interface {} is *[]uint8, not []uint8''"
proof -
  let ?s = "demo_azs\<lparr>as_service := mem_store ''b'' ''k'' [1, 2]
        (AList.update ''s3proxyMD5'' (hex_encode (md5 [1, 2])) (sanitizeAzureMetadata [(''author'', ''me'')])) [], as_gets := 1, as_pool := 1\<rparr>"
  have k: "\<not> HasSuffix ''j'' ''/''" by code_simp
  have p: "AZ_PutObject mem_sdk demo_azure (\<lambda>_. False) demo_azs ''b'' ''k'' (bytes_reader [1, 2]) 2 [(''author'', ''me'')] = (Ok (), ?s)"
    by (rule demo_azure_put)
  have "as_reuse ?s (as_gets ?s)" by (simp add: demo_azs_def)
  from pooled_buffer_panics [OF _ _ p this, where r' = "bytes_reader [3]" and sz' = 1 and k' = "''j''" and b' = "''b''" and md' = "[]"] k
  have "fst (AZ_PutObject mem_sdk demo_azure (\<lambda>_. False) ?s ''b'' ''j'' (bytes_reader [3]) 1 [])
      = Panic ''interface conversion: interface {} is *[]uint8, not []uint8''" by simp
  with p show ?thesis by blast
qed

theorem azure_parts_page_witness:
  "\<exists>r s'. AZ_ListParts mem_sdk demo_azure demo_azs ''b'' ''k'' ''u'' 1 1 = (Ok r, s')
     \<and> lp_Parts r = [\<lparr>pt_PartNumber = 2, pt_ETag = ''00002'', pt_Size = 5, pt_LastModified = 0\<rparr>]"
proof -
  have "\<exists>r s'. AZ_ListParts mem_sdk demo_azure demo_azs ''b'' ''k'' ''u'' 1 1 = (Ok r, s')"
    by (simp add: AZ_ListParts_def az_call_def mem_sdk_def Let_def)
  then obtain r s' where r: "AZ_ListParts mem_sdk demo_azure demo_azs ''b'' ''k'' ''u'' 1 1 = (Ok r, s')" by blast
  from azure_parts_page [OF this] have "lp_Parts r = [\<lparr>pt_PartNumber = 2, pt_ETag = ''00002'', pt_Size = 5, pt_LastModified = 0\<rparr>]"
    by (simp add: mem_sdk_def)
  with r show ?thesis by blast
qed

end
