(* ===== verification/Azure_Encrypted.thy ===== *)
theory Azure_Encrypted
  imports Storage_Azure Storage_Encrypted
begin

text \<open>
  The encrypting backend over Azure. Azure changes the names of metadata, so that it is not an object store in the sense of the
  other backends; what the encryption stores with an object survives, because its names are in the table of the code. An object that was
  encrypted into Azure is read back in plaintext.
\<close>

text \<open>The names the encryption uses, with the user's: in Azure none of them may coincide.\<close>

definition reserved_names :: smap where
  "reserved_names = map (\<lambda>k. (k, '''')) (sse_marker # internal_keys)"

lemma internal_recoverable: "k \<in> set internal_keys \<Longrightarrow> recoverable k"
  using encryption_names_recoverable by (auto simp: internal_keys_def metadata_keys)

lemma wf_smap_distinct: "wf_smap m \<longleftrightarrow> distinct (map fst m)"
  by (simp add: wf_smap_def)

lemma merged_distinct:
  assumes "azure_distinct (reserved_names @ md)" and "wf_smap md" and "wf_smap emd" and "dom (map_of emd) = set internal_keys"
  shows "azure_distinct (AList.update sse_marker v (sm_merge md emd))"
proof -
  let ?n = "\<lambda>k. ToLower (azure_name k)" and ?m = "AList.update sse_marker v (sm_merge md emd)"
  have d: "distinct (map ?n (map fst (reserved_names @ md)))" "''s3proxymd5'' \<notin> ?n ` set (map fst (reserved_names @ md))"
    using assms(1) by (auto simp: azure_distinct_def comp_def)
  have "dom (map_of ?m) = insert sse_marker (dom (map_of md) \<union> set internal_keys)"
    using assms(3,4) by (auto simp: AList.update_conv' map_of_sm_merge)
  then have k: "set (map fst ?m) = set (map fst (reserved_names @ md))"
    by (auto simp: reserved_names_def dom_map_of_conv_image_fst)
  have "inj_on ?n (set (map fst ?m))" using d(1) unfolding k by (simp only: distinct_map)
  moreover have "distinct (map fst ?m)" using assms(2,3) by (simp flip: wf_smap_distinct)
  ultimately have "distinct (map ?n (map fst ?m))" by (simp only: distinct_map)
  moreover have "''s3proxymd5'' \<notin> ?n ` set (map fst ?m)" using d(2) unfolding k .
  ultimately show ?thesis by (simp add: azure_distinct_def comp_def image_image)
qed

lemma merged_algorithm:
  assumes "wf_smap emd" and "dom (map_of emd) = set internal_keys"
  shows "map_of (AList.update sse_marker v (sm_merge md emd)) ''x-amz-meta-encryption-algorithm'' = Some (sm_get emd MetadataKeyAlgorithm)"
proof -
  have "MetadataKeyAlgorithm \<in> dom (map_of emd)" "MetadataKeyAlgorithm \<noteq> sse_marker"
    using assms(2) sse_marker_not_internal by (auto simp: internal_keys_def)
  then have "map_of (AList.update sse_marker v (sm_merge md emd)) MetadataKeyAlgorithm = Some (sm_get emd MetadataKeyAlgorithm)"
    using assms(1) by (auto simp: AList.update_conv' map_of_sm_merge sm_get_def)
  then show ?thesis by (simp add: MetadataKeyAlgorithm_def)
qed

text \<open>C4: encryption works over Azure. With a manager built from a local configuration, an object that was stored through the encrypting backend
  into an Azure account is read back in plaintext, with its length, although Azure renames the metadata that hold its key and its
  nonce, and whatever the sizes in which the body is read (\<^verbatim>\<open>io.ReadAll\<close> reads in growing pieces): the code recognises an encrypted object and
  does not buffer it. Metadata of the user whose names Azure can hold come back as well. The name must not end with a slash, and the names of the
  metadata must stay different in Azure.\<close>

theorem encrypted_azure_durable:
  assumes "NewFromConfig rnd load s0 cfg = (Ok m, s1)" and "ec_Enabled cfg"
    and "ec_KeyProvider cfg = ''local''" and "map_of (ec_KeyProviders cfg) ''local'' = None"
    and law: "az_lawful sdk (ab_serviceURL a)" and key: "\<not> HasSuffix k ''/''" and "wf_smap md" and names: "azure_distinct (reserved_names @ md)"
    and "n = int (length (rd_data r))" and "in_i64 n" and reads: "\<forall>i. 0 < ps i"
    and put: "EB_PutObject (AzureBackend fuel sdk a buffered ps) m s b k r n md = (Ok (), s')"
  shows "\<exists>ob t. EB_GetObject (AzureBackend fuel sdk a buffered ps) m s' b k = (Ok ob, t)
    \<and> ob_Body ob = bytes_reader (rd_data r) \<and> ob_Size ob = n
    \<and> (\<forall>x v. map_of md x = Some v \<and> recoverable x \<and> x \<notin> set internal_keys \<and> x \<noteq> sse_marker \<longrightarrow> sm_get (ob_Metadata ob) x = v)"
proof -
  let ?bk = "AzureBackend fuel sdk a buffered ps"
  obtain mk where m: "m = local_manager mk rnd" using NewFromConfig_local [OF assms(1-4)] by metis
  obtain r' emd e bs where e: "en_Encrypt (local_encryptor mk rnd) (es_enc s) r n = (Ok (r', emd), e)" "validateEncryptionMetadata emd = Ok ()"
    and p: "AZ_PutObject sdk a buffered (es_backend s) b k r' (int (length (rd_data r'))) (AList.update sse_marker ''AES256'' (sm_merge md emd))
      = (Ok (), bs)" and s': "s' = s\<lparr>es_enc := e, es_backend := bs\<rparr>"
    by (rule local_enc.PutObject_cases [OF put [unfolded m]]) (simp_all add: AzureBackend_def)
  let ?md = "AList.update sse_marker ''AES256'' (sm_merge md emd)"
  have em: "wf_smap emd" "dom (map_of emd) = set internal_keys" using local_gcm.simple.enc_marked [OF e(1)] by auto
  note dis = merged_distinct [OF names assms(7) em, of "''AES256''"]
  obtain h where "blob_holds sdk (ab_serviceURL a) b k (rd_data r') (AList.update ''s3proxyMD5'' h (sanitizeAzureMetadata ?md)) (as_service bs)"
    using put_holds [OF law key dis p refl] by blast
  moreover have "isEncryptedMetadata zm" if "returned_metadata (AList.update ''s3proxyMD5'' h (sanitizeAzureMetadata ?md)) zm" for zm
    using encrypted_recognised [OF dis merged_algorithm [OF em] _ that] local_gcm.simple.enc_marked [OF e(1)] by blast
  ultimately obtain ob zm where ob: "AZ_GetObject sdk a ps bs b k = (Ok ob, bs)" "ob_Body ob = bytes_reader (rd_data r')"
      "returned_metadata (AList.update ''s3proxyMD5'' h (sanitizeAzureMetadata ?md)) zm" "ob_Metadata ob = desanitizeAzureMetadata zm"
    using get_held [OF _ key reads] by metis
  have kept: "map_of (ob_Metadata ob) x = Some v" if "map_of ?md x = Some v" "recoverable x" for x v
    using metadata_survives(1) [OF dis ob(3) that] ob(4) by simp
  have "sm_get (ob_Metadata ob) x = sm_get emd x" if x: "x \<in> set internal_keys" for x
  proof -
    obtain v where v: "map_of emd x = Some v" using x em(2) by auto
    have "x \<noteq> sse_marker" using x sse_marker_not_internal by auto
    then have "map_of ?md x = Some v" using v em(1) by (simp add: AList.update_conv' map_of_sm_merge)
    with kept internal_recoverable [OF x] v show ?thesis by (simp add: sm_get_def)
  qed
  then obtain t where t: "EB_GetObject ?bk m s' b k = (Ok (ob\<lparr>ob_Body := bytes_reader (rd_data r), ob_Size := n,
      ob_Metadata := visible_metadata (ob_Metadata ob)\<rparr>), t)"
    using local_enc.get_opened [OF TrueI TrueI e local_gcm.simple.enc_size [OF e(1) assms(9,10)], of ?bk s' b k ob bs] ob(1,2)
    by (auto simp: m s' AzureBackend_def)
  have "sm_get (visible_metadata (ob_Metadata ob)) x = v"
    if x: "map_of md x = Some v" "recoverable x" "x \<notin> set internal_keys" "x \<noteq> sse_marker" for x v
  proof -
    have "map_of emd x = None" using x(3) em(2) by auto
    then have "map_of ?md x = Some v" using x(1,4) em(1) by (simp add: AList.update_conv' map_of_sm_merge map_add_def)
    with kept x(2) sm_get_visible [OF x(3,4)] show ?thesis by (simp add: sm_get_def)
  qed
  with t show ?thesis by fastforce
qed

section \<open>A concrete run\<close>

definition demo_azeb :: "(mem azstate, pstate) encstate" where
  "demo_azeb = \<lparr>es_backend = demo_azs, es_enc = demo_pstate, es_uploads = []\<rparr>"

abbreviation demo_azbk :: "mem azstate backend" where
  "demo_azbk \<equiv> AzureBackend 1 mem_sdk demo_azure (\<lambda>_. True) (\<lambda>i. Suc (i * i))"

text \<open>A buffered store of a small body always succeeds in memory.\<close>

lemma mem_put_small:
  assumes "\<not> HasSuffix k ''/''" and "length (rd_data r) < 256 * 1024"
  shows "\<exists>bs. AZ_PutObject mem_sdk a (\<lambda>_. True) s b k r (int (length (rd_data r))) md = (Ok (), bs)"
  using assms by (simp add: AZ_PutObject_def marker_step_def small_body_def az_call_def mem_sdk_def Let_def)

lemma demo_azeb_put:
  obtains s' where "EB_PutObject demo_azbk demo_enc_manager demo_azeb ''b'' ''k'' (bytes_reader [72, 105]) 2 [(''author'', ''me'')] = (Ok (), s')"
proof -
  obtain r' emd e where e: "EncManager_Encrypt demo_enc_manager demo_pstate (bytes_reader [72, 105]) 2 = (Ok (r', emd), e)"
    by (rule demo_enc_encrypts)
  then have en: "en_Encrypt (local_encryptor (replicate 32 5) (\<lambda>_. Ok [])) demo_pstate (bytes_reader [72, 105]) 2 = (Ok (r', emd), e)"
    by (simp add: EncManager_Encrypt_def demo_enc_manager_def EncManager_New_def)
  obtain dek nonce where "r' = bytes_reader (gcm_seal dek nonce (rd_data (bytes_reader [72, 105])) [])"
    by (rule local_sealed [OF en])
  then have small: "length (rd_data r') < 256 * 1024" by simp
  have key: "\<not> HasSuffix ''k'' ''/''" by code_simp
  obtain bs where "AZ_PutObject mem_sdk demo_azure (\<lambda>_. True) demo_azs ''b'' ''k'' r' (int (length (rd_data r')))
      (AList.update sse_marker ''AES256'' (sm_merge [(''author'', ''me'')] emd)) = (Ok (), bs)"
    using mem_put_small [OF key small] by blast
  moreover have "EncManager_ShouldEncrypt demo_enc_manager ''b''"
    by (simp add: EncManager_ShouldEncrypt_def demo_enc_manager_def EncManager_New_def)
  ultimately have "EB_PutObject demo_azbk demo_enc_manager demo_azeb ''b'' ''k'' (bytes_reader [72, 105]) 2 [(''author'', ''me'')]
      = (Ok (), \<lparr>es_backend = bs, es_enc = e, es_uploads = []\<rparr>)"
    using e local_enc.valid_sealed [OF TrueI en]
    by (simp add: EB_PutObject_def Let_def on_enc_def on_backend_def demo_azeb_def calculateEncryptedSize_def AzureBackend_def)
  then show thesis using that by blast
qed

theorem encrypted_azure_durable_witness:
  "\<exists>s' ob t. EB_PutObject demo_azbk demo_enc_manager demo_azeb ''b'' ''k'' (bytes_reader [72, 105]) 2 [(''author'', ''me'')] = (Ok (), s')
     \<and> EB_GetObject demo_azbk demo_enc_manager s' ''b'' ''k'' = (Ok ob, t) \<and> ob_Body ob = bytes_reader [72, 105] \<and> ob_Size ob = 2"
proof -
  obtain s' where p: "EB_PutObject demo_azbk demo_enc_manager demo_azeb ''b'' ''k'' (bytes_reader [72, 105]) 2 [(''author'', ''me'')] = (Ok (), s')"
    by (rule demo_azeb_put)
  have k: "\<not> HasSuffix ''k'' ''/''" by code_simp
  have names: "map (\<lambda>x. ToLower (azure_name (fst x))) (reserved_names @ [(''author'', ''me'')])
      = [''xamzserversideencryption'', ''xamzmetaencryptionalgorithm'', ''xamzmetaencryptionkeyid'', ''xamzmetaencryptiondek'',
         ''xamzmetaencryptionnonce'', ''xamzmetaencryptedsize'', ''author'']"
    by code_simp
  have d: "azure_distinct (reserved_names @ [(''author'', ''me'')])"
    unfolding azure_distinct_def image_set names by simp
  have "wf_smap [(''author'', ''me'')]" "2 = int (length (rd_data (bytes_reader [72, 105])))" "in_i64 2"
    by (simp_all add: wf_smap_def in_i64_def)
  from encrypted_azure_durable [OF demo_config mem_lawful k this(1) d this(2,3) _ p] p show ?thesis by fastforce
qed

end
