(* ===== verification/Enc_Stream.thy ===== *)
theory Enc_Stream
  imports Enc_Manager Go_Stream "HOL-Library.Sublist"
begin

text \<open>
  \<^verbatim>\<open>internal/encryption/stream/aes_gcm.go\<close>: the encryptor that seals a stream chunk by chunk. A chunk is what one \<^verbatim>\<open>Read\<close>
  of the source delivered, sealed under the object's nonce with the number of the chunk in it; there is no record of where a
  chunk ends. Proved: no two chunks of an object share a nonce; the reader delivers the sealed chunks of a reference definition, and a
  source that delivers them one by one is decrypted to the plaintext. And what goes wrong when the chunks
  are cut differently, or when some are missing.
\<close>

unbundle bit_operations_syntax

section \<open>The code\<close>

definition ChunkSize :: nat where
  "ChunkSize = 4 * 1024 * 1024"

definition TagSize :: nat where
  "TagSize = 16"

text \<open>Both readers have the same fields; \<open>cr_key\<close> stands for the cipher.\<close>

record cipher_reader =
  cr_reader :: stream
  cr_key :: bytes
  cr_nonce :: bytes
  cr_chunkNum :: nat
  cr_eof :: bool

definition new_cipher_reader :: "bytes \<Rightarrow> bytes \<Rightarrow> stream \<Rightarrow> cipher_reader" where
  "new_cipher_reader key nonce src = \<lparr>cr_reader = src, cr_key = key, cr_nonce = nonce, cr_chunkNum = 0, cr_eof = False\<rparr>"

definition chunk_nonce :: "bytes \<Rightarrow> nat \<Rightarrow> bytes" where
  "chunk_nonce nonce num = map (\<lambda>(i, b). if i < 8 then b XOR word_of_nat (num div 256 ^ i) else b) (zip [0..<length nonce] nonce)"

definition encryptingReader_Read :: "nat \<Rightarrow> cipher_reader \<Rightarrow> (bytes \<times> go_error option) res \<times> cipher_reader" where
  "encryptingReader_Read p r =
     (if cr_eof r then (Ok ([], Some ErrEOF), r)
      else if p \<le> TagSize then (Ok ([], Some (ErrNew ''output buffer too small: need at least 17 bytes'')), r)
      else
        case stream_Read (min (p - TagSize) ChunkSize) (cr_reader r) of ((buf, err), src) \<Rightarrow>
          let r1 = r\<lparr>cr_reader := src\<rparr> in
          if err \<noteq> None \<and> err \<noteq> Some ErrEOF then (Ok ([], err), r1)
          else if buf = [] then (Ok ([], Some ErrEOF), r1\<lparr>cr_eof := True\<rparr>)
          else
            let r2 = r1\<lparr>cr_chunkNum := Suc (cr_chunkNum r1)\<rparr> in
            (case gcm_Seal (cr_key r) (chunk_nonce (cr_nonce r) (cr_chunkNum r)) buf [] of
               Ok encrypted \<Rightarrow> (Ok (encrypted, None), r2\<lparr>cr_eof := (err = Some ErrEOF)\<rparr>)
             | Err e \<Rightarrow> (Err e, r2)
             | Panic m \<Rightarrow> (Panic m, r2)))"

text \<open>\<^verbatim>\<open>io.ReadAtLeast\<close> into a buffer of \<open>sz\<close> bytes, of which \<open>acc\<close> is filled: reads until there are \<open>m\<close> bytes or an error.\<close>

function read_at_least :: "nat \<Rightarrow> nat \<Rightarrow> stream \<Rightarrow> bytes \<Rightarrow> (bytes \<times> go_error option) \<times> stream" where
  "read_at_least m sz s acc =
     (if m \<le> length acc \<or> sz \<le> length acc then ((acc, None), s)
      else
        case stream_Read (sz - length acc) s of
          ((bs, None), s') \<Rightarrow> read_at_least m sz s' (acc @ bs)
        | ((bs, Some e), s') \<Rightarrow>
            let got = acc @ bs in
            ((got, if m \<le> length got then None else if got \<noteq> [] \<and> e = ErrEOF then Some ErrUnexpectedEOF else Some e), s'))"
  by pat_completeness auto

termination
proof (relation "measure (\<lambda>(m, sz, s, acc). stream_steps s)")
  fix m sz :: nat and s and acc :: bytes and x s' bs e
  assume "\<not> (m \<le> length acc \<or> sz \<le> length acc)" and "(x, s') = stream_Read (sz - length acc) s" and "(bs, e) = x" and "e = None"
  then have "stream_steps s' + length bs + (if bs = [] then 1 else 0) \<le> stream_steps s"
    using stream_Read_cases(4) [of "sz - length acc" s bs None s'] by simp
  then have "stream_steps s' < stream_steps s" by (cases bs) auto
  then show "((m, sz, s', acc @ bs), (m, sz, s, acc)) \<in> measure (\<lambda>(m, sz, s, acc). stream_steps s)" by simp
qed simp

declare read_at_least.simps [simp del]

definition ReadAtLeast :: "stream \<Rightarrow> nat \<Rightarrow> nat \<Rightarrow> (bytes \<times> go_error option) \<times> stream" where
  "ReadAtLeast s sz m = (if sz < m then (([], Some (ErrNew ''short buffer'')), s) else read_at_least m sz s [])"

definition decryptingReader_Read :: "nat \<Rightarrow> cipher_reader \<Rightarrow> (bytes \<times> go_error option) res \<times> cipher_reader" where
  "decryptingReader_Read p r =
     (if cr_eof r then (Ok ([], Some ErrEOF), r)
      else
        case ReadAtLeast (cr_reader r) (min (p + TagSize) (ChunkSize + TagSize)) (TagSize + 1) of ((buf, err), src) \<Rightarrow>
          let r1 = r\<lparr>cr_reader := src\<rparr>; ended = (err = Some ErrUnexpectedEOF \<or> err = Some ErrEOF) in
          if ended \<and> buf = [] then (Ok ([], Some ErrEOF), r1\<lparr>cr_eof := True\<rparr>)
          else if err \<noteq> None \<and> \<not> ended then (Ok ([], err), r1)
          else
            let r2 = r1\<lparr>cr_chunkNum := Suc (cr_chunkNum r1)\<rparr> in
            (case gcm_Open (cr_key r) (chunk_nonce (cr_nonce r) (cr_chunkNum r)) buf [] of
               Ok decrypted \<Rightarrow> (Ok (decrypted, None), r2)
             | Err e \<Rightarrow> (Ok ([], Some (ErrWrap ''failed to decrypt chunk: '' e)), r2)
             | Panic m \<Rightarrow> (Panic m, r2)))"

record 's aes_gcm_encryptor =
  ag_keyProvider :: "'s key_provider"

definition NewAESGCMEncryptor :: "'s key_provider \<Rightarrow> 's aes_gcm_encryptor" where
  "NewAESGCMEncryptor kp = \<lparr>ag_keyProvider = kp\<rparr>"

definition AESGCMEncryptor_Encrypt ::
  "('s \<Rightarrow> bytes res \<times> 's) \<Rightarrow> 's aes_gcm_encryptor \<Rightarrow> 's \<Rightarrow> stream \<Rightarrow> int \<Rightarrow> (cipher_reader \<times> smap) res \<times> 's" where
  "AESGCMEncryptor_Encrypt draw e s reader sz =
     rs_bind (rs_wrap ''failed to generate DEK: '' (kp_GenerateDEK (ag_keyProvider e) s)) (\<lambda>(dek, encryptedDEK) s1.
     rs_bind (wrap_err ''failed to create cipher: '' (NewCipher dek), s1) (\<lambda>key s2.
     rs_bind (rs_wrap ''failed to generate nonce: '' (draw s2)) (\<lambda>nonce s3.
       (Ok (new_cipher_reader key nonce reader, enc_metadata (kp_Name (ag_keyProvider e)) encryptedDEK nonce sz), s3))))"

definition AESGCMEncryptor_Decrypt :: "'s aes_gcm_encryptor \<Rightarrow> 's \<Rightarrow> stream \<Rightarrow> smap \<Rightarrow> cipher_reader res \<times> 's" where
  "AESGCMEncryptor_Decrypt e s reader metadata =
     (let encryptedDEK = sm_get metadata MetadataKeyEncryptedDEK; nonceStr = sm_get metadata MetadataKeyNonce in
      if encryptedDEK = '''' then (Err (ErrNew ''missing encrypted DEK in metadata''), s)
      else if nonceStr = '''' then (Err (ErrNew ''missing nonce in metadata''), s)
      else
        rs_bind (wrap_err ''failed to decode nonce: '' (b64_decode nonceStr), s) (\<lambda>nonce s1.
        rs_bind (rs_wrap ''failed to decrypt DEK: '' (kp_DecryptDEK (ag_keyProvider e) s1 encryptedDEK)) (\<lambda>dek s2.
        rs_bind (wrap_err ''failed to create cipher: '' (NewCipher dek), s2) (\<lambda>key s3.
          (Ok (new_cipher_reader key nonce reader), s3)))))"

definition AESGCMEncryptor_Algorithm :: string where
  "AESGCMEncryptor_Algorithm = AlgorithmAES256GCM"

section \<open>Nonces\<close>

lemma length_chunk_nonce [simp]: "length (chunk_nonce n i) = length n"
  by (simp add: chunk_nonce_def)

lemma digits_determine:
  fixes i j b :: nat
  assumes "\<forall>k<n. (i div b ^ k) mod b = (j div b ^ k) mod b"
  shows "i mod b ^ n = j mod b ^ n"
  using assms
proof (induction n)
  case (Suc n)
  have "x mod b ^ Suc n = b ^ n * (x div b ^ n mod b) + x mod b ^ n" for x by (simp only: power_Suc2 mod_mult2_eq)
  with Suc show ?case by simp
qed simp

lemma xor_cancel:
  fixes a x y :: "'a :: len word"
  assumes "a XOR x = a XOR y"
  shows "x = y"
proof -
  have "a XOR (a XOR z) = z" for z by (simp flip: xor.assoc)
  then show ?thesis using arg_cong [OF assms, of "\<lambda>z. a XOR z"] by simp
qed

lemma chunk_nonce_inj:
  assumes "chunk_nonce nonce i = chunk_nonce nonce j" and "8 \<le> length nonce" and "i < 2 ^ 64" and "j < 2 ^ 64"
  shows "i = j"
proof -
  have "(i div 256 ^ k) mod 256 = (j div 256 ^ k) mod 256" if "k < 8" for k
  proof -
    have "chunk_nonce nonce i ! k = chunk_nonce nonce j ! k" using assms(1) by simp
    then have "nonce ! k XOR word_of_nat (i div 256 ^ k) = nonce ! k XOR word_of_nat (j div 256 ^ k)"
      using that assms(2) by (simp add: chunk_nonce_def)
    then have "(word_of_nat (i div 256 ^ k) :: byte) = word_of_nat (j div 256 ^ k)"
      by (rule xor_cancel)
    then show ?thesis by (simp add: word_of_nat_eq_iff take_bit_eq_mod)
  qed
  then have "i mod 256 ^ 8 = j mod 256 ^ 8" using digits_determine by blast
  with assms(3,4) show ?thesis by simp
qed

section \<open>Chunks\<close>

text \<open>The reference: each piece of the plaintext, sealed with its number.\<close>

fun sealed_chunks :: "bytes \<Rightarrow> bytes \<Rightarrow> nat \<Rightarrow> bytes list \<Rightarrow> bytes list" where
  "sealed_chunks key nonce i [] = []"
| "sealed_chunks key nonce i (x # xs) = gcm_seal key (chunk_nonce nonce i) x [] # sealed_chunks key nonce (Suc i) xs"

text \<open>What a client that reads until an error gets, piece by piece.\<close>

fun read_pieces :: "(nat \<Rightarrow> 's \<Rightarrow> (bytes \<times> go_error option) res \<times> 's) \<Rightarrow> nat \<Rightarrow> nat \<Rightarrow> 's \<Rightarrow> (bytes list \<times> go_error) option" where
  "read_pieces rd p 0 s = None"
| "read_pieces rd p (Suc f) s =
     (case rd p s of
        (Ok (bs, None), s') \<Rightarrow> map_option (\<lambda>(xs, e). (bs # xs, e)) (read_pieces rd p f s')
      | (Ok (bs, Some e), s') \<Rightarrow> Some ([], e)
      | _ \<Rightarrow> None)"

definition chunk_fits :: "nat \<Rightarrow> bytes \<Rightarrow> bool" where
  "chunk_fits p x \<longleftrightarrow> x \<noteq> [] \<and> length x \<le> p \<and> length x \<le> ChunkSize"

lemma encrypt_pieces:
  assumes "\<forall>x \<in> set xs. chunk_fits (p - TagSize) x" and "TagSize < p" and "length nonce = NonceSize" and "eof \<longrightarrow> xs = []"
  shows "read_pieces encryptingReader_Read p (Suc (length xs))
      \<lparr>cr_reader = \<lparr>st_pieces = xs, st_err = None, st_eager = eager\<rparr>, cr_key = key, cr_nonce = nonce, cr_chunkNum = i, cr_eof = eof\<rparr>
    = Some (sealed_chunks key nonce i xs, ErrEOF)"
  using assms(1,4)
proof (induction xs arbitrary: i eof)
  case Nil
  then show ?case using assms(2) by (simp add: encryptingReader_Read_def stream_Read_def end_error_def)
next
  case (Cons x xs)
  then have x: "length x \<le> min (p - TagSize) ChunkSize" "x \<noteq> []" "\<not> eof" by (auto simp: chunk_fits_def)
  let ?s = "\<lambda>xs i eof. \<lparr>cr_reader = \<lparr>st_pieces = xs, st_err = None, st_eager = eager\<rparr>, cr_key = key, cr_nonce = nonce, cr_chunkNum = i, cr_eof = eof\<rparr>"
  have "encryptingReader_Read p (?s (x # xs) i eof)
      = (Ok (gcm_seal key (chunk_nonce nonce i) x [], None), ?s xs (Suc i) (xs = [] \<and> eager))"
    using x assms(2,3) by (simp add: encryptingReader_Read_def stream_Read_def end_error_def gcm_Seal_def Let_def)
  with Cons.IH [of "xs = [] \<and> eager" "Suc i"] Cons.prems(1) show ?case by simp
qed

text \<open>The results of reads of the given sizes, and the bytes that were returned without an error.\<close>

fun read_run :: "(nat \<Rightarrow> 's \<Rightarrow> 'a \<times> 's) \<Rightarrow> nat list \<Rightarrow> 's \<Rightarrow> 'a list" where
  "read_run rd [] s = []"
| "read_run rd (p # ps) s = (case rd p s of (x, s') \<Rightarrow> x # read_run rd ps s')"

fun returned :: "(bytes \<times> go_error option) res list \<Rightarrow> bytes list" where
  "returned [] = []"
| "returned (Ok (bs, None) # xs) = bs # returned xs"
| "returned (x # xs) = returned xs"

lemma encrypt_step:
  assumes "encryptingReader_Read p r = (x, r')" and "length (cr_nonce r) = NonceSize"
  shows "cr_key r' = cr_key r \<and> cr_nonce r' = cr_nonce r
    \<and> ((\<exists>buf. x = Ok (gcm_seal (cr_key r) (chunk_nonce (cr_nonce r) (cr_chunkNum r)) buf [], None)
          \<and> cr_chunkNum r' = Suc (cr_chunkNum r) \<and> stream_left (cr_reader r) = buf @ stream_left (cr_reader r'))
       \<or> (\<exists>e. x = Ok ([], Some e)) \<and> cr_chunkNum r' = cr_chunkNum r \<and> (stream_left (cr_reader r') = stream_left (cr_reader r) \<or> stream_left (cr_reader r') = []))"
proof -
  obtain buf e src where rd: "stream_Read (min (p - TagSize) ChunkSize) (cr_reader r) = ((buf, e), src)" by (metis prod.collapse)
  have left: "stream_left (cr_reader r) = buf @ stream_left src" using stream_Read_cases(1) [OF rd] .
  have err: "stream_left src = []" if "e \<noteq> None" using stream_Read_cases(5) [OF rd] that stream_exhausted by auto
  show ?thesis
  proof (cases "cr_eof r \<or> p \<le> TagSize")
    case False
    show ?thesis
    proof (cases "e \<noteq> None \<and> e \<noteq> Some ErrEOF \<or> buf = []")
      case True
      then show ?thesis using assms(1) False rd left err by (auto simp: encryptingReader_Read_def Let_def split: if_splits)
    next
      case buf: False
      then show ?thesis using assms False rd left by (auto simp: encryptingReader_Read_def gcm_Seal_def Let_def split: if_splits)
    qed
  qed (use assms(1) in \<open>auto simp: encryptingReader_Read_def split: if_splits\<close>)
qed

lemma encrypt_run:
  assumes "length nonce = NonceSize" and "cr_nonce r = nonce"
  shows "\<exists>xs. returned (read_run encryptingReader_Read ps r) = sealed_chunks (cr_key r) nonce (cr_chunkNum r) xs
    \<and> prefix (concat xs) (stream_left (cr_reader r)) \<and> length xs \<le> length ps"
  using assms
proof (induction ps arbitrary: r)
  case Nil
  show ?case by (rule exI [of _ "[]"]) simp
next
  case (Cons p ps)
  obtain x r' where rd: "encryptingReader_Read p r = (x, r')" by (metis prod.collapse)
  note step = encrypt_step [OF rd] Cons.prems
  obtain xs where xs: "returned (read_run encryptingReader_Read ps r') = sealed_chunks (cr_key r') nonce (cr_chunkNum r') xs"
    "prefix (concat xs) (stream_left (cr_reader r'))" "length xs \<le> length ps"
    using Cons.IH [of r'] step by auto
  from step consider
      (chunk) buf where "x = Ok (gcm_seal (cr_key r) (chunk_nonce nonce (cr_chunkNum r)) buf [], None)" "cr_chunkNum r' = Suc (cr_chunkNum r)"
        "stream_left (cr_reader r) = buf @ stream_left (cr_reader r')" "cr_key r' = cr_key r"
    | (none) e where "x = Ok ([], Some e)" "cr_chunkNum r' = cr_chunkNum r" "cr_key r' = cr_key r"
        "stream_left (cr_reader r') = stream_left (cr_reader r) \<or> stream_left (cr_reader r') = []"
    by auto
  then show ?case
  proof cases
    case chunk
    then show ?thesis using xs rd by (intro exI [of _ "buf # xs"]) simp
  next
    case none
    have "prefix (concat xs) (stream_left (cr_reader r))" using xs(2) none(4) by (auto simp del: concat_eq_Nil_conv)
    then show ?thesis using xs rd none by (intro exI [of _ xs]) simp
  qed
qed

lemma read_whole_chunk:
  assumes "TagSize < length c" and "length c \<le> sz"
  shows "ReadAtLeast \<lparr>st_pieces = c # cs, st_err = e, st_eager = eager\<rparr> sz (TagSize + 1)
    = ((c, None), \<lparr>st_pieces = cs, st_err = e, st_eager = eager\<rparr>)"
  using assms
  by (simp add: ReadAtLeast_def TagSize_def read_at_least.simps [of _ _ _ "[]"] stream_Read_def read_at_least.simps [of _ _ _ c])

lemma read_part_chunk:
  assumes "0 < m" and "m \<le> sz" and "sz < length c"
  shows "ReadAtLeast \<lparr>st_pieces = c # cs, st_err = e, st_eager = eager\<rparr> sz m
    = ((take sz c, None), \<lparr>st_pieces = drop sz c # cs, st_err = e, st_eager = eager\<rparr>)"
  using assms
  by (simp add: ReadAtLeast_def read_at_least.simps [of _ _ _ "[]"] stream_Read_def read_at_least.simps [of _ _ _ "take sz c"])

lemma decrypt_pieces:
  assumes "\<forall>x \<in> set xs. chunk_fits q x" and "length nonce = NonceSize" and "0 < q"
  shows "drain_with decryptingReader_Read (\<lambda>_. q) (Suc (length xs))
      \<lparr>cr_reader = \<lparr>st_pieces = sealed_chunks key nonce i xs, st_err = None, st_eager = eager\<rparr>, cr_key = key, cr_nonce = nonce,
        cr_chunkNum = i, cr_eof = False\<rparr>
    = Some (Ok (bytes_reader (concat xs)))"
  using assms(1)
proof (induction xs arbitrary: i)
  case Nil
  have "ReadAtLeast \<lparr>st_pieces = [], st_err = None, st_eager = eager\<rparr> (min (q + TagSize) (ChunkSize + TagSize)) (TagSize + 1)
      = (([], Some ErrEOF), \<lparr>st_pieces = [], st_err = None, st_eager = eager\<rparr>)"
    using assms(3) by (simp add: ReadAtLeast_def read_at_least.simps stream_Read_def end_error_def TagSize_def ChunkSize_def)
  then show ?case by (simp add: decryptingReader_Read_def bytes_reader_def)
next
  case (Cons x xs)
  let ?c = "gcm_seal key (chunk_nonce nonce i) x []"
  have c: "TagSize < length ?c" "length ?c \<le> min (q + TagSize) (ChunkSize + TagSize)"
    using Cons.prems by (auto simp: chunk_fits_def TagSize_def)
  show ?case
    using Cons.IH [of "Suc i"] Cons.prems assms(2) read_whole_chunk [OF c]
    by (simp add: decryptingReader_Read_def gcm_Open_def Let_def bytes_reader_def)
qed

lemma length_sealed_chunks [simp]: "length (sealed_chunks key nonce i xs) = length xs"
  by (induction xs arbitrary: i) auto

lemma take_sealed_chunks: "take n (sealed_chunks key nonce i xs) = sealed_chunks key nonce i (take n xs)"
proof (induction xs arbitrary: i n)
  case (Cons x xs)
  then show ?case by (cases n) auto
qed simp

section \<open>Keys and nonces through the metadata\<close>

context gcm_encryptor
begin

lemma stream_opens:
  assumes "ok s" and "AESGCMEncryptor_Encrypt draw (NewAESGCMEncryptor kp) s src n = (Ok (r, md), s')" and "enc_agree md md'" and "ok t"
    and draws: "\<forall>u x u'. draw u = (Ok x, u') \<longrightarrow> length x = NonceSize"
  shows "\<exists>key nonce t'. length nonce = NonceSize \<and> r = new_cipher_reader key nonce src
    \<and> AESGCMEncryptor_Decrypt (NewAESGCMEncryptor kp) t ct md' = (Ok (new_cipher_reader key nonce ct), t')"
proof -
  obtain dek edek s1 nonce s2 where g: "kp_GenerateDEK kp s = (Ok (dek, edek), s1)" and v: "valid_aes_key dek" and d: "draw s1 = (Ok nonce, s2)"
    and r: "r = new_cipher_reader dek nonce src" and md: "md = enc_metadata (kp_Name kp) edek nonce n"
    using assms(2) by (auto simp: AESGCMEncryptor_Encrypt_def NewAESGCMEncryptor_def rs_bind_Ok rs_wrap_Ok)
  have ln: "length nonce = NonceSize" using draws d by blast
  then have ne: "b64_encode nonce \<noteq> ''''" by (auto simp: NonceSize_def)
  have "sm_get md MetadataKeyEncryptedDEK = edek" "sm_get md MetadataKeyNonce = b64_encode nonce"
    by (simp_all add: md enc_metadata_def sm_get_def metadata_keys)
  then have m: "sm_get md' MetadataKeyEncryptedDEK = edek" "sm_get md' MetadataKeyNonce = b64_encode nonce"
    using assms(3) by (simp_all add: enc_agree_def)
  obtain t' where "kp_DecryptDEK kp t edek = (Ok dek, t')" using dec_gen [OF assms(1) g assms(4)] by (metis prod.collapse)
  then have "AESGCMEncryptor_Decrypt (NewAESGCMEncryptor kp) t ct md' = (Ok (new_cipher_reader dek nonce ct), t')"
    using m ne v gen_key [OF assms(1) g] by (simp add: AESGCMEncryptor_Decrypt_def NewAESGCMEncryptor_def Let_def)
  with ln r show ?thesis by blast
qed

end

lemma ps_draw_length: "\<forall>u x u'. ps_draw rnd n u = (Ok x, u') \<longrightarrow> length x = n"
  by (auto simp: ps_draw_def dest: length_rand_read)

section \<open>Properties\<close>

text \<open>C38: no nonce is used twice within an object. Whatever the source delivers and whatever the sizes of up to \<open>2 ^ 64\<close> reads, the chunks that the
  encrypting reader returns are sealed, the \<open>i\<close>-th under the object's nonce with the number \<open>i\<close> in it, the chunks are consecutive pieces from
  the beginning of the source, and the nonces are of the right length and pairwise distinct.\<close>

theorem chunk_nonces_unique:
  assumes "length nonce = NonceSize" and "length ps \<le> 2 ^ 64"
  shows "\<exists>xs. returned (read_run encryptingReader_Read ps (new_cipher_reader key nonce src)) = sealed_chunks key nonce 0 xs
    \<and> prefix (concat xs) (stream_left src)
    \<and> distinct (map (chunk_nonce nonce) [0..<length xs]) \<and> (\<forall>i. length (chunk_nonce nonce i) = NonceSize)"
proof -
  obtain xs where xs: "returned (read_run encryptingReader_Read ps (new_cipher_reader key nonce src)) = sealed_chunks key nonce 0 xs"
    "prefix (concat xs) (stream_left src)" "length xs \<le> length ps"
    using encrypt_run [of nonce "new_cipher_reader key nonce src" ps] assms(1) by (auto simp: new_cipher_reader_def)
  have "inj_on (chunk_nonce nonce) {0..<length xs}"
    using chunk_nonce_inj assms xs(3) by (intro inj_onI) (auto simp: NonceSize_def)
  then show ?thesis using xs(1,2) assms(1) by (auto simp: distinct_map)
qed

text \<open>C27: streaming encryption is undone by streaming decryption when the chunks stay whole. With a local master key, when every piece in which the source
  delivers the plaintext is nonempty, no longer than a chunk, and fits with its tag into the buffer of the reads of the encryption and without it into
  that of the decryption: the encrypting reader delivers one sealed chunk for each piece and then the end; and when a source delivers those chunks
  one by one, decryption with the metadata of the encryption ends and delivers the plaintext. (Without these conditions it fails:
  \<open>empty_read_ends_encryption\<close>, \<open>chunks_cut_differently_fail\<close>.)\<close>

theorem stream_chunks_roundtrip:
  assumes "AESGCMEncryptor_Encrypt (ps_draw rnd NonceSize) (NewAESGCMEncryptor (LocalKeyProvider mk rnd)) s
      \<lparr>st_pieces = xs, st_err = None, st_eager = eager\<rparr> n = (Ok (er, md), s')"
    and "\<forall>x \<in> set xs. chunk_fits (p - TagSize) x \<and> chunk_fits q x" and "TagSize < p" and "0 < q" and "enc_agree md md'"
  shows "\<exists>cs dr t'. read_pieces encryptingReader_Read p (Suc (length xs)) er = Some (cs, ErrEOF) \<and> length cs = length xs
    \<and> AESGCMEncryptor_Decrypt (NewAESGCMEncryptor (LocalKeyProvider mk rnd)) t \<lparr>st_pieces = cs, st_err = None, st_eager = eager'\<rparr> md' = (Ok dr, t')
    \<and> drain_with decryptingReader_Read (\<lambda>_. q) (Suc (length xs)) dr = Some (Ok (bytes_reader (concat xs)))"
proof -
  note opens = local_gcm.stream_opens [OF TrueI assms(1,5) TrueI ps_draw_length]
  from opens obtain key nonce where k: "length nonce = NonceSize" "er = new_cipher_reader key nonce \<lparr>st_pieces = xs, st_err = None, st_eager = eager\<rparr>"
    by blast
  let ?cs = "sealed_chunks key nonce 0 xs"
  from opens [of t "\<lparr>st_pieces = ?cs, st_err = None, st_eager = eager'\<rparr>"] k(2)
  obtain t' where d: "AESGCMEncryptor_Decrypt (NewAESGCMEncryptor (LocalKeyProvider mk rnd)) t \<lparr>st_pieces = ?cs, st_err = None, st_eager = eager'\<rparr> md'
      = (Ok (new_cipher_reader key nonce \<lparr>st_pieces = ?cs, st_err = None, st_eager = eager'\<rparr>), t')"
    by (auto simp: new_cipher_reader_def)
  have "\<forall>x \<in> set xs. chunk_fits (p - TagSize) x" "\<forall>x \<in> set xs. chunk_fits q x" using assms(2) by auto
  with encrypt_pieces [of xs p nonce False eager key 0] decrypt_pieces [of xs q nonce key 0 eager'] assms(3,4) k d
  show ?thesis unfolding new_cipher_reader_def by (metis length_sealed_chunks)
qed

text \<open>An object that is read back with other buffer sizes than it was written with cannot be decrypted. A plaintext of two bytes or more that was sealed
  as one chunk, read with a buffer one byte smaller, ends with an error, whatever the key: the reader opens a part of the chunk, and then the
  byte that is left.\<close>

theorem chunks_cut_differently_fail:
  assumes "2 \<le> length pt" and "length pt \<le> ChunkSize" and "length nonce = NonceSize"
  shows "\<exists>r. drain_with decryptingReader_Read (\<lambda>_. length pt - 1) 2
      (new_cipher_reader key nonce \<lparr>st_pieces = [gcm_seal key (chunk_nonce nonce 0) pt []], st_err = None, st_eager = eager\<rparr>) = Some (Ok r)
    \<and> rd_err r \<noteq> None"
proof -
  let ?c = "gcm_seal key (chunk_nonce nonce 0) pt []" and ?sz = "length pt - 1 + TagSize"
  have sz: "min ?sz (ChunkSize + TagSize) = ?sz" "TagSize + 1 \<le> ?sz" using assms(1,2) by simp_all
  have c: "length ?c = Suc ?sz" using assms(1) by (simp add: TagSize_def)
  then have "length (drop ?sz ?c) = Suc 0" by simp
  then obtain b where b: "drop ?sz ?c = [b]" by (metis length_0_conv length_Suc_conv)
  let ?st = "\<lambda>ps. \<lparr>st_pieces = ps, st_err = None, st_eager = eager\<rparr>"
  have first: "ReadAtLeast (?st [?c]) ?sz (TagSize + 1) = ((take ?sz ?c, None), ?st [[b]])"
    using read_part_chunk [of "TagSize + 1" ?sz ?c "[]" None eager] sz(2) c b by (metis add_gr_0 lessI zero_less_one)
  have second: "ReadAtLeast (?st [[b]]) ?sz (TagSize + 1) = (([b], Some ErrUnexpectedEOF), ?st [])"
    using sz(2)
    by (simp add: ReadAtLeast_def read_at_least.simps [of _ _ _ "[]"] read_at_least.simps [of _ _ _ "[b]"] stream_Read_def end_error_def TagSize_def)
  have short: "gcm_open key n [b] [] = None" for n by (simp add: gcm_open_def Let_def)
  show ?thesis
  proof (cases "gcm_open key (chunk_nonce nonce 0) (take ?sz ?c) []")
    case None
    then show ?thesis
      using first sz(1) assms(3)
      by (simp add: eval_nat_numeral new_cipher_reader_def decryptingReader_Read_def gcm_Open_def Let_def)
  next
    case (Some d)
    then show ?thesis
      using first second short sz(1) assms(3)
      by (simp add: eval_nat_numeral new_cipher_reader_def decryptingReader_Read_def gcm_Open_def Let_def)
  qed
qed

section \<open>Closing a reader (reader.go)\<close>

text \<open>A reader by its method \<^verbatim>\<open>Close\<close>: what it returns, if the reader has one.\<close>

record io_reader =
  io_stream :: stream
  io_Close :: "unit res option"

definition ReadCloser_Close :: "io_reader \<Rightarrow> unit res" where
  "ReadCloser_Close rc = (case io_Close rc of Some r \<Rightarrow> r | None \<Rightarrow> Ok ())"

definition WrapReader :: "io_reader \<Rightarrow> io_reader" where
  "WrapReader r = (if io_Close r \<noteq> None then r else \<lparr>io_stream = io_stream r, io_Close = Some (ReadCloser_Close r)\<rparr>)"

text \<open>A wrapped reader delivers the same bytes, can be closed, and closing it closes the reader inside; wrapping twice is wrapping once.\<close>

lemma WrapReader_closes:
  "io_stream (WrapReader r) = io_stream r" "io_Close (WrapReader r) = Some (ReadCloser_Close r)" "WrapReader (WrapReader r) = WrapReader r"
  by (auto simp: WrapReader_def ReadCloser_Close_def split: option.splits)

section \<open>What is not detected\<close>

text \<open>The end of an object is not authenticated: when the last chunks are removed, decryption succeeds with the shorter plaintext.\<close>

lemma truncated_stream_accepted:
  assumes "\<forall>x \<in> set xs. chunk_fits q x" and "length nonce = NonceSize" and "0 < q" and "n \<le> length xs"
  shows "drain_with decryptingReader_Read (\<lambda>_. q) (Suc n)
      (new_cipher_reader key nonce \<lparr>st_pieces = take n (sealed_chunks key nonce 0 xs), st_err = None, st_eager = eager\<rparr>)
    = Some (Ok (bytes_reader (concat (take n xs))))"
proof -
  have "\<forall>x \<in> set (take n xs). chunk_fits q x" using assms(1) in_set_takeD by metis
  from decrypt_pieces [OF this assms(2,3), of key 0 eager] assms(4) show ?thesis
    by (simp add: take_sealed_chunks new_cipher_reader_def min.absorb2 del: drain_with.simps)
qed

text \<open>A source that returns no bytes and no error in one call, which \<^verbatim>\<open>io.Reader\<close> allows, is taken to be at its end: the rest is not encrypted.\<close>

lemma empty_read_ends_encryption:
  assumes "TagSize < p" and "xs \<noteq> []"
  shows "read_pieces encryptingReader_Read p (Suc f) (new_cipher_reader key nonce \<lparr>st_pieces = [] # xs, st_err = None, st_eager = eager\<rparr>)
    = Some ([], ErrEOF)"
  using assms by (simp add: new_cipher_reader_def encryptingReader_Read_def stream_Read_def)

section \<open>Concrete runs\<close>

theorem chunk_nonces_unique_witness:
  "\<exists>xs. returned (read_run encryptingReader_Read [20, 20] (new_cipher_reader (replicate 32 5) (replicate 12 7)
        \<lparr>st_pieces = [[1, 2, 3], [4]], st_err = None, st_eager = False\<rparr>)) = sealed_chunks (replicate 32 5) (replicate 12 7) 0 xs
     \<and> prefix (concat xs) [1, 2, 3, 4] \<and> distinct (map (chunk_nonce (replicate 12 7)) [0..<length xs])"
  using chunk_nonces_unique [of "replicate 12 7" "[20, 20]" "replicate 32 5" "\<lparr>st_pieces = [[1, 2, 3], [4]], st_err = None, st_eager = False\<rparr>"]
  by (auto simp: NonceSize_def stream_left_def simp del: read_run.simps)

theorem chunks_cut_differently_fail_witness:
  "\<exists>r. drain_with decryptingReader_Read (\<lambda>_. 1) 2 (new_cipher_reader (replicate 32 5) (replicate 12 0)
       \<lparr>st_pieces = [gcm_seal (replicate 32 5) (chunk_nonce (replicate 12 0) 0) [72, 105] []], st_err = None, st_eager = False\<rparr>) = Some (Ok r)
     \<and> rd_err r \<noteq> None"
  using chunks_cut_differently_fail [of "[72, 105]" "replicate 12 0" "replicate 32 5" False]
  by (simp add: ChunkSize_def NonceSize_def del: drain_with.simps)

theorem stream_chunks_roundtrip_witness:
  "\<exists>er md s' cs dr t'. AESGCMEncryptor_Encrypt (ps_draw (\<lambda>_. Ok []) NonceSize) (NewAESGCMEncryptor (LocalKeyProvider (replicate 32 5) (\<lambda>_. Ok [])))
       demo_pstate \<lparr>st_pieces = [[1, 2], [3]], st_err = None, st_eager = True\<rparr> 3 = (Ok (er, md), s')
     \<and> read_pieces encryptingReader_Read 100 3 er = Some (cs, ErrEOF)
     \<and> AESGCMEncryptor_Decrypt (NewAESGCMEncryptor (LocalKeyProvider (replicate 32 5) (\<lambda>_. Ok []))) s'
         \<lparr>st_pieces = cs, st_err = None, st_eager = False\<rparr> md = (Ok dr, t')
     \<and> drain_with decryptingReader_Read (\<lambda>_. 50) 3 dr = Some (Ok (bytes_reader [1, 2, 3]))"
proof -
  define nonce where "nonce = pad_to NonceSize ([] :: bytes)"
  obtain c1 where "gcm_Seal (replicate 32 5) nonce (pad_to 32 []) [] = Ok c1"
    by (rule gcm.seal_obtain [of nonce]) (simp add: nonce_def)
  then have "\<exists>er md s'. AESGCMEncryptor_Encrypt (ps_draw (\<lambda>_. Ok []) NonceSize) (NewAESGCMEncryptor (LocalKeyProvider (replicate 32 5) (\<lambda>_. Ok [])))
       demo_pstate \<lparr>st_pieces = [[1, 2], [3]], st_err = None, st_eager = True\<rparr> 3 = (Ok (er, md), s')"
    by (simp add: AESGCMEncryptor_Encrypt_def NewAESGCMEncryptor_def LocalKeyProvider_def LocalKeyProvider_GenerateDEK_def ps_draw_def nonce_def
        valid_aes_key_def)
  then obtain er md s' where e: "AESGCMEncryptor_Encrypt (ps_draw (\<lambda>_. Ok []) NonceSize)
      (NewAESGCMEncryptor (LocalKeyProvider (replicate 32 5) (\<lambda>_. Ok []))) demo_pstate
      \<lparr>st_pieces = [[1, 2], [3]], st_err = None, st_eager = True\<rparr> 3 = (Ok (er, md), s')" by blast
  have f: "\<forall>x \<in> set [[1, 2], [3 :: byte]]. chunk_fits (100 - TagSize) x \<and> chunk_fits 50 x" "TagSize < 100" "0 < (50 :: nat)" "enc_agree md md"
    by (simp_all add: chunk_fits_def TagSize_def ChunkSize_def)
  have n: "Suc (length [[1, 2], [3 :: byte]]) = 3" "concat [[1, 2], [3]] = [1, 2, 3 :: byte]" by simp_all
  from stream_chunks_roundtrip [OF e f, of s' False] e show ?thesis unfolding n by blast
qed

end
