(* ===== verification/Storage_Stream.thy ===== *)
theory Storage_Stream
  imports Go_Stream "HOL-Library.Sublist"
begin

text \<open>
  \<^verbatim>\<open>internal/storage/stream.go\<close>: a reader that prefetches chunks in a goroutine, and a writer with a pool of goroutines. The
  goroutines, the clients and the channels are one state; an action is one step of one of them, so that a run is a list of actions and
  every interleaving is a run. A channel is the list of what is queued in it; a select takes any branch that is ready. What was put
  into the buffer pool are pointers, and taking one out panics, which ends the process when it happens in a goroutine.
  Proved: with reads that are multiples of the chunk size the reader delivers the bytes in order and completely, whatever the
  interleaving; the writer assembles its pieces in the right places. And how smaller reads go wrong.
\<close>

section \<open>The prefetching reader\<close>

datatype producer = Fetching | Sending bytes bool | Stopped

record stream_reader =
  sr_reader :: reader
  sr_buffer :: "bytes list"
  sr_closed :: bool
  sr_chunkSize :: nat
  sr_prefetchSize :: nat
  sr_err :: "go_error option"
  sr_done :: bool
  sr_ctx :: "go_error option"
  sr_pool :: nat
  sr_prod :: producer
  sr_read :: "(nat \<times> bytes) option"
  sr_rest :: "bytes option"
  sr_out :: "(bytes \<times> go_error option) list"
  sr_panic :: "string option"

definition NewStreamReader :: "reader \<Rightarrow> nat \<Rightarrow> nat \<Rightarrow> stream_reader" where
  "NewStreamReader reader chunkSize prefetchSize =
     \<lparr>sr_reader = reader, sr_buffer = [], sr_closed = False, sr_chunkSize = chunkSize, sr_prefetchSize = prefetchSize, sr_err = None,
      sr_done = False, sr_ctx = None, sr_pool = 0, sr_prod = Fetching, sr_read = None, sr_rest = None, sr_out = [], sr_panic = None\<rparr>"

text \<open>The goroutine returns: its deferred calls close the source and the channel.\<close>

definition sr_stop :: "stream_reader \<Rightarrow> stream_reader" where
  "sr_stop s = s\<lparr>sr_prod := Stopped, sr_closed := True\<rparr>"

definition sr_put :: "stream_reader \<Rightarrow> stream_reader" where
  "sr_put s = s\<lparr>sr_pool := Suc (sr_pool s)\<rparr>"

definition pool_panic :: string where
  "pool_panic = ''interface conversion: interface {} is *[]uint8, not []uint8''"

text \<open>One turn of the loop of \<^verbatim>\<open>prefetch\<close> up to the channel operation; \<open>pooled\<close> says whether the pool hands out a stored item.\<close>

definition prefetch :: "bool \<Rightarrow> stream_reader \<Rightarrow> stream_reader" where
  "prefetch pooled s =
     (if pooled \<and> 0 < sr_pool s then s\<lparr>sr_panic := Some pool_panic\<rparr>
      else
        case ReadFull (sr_reader s) (sr_chunkSize s) of (buf, err) \<Rightarrow>
          let s1 = s\<lparr>sr_reader := (sr_reader s)\<lparr>rd_data := drop (length buf) (rd_data (sr_reader s))\<rparr>\<rparr> in
          (case err of
             None \<Rightarrow> s1\<lparr>sr_prod := Sending buf False\<rparr>
           | Some e \<Rightarrow>
               if e = ErrEOF \<or> e = ErrUnexpectedEOF then (if buf \<noteq> [] then s1\<lparr>sr_prod := Sending buf True\<rparr> else sr_stop (sr_put s1))
               else sr_stop ((sr_put s1)\<lparr>sr_err := Some e\<rparr>)))"

text \<open>The chunk is handed to the channel; an unbuffered channel holds the one chunk that is being handed over.\<close>

definition sr_send :: "bytes \<Rightarrow> bool \<Rightarrow> stream_reader \<Rightarrow> stream_reader" where
  "sr_send buf fin s =
     (let s1 = s\<lparr>sr_buffer := sr_buffer s @ [buf], sr_prod := Fetching\<rparr> in if fin then sr_stop s1 else s1)"

definition finish_read :: "bytes \<Rightarrow> go_error option \<Rightarrow> stream_reader \<Rightarrow> stream_reader" where
  "finish_read bs e s = s\<lparr>sr_read := None, sr_out := sr_out s @ [(bs, e)]\<rparr>"

text \<open>One turn of the loop of \<^verbatim>\<open>Read\<close>, up to the point where what is left of a chunk (\<open>sr_rest\<close>) is queued again.\<close>

definition read_turn :: "nat \<Rightarrow> bytes \<Rightarrow> stream_reader \<Rightarrow> stream_reader option" where
  "read_turn p got s =
     (if p \<le> length got then Some (finish_read got None s)
      else
        case sr_buffer s of
          [] \<Rightarrow>
            if sr_closed s then
              Some (case sr_err s of
                      Some e \<Rightarrow> finish_read got (Some e) s
                    | None \<Rightarrow> finish_read got (if got \<noteq> [] then None else Some ErrEOF) s)
            else None
        | chunk # rest \<Rightarrow>
            let copied = take (p - length got) chunk; remainder = drop (p - length got) chunk;
                s1 = s\<lparr>sr_buffer := rest, sr_read := Some (p, got @ copied)\<rparr> in
            Some (if remainder = [] then sr_put s1 else s1\<lparr>sr_rest := Some remainder\<rparr>))"

text \<open>The remainder goes behind everything else, or is dropped when the channel is full; sending on a closed channel panics.\<close>

definition requeue :: "bytes \<Rightarrow> stream_reader \<Rightarrow> stream_reader" where
  "requeue remainder s =
     (if sr_closed s then s\<lparr>sr_panic := Some ''send on closed channel''\<rparr>
      else
        sr_put (s\<lparr>sr_rest := None,
                  sr_buffer := (if length (sr_buffer s) < sr_prefetchSize s then sr_buffer s @ [remainder] else sr_buffer s)\<rparr>))"

definition sr_close :: "stream_reader \<Rightarrow> stream_reader" where
  "sr_close s = (if sr_done s then s\<lparr>sr_panic := Some ''close of closed channel''\<rparr> else s\<lparr>sr_done := True\<rparr>)"

datatype sr_action =
    Prefetch bool | PrefetchCtx | PrefetchDone | Send | SendCtx | SendDone
  | StartRead nat | ReadTurn | Requeue | ReadCtx | Close | Cancel go_error

text \<open>A step of an action, if it is ready. \<^verbatim>\<open>Close\<close> then waits for the goroutine, which changes nothing.\<close>

fun sr_step :: "sr_action \<Rightarrow> stream_reader \<Rightarrow> stream_reader option" where
  "sr_step (Prefetch pooled) s =
     (if sr_prod s = Fetching \<and> sr_ctx s = None \<and> \<not> sr_done s then Some (prefetch pooled s) else None)"
| "sr_step PrefetchCtx s = (if sr_prod s = Fetching \<and> sr_ctx s \<noteq> None then Some (sr_stop (s\<lparr>sr_err := sr_ctx s\<rparr>)) else None)"
| "sr_step PrefetchDone s = (if sr_prod s = Fetching \<and> sr_done s then Some (sr_stop s) else None)"
| "sr_step Send s =
     (case sr_prod s of
        Sending buf fin \<Rightarrow> if length (sr_buffer s) < max 1 (sr_prefetchSize s) then Some (sr_send buf fin s) else None
      | _ \<Rightarrow> None)"
| "sr_step SendCtx s =
     (case sr_prod s of
        Sending buf fin \<Rightarrow> if sr_ctx s \<noteq> None then Some (sr_stop ((sr_put s)\<lparr>sr_err := sr_ctx s\<rparr>)) else None
      | _ \<Rightarrow> None)"
| "sr_step SendDone s =
     (case sr_prod s of Sending buf fin \<Rightarrow> if sr_done s then Some (sr_stop (sr_put s)) else None | _ \<Rightarrow> None)"
| "sr_step (StartRead p) s =
     (if sr_read s \<noteq> None then None
      else Some (case sr_err s of Some e \<Rightarrow> finish_read [] (Some e) s | None \<Rightarrow> s\<lparr>sr_read := Some (p, [])\<rparr>))"
| "sr_step ReadTurn s = (case sr_read s of Some (p, got) \<Rightarrow> if sr_rest s = None then read_turn p got s else None | None \<Rightarrow> None)"
| "sr_step Requeue s = map_option (\<lambda>remainder. requeue remainder s) (sr_rest s)"
| "sr_step ReadCtx s =
     (case sr_read s of
        Some (p, got) \<Rightarrow> if length got < p \<and> sr_rest s = None \<and> sr_ctx s \<noteq> None then Some (finish_read got (sr_ctx s) s) else None
      | None \<Rightarrow> None)"
| "sr_step Close s = Some (sr_close s)"
| "sr_step (Cancel e) s = Some (if sr_ctx s = None then s\<lparr>sr_ctx := Some e\<rparr> else s)"

text \<open>Nothing happens after a panic.\<close>

fun sr_run :: "sr_action list \<Rightarrow> stream_reader \<Rightarrow> stream_reader option" where
  "sr_run [] s = Some s"
| "sr_run (a # as) s = (if sr_panic s \<noteq> None then None else case sr_step a s of Some s' \<Rightarrow> sr_run as s' | None \<Rightarrow> None)"

section \<open>Reads of whole chunks\<close>

definition pending :: "stream_reader \<Rightarrow> bytes list" where
  "pending s = sr_buffer s @ (case sr_prod s of Sending b _ \<Rightarrow> [b] | _ \<Rightarrow> [])"

definition in_progress :: "stream_reader \<Rightarrow> bytes" where
  "in_progress s = (case sr_read s of Some (p, got) \<Rightarrow> got | None \<Rightarrow> [])"

definition delivered :: "stream_reader \<Rightarrow> bytes" where
  "delivered s = concat (map fst (sr_out s))"

text \<open>The invariant: delivered, read, queued and still to be fetched are the data, in this order; all that is queued is whole chunks, the last one
  of the data apart; a read in progress has whole chunks as long as there is more.\<close>

definition sr_data :: "bytes \<Rightarrow> stream_reader \<Rightarrow> bool" where
  "sr_data data s \<longleftrightarrow>
     (\<exists>rest. data = delivered s @ in_progress s @ concat (pending s) @ rest \<and> (sr_prod s \<noteq> Stopped \<longrightarrow> rest = rd_data (sr_reader s))
        \<and> (\<forall>b. sr_prod s = Sending b True \<longrightarrow> rest = []) \<and> (sr_prod s = Stopped \<and> sr_err s = None \<and> \<not> sr_done s \<longrightarrow> rest = []))"

definition sr_whole :: "stream_reader \<Rightarrow> bool" where
  "sr_whole s \<longleftrightarrow>
     (\<forall>c \<in> set (pending s). length c \<le> sr_chunkSize s) \<and> (\<forall>c \<in> set (butlast (pending s)). length c = sr_chunkSize s)
     \<and> (sr_prod s \<noteq> Stopped \<longrightarrow> (\<forall>c \<in> set (sr_buffer s). length c = sr_chunkSize s))
     \<and> (\<forall>b. sr_prod s = Sending b False \<longrightarrow> length b = sr_chunkSize s)"

definition sr_aligned :: "stream_reader \<Rightarrow> bool" where
  "sr_aligned s \<longleftrightarrow>
     (\<forall>p got. sr_read s = Some (p, got) \<longrightarrow>
        sr_chunkSize s dvd p \<and> (sr_chunkSize s dvd length got \<or> sr_buffer s = [] \<and> sr_prod s = Stopped))"

definition sr_inv :: "bytes \<Rightarrow> stream_reader \<Rightarrow> bool" where
  "sr_inv data s \<longleftrightarrow> sr_data data s \<and> sr_whole s \<and> sr_aligned s \<and> (sr_closed s \<longleftrightarrow> sr_prod s = Stopped) \<and> sr_rest s = None"

lemma sr_stop_simps [simp]:
  "sr_prod (sr_stop s) = Stopped" "sr_closed (sr_stop s)" "sr_buffer (sr_stop s) = sr_buffer s" "sr_read (sr_stop s) = sr_read s"
  "sr_out (sr_stop s) = sr_out s" "sr_chunkSize (sr_stop s) = sr_chunkSize s" "sr_err (sr_stop s) = sr_err s" "sr_done (sr_stop s) = sr_done s"
  "sr_reader (sr_stop s) = sr_reader s" "sr_panic (sr_stop s) = sr_panic s" "sr_rest (sr_stop s) = sr_rest s"
  by (simp_all add: sr_stop_def)

lemma sr_put_simps [simp]:
  "sr_prod (sr_put s) = sr_prod s" "sr_closed (sr_put s) = sr_closed s" "sr_buffer (sr_put s) = sr_buffer s" "sr_read (sr_put s) = sr_read s"
  "sr_out (sr_put s) = sr_out s" "sr_chunkSize (sr_put s) = sr_chunkSize s" "sr_err (sr_put s) = sr_err s" "sr_done (sr_put s) = sr_done s"
  "sr_reader (sr_put s) = sr_reader s" "sr_panic (sr_put s) = sr_panic s" "sr_rest (sr_put s) = sr_rest s"
  by (simp_all add: sr_put_def)

lemmas sr_inv_defs = sr_inv_def sr_data_def sr_whole_def sr_aligned_def pending_def in_progress_def delivered_def

lemma init_inv: "sr_inv (rd_data r) (NewStreamReader r chunk n)"
  by (simp add: sr_inv_defs NewStreamReader_def)

lemma stop_inv:
  assumes "sr_inv data s" and "sr_prod s \<noteq> Stopped" and "sr_err s' \<noteq> None \<or> sr_done s' \<or> sr_prod s = Fetching \<and> rd_data (sr_reader s) = []"
    and "sr_buffer s' = sr_buffer s" "sr_read s' = sr_read s" "sr_out s' = sr_out s" "sr_chunkSize s' = sr_chunkSize s" "sr_rest s' = sr_rest s"
  shows "sr_inv data (sr_stop s')"
proof -
  have full: "\<forall>c \<in> set (sr_buffer s). length c = sr_chunkSize s" using assms(1,2) by (auto simp: sr_inv_def sr_whole_def)
  have "sr_data data (sr_stop s')"
    using assms by (cases "sr_prod s") (auto simp: sr_inv_defs)
  moreover have "sr_whole (sr_stop s')" using full assms(4,7) by (auto simp: sr_whole_def pending_def dest: in_set_butlastD)
  moreover have "sr_aligned (sr_stop s')" using assms by (auto simp: sr_inv_def sr_aligned_def)
  ultimately show ?thesis using assms(1,8) by (simp add: sr_inv_def)
qed

lemma prefetch_inv:
  assumes inv: "sr_inv data s" and p: "sr_prod s = Fetching" and "sr_panic (prefetch pooled s) = None"
  shows "sr_inv data (prefetch pooled s)"
proof -
  obtain buf err where r: "ReadFull (sr_reader s) (sr_chunkSize s) = (buf, err)" by fastforce
  let ?s = "s\<lparr>sr_reader := (sr_reader s)\<lparr>rd_data := drop (length buf) (rd_data (sr_reader s))\<rparr>\<rparr>"
  have b: "rd_data (sr_reader s) = buf @ drop (length buf) (rd_data (sr_reader s))"
    and len: "length buf \<le> sr_chunkSize s" "err = None \<Longrightarrow> length buf = sr_chunkSize s" "err \<noteq> None \<Longrightarrow> drop (length buf) (rd_data (sr_reader s)) = []"
    using r by (auto simp: ReadFull_def split: if_splits option.splits)
  have full: "\<forall>c \<in> set (sr_buffer s). length c = sr_chunkSize s" using inv p by (auto simp: sr_inv_def sr_whole_def)
  have sending: "sr_inv data (?s\<lparr>sr_prod := Sending buf fin\<rparr>)" if "if fin then drop (length buf) (rd_data (sr_reader s)) = [] else length buf = sr_chunkSize s" for fin
    using inv p b len(1) full that by (auto simp: sr_inv_defs split: if_splits)
  have stopped: "sr_inv data (sr_stop ((sr_put ?s)\<lparr>sr_err := e\<rparr>))" if "e \<noteq> None \<or> buf = [] \<and> err = Some ErrEOF" for e
  proof (rule stop_inv [OF inv])
    have "rd_data (sr_reader s) = []" if "buf = []" "err = Some ErrEOF" using r that by (auto simp: ReadFull_def split: if_splits)
    then show "sr_err ((sr_put ?s)\<lparr>sr_err := e\<rparr>) \<noteq> None \<or> sr_done ((sr_put ?s)\<lparr>sr_err := e\<rparr>)
        \<or> sr_prod s = Fetching \<and> rd_data (sr_reader s) = []" using that p by auto
  qed (use p in simp_all)
  have eof: "sr_inv data (sr_stop (sr_put ?s))" if "buf = []" "err = Some e" for e
  proof (rule stop_inv [OF inv])
    have "rd_data (sr_reader s) = []" using r that by (auto simp: ReadFull_def split: if_splits)
    then show "sr_err (sr_put ?s) \<noteq> None \<or> sr_done (sr_put ?s) \<or> sr_prod s = Fetching \<and> rd_data (sr_reader s) = []" using p by simp
  qed (use p in simp_all)
  show ?thesis
    using assms(3) r sending [of False] sending [of True] stopped eof len(2,3) by (auto simp: prefetch_def Let_def split: option.splits)
qed

lemma finish_inv:
  assumes "sr_inv data s" and "in_progress s = got"
  shows "sr_inv data (finish_read got e s)"
  using assms by (simp add: sr_inv_defs finish_read_def)

lemma read_turn_inv:
  assumes inv: "sr_inv data s" and rd: "sr_read s = Some (p, got)" and t: "read_turn p got s = Some s'" and "0 < sr_chunkSize s"
  shows "sr_inv data s' \<and> sr_panic s' = sr_panic s"
proof (cases "length got < p \<and> sr_buffer s \<noteq> []")
  case False
  then obtain e where "s' = finish_read got e s"
    using t by (auto simp: read_turn_def split: list.splits option.splits if_splits)
  then show ?thesis using finish_inv [OF inv, of got e] rd by (simp add: in_progress_def finish_read_def)
next
  case True
  then obtain c cs where b: "sr_buffer s = c # cs" by (cases "sr_buffer s") auto
  let ?k = "sr_chunkSize s"
  have d: "?k dvd p" "?k dvd length got" using inv rd b by (auto simp: sr_inv_def sr_aligned_def)
  have c: "length c \<le> ?k" using inv b by (auto simp: sr_inv_def sr_whole_def pending_def)
  have "?k dvd p - length got" using d by (rule dvd_diff_nat)
  moreover have "0 < p - length got" using True by simp
  ultimately have "?k \<le> p - length got" by (rule dvd_imp_le)
  with c have "length c \<le> p - length got" by simp
  then have s': "s' = sr_put (s\<lparr>sr_buffer := cs, sr_read := Some (p, got @ c)\<rparr>)"
    using t True by (auto simp: read_turn_def b Let_def)
  have last: "length c = ?k \<or> cs = [] \<and> sr_prod s = Stopped"
    using inv b by (cases "sr_prod s") (auto simp: sr_inv_def sr_whole_def pending_def split: if_splits)
  have "sr_data data s'" using inv rd b unfolding s' by (simp add: sr_inv_defs)
  moreover have "sr_whole s'"
    using inv b unfolding s' by (auto simp: sr_inv_def sr_whole_def pending_def split: if_splits producer.splits)
  moreover have "sr_aligned s'" using d last unfolding s' by (auto simp: sr_aligned_def)
  ultimately show ?thesis using inv by (simp add: s' sr_inv_def)
qed

definition whole_read :: "nat \<Rightarrow> sr_action \<Rightarrow> bool" where
  "whole_read k a \<longleftrightarrow> (\<forall>p. a = StartRead p \<longrightarrow> k dvd p)"

lemma chunkSize_const:
  assumes "sr_step a s = Some s'"
  shows "sr_chunkSize s' = sr_chunkSize s"
  using assms
  by (cases a) (auto simp: prefetch_def sr_send_def sr_close_def requeue_def read_turn_def finish_read_def Let_def split: if_splits producer.splits option.splits list.splits prod.splits)

lemma send_inv:
  assumes "sr_inv data s" and "sr_prod s = Sending b fin"
  shows "sr_inv data (sr_send b fin s)"
proof (cases fin)
  case True
  then show ?thesis using assms by (auto simp: sr_send_def sr_inv_defs sr_stop_def Let_def)
next
  case False
  then show ?thesis using assms by (auto simp: sr_send_def sr_inv_defs Let_def)
qed

lemma inv_cong:
  assumes "sr_inv data s" and "sr_reader s' = sr_reader s" "sr_buffer s' = sr_buffer s" "sr_closed s' = sr_closed s"
    "sr_chunkSize s' = sr_chunkSize s" "sr_err s' = sr_err s" "sr_prod s' = sr_prod s" "sr_read s' = sr_read s" "sr_out s' = sr_out s"
    "sr_rest s' = sr_rest s" and "sr_done s \<longrightarrow> sr_done s'"
  shows "sr_inv data s'"
proof -
  have "pending s' = pending s" "in_progress s' = in_progress s" "delivered s' = delivered s"
    using assms by (simp_all add: pending_def in_progress_def delivered_def)
  note same = this assms(2-10)
  have "sr_data data s'" using assms(1,11) unfolding sr_inv_def sr_data_def same by blast
  moreover have "sr_whole s'" "sr_aligned s'" using assms(1) unfolding sr_inv_def sr_whole_def sr_aligned_def same by blast+
  ultimately show ?thesis using assms(1) unfolding sr_inv_def same by blast
qed

lemma start_inv:
  assumes "sr_inv data s" and "sr_read s = None" and "sr_chunkSize s dvd p"
  shows "sr_inv data (s\<lparr>sr_read := Some (p, [])\<rparr>)"
proof -
  have "sr_data data (s\<lparr>sr_read := Some (p, [])\<rparr>)" using assms(1,2) by (simp add: sr_inv_def sr_data_def delivered_def in_progress_def pending_def)
  moreover have "sr_whole (s\<lparr>sr_read := Some (p, [])\<rparr>)" using assms(1) by (simp add: sr_inv_def sr_whole_def pending_def)
  ultimately show ?thesis using assms by (simp add: sr_inv_def sr_aligned_def)
qed

lemma step_inv:
  assumes inv: "sr_inv data s" and st: "sr_step a s = Some s'" and "whole_read (sr_chunkSize s) a" and k: "0 < sr_chunkSize s"
    and "sr_panic s = None"
  shows "sr_inv data s' \<and> sr_panic s' \<noteq> Some ''send on closed channel''"
proof (cases a)
  case (Prefetch pooled)
  then have p: "sr_prod s = Fetching" and s': "s' = prefetch pooled s" using st by (auto split: if_splits)
  show ?thesis
  proof (cases "pooled \<and> 0 < sr_pool s")
    case True
    then show ?thesis by (auto simp: s' prefetch_def pool_panic_def intro!: inv_cong [OF inv])
  next
    case False
    then have "sr_panic s' = None"
      using assms(5) by (simp add: s' prefetch_def Let_def split: prod.splits option.splits)
    then show ?thesis using prefetch_inv [OF inv p] s' by simp
  qed
next
  case PrefetchCtx
  then have "sr_inv data s'" using st by (auto split: if_splits intro!: stop_inv [OF inv])
  then show ?thesis using PrefetchCtx st assms(5) by (auto split: if_splits)
next
  case PrefetchDone
  then have "sr_inv data s'" using st by (auto split: if_splits intro!: stop_inv [OF inv])
  then show ?thesis using PrefetchDone st assms(5) by (auto split: if_splits)
next
  case Send
  then show ?thesis using st send_inv [OF inv] assms(5) by (auto simp: sr_send_def Let_def split: producer.splits if_splits)
next
  case SendCtx
  then have "sr_inv data s'" using st by (auto split: if_splits producer.splits intro!: stop_inv [OF inv])
  then show ?thesis using SendCtx st assms(5) by (auto split: if_splits producer.splits)
next
  case SendDone
  then have "sr_inv data s'" using st by (auto split: if_splits producer.splits intro!: stop_inv [OF inv])
  then show ?thesis using SendDone st assms(5) by (auto split: if_splits producer.splits)
next
  case (StartRead p)
  show ?thesis
  proof (cases "sr_err s")
    case None
    then have "sr_read s = None" "s' = s\<lparr>sr_read := Some (p, [])\<rparr>" "sr_chunkSize s dvd p"
      using StartRead st assms(3) by (cases "sr_read s"; simp add: whole_read_def)+
    then show ?thesis using start_inv [OF inv] assms(5) by simp
  next
    case (Some e)
    then show ?thesis
      using StartRead st finish_inv [OF inv, of "[]" "Some e"] assms(5) by (cases "sr_read s") (auto simp: in_progress_def finish_read_def)
  qed
next
  case ReadTurn
  then show ?thesis using st read_turn_inv [OF inv _ _ k] assms(5) by (auto split: option.splits if_splits)
next
  case Requeue
  then show ?thesis using st inv by (simp add: sr_inv_def)
next
  case ReadCtx
  then obtain e got where "s' = finish_read got e s" "in_progress s = got"
    using st by (auto simp: in_progress_def split: option.splits if_splits)
  then show ?thesis using finish_inv [OF inv] assms(5) by (simp add: finish_read_def)
next
  case Close
  then show ?thesis using st assms(5) by (cases "sr_done s") (auto simp: sr_close_def intro!: inv_cong [OF inv])
next
  case (Cancel e)
  then show ?thesis using st assms(5) by (cases "sr_ctx s") (auto intro!: inv_cong [OF inv])
qed

text \<open>Without cancellation an end of file is only reported when everything was delivered.\<close>

definition sr_calm :: "bytes \<Rightarrow> stream_reader \<Rightarrow> bool" where
  "sr_calm data s \<longleftrightarrow>
     sr_ctx s = None \<and> \<not> sr_done s \<and> sr_err s \<noteq> Some ErrEOF \<and> (([], Some ErrEOF) \<in> set (sr_out s) \<longrightarrow> delivered s = data)"

definition calm_action :: "sr_action \<Rightarrow> bool" where
  "calm_action a \<longleftrightarrow> a \<noteq> Close \<and> (\<forall>e. a \<noteq> Cancel e)"

lemma inv_prefix: "sr_inv data s \<Longrightarrow> prefix (delivered s) data"
  by (auto simp: sr_inv_def sr_data_def)

lemma step_out:
  assumes "sr_step a s = Some s'"
  obtains "sr_out s' = sr_out s" | bs e where "sr_out s' = sr_out s @ [(bs, e)]"
    "e = Some ErrEOF \<Longrightarrow> sr_ctx s = None \<Longrightarrow> sr_err s \<noteq> Some ErrEOF \<Longrightarrow> sr_buffer s = [] \<and> sr_closed s \<and> sr_err s = None \<and> in_progress s = []"
  using assms
  by (cases a)
     (auto simp: prefetch_def sr_send_def sr_close_def requeue_def read_turn_def finish_read_def in_progress_def Let_def
        split: if_splits producer.splits option.splits list.splits prod.splits)

lemma read_turn_flags:
  "read_turn p got s = Some s' \<Longrightarrow> sr_ctx s' = sr_ctx s \<and> sr_done s' = sr_done s \<and> sr_err s' = sr_err s"
  by (auto simp: read_turn_def finish_read_def sr_put_def Let_def split: if_splits option.splits list.splits)

lemma prefetch_flags:
  "sr_ctx (prefetch pooled s) = sr_ctx s \<and> sr_done (prefetch pooled s) = sr_done s"
  "sr_err s \<noteq> Some ErrEOF \<Longrightarrow> sr_err (prefetch pooled s) \<noteq> Some ErrEOF"
  by (auto simp: prefetch_def sr_stop_def sr_put_def Let_def split: option.splits prod.splits)

lemma step_flags:
  assumes "sr_step a s = Some s'" and "calm_action a" and "sr_ctx s = None" and "\<not> sr_done s" and "sr_err s \<noteq> Some ErrEOF"
  shows "sr_ctx s' = None \<and> \<not> sr_done s' \<and> sr_err s' \<noteq> Some ErrEOF"
proof (cases a)
  case (Prefetch pooled)
  then show ?thesis using assms by (auto simp: prefetch_flags split: if_splits)
next
  case ReadTurn
  then obtain p got where "read_turn p got s = Some s'" using assms(1) by (auto split: option.splits if_splits)
  from read_turn_flags [OF this] show ?thesis using assms(3-5) by simp
next
  case (StartRead p)
  then show ?thesis using assms by (auto simp: finish_read_def split: option.splits if_splits)
next
  case PrefetchCtx
  then show ?thesis using assms by (simp add: calm_action_def split: if_splits)
next
  case PrefetchDone
  then show ?thesis using assms by (simp add: calm_action_def split: if_splits)
next
  case Send
  then obtain buf fin where "s' = sr_send buf fin s" using assms(1) by (auto split: producer.splits if_splits)
  then show ?thesis using assms(3-5) by (simp add: sr_send_def sr_stop_def Let_def)
next
  case SendCtx
  then show ?thesis using assms by (simp add: calm_action_def split: producer.splits if_splits)
next
  case SendDone
  then show ?thesis using assms by (simp add: calm_action_def split: producer.splits if_splits)
next
  case Requeue
  then obtain r where "s' = requeue r s" using assms(1) by auto
  then show ?thesis using assms(3-5) by (simp add: requeue_def sr_put_def)
next
  case ReadCtx
  then show ?thesis using assms by (simp add: calm_action_def split: option.splits prod.splits if_splits)
qed (use assms(2) in \<open>simp_all add: calm_action_def\<close>)

lemma step_calm:
  assumes "sr_inv data s" and "sr_inv data s'" and "sr_calm data s" and st: "sr_step a s = Some s'" and "calm_action a"
  shows "sr_calm data s'"
proof -
  have "sr_ctx s' = None \<and> \<not> sr_done s' \<and> sr_err s' \<noteq> Some ErrEOF"
    using step_flags [OF st assms(5)] assms(3) by (simp add: sr_calm_def)
  moreover have "delivered s' = data" if "([], Some ErrEOF) \<in> set (sr_out s')"
    using st
  proof (cases rule: step_out)
    case 1
    then show ?thesis using that assms(3) by (simp add: sr_calm_def delivered_def)
  next
    case (2 bs e)
    show ?thesis
    proof (cases "e = Some ErrEOF")
      case True
      with 2(2) assms(3) have q: "sr_buffer s = []" "sr_closed s" "sr_err s = None" "in_progress s = []" by (auto simp: sr_calm_def)
      then have "data = delivered s" using assms(1,3) by (auto simp: sr_inv_def sr_data_def pending_def sr_calm_def)
      with inv_prefix [OF assms(2)] show ?thesis by (auto simp: delivered_def 2(1) prefix_def)
    next
      case False
      then have "delivered s = data" using that 2(1) assms(3) by (auto simp: sr_calm_def)
      with inv_prefix [OF assms(2)] show ?thesis by (auto simp: delivered_def 2(1) prefix_def)
    qed
  qed
  ultimately show ?thesis by (simp add: sr_calm_def)
qed

lemma run_inv:
  assumes "sr_inv data s" and "sr_run as s = Some s'" and "\<forall>a \<in> set as. whole_read (sr_chunkSize s) a" and "0 < sr_chunkSize s"
    and "sr_panic s \<noteq> Some ''send on closed channel''"
  shows "sr_inv data s' \<and> sr_panic s' \<noteq> Some ''send on closed channel'' \<and> (sr_calm data s \<and> (\<forall>a \<in> set as. calm_action a) \<longrightarrow> sr_calm data s')"
  using assms
proof (induction as arbitrary: s)
  case (Cons a as)
  then obtain s1 where s1: "sr_panic s = None" "sr_step a s = Some s1" "sr_run as s1 = Some s'" by (auto split: if_splits option.splits)
  have i: "sr_inv data s1 \<and> sr_panic s1 \<noteq> Some ''send on closed channel''" using step_inv [OF Cons.prems(1) s1(2) _ Cons.prems(4) s1(1)] Cons.prems(3) by simp
  then show ?case
    using Cons.IH [of s1] Cons.prems(1,3,4) s1(2,3) chunkSize_const [OF s1(2)] step_calm [OF Cons.prems(1) _ _ s1(2)] by auto
qed simp

definition read_eof :: "stream_reader \<Rightarrow> bool" where
  "read_eof s \<longleftrightarrow> ([], Some ErrEOF) \<in> set (sr_out s)"

text \<open>C21: A client of the prefetching reader that reads whole chunks at a time gets the bytes of the source in their order, whatever the
  interleaving of the goroutine, the client, the cancellation of the context and \<^verbatim>\<open>Close\<close>: what was delivered is always a prefix of the
  source, sending on the closed channel does not happen, and without a cancellation and a \<^verbatim>\<open>Close\<close> a read reports the end of the file only when
  everything has been delivered.\<close>

theorem prefetched_in_order:
  assumes "sr_run as (NewStreamReader r chunk n) = Some s" and "0 < chunk" and "\<forall>a \<in> set as. whole_read chunk a"
  shows "prefix (delivered s) (rd_data r) \<and> sr_panic s \<noteq> Some ''send on closed channel''
    \<and> ((\<forall>a \<in> set as. calm_action a) \<and> read_eof s \<longrightarrow> delivered s = rd_data r)"
proof -
  let ?s = "NewStreamReader r chunk n"
  have "sr_calm (rd_data r) ?s" by (simp add: sr_calm_def NewStreamReader_def)
  moreover have "sr_chunkSize ?s = chunk" "sr_panic ?s = None" by (simp_all add: NewStreamReader_def)
  ultimately show ?thesis
    using run_inv [OF init_inv assms(1)] assms(2,3) inv_prefix by (auto simp: sr_calm_def read_eof_def)
qed

lemmas sr_eval = NewStreamReader_def prefetch_def ReadFull_def sr_send_def sr_stop_def sr_put_def read_turn_def requeue_def finish_read_def Let_def

definition two_chunks :: reader where
  "two_chunks = \<lparr>rd_data = [1, 2, 3], rd_err = None\<rparr>"

definition chunk_reads :: "sr_action list" where
  "chunk_reads = [Prefetch False, Send, StartRead 2, ReadTurn, Prefetch False, ReadTurn, Send, StartRead 2, ReadTurn, ReadTurn, StartRead 2, ReadTurn]"

theorem prefetched_in_order_witness:
  "\<exists>s. sr_run chunk_reads (NewStreamReader two_chunks 2 4) = Some s
      \<and> sr_out s = [([1, 2], None), ([3], None), ([], Some ErrEOF)] \<and> delivered s = rd_data two_chunks"
proof -
  have "map_option sr_out (sr_run chunk_reads (NewStreamReader two_chunks 2 4)) = Some [([1, 2], None), ([3], None), ([], Some ErrEOF)]"
    by (simp add: two_chunks_def chunk_reads_def sr_eval)
  then obtain s where s: "sr_run chunk_reads (NewStreamReader two_chunks 2 4) = Some s"
    and out: "sr_out s = [([1, 2], None), ([3], None), ([], Some ErrEOF)]" by (auto simp only: map_option_eq_Some)
  have "\<forall>a \<in> set chunk_reads. whole_read 2 a \<and> calm_action a" by (simp add: chunk_reads_def whole_read_def calm_action_def)
  then have "delivered s = rd_data two_chunks" using prefetched_in_order [OF s] out by (simp add: read_eof_def)
  with s out show ?thesis by blast
qed

section \<open>Reads that are not whole chunks\<close>

text \<open>A remainder is queued behind the chunks that were fetched meanwhile: one byte at a time, \<open>1 2 3 4\<close> comes out as \<open>1 3 2 4\<close>.\<close>

definition four_bytes :: reader where
  "four_bytes = \<lparr>rd_data = [1, 2, 3, 4], rd_err = None\<rparr>"

definition byte_reads :: "sr_action list" where
  "byte_reads = concat (replicate 2 [StartRead 1, ReadTurn, Requeue, ReadTurn]) @ concat (replicate 2 [StartRead 1, ReadTurn, ReadTurn])"

text \<open>A client that reads less than a chunk at a time gets the bytes in the wrong order, with no error: what is left of a chunk
  goes back into the channel behind the chunks the goroutine has fetched meanwhile, so that \<open>1 2 3 4\<close> in chunks of two is read as \<open>1 3 2 4\<close>.\<close>

theorem small_reads_reorder:
  "map_option sr_out (sr_run ([Prefetch False, Send, Prefetch False, Send] @ byte_reads) (NewStreamReader four_bytes 2 4))
     = Some [([1], None), ([3], None), ([2], None), ([4], None)]"
  by (simp add: four_bytes_def byte_reads_def sr_eval eval_nat_numeral)

text \<open>When the goroutine is through, the same remainder is sent on the closed channel and the client panics.\<close>

lemma small_read_at_end_panics:
  "map_option sr_panic (sr_run ([Prefetch False, Send, Prefetch False, Send, Prefetch False, StartRead 1, ReadTurn, Requeue]) (NewStreamReader four_bytes 2 4))
     = Some (Some ''send on closed channel'')"
  by (simp add: four_bytes_def sr_eval)

text \<open>And when the channel is full the remainder is lost.\<close>

lemma small_read_of_full_channel_loses:
  "map_option (\<lambda>s. (sr_out s, sr_buffer s))
     (sr_run [Prefetch False, StartRead 1, Send, ReadTurn, Requeue, ReadTurn] (NewStreamReader four_bytes 2 0)) = Some ([([1], None)], [])"
  by (simp add: four_bytes_def sr_eval)

text \<open>A chunk that was read goes back into the pool as a pointer; the next turn of the goroutine may be handed it, and panics.\<close>

lemma pooled_chunk_panics:
  "map_option sr_panic
     (sr_run [Prefetch False, Send, StartRead 2, ReadTurn, Prefetch True] (NewStreamReader four_bytes 2 4)) = Some (Some pool_panic)"
  by (simp add: four_bytes_def sr_eval)

end
