(* ===== verification/Storage_Writer.thy ===== *)
theory Storage_Writer
  imports Storage_Stream "HOL-Library.Multiset"
begin

text \<open>
  The writer of \<^verbatim>\<open>internal/storage/stream.go\<close>: \<^verbatim>\<open>Write\<close> gives every piece its offset under the lock and queues it, a pool of goroutines takes
  the pieces from the queue and writes them with the caller's function, and errors come back through a channel to a later \<^verbatim>\<open>Write\<close> or to
  \<^verbatim>\<open>Close\<close>. As in \<^verbatim>\<open>Storage_Stream\<close> an action is one step of one goroutine. The caller's function is an argument and what it writes to is
  the field \<open>pw_target\<close>. Proved: when no \<^verbatim>\<open>Write\<close> and not \<^verbatim>\<open>Close\<close> has returned an error, the target holds the pieces one after the other, whatever
  the order in which the goroutines wrote them.
\<close>

section \<open>The writer and its goroutines\<close>

record write_request =
  wr_data :: bytes
  wr_offset :: "64 word"

text \<open>The calls of \<^verbatim>\<open>Write\<close> in progress are \<open>pw_checked\<close> (past the check for errors) and \<open>pw_pending\<close> (at the select that sends); \<open>pw_busy\<close> are
  the requests the workers hold. \<open>pw_history\<close> are the pieces in the order in which they got their offsets.\<close>

record 's parallel_writer =
  pw_parallelism :: nat
  pw_offset :: "64 word"
  pw_errChan :: "go_error list"
  pw_writeChan :: "write_request list"
  pw_closed :: bool
  pw_ctx :: "go_error option"
  pw_pool :: nat
  pw_checked :: "bytes list"
  pw_pending :: "write_request list"
  pw_busy :: "write_request list"
  pw_target :: 's
  pw_history :: "bytes list"
  pw_results :: "(nat \<times> go_error option) list"
  pw_return :: "go_error option option"
  pw_panic :: "string option"

definition NewParallelWriter :: "nat \<Rightarrow> 's \<Rightarrow> 's parallel_writer" where
  "NewParallelWriter parallelism target =
     \<lparr>pw_parallelism = parallelism, pw_offset = 0, pw_errChan = [], pw_writeChan = [], pw_closed = False, pw_ctx = None, pw_pool = 0,
      pw_checked = [], pw_pending = [], pw_busy = [], pw_target = target, pw_history = [], pw_results = [], pw_return = None, pw_panic = None\<rparr>"

definition remove_at :: "nat \<Rightarrow> 'a list \<Rightarrow> 'a list" where
  "remove_at i xs = take i xs @ drop (Suc i) xs"

definition pw_result :: "nat \<Rightarrow> go_error option \<Rightarrow> 's parallel_writer \<Rightarrow> 's parallel_writer" where
  "pw_result n e s = s\<lparr>pw_results := pw_results s @ [(n, e)]\<rparr>"

definition pw_put :: "'s parallel_writer \<Rightarrow> 's parallel_writer" where
  "pw_put s = s\<lparr>pw_pool := Suc (pw_pool s)\<rparr>"

text \<open>The offset is taken under the lock, then a buffer is taken from the pool: a stored item is a pointer and the conversion panics.\<close>

definition take_offset :: "nat \<Rightarrow> bool \<Rightarrow> 's parallel_writer \<Rightarrow> 's parallel_writer" where
  "take_offset i pooled s =
     (let p = pw_checked s ! i;
          s1 = s\<lparr>pw_checked := remove_at i (pw_checked s), pw_offset := pw_offset s + of_nat (length p), pw_history := pw_history s @ [p]\<rparr> in
      if pooled \<and> 0 < pw_pool s then s1\<lparr>pw_panic := Some pool_panic\<rparr>
      else s1\<lparr>pw_pending := pw_pending s @ [\<lparr>wr_data = p, wr_offset = pw_offset s\<rparr>]\<rparr>)"

text \<open>The select of \<^verbatim>\<open>Write\<close>: the request is sent, the context is done, or an error has come in.\<close>

definition send_request :: "nat \<Rightarrow> 's parallel_writer \<Rightarrow> 's parallel_writer option" where
  "send_request i s =
     (let req = pw_pending s ! i; s1 = s\<lparr>pw_pending := remove_at i (pw_pending s)\<rparr> in
      if pw_closed s then Some (s1\<lparr>pw_panic := Some ''send on closed channel''\<rparr>)
      else if length (pw_writeChan s) < pw_parallelism s * 2
        then Some (pw_result (length (wr_data req)) None (s1\<lparr>pw_writeChan := pw_writeChan s @ [req]\<rparr>))
      else None)"

definition fail_request :: "nat \<Rightarrow> go_error \<Rightarrow> 's parallel_writer \<Rightarrow> 's parallel_writer" where
  "fail_request i e s = pw_put (pw_result 0 (Some e) (s\<lparr>pw_pending := remove_at i (pw_pending s)\<rparr>))"

text \<open>The worker writes its request; an error is dropped when the channel is full.\<close>

definition work ::
  "(bytes \<Rightarrow> 64 word \<Rightarrow> 's \<Rightarrow> 's \<times> go_error option) \<Rightarrow> nat \<Rightarrow> 's parallel_writer \<Rightarrow> 's parallel_writer" where
  "work writeFunc i s =
     (let req = pw_busy s ! i in
      case writeFunc (wr_data req) (wr_offset req) (pw_target s) of (target, err) \<Rightarrow>
        pw_put (s\<lparr>pw_busy := remove_at i (pw_busy s), pw_target := target,
                  pw_errChan := (case err of
                      Some e \<Rightarrow> if length (pw_errChan s) < pw_parallelism s then pw_errChan s @ [e] else pw_errChan s
                    | None \<Rightarrow> pw_errChan s)\<rparr>))"

definition close_return :: "'s parallel_writer \<Rightarrow> 's parallel_writer" where
  "close_return s =
     (case pw_errChan s of
        [] \<Rightarrow> s\<lparr>pw_return := Some None\<rparr>
      | e # es \<Rightarrow> s\<lparr>pw_errChan := es, pw_return := Some (Some e)\<rparr>)"

datatype pw_action =
    WriteCheck bytes | TakeOffset nat bool | SendRequest nat | SendCancelled nat | SendFailed nat
  | TakeRequest | Work nat | CloseChan | CloseReturn | CancelCtx go_error

fun pw_step :: "(bytes \<Rightarrow> 64 word \<Rightarrow> 's \<Rightarrow> 's \<times> go_error option) \<Rightarrow> pw_action \<Rightarrow> 's parallel_writer \<Rightarrow> 's parallel_writer option" where
  "pw_step writeFunc (WriteCheck p) s =
     Some (case pw_errChan s of
             [] \<Rightarrow> s\<lparr>pw_checked := pw_checked s @ [p]\<rparr>
           | e # es \<Rightarrow> pw_result 0 (Some e) (s\<lparr>pw_errChan := es\<rparr>))"
| "pw_step writeFunc (TakeOffset i pooled) s = (if i < length (pw_checked s) then Some (take_offset i pooled s) else None)"
| "pw_step writeFunc (SendRequest i) s = (if i < length (pw_pending s) then send_request i s else None)"
| "pw_step writeFunc (SendCancelled i) s =
     (if i < length (pw_pending s) then (case pw_ctx s of Some e \<Rightarrow> Some (fail_request i e s) | None \<Rightarrow> None) else None)"
| "pw_step writeFunc (SendFailed i) s =
     (if i < length (pw_pending s) then (case pw_errChan s of e # es \<Rightarrow> Some (fail_request i e (s\<lparr>pw_errChan := es\<rparr>)) | [] \<Rightarrow> None) else None)"
| "pw_step writeFunc TakeRequest s =
     (case pw_writeChan s of
        req # reqs \<Rightarrow>
          if length (pw_busy s) < pw_parallelism s then Some (s\<lparr>pw_writeChan := reqs, pw_busy := pw_busy s @ [req]\<rparr>) else None
      | [] \<Rightarrow> None)"
| "pw_step writeFunc (Work i) s = (if i < length (pw_busy s) then Some (work writeFunc i s) else None)"
| "pw_step writeFunc CloseChan s =
     Some (if pw_closed s then s\<lparr>pw_panic := Some ''close of closed channel''\<rparr> else s\<lparr>pw_closed := True\<rparr>)"
| "pw_step writeFunc CloseReturn s =
     (if pw_closed s \<and> pw_return s = None \<and> pw_writeChan s = [] \<and> pw_busy s = [] then Some (close_return s) else None)"
| "pw_step writeFunc (CancelCtx e) s = Some (if pw_ctx s = None then s\<lparr>pw_ctx := Some e\<rparr> else s)"

fun pw_run :: "(bytes \<Rightarrow> 64 word \<Rightarrow> 's \<Rightarrow> 's \<times> go_error option) \<Rightarrow> pw_action list \<Rightarrow> 's parallel_writer \<Rightarrow> 's parallel_writer option" where
  "pw_run writeFunc [] s = Some s"
| "pw_run writeFunc (a # as) s =
     (if pw_panic s \<noteq> None then None else case pw_step writeFunc a s of Some s' \<Rightarrow> pw_run writeFunc as s' | None \<Rightarrow> None)"

section \<open>What positional writes add up to\<close>

definition write_at :: "bytes \<Rightarrow> nat \<Rightarrow> (nat \<rightharpoonup> 8 word) \<Rightarrow> nat \<rightharpoonup> 8 word" where
  "write_at d off m = (\<lambda>i. if off \<le> i \<and> i < off + length d then Some (d ! (i - off)) else m i)"

definition write_request_at :: "write_request \<Rightarrow> (nat \<rightharpoonup> 8 word) \<Rightarrow> nat \<rightharpoonup> 8 word" where
  "write_request_at req = write_at (wr_data req) (unat (wr_offset req))"

definition covers :: "write_request \<Rightarrow> nat \<Rightarrow> bool" where
  "covers req i \<longleftrightarrow> unat (wr_offset req) \<le> i \<and> i < unat (wr_offset req) + length (wr_data req)"

text \<open>The requests for pieces that get their offsets in this order.\<close>

fun requests :: "64 word \<Rightarrow> bytes list \<Rightarrow> write_request list" where
  "requests off [] = []"
| "requests off (d # ds) = \<lparr>wr_data = d, wr_offset = off\<rparr> # requests (off + of_nat (length d)) ds"

lemma requests_snoc:
  "requests off (ds @ [d]) = requests off ds @ [\<lparr>wr_data = d, wr_offset = off + of_nat (length (concat ds))\<rparr>]"
  by (induction ds arbitrary: off) (simp_all add: algebra_simps)

text \<open>Writes that agree on every byte they share can be done in any order.\<close>

lemma agreeing_writes:
  assumes "\<forall>req \<in> set reqs. \<forall>i. covers req i \<longrightarrow> wr_data req ! (i - unat (wr_offset req)) = F i"
  shows "fold write_request_at reqs m i = (if \<exists>req \<in> set reqs. covers req i then Some (F i) else m i)"
  using assms by (induction reqs arbitrary: m) (auto simp: write_request_at_def write_at_def covers_def)

lemma unat_offset: "k + n < 2 ^ 64 \<Longrightarrow> unat (of_nat k :: 64 word) = k"
  by (simp add: unat_of_nat)

lemma requests_cover:
  assumes "k + length (concat ds) < 2 ^ 64"
  shows "(\<exists>req \<in> set (requests (of_nat k) ds). covers req i) \<longleftrightarrow> k \<le> i \<and> i < k + length (concat ds)"
  using assms
proof (induction ds arbitrary: k)
  case (Cons d ds)
  then show ?case
    using Cons.IH [of "k + length d"] unat_offset [OF Cons.prems] by (auto simp: covers_def)
qed simp

lemma requests_data:
  assumes "k + length (concat ds) < 2 ^ 64" and "req \<in> set (requests (of_nat k) ds)" and "covers req i"
  shows "wr_data req ! (i - unat (wr_offset req)) = concat ds ! (i - k)"
  using assms
proof (induction ds arbitrary: k)
  case (Cons d ds)
  let ?k = "k + length d"
  have k: "unat (of_nat k :: 64 word) = k" using unat_offset [OF Cons.prems(1)] .
  have n: "?k + length (concat ds) < 2 ^ 64" using Cons.prems(1) by simp
  show ?case
  proof (cases "req \<in> set (requests (of_nat ?k) ds)")
    case True
    then have "?k \<le> i" using requests_cover [OF n] Cons.prems(3) by blast
    then have "\<not> i - k < length d" and "i - k - length d = i - ?k" by simp_all
    then show ?thesis using Cons.IH [OF n True Cons.prems(3)] by (simp add: nth_append)
  next
    case False
    then have "req = \<lparr>wr_data = d, wr_offset = of_nat k\<rparr>" using Cons.prems(2) by simp
    then show ?thesis using Cons.prems(3) k by (auto simp: covers_def nth_append)
  qed
qed simp

lemma requests_assemble:
  assumes "mset reqs = mset (requests 0 ds)" and "length (concat ds) < 2 ^ 63"
  shows "fold write_request_at reqs m = write_at (concat ds) 0 m"
proof
  fix i
  have s: "set reqs = set (requests 0 ds)" using assms(1) by (rule mset_eq_setD)
  have "0 + length (concat ds) < 2 ^ 64" using assms(2) by simp
  note c = requests_cover [OF this, unfolded of_nat_0] requests_data [OF this, unfolded of_nat_0 diff_zero]
  show "fold write_request_at reqs m i = write_at (concat ds) 0 m i"
    using agreeing_writes [of reqs "\<lambda>i. concat ds ! i" m i] c by (simp add: s write_at_def)
qed

section \<open>Every interleaving assembles the pieces\<close>

definition pw_ok :: "'s parallel_writer \<Rightarrow> bool" where
  "pw_ok s \<longleftrightarrow> pw_errChan s = [] \<and> (\<forall>(n, e) \<in> set (pw_results s). e = None) \<and> (\<forall>e. pw_return s \<noteq> Some (Some e)) \<and> pw_panic s = None"

definition open_requests :: "'s parallel_writer \<Rightarrow> write_request multiset" where
  "open_requests s = mset (pw_pending s) + mset (pw_writeChan s) + mset (pw_busy s)"

definition pw_inv :: "('s \<Rightarrow> nat \<rightharpoonup> 8 word) \<Rightarrow> 's \<Rightarrow> 's parallel_writer \<Rightarrow> bool" where
  "pw_inv content target s \<longleftrightarrow>
     (pw_ok s \<longrightarrow>
        pw_offset s = of_nat (length (concat (pw_history s))) \<and>
        (\<exists>written. content (pw_target s) = fold write_request_at written (content target)
           \<and> mset written + open_requests s = mset (requests 0 (pw_history s))))
     \<and> (pw_return s \<noteq> None \<longrightarrow> pw_closed s \<and> pw_writeChan s = [] \<and> pw_busy s = [])
     \<and> length (pw_busy s) \<le> pw_parallelism s"

definition positional :: "('s \<Rightarrow> nat \<rightharpoonup> 8 word) \<Rightarrow> (bytes \<Rightarrow> 64 word \<Rightarrow> 's \<Rightarrow> 's \<times> go_error option) \<Rightarrow> bool" where
  "positional content writeFunc \<longleftrightarrow>
     (\<forall>d off st st'. writeFunc d off st = (st', None) \<longrightarrow> content st' = write_at d (unat off) (content st))"

lemma mset_remove_at: "i < length xs \<Longrightarrow> mset xs = add_mset (xs ! i) (mset (remove_at i xs))"
  by (metis add_mset_add_single id_take_nth_drop mset.simps(2) mset_append remove_at_def union_mset_add_mset_right)

lemma length_remove_at: "length (remove_at i xs) \<le> length xs"
  by (simp add: remove_at_def)

text \<open>An error is never forgotten: it waits in the channel until some call has returned it.\<close>

lemma ok_step_back:
  assumes "pw_step writeFunc a s = Some s'" and "pw_ok s'" and "length (pw_busy s) \<le> pw_parallelism s" and "pw_panic s = None"
  shows "pw_ok s"
  using assms
  by (cases a)
     (auto simp: pw_ok_def take_offset_def send_request_def fail_request_def work_def close_return_def pw_result_def pw_put_def Let_def
        split: if_splits option.splits list.splits prod.splits)

lemmas pw_step_defs = take_offset_def send_request_def fail_request_def close_return_def pw_result_def pw_put_def

lemma work_simps [simp]:
  "pw_busy (work writeFunc i s) = remove_at i (pw_busy s)" "pw_pending (work writeFunc i s) = pw_pending s"
  "pw_writeChan (work writeFunc i s) = pw_writeChan s" "pw_history (work writeFunc i s) = pw_history s"
  "pw_offset (work writeFunc i s) = pw_offset s"
  by (simp_all add: work_def pw_put_def Let_def split: prod.splits)

lemma work_ok:
  assumes "positional content writeFunc" and "i < length (pw_busy s)" and "pw_ok (work writeFunc i s)" and "length (pw_busy s) \<le> pw_parallelism s"
  shows "content (pw_target (work writeFunc i s)) = write_request_at (pw_busy s ! i) (content (pw_target s))"
proof -
  obtain target err where w: "writeFunc (wr_data (pw_busy s ! i)) (wr_offset (pw_busy s ! i)) (pw_target s) = (target, err)" by fastforce
  have "err = None"
    using assms(2,3,4) w by (cases err) (auto simp: work_def pw_ok_def pw_put_def split: if_splits)
  then show ?thesis using assms(1) w by (simp add: work_def pw_put_def positional_def write_request_at_def)
qed

text \<open>The requests on their way and the ones written are those of the history, after every step that succeeds.\<close>

lemma step_requests:
  assumes "positional content writeFunc" and st: "pw_step writeFunc a s = Some s'" and ok: "pw_ok s'"
    and off: "pw_offset s = of_nat (length (concat (pw_history s)))" and b: "length (pw_busy s) \<le> pw_parallelism s"
    and w: "content (pw_target s) = fold write_request_at written m" "mset written + open_requests s = mset (requests 0 (pw_history s))"
  shows "pw_offset s' = of_nat (length (concat (pw_history s'))) \<and>
    (\<exists>written'. content (pw_target s') = fold write_request_at written' m \<and> mset written' + open_requests s' = mset (requests 0 (pw_history s')))"
proof (cases a)
  case (TakeOffset i pooled)
  then show ?thesis
    using st ok off w by (auto simp: take_offset_def pw_ok_def Let_def open_requests_def requests_snoc split: if_splits)
next
  case (SendRequest i)
  then have "i < length (pw_pending s)" and "mset (pw_pending s) = add_mset (pw_pending s ! i) (mset (remove_at i (pw_pending s)))"
    using st mset_remove_at by (auto split: if_splits)
  then show ?thesis
    using SendRequest st ok off w by (auto simp: send_request_def pw_ok_def pw_result_def Let_def open_requests_def split: if_splits)
next
  case TakeRequest
  then show ?thesis using st off w by (auto simp: open_requests_def split: list.splits if_splits)
next
  case (Work i)
  then have i: "i < length (pw_busy s)" and s': "s' = work writeFunc i s" using st by (auto split: if_splits)
  have "content (pw_target s') = fold write_request_at (written @ [pw_busy s ! i]) m"
    using work_ok [OF assms(1) i _ b] ok w(1) by (simp add: s')
  moreover have "mset (written @ [pw_busy s ! i]) + open_requests s' = mset (requests 0 (pw_history s'))"
    using w(2) mset_remove_at [OF i] by (simp add: s' open_requests_def)
  moreover have "pw_offset s' = of_nat (length (concat (pw_history s')))" using off by (simp add: s')
  ultimately show ?thesis by blast
qed (use st ok off w in \<open>auto simp: pw_step_defs pw_ok_def Let_def open_requests_def split: if_splits list.splits option.splits\<close>)

lemma pw_step_inv:
  assumes "positional content writeFunc" and "pw_step writeFunc a s = Some s'" and "pw_inv content target s" and "pw_panic s = None"
  shows "pw_inv content target s'"
proof -
  have b: "length (pw_busy s) \<le> pw_parallelism s" using assms(3) by (simp add: pw_inv_def)
  have "pw_return s' \<noteq> None \<longrightarrow> pw_closed s' \<and> pw_writeChan s' = [] \<and> pw_busy s' = []"
    using assms(2,3)
    by (cases a) (auto simp: pw_inv_def pw_step_defs work_def Let_def split: if_splits list.splits option.splits prod.splits)
  moreover have "length (pw_busy s') \<le> pw_parallelism s'"
    using assms(2) b order_trans [OF length_remove_at b]
    by (cases a) (auto simp: pw_step_defs work_def Let_def split: if_splits list.splits option.splits prod.splits)
  moreover have "pw_offset s' = of_nat (length (concat (pw_history s'))) \<and>
      (\<exists>written'. content (pw_target s') = fold write_request_at written' (content target)
         \<and> mset written' + open_requests s' = mset (requests 0 (pw_history s')))" if "pw_ok s'"
  proof -
    have "pw_ok s" using ok_step_back [OF assms(2) that b assms(4)] .
    then obtain written where "pw_offset s = of_nat (length (concat (pw_history s)))"
      "content (pw_target s) = fold write_request_at written (content target)" "mset written + open_requests s = mset (requests 0 (pw_history s))"
      using assms(3) by (auto simp: pw_inv_def)
    then show ?thesis using step_requests [OF assms(1,2) that _ b] by blast
  qed
  ultimately show ?thesis by (simp add: pw_inv_def)
qed

lemma pw_run_inv:
  assumes "positional content writeFunc" and "pw_run writeFunc as s = Some s'" and "pw_inv content target s"
  shows "pw_inv content target s'"
  using assms(2,3)
  by (induction as arbitrary: s) (auto split: if_splits option.splits intro: pw_step_inv [OF assms(1)])

lemma pw_init_inv: "pw_inv content target (NewParallelWriter parallelism target)"
proof -
  have "\<exists>written. content target = fold write_request_at written (content target) \<and> written = []" by simp
  then show ?thesis by (auto simp: pw_inv_def NewParallelWriter_def open_requests_def)
qed

text \<open>C23: Whatever the order in which the callers of \<^verbatim>\<open>Write\<close> and the workers proceed, once \<^verbatim>\<open>Close\<close> has returned no error, no \<^verbatim>\<open>Write\<close> has
  returned one and none is still waiting, the target holds the pieces one after the other in the order in which they got their offsets,
  and is otherwise as it was. The caller's function is assumed to write its data at the offset when it returns no error, and the pieces to add up to less
  than the largest \<^verbatim>\<open>int64\<close>.\<close>

theorem parallel_writes_assemble:
  assumes "positional content writeFunc"
    and "pw_run writeFunc as (NewParallelWriter parallelism target) = Some s" and "pw_panic s = None"
    and "pw_return s = Some None" and "\<forall>(n, e) \<in> set (pw_results s). e = None" and "pw_errChan s = []" and "pw_pending s = []"
    and "length (concat (pw_history s)) < 2 ^ 63"
  shows "content (pw_target s) = write_at (concat (pw_history s)) 0 (content target)"
proof -
  have inv: "pw_inv content target s" by (rule pw_run_inv [OF assms(1,2) pw_init_inv])
  moreover have "pw_ok s" using assms(3-6) by (simp add: pw_ok_def)
  ultimately obtain written where w: "content (pw_target s) = fold write_request_at written (content target)"
    "mset written + open_requests s = mset (requests 0 (pw_history s))" by (auto simp: pw_inv_def)
  have "open_requests s = {#}" using inv assms(4,7) by (auto simp: pw_inv_def open_requests_def)
  then show ?thesis using w requests_assemble [OF _ assms(8)] by simp
qed

text \<open>A target that is a map from positions to bytes, and a function that writes to it but fails at one offset.\<close>

definition write_unless :: "64 word \<Rightarrow> bytes \<Rightarrow> 64 word \<Rightarrow> (nat \<rightharpoonup> 8 word) \<Rightarrow> (nat \<rightharpoonup> 8 word) \<times> go_error option" where
  "write_unless bad d off m = (if off = bad then (m, Some (ErrNew ''disk full'')) else (write_at d (unat off) m, None))"

definition two_workers :: "pw_action list" where
  "two_workers =
     [WriteCheck [1, 2], WriteCheck [3], TakeOffset 0 False, TakeOffset 0 False, SendRequest 1, SendRequest 0, TakeRequest, TakeRequest,
      Work 1, Work 0, CloseChan, CloseReturn]"

lemmas pw_eval = NewParallelWriter_def pw_step_defs work_def write_unless_def remove_at_def Let_def

theorem parallel_writes_assemble_witness:
  "\<exists>s. pw_run (write_unless 9) two_workers (NewParallelWriter 2 Map.empty) = Some s \<and> pw_target s = write_at [1, 2, 3] 0 Map.empty"
proof -
  let ?run = "pw_run (write_unless 9) two_workers (NewParallelWriter 2 Map.empty)"
  have "map_option (\<lambda>s. (pw_history s, pw_results s, pw_return s, pw_errChan s, pw_pending s, pw_panic s)) ?run
      = Some ([[1, 2], [3]], [(1, None), (2, None)], Some None, [], [], None)"
    by (simp add: two_workers_def pw_eval)
  then obtain s where s: "?run = Some s" "pw_history s = [[1, 2], [3]]" "pw_results s = [(1, None), (2, None)]" "pw_return s = Some None"
    "pw_errChan s = []" "pw_pending s = []" "pw_panic s = None" by (auto simp only: map_option_eq_Some prod.inject)
  have "positional (\<lambda>m. m) (write_unless 9)" by (auto simp: positional_def write_unless_def split: if_splits)
  from parallel_writes_assemble [OF this s(1)] have "pw_target s = write_at [1, 2, 3] 0 Map.empty" by (simp add: s)
  with s(1) show ?thesis by blast
qed

text \<open>The offset is taken before the request is sent, and a \<^verbatim>\<open>Write\<close> that fails does not give it back: the caller that is told that none of its
  bytes were written and tries again leaves a hole, and \<^verbatim>\<open>Close\<close> reports no error.\<close>

definition retried_write :: "pw_action list" where
  "retried_write =
     [WriteCheck [1, 2], TakeOffset 0 False, SendRequest 0, TakeRequest, WriteCheck [3], TakeOffset 0 False, Work 0, SendFailed 0,
      WriteCheck [3], TakeOffset 0 False, SendRequest 0, TakeRequest, Work 0, CloseChan, CloseReturn]"

lemma failed_write_leaves_hole:
  "map_option (\<lambda>s. (pw_results s, pw_return s, map (pw_target s) [0, 1, 2, 3])) (pw_run (write_unless 0) retried_write (NewParallelWriter 2 Map.empty))
     = Some ([(2, None), (0, Some (ErrNew ''disk full'')), (1, None)], Some None, [None, None, None, Some 3])"
  by (simp add: retried_write_def pw_eval write_at_def)

end
