(* ===== verification/Stream_Progress.thy ===== *)
theory Stream_Progress
  imports Storage_Writer
begin

text \<open>
  That nobody waits forever in \<^verbatim>\<open>internal/storage/stream.go\<close>: a call of \<^verbatim>\<open>Read\<close> or \<^verbatim>\<open>Close\<close> that is in progress can always go on, or another
  goroutine can, and what they can do without further calls is bounded by a measure of the state, so that the call returns under every schedule. As in a proof of type
  soundness there are two halves: progress, and a measure that every step decreases.
\<close>

section \<open>Every read returns\<close>

text \<open>The actions of the goroutine and of a call in progress, as opposed to new calls and cancellation.\<close>

definition internal :: "sr_action \<Rightarrow> bool" where
  "internal a \<longleftrightarrow> a \<noteq> Close \<and> (\<forall>p. a \<noteq> StartRead p) \<and> (\<forall>e. a \<noteq> Cancel e)"

definition sr_shape :: "stream_reader \<Rightarrow> bool" where
  "sr_shape s \<longleftrightarrow> (sr_closed s \<longleftrightarrow> sr_prod s = Stopped)"

lemma shape_init: "sr_shape (NewStreamReader r chunk n)"
  by (simp add: sr_shape_def NewStreamReader_def)

lemma shape_prefetch: "sr_prod s = Fetching \<Longrightarrow> sr_shape s \<Longrightarrow> sr_shape (prefetch pooled s)"
  by (auto simp: sr_shape_def prefetch_def Let_def split: option.splits prod.splits)

lemma shape_read_turn: "read_turn p got s = Some s' \<Longrightarrow> sr_shape s \<Longrightarrow> sr_shape s'"
  by (auto simp: sr_shape_def read_turn_def finish_read_def Let_def split: option.splits list.splits if_splits)

lemma shape_step:
  assumes "sr_step a s = Some s'" and "sr_shape s"
  shows "sr_shape s'"
proof (cases a)
  case (Prefetch pooled)
  then show ?thesis using assms shape_prefetch by (auto split: if_splits)
next
  case ReadTurn
  then show ?thesis using assms shape_read_turn by (auto split: option.splits if_splits)
next
  case Send
  then show ?thesis using assms by (auto simp: sr_shape_def sr_send_def Let_def split: producer.splits if_splits)
next
  case (StartRead p)
  then show ?thesis using assms by (auto simp: sr_shape_def finish_read_def split: option.splits if_splits)
next
  case Requeue
  then obtain r where "s' = requeue r s" using assms(1) by auto
  then show ?thesis using assms(2) by (simp add: sr_shape_def requeue_def)
next
  case ReadCtx
  then show ?thesis using assms by (auto simp: sr_shape_def finish_read_def split: option.splits if_splits)
next
  case Close
  then show ?thesis using assms by (cases "sr_done s") (auto simp: sr_shape_def sr_close_def)
next
  case (Cancel e)
  then show ?thesis using assms by (cases "sr_ctx s") (auto simp: sr_shape_def)
qed (use assms in \<open>auto simp: sr_shape_def split: producer.splits if_splits\<close>)

lemma shape_run: "sr_run as s = Some s' \<Longrightarrow> sr_shape s \<Longrightarrow> sr_shape s' \<and> sr_chunkSize s' = sr_chunkSize s"
proof (induction as arbitrary: s)
  case (Cons a as)
  then obtain s1 where "sr_step a s = Some s1" "sr_run as s1 = Some s'" by (auto split: if_splits option.splits)
  then show ?case using Cons shape_step chunkSize_const by metis
qed simp

text \<open>Progress.\<close>

lemma read_progress:
  assumes "sr_shape s" and "sr_read s \<noteq> None"
  shows "\<exists>a s'. internal a \<and> sr_step a s = Some s'"
proof (cases "sr_rest s")
  case (Some r)
  then have "sr_step Requeue s = Some (requeue r s)" by simp
  then show ?thesis by (intro exI [of _ Requeue] exI [of _ "requeue r s"]) (simp add: internal_def)
next
  case rest: None
  obtain p got where rd: "sr_read s = Some (p, got)" using assms(2) by auto
  show ?thesis
  proof (cases "read_turn p got s")
    case (Some s')
    then have "sr_step ReadTurn s = Some s'" using rd rest by simp
    then show ?thesis by (intro exI [of _ ReadTurn]) (simp add: internal_def)
  next
    case None
    then have b: "sr_buffer s = []" "\<not> sr_closed s" by (auto simp: read_turn_def Let_def split: if_splits list.splits)
    consider "sr_prod s = Fetching" "sr_ctx s \<noteq> None" | "sr_prod s = Fetching" "sr_done s" | "sr_prod s = Fetching" "sr_ctx s = None" "\<not> sr_done s"
      | buf fin where "sr_prod s = Sending buf fin"
      using assms(1) b(2) by (cases "sr_prod s") (auto simp: sr_shape_def)
    then show ?thesis
    proof cases
      case 1
      then show ?thesis by (intro exI [of _ PrefetchCtx]) (simp add: internal_def)
    next
      case 2
      then show ?thesis by (intro exI [of _ PrefetchDone]) (simp add: internal_def)
    next
      case 3
      then show ?thesis by (intro exI [of _ "Prefetch False"]) (simp add: internal_def)
    next
      case 4
      then show ?thesis using b by (intro exI [of _ Send]) (simp add: internal_def)
    qed
  qed
qed

text \<open>The measure: bytes not yet fetched, the phase of the goroutine, chunks queued, the phase of the call.\<close>

definition prod_weight :: "producer \<Rightarrow> nat" where
  "prod_weight p = (case p of Fetching \<Rightarrow> 2 | Sending _ _ \<Rightarrow> 4 | Stopped \<Rightarrow> 0)"

definition read_weight :: "stream_reader \<Rightarrow> nat" where
  "read_weight s = (case sr_read s of None \<Rightarrow> 0 | Some (p, got) \<Rightarrow> if length got < p then 4 else 1) + (if sr_rest s = None then 0 else 2)"

definition work_left :: "stream_reader \<Rightarrow> nat" where
  "work_left s =
     (if sr_panic s \<noteq> None then 0
      else 1 + 5 * length (rd_data (sr_reader s)) + prod_weight (sr_prod s) + length (sr_buffer s) + read_weight s)"

lemmas weight_defs = work_left_def prod_weight_def read_weight_def

lemma prefetch_less:
  assumes "sr_prod s = Fetching" and "0 < sr_chunkSize s" and "sr_panic s = None"
  shows "work_left (prefetch pooled s) < work_left s"
proof -
  obtain buf err where r: "ReadFull (sr_reader s) (sr_chunkSize s) = (buf, err)" by fastforce
  have "length buf \<le> length (rd_data (sr_reader s))" and "err = None \<Longrightarrow> buf \<noteq> []"
    using r assms(2) by (auto simp: ReadFull_def split: if_splits option.splits)
  moreover from this have "buf \<noteq> [] \<Longrightarrow> Suc (Suc (5 * (length (rd_data (sr_reader s)) - length buf))) < 5 * length (rd_data (sr_reader s))"
    by (cases buf) auto
  ultimately show ?thesis
    using assms(1,3) r by (auto simp: prefetch_def weight_defs sr_stop_def sr_put_def Let_def split: option.splits)
qed

lemma read_turn_less:
  assumes "read_turn p got s = Some s'" and "sr_read s = Some (p, got)" and "sr_rest s = None" and "sr_panic s = None"
  shows "work_left s' < work_left s"
proof (cases "length got < p \<and> sr_buffer s \<noteq> []")
  case False
  then obtain e where "s' = finish_read got e s" using assms(1) by (auto simp: read_turn_def split: list.splits option.splits if_splits)
  then show ?thesis using assms(2,4) by (simp add: finish_read_def weight_defs)
next
  case True
  then obtain c cs where "sr_buffer s = c # cs" by (cases "sr_buffer s") auto
  then show ?thesis using assms True by (auto simp: read_turn_def Let_def weight_defs sr_put_def split: if_splits)
qed

lemma internal_less:
  assumes "internal a" and "sr_step a s = Some s'" and "0 < sr_chunkSize s" and "sr_panic s = None"
  shows "work_left s' < work_left s"
proof (cases a)
  case (Prefetch pooled)
  then show ?thesis using assms prefetch_less by (auto split: if_splits)
next
  case ReadTurn
  then show ?thesis using assms read_turn_less by (auto split: option.splits if_splits)
next
  case Send
  then show ?thesis using assms by (auto simp: sr_send_def sr_stop_def weight_defs Let_def split: producer.splits if_splits)
next
  case Requeue
  then obtain r where "s' = requeue r s" "sr_rest s = Some r" using assms(2) by auto
  then show ?thesis using assms(4) by (simp add: requeue_def sr_put_def weight_defs)
next
  case ReadCtx
  then show ?thesis using assms by (auto simp: finish_read_def weight_defs split: option.splits if_splits)
next
  case SendCtx
  then show ?thesis using assms by (auto simp: sr_stop_def sr_put_def weight_defs split: producer.splits if_splits)
next
  case SendDone
  then show ?thesis using assms by (auto simp: sr_stop_def sr_put_def weight_defs split: producer.splits if_splits)
qed (use assms in \<open>auto simp: internal_def sr_stop_def weight_defs split: if_splits\<close>)

lemma internal_run_bound:
  assumes "sr_run as s = Some s'" and "\<forall>a \<in> set as. internal a" and "0 < sr_chunkSize s" and "sr_panic s = None"
  shows "length as \<le> work_left s"
  using assms
proof (induction as arbitrary: s)
  case (Cons a as)
  then obtain s1 where s1: "sr_step a s = Some s1" "sr_run as s1 = Some s'" by (auto split: option.splits)
  have less: "work_left s1 < work_left s" using internal_less [OF _ s1(1)] Cons.prems by simp
  show ?case
  proof (cases "sr_panic s1")
    case None
    then show ?thesis using Cons.IH [OF s1(2)] Cons.prems(2,3) chunkSize_const [OF s1(1)] less by simp
  next
    case (Some x)
    then have "as = []" using s1(2) by (cases as) auto
    then show ?thesis using less by simp
  qed
qed simp

text \<open>C22: Every call of \<^verbatim>\<open>Read\<close> returns. In whatever state clients, the goroutine and cancellation have brought the reader to, as long as a call is in progress
  and nothing has panicked, some step of the goroutine or the call is possible; and without new calls there are only so many steps, under every schedule. So no schedule leaves the call waiting
  forever, whatever the sizes of the reads.\<close>

theorem reads_return:
  assumes "sr_run as (NewStreamReader r chunk n) = Some s" and "0 < chunk" and "sr_panic s = None"
  shows "(sr_read s \<noteq> None \<longrightarrow> (\<exists>a s'. internal a \<and> sr_step a s = Some s'))
    \<and> (\<forall>bs s'. sr_run bs s = Some s' \<and> (\<forall>b \<in> set bs. internal b) \<longrightarrow> length bs \<le> work_left s)"
proof -
  have s: "sr_shape s" "sr_chunkSize s = chunk"
    using shape_run [OF assms(1) shape_init] by (simp_all add: NewStreamReader_def)
  show ?thesis using read_progress [OF s(1)] internal_run_bound [OF _ _ _ assms(3)] s(2) assms(2) by blast
qed

theorem reads_return_witness:
  "\<exists>s. sr_run [StartRead 3] (NewStreamReader two_chunks 2 4) = Some s \<and> (\<exists>a s'. internal a \<and> sr_step a s = Some s')
     \<and> (\<forall>bs s'. sr_run bs s = Some s' \<and> (\<forall>b \<in> set bs. internal b) \<longrightarrow> length bs \<le> 22)"
proof -
  let ?s = "(NewStreamReader two_chunks 2 4)\<lparr>sr_read := Some (3, [])\<rparr>"
  have r: "sr_run [StartRead 3] (NewStreamReader two_chunks 2 4) = Some ?s" by (simp add: NewStreamReader_def)
  have "sr_panic ?s = None" "sr_read ?s \<noteq> None" "work_left ?s = 22"
    by (simp_all add: NewStreamReader_def two_chunks_def weight_defs)
  then show ?thesis using reads_return [OF r] r by auto
qed

section \<open>Every write and the close return\<close>

definition pw_internal :: "pw_action \<Rightarrow> bool" where
  "pw_internal a \<longleftrightarrow> a \<noteq> CloseChan \<and> (\<forall>p. a \<noteq> WriteCheck p) \<and> (\<forall>e. a \<noteq> CancelCtx e)"

definition pw_bounded :: "'s parallel_writer \<Rightarrow> bool" where
  "pw_bounded s \<longleftrightarrow> length (pw_writeChan s) \<le> pw_parallelism s * 2 \<and> length (pw_busy s) \<le> pw_parallelism s"

lemma work_parallelism [simp]: "pw_parallelism (work writeFunc i s) = pw_parallelism s"
  by (simp add: work_def pw_put_def Let_def split: prod.splits)

lemma bounded_step:
  assumes "pw_step writeFunc a s = Some s'" and "pw_bounded s"
  shows "pw_bounded s'"
proof (cases a)
  case (Work i)
  then show ?thesis using assms order_trans [OF length_remove_at] by (auto simp: pw_bounded_def split: if_splits)
qed (use assms in \<open>auto simp: pw_bounded_def pw_step_defs Let_def split: if_splits list.splits option.splits\<close>)

lemma bounded_run: "pw_run writeFunc as s = Some s' \<Longrightarrow> pw_bounded s \<Longrightarrow> pw_bounded s'"
  by (induction as arbitrary: s) (auto split: if_splits option.splits intro: bounded_step)

lemma bounded_init: "pw_bounded (NewParallelWriter parallelism target)"
  by (simp add: pw_bounded_def NewParallelWriter_def)

text \<open>A worker can go on as long as there is a request in the channel or in the hands of a worker.\<close>

lemma workers_progress:
  assumes "pw_bounded s" and "pw_writeChan s \<noteq> [] \<or> pw_busy s \<noteq> []"
  shows "\<exists>a s'. pw_internal a \<and> pw_step writeFunc a s = Some s'"
proof (cases "pw_busy s")
  case (Cons req reqs)
  then show ?thesis by (intro exI [of _ "Work 0"]) (simp add: pw_internal_def)
next
  case Nil
  then obtain req reqs where q: "pw_writeChan s = req # reqs" using assms(2) by (cases "pw_writeChan s") auto
  then have "0 < pw_parallelism s" using assms(1) by (auto simp: pw_bounded_def intro: Nat.gr0I)
  then show ?thesis using Nil q by (intro exI [of _ TakeRequest]) (simp add: pw_internal_def)
qed

lemma close_progress:
  assumes "pw_bounded s" and "pw_closed s" and "pw_return s = None"
  shows "\<exists>a s'. pw_internal a \<and> pw_step writeFunc a s = Some s'"
proof (cases "pw_writeChan s \<noteq> [] \<or> pw_busy s \<noteq> []")
  case True
  then show ?thesis by (rule workers_progress [OF assms(1)])
next
  case False
  then show ?thesis using assms(2,3) by (intro exI [of _ CloseReturn]) (simp add: pw_internal_def)
qed

lemma write_progress:
  assumes "pw_bounded s" and "pw_pending s \<noteq> []" and "0 < pw_parallelism s"
  shows "\<exists>a s'. pw_internal a \<and> pw_step writeFunc a s = Some s'"
proof (cases "send_request 0 s")
  case (Some s')
  then show ?thesis using assms(2) by (intro exI [of _ "SendRequest 0"]) (simp add: pw_internal_def)
next
  case None
  then have "pw_writeChan s \<noteq> []" using assms(3) by (auto simp: send_request_def Let_def split: if_splits)
  then show ?thesis using workers_progress [OF assms(1)] by blast
qed

definition requests_left :: "'s parallel_writer \<Rightarrow> nat" where
  "requests_left s =
     (if pw_panic s \<noteq> None then 0
      else 1 + 4 * length (pw_checked s) + 3 * length (pw_pending s) + 2 * length (pw_writeChan s) + length (pw_busy s)
        + (if pw_return s = None then 1 else 0))"

lemma length_remove_at_less: "i < length xs \<Longrightarrow> Suc (length (remove_at i xs)) = length xs"
  by (simp add: remove_at_def)

lemma pw_internal_less:
  assumes "pw_internal a" and "pw_step writeFunc a s = Some s'" and "pw_panic s = None"
  shows "requests_left s' < requests_left s"
proof (cases a)
  case (TakeOffset i pooled)
  then show ?thesis using assms length_remove_at_less [of i "pw_checked s"]
    by (auto simp: take_offset_def requests_left_def Let_def split: if_splits)
next
  case (SendRequest i)
  then show ?thesis using assms length_remove_at_less [of i "pw_pending s"]
    by (auto simp: send_request_def pw_result_def requests_left_def Let_def split: if_splits)
next
  case (SendCancelled i)
  then show ?thesis using assms length_remove_at_less [of i "pw_pending s"]
    by (auto simp: fail_request_def pw_result_def pw_put_def requests_left_def split: if_splits option.splits)
next
  case (SendFailed i)
  then show ?thesis using assms length_remove_at_less [of i "pw_pending s"]
    by (auto simp: fail_request_def pw_result_def pw_put_def requests_left_def split: if_splits list.splits)
next
  case (Work i)
  then show ?thesis using assms length_remove_at_less [of i "pw_busy s"]
    by (auto simp: work_def pw_put_def requests_left_def Let_def split: if_splits prod.splits)
qed (use assms in \<open>auto simp: pw_internal_def close_return_def requests_left_def split: if_splits list.splits\<close>)

lemma pw_internal_bound:
  assumes "pw_run writeFunc as s = Some s'" and "\<forall>a \<in> set as. pw_internal a" and "pw_panic s = None"
  shows "length as \<le> requests_left s"
  using assms
proof (induction as arbitrary: s)
  case (Cons a as)
  then obtain s1 where s1: "pw_step writeFunc a s = Some s1" "pw_run writeFunc as s1 = Some s'" by (auto split: option.splits)
  have less: "requests_left s1 < requests_left s" using pw_internal_less [OF _ s1(1)] Cons.prems by simp
  show ?case
  proof (cases "pw_panic s1")
    case None
    then show ?thesis using Cons.IH [OF s1(2)] Cons.prems(2) less by simp
  next
    case (Some x)
    then have "as = []" using s1(2) by (cases as) auto
    then show ?thesis using less by simp
  qed
qed simp

text \<open>C24: \<^verbatim>\<open>Close\<close> returns, and so does every \<^verbatim>\<open>Write\<close> when there is a worker, whatever the caller's function answers. In every state that calls, workers and
  cancellation can reach without a panic, a \<^verbatim>\<open>Close\<close> that waits for the workers or a \<^verbatim>\<open>Write\<close> that waits for the channel leaves a step possible, and without new calls
  there are only so many steps, under every schedule. The queue never holds more than twice as many requests as there are workers.\<close>

theorem writer_calls_return:
  assumes "pw_run writeFunc as (NewParallelWriter parallelism target) = Some s" and "pw_panic s = None"
  shows "(pw_closed s \<and> pw_return s = None \<or> pw_pending s \<noteq> [] \<and> 0 < pw_parallelism s
          \<longrightarrow> (\<exists>a s'. pw_internal a \<and> pw_step writeFunc a s = Some s'))
    \<and> (\<forall>bs s'. pw_run writeFunc bs s = Some s' \<and> (\<forall>b \<in> set bs. pw_internal b) \<longrightarrow> length bs \<le> requests_left s)
    \<and> length (pw_writeChan s) \<le> pw_parallelism s * 2"
proof -
  have b: "pw_bounded s" by (rule bounded_run [OF assms(1) bounded_init])
  show ?thesis
    using close_progress [OF b] write_progress [OF b] pw_internal_bound [OF _ _ assms(2)] b unfolding pw_bounded_def by blast
qed

theorem writer_calls_return_witness:
  "\<exists>s. pw_run (write_unless 0) [WriteCheck [1], TakeOffset 0 False, SendRequest 0, CloseChan] (NewParallelWriter 1 Map.empty) = Some s
     \<and> (\<exists>a s'. pw_internal a \<and> pw_step (write_unless 0) a s = Some s')
     \<and> (\<forall>bs s'. pw_run (write_unless 0) bs s = Some s' \<and> (\<forall>b \<in> set bs. pw_internal b) \<longrightarrow> length bs \<le> 4)"
proof -
  let ?run = "pw_run (write_unless 0) [WriteCheck [1], TakeOffset 0 False, SendRequest 0, CloseChan] (NewParallelWriter 1 Map.empty)"
  have "map_option (\<lambda>s. (pw_closed s, pw_return s, pw_panic s, requests_left s)) ?run = Some (True, None, None, 4)"
    by (simp add: pw_eval requests_left_def)
  then obtain s where s: "?run = Some s" "pw_closed s" "pw_return s = None" "pw_panic s = None" "requests_left s = 4"
    by (auto simp only: map_option_eq_Some prod.inject)
  then show ?thesis using writer_calls_return [OF s(1,4)] by simp
qed

end
