(* ===== verification/Encrypted_HTTP.thy ===== *)
theory Encrypted_HTTP
  imports S3_Handler Storage_Encrypted
begin

text \<open>
  The S3 handlers over the encrypting backend: \<^verbatim>\<open>pkg/s3/handler.go\<close> on \<^verbatim>\<open>internal/storage/encrypted.go\<close>. The contract \<open>object_reader\<close> that
  the handlers need is carried over from the wrapped backend to the encrypting one: what it holds are the opened bytes, and the description of an object
  has the size and the metadata of the plaintext. So range requests select from the plaintext although the stored bytes are sealed as a whole.
\<close>

section \<open>The encrypting backend is an object reader\<close>

locale encrypted_reader = object_reader bk holds + encrypting_manager en oke m
  for bk :: "'b backend" and holds :: "'b \<Rightarrow> string \<Rightarrow> string \<Rightarrow> bytes \<Rightarrow> object_info \<Rightarrow> bool"
    and en :: "'s encryptor" and oke :: "'s \<Rightarrow> bool" and m :: "'s enc_manager"
begin

text \<open>The wrapped backend holds what the encryptor made of \<open>bs\<close>, with the fields it needs to open it.\<close>

definition sealed_holds :: "('b, 's) encstate \<Rightarrow> string \<Rightarrow> string \<Rightarrow> bytes \<Rightarrow> object_info \<Rightarrow> bool" where
  "sealed_holds s b k bs info \<longleftrightarrow>
     oke (es_enc s) \<and> (\<exists>rinfo emd e0 r n r' e1.
       oke e0 \<and> en_Encrypt en e0 r n = (Ok (r', emd), e1) \<and> rd_data r = bs \<and> holds (es_backend s) b k (rd_data r') rinfo
       \<and> ParseInt (sm_get emd MetadataKeyEncryptedSize) = Ok (int (length bs))
       \<and> (\<forall>x \<in> set internal_keys. sm_get (oi_Metadata rinfo) x = sm_get emd x)
       \<and> info = rinfo\<lparr>oi_Size := int (length bs), oi_Metadata := visible_metadata (oi_Metadata rinfo)\<rparr>)"

lemma Decrypt_ok: "EncManager_Decrypt m e r md = (y, e') \<Longrightarrow> oke e \<Longrightarrow> oke e'"
  using manager enc.dec_ok by (auto simp: EncManager_Decrypt_def split: if_splits)

lemma get_state:
  assumes "EB_GetObject bk m s b k = (y, s')" and "bk_GetObject bk (es_backend s) b k = (x, bs)" and "oke (es_enc s)"
  shows "es_backend s' = bs \<and> oke (es_enc s')"
proof -
  have on: "on_backend (\<lambda>b'. bk_GetObject bk b' b k) s = (x, s\<lparr>es_backend := bs\<rparr>)" using assms(2) by (simp add: on_backend_def)
  have "es_backend s2 = bs \<and> oke (es_enc s2)" if "on_enc (\<lambda>e. EncManager_Decrypt m e r md) (s\<lparr>es_backend := bs\<rparr>) = (z, s2)" for r md z s2
    using that assms(3) Decrypt_ok by (auto elim!: on_enc_cases)
  then show ?thesis
    using assms(1,3) on by (auto simp: EB_GetObject_def Let_def split: res.splits prod.splits)
qed

lemma sealed_get:
  assumes "sealed_holds s b k bs info"
  shows "\<exists>ob s'. EB_GetObject bk m s b k = (Ok ob, s') \<and> ob_Body ob = bytes_reader bs \<and> ob_Size ob = oi_Size info
    \<and> ob_ETag ob = oi_ETag info \<and> ob_Metadata ob = oi_Metadata info \<and> sealed_holds s' b k bs info"
proof -
  obtain rinfo emd e0 r n r' e1 where h: "oke (es_enc s)" "oke e0" "en_Encrypt en e0 r n = (Ok (r', emd), e1)" "rd_data r = bs"
      "holds (es_backend s) b k (rd_data r') rinfo" "ParseInt (sm_get emd MetadataKeyEncryptedSize) = Ok (int (length bs))"
      "\<forall>x \<in> set internal_keys. sm_get (oi_Metadata rinfo) x = sm_get emd x"
      "info = rinfo\<lparr>oi_Size := int (length bs), oi_Metadata := visible_metadata (oi_Metadata rinfo)\<rparr>"
    using assms by (auto simp: sealed_holds_def)
  obtain ob bs2 where ob: "bk_GetObject bk (es_backend s) b k = (Ok ob, bs2)" "ob_Body ob = bytes_reader (rd_data r')"
      "ob_ETag ob = oi_ETag rinfo" "ob_Metadata ob = oi_Metadata rinfo" "holds bs2 b k (rd_data r') rinfo"
    using get_holds [OF h(5)] by blast
  obtain s' where s': "EB_GetObject bk m s b k = (Ok (ob\<lparr>ob_Body := bytes_reader (rd_data r), ob_Size := int (length bs),
      ob_Metadata := visible_metadata (ob_Metadata ob)\<rparr>), s')"
    using get_opened [OF h(1,2,3) valid_sealed [OF h(2,3)] h(6) ob(1,2)] h(7) ob(4) by auto
  have "sealed_holds s' b k bs info" using get_state [OF s' ob(1) h(1)] h ob(5) unfolding sealed_holds_def by blast
  then show ?thesis using s' h(4,8) ob(3,4) by auto
qed

lemma sealed_head:
  assumes "sealed_holds s b k bs info"
  shows "\<exists>s'. EB_HeadObject bk s b k = (Ok info, s') \<and> sealed_holds s' b k bs info"
proof -
  obtain rinfo emd e0 r n r' e1 where h: "oke (es_enc s)" "oke e0" "en_Encrypt en e0 r n = (Ok (r', emd), e1)" "rd_data r = bs"
      "holds (es_backend s) b k (rd_data r') rinfo" "ParseInt (sm_get emd MetadataKeyEncryptedSize) = Ok (int (length bs))"
      "\<forall>x \<in> set internal_keys. sm_get (oi_Metadata rinfo) x = sm_get emd x"
      "info = rinfo\<lparr>oi_Size := int (length bs), oi_Metadata := visible_metadata (oi_Metadata rinfo)\<rparr>"
    using assms by (auto simp: sealed_holds_def)
  obtain bs2 where hd: "bk_HeadObject bk (es_backend s) b k = (Ok rinfo, bs2)" "holds bs2 b k (rd_data r') rinfo"
    using head_holds [OF h(5)] by blast
  have agree: "enc_agree emd (oi_Metadata rinfo)" using h(7) by (simp add: enc_agree_iff internal_keys_def)
  then have "isEncrypted (oi_Metadata rinfo)" using enc.enc_marked [OF h(3)] by (simp add: isEncrypted_def enc_agree_iff)
  moreover have "getOriginalSize (oi_Metadata rinfo) (oi_Size rinfo) = int (length bs)"
    using h(6) agree ParseInt_Nil by (auto simp: getOriginalSize_def enc_agree_iff Let_def)
  ultimately have "EB_HeadObject bk s b k = (Ok info, s\<lparr>es_backend := bs2\<rparr>)"
    using hd(1) h(8) by (simp add: EB_HeadObject_def on_backend_def Let_def)
  moreover have "sealed_holds (s\<lparr>es_backend := bs2\<rparr>) b k bs info" using h hd(2) unfolding sealed_holds_def by fastforce
  ultimately show ?thesis by blast
qed

lemma sealed_size: "sealed_holds s b k bs info \<Longrightarrow> oi_Size info = int (length bs)"
  by (auto simp: sealed_holds_def)

end

sublocale encrypted_reader \<subseteq> sealed_reader: object_reader "EncryptedBackend bk m" sealed_holds
proof (unfold_locales, unfold EncryptedBackend_sel)
  show "\<exists>s'. bk_HeadObject (EncryptedBackend bk m) s b k = (Ok info, s') \<and> sealed_holds s' b k bs info"
    if "sealed_holds s b k bs info" for s b k bs info
    using sealed_head [OF that] by (simp add: EncryptedBackend_def)
qed (use sealed_get sealed_size in blast)+

section \<open>Over the file system\<close>

interpretation sealed_fs_reader: encrypted_reader "FileSystemBackend base" "fs_holds base" "local_encryptor mk rnd" "\<lambda>_. True" "local_manager mk rnd"
  by unfold_locales

lemma stored_sealed:
  assumes "EB_PutObject (FileSystemBackend base) (local_manager mk rnd) s b k r n md = (Ok (), s')" and "fs_okey base b k" and "wf_smap md"
    and "n = int (length (rd_data r))" and "in_i64 n"
  shows "\<exists>info. sealed_fs_reader.sealed_holds base rnd mk s' b k (rd_data r) info"
  using assms(1)
proof (cases rule: local_enc.PutObject_cases)
  case fail
  then show ?thesis by simp
next
  case (store r' emd e bs)
  let ?md = "AList.update sse_marker ''AES256'' (sm_merge md emd)"
  have put: "FS_PutObject base (es_backend s) b k r' (int (length (rd_data r'))) ?md = (Ok (), bs)" using store(3) by simp
  have stored: "lookup (fs_tree bs) (obj_path base b k) = Some (File (rd_data r') (fs_now (es_backend s)))"
    by (rule PutObject_stores(2) [OF assms(2) put])
  let ?info = "fs_info base bs b k (rd_data r') (fs_now (es_backend s))"
  have holds: "fs_holds base bs b k (rd_data r') ?info" using stored by (auto simp: fs_holds_def)
  have "wf_smap ?md" using assms(3) local_gcm.simple.enc_marked [OF store(1)] by simp
  then obtain ob t where ob: "FS_GetObject base bs b k = (Ok ob, t)" "\<forall>x. ascii x \<and> valid_utf8 (sm_get ?md x) \<longrightarrow> sm_get (ob_Metadata ob) x = sm_get ?md x"
    using fs_store.get_put [where base = base and s = "es_backend s" and b = b and k = k and md = ?md and r = r' and n = "int (length (rd_data r'))" and s' = bs,
        OF TrueI assms(2)] put by (auto simp: AList.update_nonempty)
  have "ascii x \<and> valid_utf8 (sm_get ?md x) \<and> sm_get ?md x = sm_get emd x" if "x \<in> set internal_keys" for x
    using local_enc.merged_internal [OF store(1) that] local_enc.internal_ascii [OF that] local_gcm.simple.enc_fields [OF TrueI store(1)] ascii_valid by metis
  then have "sm_get (ob_Metadata ob) x = sm_get emd x" if "x \<in> set internal_keys" for x using ob(2) that by metis
  then have "\<forall>x \<in> set internal_keys. sm_get (oi_Metadata ?info) x = sm_get emd x"
    using GetObject_file [OF stored] ob(1) by (auto simp: fs_info_def Let_def)
  then show ?thesis
    using store(1,4) holds local_gcm.simple.enc_size [OF store(1) assms(4,5)] assms(4)
    unfolding sealed_fs_reader.sealed_holds_def by fastforce
qed

text \<open>C7: Range requests on encrypted objects are exact. When a \<^verbatim>\<open>PUT\<close> through the handlers over the encrypting backend with a local key, over the file system, was answered
  with 200, a \<^verbatim>\<open>GET\<close> with a satisfiable range in any of the three forms of HTTP, a suffix being no longer than the object, is answered with 206, exactly the selected bytes of the plaintext, and headers
  that count in the plaintext, although the file holds one sealed block. (For a longer suffix the headers are wrong: \<open>long_suffix_range_wrong\<close>.)\<close>

theorem encrypted_range_exact:
  assumes "fs_okey base b k" and "rq_Method r = ''PUT''" and "rq_Query r = []"
    and "rq_ContentLength r = int (length (rd_data (rq_Body r)))" and "in_i64 (rq_ContentLength r)"
    and "handleObject (EncryptedBackend (FileSystemBackend base) (local_manager mk rnd)) decode seekable now s r b k = (Ok w, s')" and "rp_Status w = 200"
    and "satisfiable rs (length (rd_data (rq_Body r)))" and "spec_i64 rs" and "\<And>n. rs = Last n \<Longrightarrow> n \<le> length (rd_data (rq_Body r))"
    and "rq_Method g = ''GET''" and "rq_Query g = []" and "header g ''Range'' = ''bytes='' @ range_text rs"
  shows "\<exists>w' s''. handleObject (EncryptedBackend (FileSystemBackend base) (local_manager mk rnd)) decode' seekable' now' s' g b k = (Ok w', s'')
    \<and> rp_Status w' = 206 \<and> rp_Body w' = selected rs (rd_data (rq_Body r))
    \<and> Header_Get (rp_Header w') ''Content-Length'' = FormatInt (int (length (selected rs (rd_data (rq_Body r)))))
    \<and> Header_Get (rp_Header w') ''Content-Range'' = ''bytes '' @ FormatInt (int (first_pos rs (length (rd_data (rq_Body r))))) @ ''-''
        @ FormatInt (int (first_pos rs (length (rd_data (rq_Body r))) + length (selected rs (rd_data (rq_Body r)))) - 1)
        @ ''/'' @ FormatInt (rq_ContentLength r)"
proof -
  let ?bk = "EncryptedBackend (FileSystemBackend base) (local_manager mk rnd)" and ?bs = "rd_data (rq_Body r)"
  have "putObject ?bk now s r b k = (Ok w, s')" using assms(2,3,6) by (simp add: handle_put Query_Get_def first_value_def)
  then obtain body md where body: "rd_data body = ?bs" and md: "collect_metadata (rq_Header r) [] = Ok md"
    and put: "EB_PutObject (FileSystemBackend base) (local_manager mk rnd) s b k body (int (length ?bs)) md = (Ok (), s')"
    using putObject_accepted [OF _ assms(7,4)] by (metis EncryptedBackend_sel(1))
  have wf: "wf_smap md" using collect_metadata_lower [OF md] by (simp add: wf_smap_def)
  obtain info where h: "sealed_fs_reader.sealed_holds base rnd mk s' b k ?bs info"
    using stored_sealed [OF put assms(1) wf] body assms(4,5) by auto
  have "handleObject ?bk decode' seekable' now' s' g b k = getRangeObject ?bk seekable' s' b k (''bytes='' @ range_text rs)"
    using assms(11-13) by (simp add: handle_get Query_Get_def first_value_def getObject_def)
  then show ?thesis
    using sealed_fs_reader.sealed_reader.range_exact [OF h assms(8,9) _ assms(10), of seekable'] assms(4,5) by auto
qed

section \<open>A concrete run\<close>

lemma demo_encrypted_put:
  obtains w s' where "handleObject (EncryptedBackend demo_bk demo_enc_manager) (\<lambda>_. Err ErrEOF) True 9 demo_eb
      (plain_request ''PUT'' [] [] [72, 105]) ''b'' ''x/y'' = (Ok w, s')" "rp_Status w = 200"
proof -
  let ?r = "plain_request ''PUT'' [] [] [72, 105]"
  have pb: "put_body ?r = Ok (bytes_reader [72, 105], dquote (hex_encode (md5 [72, 105])))"
    by (simp add: put_body_def Let_def smallFileLimit_def ReadFull_def)
  have md: "collect_metadata (rq_Header ?r) [] = Ok []" by simp
  obtain t where "EB_PutObject demo_bk demo_enc_manager demo_eb ''b'' ''x/y'' (bytes_reader [72, 105]) (rq_ContentLength ?r) [] = (Ok (), t)"
    by (rule demo_eb_put)
  then have put: "fst (bk_PutObject (EncryptedBackend demo_bk demo_enc_manager) demo_eb ''b'' ''x/y'' (bytes_reader [72, 105]) (rq_ContentLength ?r) []) = Ok ()"
    by simp
  obtain w s' where "putObject (EncryptedBackend demo_bk demo_enc_manager) 9 demo_eb ?r ''b'' ''x/y'' = (Ok w, s')" "rp_Status w = 200"
    using putObject_succeeds [OF pb md _ put] by (metis plain_request_simps(4) of_nat_0_le_iff)
  moreover have "Query_Get ?r ''uploadId'' = ''''" "Query_Get ?r ''acl'' = ''''" by (simp_all add: Query_Get_def first_value_def)
  ultimately show thesis using that by (simp add: handle_put)
qed

theorem encrypted_range_exact_witness:
  "\<exists>w s' w' s''. handleObject (EncryptedBackend demo_bk demo_enc_manager) (\<lambda>_. Err ErrEOF) True 9 demo_eb
      (plain_request ''PUT'' [] [] [72, 105]) ''b'' ''x/y'' = (Ok w, s')
    \<and> handleObject (EncryptedBackend demo_bk demo_enc_manager) (\<lambda>_. Err ErrEOF) True 10 s'
      (plain_request ''GET'' [] [(''Range'', [''bytes=1-7''])] []) ''b'' ''x/y'' = (Ok w', s'')
    \<and> rp_Status w' = 206 \<and> rp_Body w' = [105]"
proof -
  obtain w s' where p: "handleObject (EncryptedBackend demo_bk demo_enc_manager) (\<lambda>_. Err ErrEOF) True 9 demo_eb
      (plain_request ''PUT'' [] [] [72, 105]) ''b'' ''x/y'' = (Ok w, s')" "rp_Status w = 200"
    by (rule demo_encrypted_put)
  have "rd_data (rq_Body (plain_request ''PUT'' [] [] [72, 105])) = [72, 105]" "in_i64 1" "in_i64 2" "in_i64 7" by (simp_all add: in_i64_def)
  then have "\<exists>w' s''. handleObject (EncryptedBackend demo_bk demo_enc_manager) (\<lambda>_. Err ErrEOF) True 10 s'
      (plain_request ''GET'' [] [(''Range'', [''bytes=1-7''])] []) ''b'' ''x/y'' = (Ok w', s'') \<and> rp_Status w' = 206 \<and> rp_Body w' = [105]"
    using encrypted_range_exact [OF demo_okey(1) _ _ _ _ p [unfolded demo_enc_manager_def], of "From_to 1 7"
        "plain_request ''GET'' [] [(''Range'', [''bytes=1-7''])] []" "\<lambda>_. Err ErrEOF" True 10] demo_range_header(1)
    by (auto simp: demo_enc_manager_def)
  with p(1) show ?thesis by blast
qed

end
