(* ===== verification/Go_Net.thy ===== *)
theory Go_Net
  imports Go_Base
begin

text \<open>
  What the transport uses of Go's package \<^verbatim>\<open>net\<close>: the text of an IP address, and taking an address apart into host and port and
  putting it together. Proved: the two are inverse for a host without brackets, and the text of an IP address has none.
\<close>

section \<open>Host and port\<close>

definition addr_error :: "string \<Rightarrow> string \<Rightarrow> 'a res" where
  "addr_error addr why = Err (ErrNew (if addr \<noteq> '''' then ''address '' @ addr @ '': '' @ why else why))"

text \<open>The index of the first occurrence of a character, and the text behind the last one.\<close>

definition first_index :: "char \<Rightarrow> string \<Rightarrow> nat" where
  "first_index c s = length (takeWhile (\<lambda>d. d \<noteq> c) s)"

definition after_last :: "char \<Rightarrow> string \<Rightarrow> string" where
  "after_last c s = rev (takeWhile (\<lambda>d. d \<noteq> c) (rev s))"

definition SplitHostPort :: "string \<Rightarrow> (string \<times> string) res" where
  "SplitHostPort hostport =
     (let port = after_last CHR '':'' hostport; i = length hostport - length port - 1; close = first_index CHR '']'' hostport in
      if CHR '':'' \<notin> set hostport then addr_error hostport ''missing port in address''
      else if hd hostport = CHR ''['' then
        if CHR '']'' \<notin> set hostport then addr_error hostport ''missing ']' in address''
        else if close + 1 = length hostport then addr_error hostport ''missing port in address''
        else if close + 1 \<noteq> i then
          addr_error hostport (if hostport ! (close + 1) = CHR '':'' then ''too many colons in address'' else ''missing port in address'')
        else if CHR ''['' \<in> set (drop 1 hostport) then addr_error hostport ''unexpected '[' in address''
        else if CHR '']'' \<in> set (drop (close + 1) hostport) then addr_error hostport ''unexpected ']' in address''
        else Ok (drop 1 (take close hostport), port)
      else if CHR '':'' \<in> set (take i hostport) then addr_error hostport ''too many colons in address''
      else if CHR ''['' \<in> set hostport then addr_error hostport ''unexpected '[' in address''
      else if CHR '']'' \<in> set hostport then addr_error hostport ''unexpected ']' in address''
      else Ok (take i hostport, port))"

definition JoinHostPort :: "string \<Rightarrow> string \<Rightarrow> string" where
  "JoinHostPort host port =
     (if CHR '':'' \<in> set host then ''['' @ host @ '']:'' @ port else host @ '':'' @ port)"

lemma takeWhile_tail: "c \<notin> set s \<Longrightarrow> takeWhile (\<lambda>d. d \<noteq> c) (s @ c # t) = s"
  by (induction s) auto

lemma after_last_append: "c \<notin> set t \<Longrightarrow> after_last c (s @ c # t) = t"
  by (simp add: after_last_def takeWhile_tail)

lemma first_index_append: "c \<notin> set s \<Longrightarrow> first_index c (s @ c # t) = length s"
  by (simp add: first_index_def takeWhile_tail)

lemma SplitHostPort_JoinHostPort:
  assumes "set host \<inter> {CHR ''['', CHR '']''} = {}" and "set port \<inter> {CHR '':'', CHR ''['', CHR '']''} = {}"
  shows "SplitHostPort (JoinHostPort host port) = Ok (host, port)"
proof (cases "CHR '':'' \<in> set host")
  case True
  let ?s = "CHR ''['' # host @ '']:'' @ port"
  have "after_last CHR '':'' ?s = port" using after_last_append [of "CHR '':''" port "CHR ''['' # host @ '']''"] assms(2) by simp
  moreover have "first_index CHR '']'' ?s = Suc (length host)"
    using first_index_append [of "CHR '']''" "CHR ''['' # host" "'':'' @ port"] assms(1) by simp
  ultimately show ?thesis using True assms by (auto simp: JoinHostPort_def SplitHostPort_def Let_def)
next
  case False
  have "after_last CHR '':'' (host @ '':'' @ port) = port" using after_last_append [of "CHR '':''" port host] assms(2) by simp
  moreover have "hd (host @ '':'' @ port) \<noteq> CHR ''[''" using assms(1) by (cases host) auto
  ultimately show ?thesis using False assms by (auto simp: JoinHostPort_def SplitHostPort_def Let_def)
qed

lemma JoinHostPort_colon: "CHR '':'' \<in> set (JoinHostPort host port)"
  by (simp add: JoinHostPort_def)

section \<open>IP addresses\<close>

text \<open>An address has 4 or 16 bytes; an IPv6 address is printed with the first of its longest runs of zero groups, of at least two, left out.\<close>

type_synonym ip = bytes

definition To4 :: "ip \<Rightarrow> ip option" where
  "To4 a =
     (if length a = 4 then Some a
      else if length a = 16 \<and> take 12 a = replicate 10 0 @ [255, 255] then Some (drop 12 a)
      else None)"

fun join_with :: "char \<Rightarrow> string list \<Rightarrow> string" where
  "join_with c [] = ''''"
| "join_with c [s] = s"
| "join_with c (s # t # ss) = s @ c # join_with c (t # ss)"

fun v6_groups :: "ip \<Rightarrow> nat list" where
  "v6_groups (a # b # bs) = (256 * unat a + unat b) # v6_groups bs"
| "v6_groups _ = []"

definition zero_run :: "nat list \<Rightarrow> nat \<Rightarrow> nat" where
  "zero_run gs i = length (takeWhile (\<lambda>g. g = 0) (drop i gs))"

definition longest_zeros :: "nat list \<Rightarrow> nat \<times> nat" where
  "longest_zeros gs =
     fold (\<lambda>i (start, len). let l = zero_run gs i in if 2 \<le> l \<and> len < l then (i, l) else (start, len)) [0..<length gs] (0, 0)"

definition hex_byte :: "byte \<Rightarrow> string" where
  "hex_byte b = [digit_char (unat b div 16), digit_char (unat b mod 16)]"

definition IP_String :: "ip \<Rightarrow> string" where
  "IP_String a =
     (if a = [] then ''<nil>''
      else if length a \<noteq> 4 \<and> length a \<noteq> 16 then CHR ''?'' # concat (map hex_byte a)
      else
        case To4 a of
          Some b \<Rightarrow> join_with CHR ''.'' (map (\<lambda>x. dec_digits (unat x)) b)
        | None \<Rightarrow>
            let gs = v6_groups a in
            case longest_zeros gs of (start, len) \<Rightarrow>
              if len = 0 then join_with CHR '':'' (map hex_digits gs)
              else join_with CHR '':'' (map hex_digits (take start gs)) @ ''::'' @ join_with CHR '':'' (map hex_digits (drop (start + len) gs)))"

lemma digit_char_no_bracket [simp]:
  assumes "d < 16"
  shows "digit_char d \<noteq> CHR ''[''" "digit_char d \<noteq> CHR '']''" "CHR ''['' \<noteq> digit_char d" "CHR '']'' \<noteq> digit_char d"
proof -
  have "\<forall>d \<in> set [0..<16]. digit_char d \<noteq> CHR ''['' \<and> digit_char d \<noteq> CHR '']''" by code_simp
  then show "digit_char d \<noteq> CHR ''[''" "digit_char d \<noteq> CHR '']''" using assms by auto
  then show "CHR ''['' \<noteq> digit_char d" "CHR '']'' \<noteq> digit_char d" by simp_all
qed

lemma dec_digits_no_bracket: "set (dec_digits n) \<inter> {CHR ''['', CHR '']''} = {}"
  using dec_digits_digits by (fastforce simp: is_digit_def)

lemma hex_digits_no_bracket: "set (hex_digits n) \<inter> {CHR ''['', CHR '']''} = {}"
proof (induction n rule: hex_digits.induct)
  case (1 n)
  then show ?case by (subst hex_digits.simps) auto
qed

lemma hex_byte_no_bracket: "set (hex_byte b) \<inter> {CHR ''['', CHR '']''} = {}"
proof -
  have "unat b < 16 * 16" using unsigned_less [of b] by simp
  then have "unat b div 16 < 16" by (rule less_mult_imp_div_less)
  then show ?thesis by (simp add: hex_byte_def)
qed

lemma set_join_with: "set (join_with c ss) \<subseteq> insert c (\<Union>s \<in> set ss. set s)"
  by (induction c ss rule: join_with.induct) auto

lemma join_no_bracket:
  assumes "\<forall>s \<in> set ss. set s \<inter> {CHR ''['', CHR '']''} = {}" and "c \<noteq> CHR ''[''" "c \<noteq> CHR '']''"
  shows "set (join_with c ss) \<inter> {CHR ''['', CHR '']''} = {}"
  using set_join_with [of c ss] assms by blast

lemma IP_String_no_bracket: "set (IP_String a) \<inter> {CHR ''['', CHR '']''} = {}"
proof -
  have h: "set (join_with CHR '':'' (map hex_digits gs)) \<inter> {CHR ''['', CHR '']''} = {}" for gs
    by (rule join_no_bracket) (use hex_digits_no_bracket in auto)
  have d: "set (join_with CHR ''.'' (map (\<lambda>x. dec_digits (unat x)) b)) \<inter> {CHR ''['', CHR '']''} = {}" for b :: ip
    by (rule join_no_bracket) (use dec_digits_no_bracket in auto)
  have b: "set (concat (map hex_byte a)) \<inter> {CHR ''['', CHR '']''} = {}" using hex_byte_no_bracket by auto
  show ?thesis using h d b by (auto simp: IP_String_def Let_def split: option.splits prod.splits)
qed

text \<open>What was dialled under the text of an IP address comes apart again.\<close>

lemma SplitHostPort_ip:
  "set port \<inter> {CHR '':'', CHR ''['', CHR '']''} = {} \<Longrightarrow> SplitHostPort (JoinHostPort (IP_String a) port) = Ok (IP_String a, port)"
  using IP_String_no_bracket by (rule SplitHostPort_JoinHostPort)

end
