(* ===== verification/Transport.thy ===== *)
theory Transport
  imports TTL_Cache Go_Net
begin

text \<open>
  \<^verbatim>\<open>internal/transport\<close>: the DNS cache, the dialer that uses it, the two HTTP transports and their pool, and the socket options. A call of
  \<^verbatim>\<open>DNSCache.resolve\<close> goes through the phases \<open>resolve_pc\<close>, and \<open>resolve_step\<close> is one of them; a call on its own runs them to the end, and
  concurrent calls are any interleaving of them. The resolver, the dialer and the clock are arguments. Proved: a lookup is only made when the cache has
  no current answer, and at most one at a time for a host; every answer is one the resolver gave for that host; a dial within the lifetime of
  an answer goes to the same address whatever the resolver says meanwhile.
\<close>

section \<open>The DNS cache\<close>

record dnsCacheEntry =
  de_ips :: "ip list"
  de_expiry :: time
  de_resolving :: "nat option"

record dns_cache =
  dn_cache :: "string \<rightharpoonup> dnsCacheEntry"
  dn_ttl :: duration

text \<open>The zero value of \<^verbatim>\<open>time.Time\<close>, the year 1, and of an entry.\<close>

definition zero_time :: time where
  "zero_time = - 62135596800 * second"

definition zero_entry :: dnsCacheEntry where
  "zero_entry = \<lparr>de_ips = [], de_expiry = zero_time, de_resolving = None\<rparr>"

definition dnsCache :: dns_cache where
  "dnsCache = \<lparr>dn_cache = Map.empty, dn_ttl = 5 * minute\<rparr>"

definition update_entry :: "string \<Rightarrow> (dnsCacheEntry \<Rightarrow> dnsCacheEntry) \<Rightarrow> dns_cache \<Rightarrow> dns_cache" where
  "update_entry host f d = d\<lparr>dn_cache := (dn_cache d)(host := map_option f (dn_cache d host))\<rparr>"

definition unlock :: "string \<Rightarrow> dns_cache \<Rightarrow> dns_cache" where
  "unlock host = update_entry host (\<lambda>e. e\<lparr>de_resolving := None\<rparr>)"

datatype resolve_pc =
    RStart | RFast | RCreate | RLock | RCheck | RLookup | RStoreIPs "ip list" | RStoreExpiry "ip list" | RReturn "ip list res"

text \<open>One step of the call \<open>who\<close>, \<open>None\<close> when it waits for the lock of the entry.\<close>

fun resolve_step :: "(string \<Rightarrow> ip list res) \<Rightarrow> nat \<Rightarrow> string \<Rightarrow> time \<Rightarrow> resolve_pc \<Rightarrow> dns_cache \<Rightarrow> (resolve_pc \<times> dns_cache) option" where
  "resolve_step LookupIP who host now RStart d =
     Some (case dn_cache d host of Some entry \<Rightarrow> if now < de_expiry entry then RFast else RCreate | None \<Rightarrow> RCreate, d)"
| "resolve_step LookupIP who host now RFast d =
     (case dn_cache d host of Some entry \<Rightarrow> Some (RReturn (Ok (de_ips entry)), d) | None \<Rightarrow> None)"
| "resolve_step LookupIP who host now RCreate d =
     Some (RLock, case dn_cache d host of None \<Rightarrow> d\<lparr>dn_cache := (dn_cache d)(host \<mapsto> zero_entry)\<rparr> | Some _ \<Rightarrow> d)"
| "resolve_step LookupIP who host now RLock d =
     (case dn_cache d host of
        Some entry \<Rightarrow>
          if de_resolving entry = None then Some (RCheck, update_entry host (\<lambda>e. e\<lparr>de_resolving := Some who\<rparr>) d) else None
      | None \<Rightarrow> None)"
| "resolve_step LookupIP who host now RCheck d =
     (case dn_cache d host of
        Some entry \<Rightarrow> Some (if now < de_expiry entry then (RReturn (Ok (de_ips entry)), unlock host d) else (RLookup, d))
      | None \<Rightarrow> None)"
| "resolve_step LookupIP who host now RLookup d =
     Some (case LookupIP host of
             Ok ips \<Rightarrow> (RStoreIPs ips, d)
           | Err e \<Rightarrow> (RReturn (Err e), unlock host d)
           | Panic p \<Rightarrow> (RReturn (Panic p), unlock host d))"
| "resolve_step LookupIP who host now (RStoreIPs ips) d =
     Some (RStoreExpiry ips, update_entry host (\<lambda>e. e\<lparr>de_ips := ips\<rparr>) d)"
| "resolve_step LookupIP who host now (RStoreExpiry ips) d =
     Some (RReturn (Ok ips), unlock host (update_entry host (\<lambda>e. e\<lparr>de_expiry := now + dn_ttl d\<rparr>) d))"
| "resolve_step LookupIP who host now (RReturn r) d = None"

text \<open>A call on its own. It makes at most seven steps; \<open>now1\<close>, \<open>now2\<close> and \<open>now3\<close> are its three readings of the clock.\<close>

definition clock :: "time \<Rightarrow> time \<Rightarrow> time \<Rightarrow> resolve_pc \<Rightarrow> time" where
  "clock now1 now2 now3 pc = (case pc of RStart \<Rightarrow> now1 | RCheck \<Rightarrow> now2 | _ \<Rightarrow> now3)"

fun resolve_run :: "nat \<Rightarrow> (string \<Rightarrow> ip list res) \<Rightarrow> string \<Rightarrow> (resolve_pc \<Rightarrow> time) \<Rightarrow> resolve_pc \<Rightarrow> dns_cache \<Rightarrow> (ip list res \<times> dns_cache) option" where
  "resolve_run n LookupIP host clk (RReturn r) d = Some (r, d)"
| "resolve_run 0 LookupIP host clk pc d = None"
| "resolve_run (Suc n) LookupIP host clk pc d =
     (case resolve_step LookupIP 0 host (clk pc) pc d of Some (pc', d') \<Rightarrow> resolve_run n LookupIP host clk pc' d' | None \<Rightarrow> None)"

definition DNSCache_resolve ::
  "(string \<Rightarrow> ip list res) \<Rightarrow> time \<Rightarrow> time \<Rightarrow> time \<Rightarrow> dns_cache \<Rightarrow> string \<Rightarrow> (ip list res \<times> dns_cache) option" where
  "DNSCache_resolve LookupIP now1 now2 now3 d host = resolve_run 7 LookupIP host (clock now1 now2 now3) RStart d"

section \<open>The dialer\<close>

text \<open>\<open>dial\<close> is \<^verbatim>\<open>net.Dialer.DialContext\<close>; \<open>None\<close> is waiting for a lock that is held.\<close>

definition FastDialer_DialContext ::
  "(string \<Rightarrow> string \<Rightarrow> 'n res) \<Rightarrow> (string \<Rightarrow> ip list res) \<Rightarrow> time \<Rightarrow> time \<Rightarrow> time \<Rightarrow> dns_cache \<Rightarrow> string \<Rightarrow> string
     \<Rightarrow> ('n res \<times> dns_cache) option" where
  "FastDialer_DialContext dial LookupIP now1 now2 now3 d network addr =
     (case SplitHostPort addr of
        Ok (host, port) \<Rightarrow>
          (case DNSCache_resolve LookupIP now1 now2 now3 d host of
             None \<Rightarrow> None
           | Some (Panic p, d') \<Rightarrow> Some (Panic p, d')
           | Some (Ok (a # _), d') \<Rightarrow> Some (dial network (JoinHostPort (IP_String a) port), d')
           | Some (_, d') \<Rightarrow> Some (dial network addr, d'))
      | _ \<Rightarrow> Some (dial network addr, d))"

section \<open>A call on its own\<close>

definition dns_get :: "dns_cache \<Rightarrow> time \<Rightarrow> string \<Rightarrow> ip list option" where
  "dns_get d now host = (case dn_cache d host of Some e \<Rightarrow> if now < de_expiry e then Some (de_ips e) else None | None \<Rightarrow> None)"

definition dns_entry :: "dns_cache \<Rightarrow> string \<Rightarrow> dnsCacheEntry" where
  "dns_entry d host = (case dn_cache d host of Some e \<Rightarrow> e | None \<Rightarrow> zero_entry)"

definition dns_put :: "dns_cache \<Rightarrow> time \<Rightarrow> string \<Rightarrow> ip list \<Rightarrow> dns_cache" where
  "dns_put d now host ips =
     d\<lparr>dn_cache := (dn_cache d)(host \<mapsto> \<lparr>de_ips = ips, de_expiry = now + dn_ttl d, de_resolving = None\<rparr>)\<rparr>"

definition dns_touch :: "dns_cache \<Rightarrow> string \<Rightarrow> dns_cache" where
  "dns_touch d host = d\<lparr>dn_cache := (dn_cache d)(host \<mapsto> dns_entry d host)\<rparr>"

definition free :: "dns_cache \<Rightarrow> string \<Rightarrow> bool" where
  "free d host \<longleftrightarrow> de_resolving (dns_entry d host) = None"

interpretation dns: ttl_store dns_get dns_put dn_ttl "\<lambda>_ _. True"
  by unfold_locales (auto simp: dns_get_def dns_put_def split: option.splits if_splits)

lemmas resolve_defs = DNSCache_resolve_def clock_def dns_get_def dns_put_def dns_touch_def dns_entry_def free_def unlock_def update_entry_def

lemma resolve_hit:
  "dns_get d now1 host = Some ips \<Longrightarrow> DNSCache_resolve LookupIP now1 now2 now3 d host = Some (Ok ips, d)"
  by (auto simp: DNSCache_resolve_def clock_def dns_get_def eval_nat_numeral split: option.splits if_splits)

lemma resolve_miss:
  assumes "dns_get d now1 host = None" and "now1 \<le> now2" and "free d host" and "zero_time \<le> now2"
  shows "DNSCache_resolve LookupIP now1 now2 now3 d host =
    Some (case LookupIP host of
            Ok ips \<Rightarrow> (Ok ips, dns_put d now3 host ips)
          | Err e \<Rightarrow> (Err e, dns_touch d host)
          | Panic p \<Rightarrow> (Panic p, dns_touch d host))"
proof (cases "dn_cache d host")
  case None
  then show ?thesis
    using assms(4) by (auto simp: resolve_defs zero_entry_def eval_nat_numeral split: res.splits)
next
  case (Some e)
  then have "\<not> now1 < de_expiry e" "\<not> now2 < de_expiry e" "de_resolving e = None"
    using assms(1-3) by (auto simp: dns_get_def free_def dns_entry_def split: if_splits)
  moreover obtain ips x l where "e = \<lparr>de_ips = ips, de_expiry = x, de_resolving = l\<rparr>" by (cases e)
  ultimately show ?thesis using Some by (auto simp: resolve_defs eval_nat_numeral fun_upd_idem split: res.splits)
qed

text \<open>A dial that resolved its host and a later one within the lifetime of the answer.\<close>

lemma dial_stored:
  assumes "SplitHostPort addr = Ok (host, port)" and "dns_get d t1 host = Some (a # as)"
  shows "FastDialer_DialContext dial LookupIP t1 t2 t3 d network addr = Some (dial network (JoinHostPort (IP_String a) port), d)"
  by (simp add: FastDialer_DialContext_def assms(1) resolve_hit [OF assms(2)])

text \<open>Once a dial has looked its host up, every dial of that host, on any network and port, that starts less than the lifetime of the cache after the answer
  came goes to the same address, the first one of the answer, and leaves the cache as it is, whatever the resolver would say meanwhile. The first dial
  goes to that address too.\<close>

theorem dns_answer_reused:
  assumes "SplitHostPort addr = Ok (host, port)" and "SplitHostPort addr' = Ok (host, port')"
    and "dns_get d t1 host = None" and "free d host" and "t1 \<le> t2" and "zero_time \<le> t2"
    and "LookupIP host = Ok (a # as)" and "t1' < t3 + dn_ttl d"
  shows "\<exists>d'. FastDialer_DialContext dial LookupIP t1 t2 t3 d network addr = Some (dial network (JoinHostPort (IP_String a) port), d')
    \<and> FastDialer_DialContext dial LookupIP' t1' t2' t3' d' network' addr' = Some (dial network' (JoinHostPort (IP_String a) port'), d')"
proof -
  let ?d = "dns_put d t3 host (a # as)"
  have "FastDialer_DialContext dial LookupIP t1 t2 t3 d network addr = Some (dial network (JoinHostPort (IP_String a) port), ?d)"
    by (simp add: FastDialer_DialContext_def assms(1,7) resolve_miss [OF assms(3,5,4,6)])
  moreover have "dns_get ?d t1' host = Some (a # as)" using assms(8) by (simp add: dns.get_put_same)
  ultimately show ?thesis using dial_stored [OF assms(2)] by blast
qed

theorem dns_answer_reused_witness:
  "\<exists>d'. FastDialer_DialContext (\<lambda>n a. Ok a) (\<lambda>h. Ok [[192, 0, 2, 7], [192, 0, 2, 8]]) 10 11 12 dnsCache ''tcp'' ''db:80'' = Some (Ok ''192.0.2.7:80'', d')
     \<and> FastDialer_DialContext (\<lambda>n a. Ok a) (\<lambda>h. Err ErrEOF) 20 21 22 d' ''tcp'' ''db:81'' = Some (Ok ''192.0.2.7:81'', d')"
proof -
  have s: "SplitHostPort ''db:80'' = Ok (''db'', ''80'')" "SplitHostPort ''db:81'' = Ok (''db'', ''81'')" by code_simp+
  have j: "JoinHostPort (IP_String [192, 0, 2, 7]) ''80'' = ''192.0.2.7:80''" "JoinHostPort (IP_String [192, 0, 2, 7]) ''81'' = ''192.0.2.7:81''" by code_simp+
  have c: "dns_get dnsCache 10 ''db'' = None" "free dnsCache ''db''" "zero_time \<le> 11" "(20::int) < 12 + dn_ttl dnsCache"
    by (simp_all add: dns_get_def dnsCache_def free_def dns_entry_def zero_entry_def zero_time_def second_def minute_def)
  show ?thesis
    using dns_answer_reused [OF s c(1,2) _ c(3) _ c(4), of "\<lambda>h. Ok [[192, 0, 2, 7], [192, 0, 2, 8]]" "[192, 0, 2, 7]" "[[192, 0, 2, 8]]"
        "\<lambda>n a. Ok a" "''tcp''" "\<lambda>h. Err ErrEOF" 21 22 "''tcp''"] by (simp add: j)
qed

text \<open>When the host does not resolve, or has no address, the dialer is handed the name.\<close>

lemma dial_unresolved:
  assumes "SplitHostPort addr = Ok (host, port)" and "dns_get d t1 host = None" and "t1 \<le> t2" and "free d host" and "zero_time \<le> t2"
    and "LookupIP host = Err e"
  shows "FastDialer_DialContext dial LookupIP t1 t2 t3 d network addr = Some (dial network addr, dns_touch d host)"
  by (simp add: FastDialer_DialContext_def assms(1,6) resolve_miss [OF assms(2-5)])

section \<open>Concurrent calls\<close>

text \<open>Calls have numbers. \<open>ds_log\<close> are the answers the resolver gave so far, and when; \<open>ds_stored\<close> are the answers whose expiry was set, and when. A
  resolver may answer differently every time. A step is atomic: one reading of the expiry, one reading of the addresses, one assignment. The code
  reads both on its fast path without a lock, so that the Go memory model promises this for neither.\<close>

type_synonym dns_log = "(string \<times> ip list \<times> time) set"

record dns_state =
  ds_dns :: dns_cache
  ds_calls :: "nat \<rightharpoonup> string \<times> resolve_pc"
  ds_now :: time
  ds_log :: dns_log
  ds_stored :: dns_log

definition log_step :: "string \<Rightarrow> resolve_pc \<Rightarrow> (string \<Rightarrow> ip list res) \<Rightarrow> time \<Rightarrow> dns_log \<Rightarrow> dns_log" where
  "log_step host pc LookupIP now log = (case (pc, LookupIP host) of (RLookup, Ok ips) \<Rightarrow> insert (host, ips, now) log | _ \<Rightarrow> log)"

definition stored_step :: "string \<Rightarrow> resolve_pc \<Rightarrow> time \<Rightarrow> dns_log \<Rightarrow> dns_log" where
  "stored_step host pc now log = (case pc of RStoreExpiry ips \<Rightarrow> insert (host, ips, now) log | _ \<Rightarrow> log)"

definition stepped :: "dns_state \<Rightarrow> nat \<Rightarrow> string \<Rightarrow> resolve_pc \<Rightarrow> (string \<Rightarrow> ip list res) \<Rightarrow> time \<Rightarrow> resolve_pc \<Rightarrow> dns_cache \<Rightarrow> dns_state" where
  "stepped s who host pc LookupIP now pc' d' =
     s\<lparr>ds_dns := d', ds_calls := (ds_calls s)(who \<mapsto> (host, pc')), ds_now := now, ds_log := log_step host pc LookupIP now (ds_log s),
       ds_stored := stored_step host pc now (ds_stored s)\<rparr>"

lemma stepped_simps [simp]:
  "ds_dns (stepped s who host pc LookupIP now pc' d') = d'" "ds_now (stepped s who host pc LookupIP now pc' d') = now"
  "ds_calls (stepped s who host pc LookupIP now pc' d') = (ds_calls s)(who \<mapsto> (host, pc'))"
  "ds_log (stepped s who host pc LookupIP now pc' d') = log_step host pc LookupIP now (ds_log s)"
  "ds_stored (stepped s who host pc LookupIP now pc' d') = stored_step host pc now (ds_stored s)"
  by (simp_all add: stepped_def)

inductive dns_reach :: "duration \<Rightarrow> dns_state \<Rightarrow> bool" for ttl where
  dns_init: "zero_time \<le> t \<Longrightarrow>
    dns_reach ttl \<lparr>ds_dns = \<lparr>dn_cache = Map.empty, dn_ttl = ttl\<rparr>, ds_calls = Map.empty, ds_now = t, ds_log = {}, ds_stored = {}\<rparr>"
| dns_call: "dns_reach ttl s \<Longrightarrow> ds_calls s who = None \<Longrightarrow> dns_reach ttl (s\<lparr>ds_calls := (ds_calls s)(who \<mapsto> (host, RStart))\<rparr>)"
| dns_step: "dns_reach ttl s \<Longrightarrow> ds_calls s who = Some (host, pc) \<Longrightarrow> ds_now s \<le> now \<Longrightarrow>
    resolve_step LookupIP who host now pc (ds_dns s) = Some (pc', d') \<Longrightarrow> dns_reach ttl (stepped s who host pc LookupIP now pc' d')"

definition resolving :: "resolve_pc \<Rightarrow> bool" where
  "resolving pc \<longleftrightarrow> (case pc of RCheck \<Rightarrow> True | RLookup \<Rightarrow> True | RStoreIPs _ \<Rightarrow> True | RStoreExpiry _ \<Rightarrow> True | _ \<Rightarrow> False)"

definition holds_lock :: "nat \<Rightarrow> string \<Rightarrow> dns_cache \<Rightarrow> bool" where
  "holds_lock who host d \<longleftrightarrow> (\<exists>e. dn_cache d host = Some e \<and> de_resolving e = Some who)"

text \<open>Who resolves holds the lock of the entry; a step takes a free lock or gives back its own.\<close>

lemma step_lock:
  assumes "resolve_step LookupIP who host now pc d = Some (pc', d')" and "resolving pc \<Longrightarrow> holds_lock who host d"
  shows "resolving pc' \<Longrightarrow> holds_lock who host d'"
    and "holds_lock who' host' d \<Longrightarrow> who' \<noteq> who \<Longrightarrow> holds_lock who' host' d'"
proof -
  show "resolving pc' \<Longrightarrow> holds_lock who host d'"
    using assms by (cases pc) (auto simp: resolving_def holds_lock_def unlock_def update_entry_def split: option.splits res.splits if_splits)
  show "holds_lock who' host' d \<Longrightarrow> who' \<noteq> who \<Longrightarrow> holds_lock who' host' d'"
    using assms by (cases pc) (auto simp: resolving_def holds_lock_def unlock_def update_entry_def split: option.splits res.splits if_splits)
qed

lemma reach_lock: "dns_reach ttl s \<Longrightarrow> ds_calls s who = Some (host, pc) \<Longrightarrow> resolving pc \<Longrightarrow> holds_lock who host (ds_dns s)"
proof (induction arbitrary: who host pc rule: dns_reach.induct)
  case (dns_call s who' host')
  then show ?case by (auto simp: resolving_def split: if_splits)
next
  case (dns_step s who' host' pc' now LookupIP pc'' d')
  then show ?case using step_lock [OF dns_step.hyps(4)] by (auto split: if_splits)
qed simp

text \<open>What the entries hold and the calls carry are answers of the resolver. An entry that is not current may be about to be overwritten; a current one was
  stored, with this answer, exactly its lifetime before its expiry.\<close>

definition answered :: "dns_state \<Rightarrow> string \<Rightarrow> ip list \<Rightarrow> bool" where
  "answered s host ips \<longleftrightarrow> (\<exists>t \<le> ds_now s. (host, ips, t) \<in> ds_log s)"

definition current_ok :: "dns_state \<Rightarrow> string \<Rightarrow> dnsCacheEntry \<Rightarrow> bool" where
  "current_ok s host e \<longleftrightarrow> (\<exists>t \<le> ds_now s. (host, de_ips e, t) \<in> ds_stored s \<and> de_expiry e = t + dn_ttl (ds_dns s)) \<or> de_expiry e \<le> ds_now s"

definition entry_ok :: "dns_state \<Rightarrow> string \<Rightarrow> dnsCacheEntry \<Rightarrow> bool" where
  "entry_ok s host e \<longleftrightarrow> (answered s host (de_ips e) \<or> de_expiry e = zero_time) \<and> current_ok s host e"

text \<open>What a call that resolves knows of its entry.\<close>

definition call_ok :: "dns_state \<Rightarrow> string \<Rightarrow> resolve_pc \<Rightarrow> bool" where
  "call_ok s host pc \<longleftrightarrow>
     (case pc of
        RLookup \<Rightarrow> (\<exists>e. dn_cache (ds_dns s) host = Some e \<and> de_expiry e \<le> ds_now s)
      | RStoreIPs ips \<Rightarrow> answered s host ips \<and> (\<exists>e. dn_cache (ds_dns s) host = Some e \<and> de_expiry e \<le> ds_now s)
      | RStoreExpiry ips \<Rightarrow> answered s host ips \<and> (\<exists>e. dn_cache (ds_dns s) host = Some e \<and> de_ips e = ips)
      | RReturn (Ok ips) \<Rightarrow> answered s host ips
      | RFast \<Rightarrow> (\<exists>e. dn_cache (ds_dns s) host = Some e \<and> answered s host (de_ips e))
      | _ \<Rightarrow> True)"

definition dns_ok :: "dns_state \<Rightarrow> bool" where
  "dns_ok s \<longleftrightarrow> zero_time \<le> ds_now s
     \<and> (\<forall>host e. dn_cache (ds_dns s) host = Some e \<longrightarrow> entry_ok s host e)
     \<and> (\<forall>who host pc. ds_calls s who = Some (host, pc) \<longrightarrow> call_ok s host pc)
     \<and> (\<forall>host ips t. (host, ips, t) \<in> ds_stored s \<longrightarrow> (\<exists>t' \<le> t. (host, ips, t') \<in> ds_log s))"

lemma step_ttl: "resolve_step LookupIP who host now pc d = Some (pc', d') \<Longrightarrow> dn_ttl d' = dn_ttl d"
  by (cases pc) (auto simp: unlock_def update_entry_def split: option.splits res.splits if_splits)

lemma step_entries:
  assumes "resolve_step LookupIP who host now pc d = Some (pc', d')" and "dn_cache d' h = Some e'"
  shows "case dn_cache d h of
      None \<Rightarrow> de_expiry e' = zero_time
    | Some e \<Rightarrow> de_expiry e' = de_expiry e \<and> (de_ips e' = de_ips e \<or> h = host \<and> pc = RStoreIPs (de_ips e'))
        \<or> de_expiry e' = now + dn_ttl d \<and> de_ips e' = de_ips e \<and> h = host \<and> (\<exists>ips. pc = RStoreExpiry ips)"
  using assms
  by (cases pc) (auto simp: unlock_def update_entry_def zero_entry_def split: option.splits res.splits if_splits)

lemma step_keeps_entries:
  assumes "resolve_step LookupIP who host now pc d = Some (pc', d')" and "dn_cache d h = Some e"
  shows "\<exists>e'. dn_cache d' h = Some e' \<and> (de_ips e' = de_ips e \<or> h = host \<and> pc = RStoreIPs (de_ips e'))
    \<and> (h = host \<longrightarrow> resolving pc \<or> de_ips e' = de_ips e \<and> de_expiry e' = de_expiry e) \<and> (h \<noteq> host \<longrightarrow> e' = e)"
  using assms
  by (cases pc) (auto simp: unlock_def update_entry_def resolving_def split: option.splits res.splits if_splits)

lemma log_mono: "(h, ips, t) \<in> log \<Longrightarrow> (h, ips, t) \<in> log_step host pc LookupIP now log"
  "(h, ips, t) \<in> log \<Longrightarrow> (h, ips, t) \<in> stored_step host pc now log"
  by (auto simp: log_step_def stored_step_def split: resolve_pc.splits res.splits)

lemma answered_mono:
  assumes "answered s h ips" and "ds_now s \<le> now"
  shows "answered (stepped s who host pc LookupIP now pc' d') h ips"
  proof -
  obtain t where "t \<le> ds_now s" "(h, ips, t) \<in> ds_log s" using assms(1) by (auto simp: answered_def)
  then show ?thesis using assms(2) log_mono(1) [of h ips t "ds_log s" host pc LookupIP now] by (auto simp: answered_def intro: order_trans)
qed

text \<open>The own call of a step, and a call of another number, which keeps its entry while it resolves.\<close>

lemma step_call_ok:
  assumes st: "resolve_step LookupIP who host now pc (ds_dns s) = Some (pc', d')" and "dns_ok s" and own: "call_ok s host pc" and now: "ds_now s \<le> now"
    and lock: "resolving pc \<Longrightarrow> holds_lock who host (ds_dns s)"
  shows "call_ok (stepped s who host pc LookupIP now pc' d') host pc'"
proof -
  have served: "answered s host (de_ips e)" if "dn_cache (ds_dns s) host = Some e" "now < de_expiry e" for e
  proof -
    have "entry_ok s host e" "zero_time < de_expiry e" using assms(2) now that by (auto simp: dns_ok_def)
    then show ?thesis by (simp add: entry_ok_def)
  qed
  note keep = answered_mono [OF _ now, where who = who and host = host and pc = pc and LookupIP = LookupIP and pc' = pc' and d' = d']
  show ?thesis
  proof (cases pc)
    case RLookup
    then show ?thesis using st own now by (fastforce simp: call_ok_def answered_def log_step_def split: res.splits)
  next
    case (RStoreIPs ips)
    then show ?thesis using st own keep by (auto simp: call_ok_def update_entry_def)
  next
    case (RStoreExpiry ips)
    then show ?thesis using st own keep by (auto simp: call_ok_def)
  next
    case RFast
    then show ?thesis using st own keep by (auto simp: call_ok_def)
  qed (use st served keep lock in \<open>auto simp: call_ok_def resolving_def holds_lock_def split: option.splits if_splits\<close>)
qed

lemma other_call_ok:
  assumes st: "resolve_step LookupIP who host now pc (ds_dns s) = Some (pc', d')" and own: "call_ok s host pc" and now: "ds_now s \<le> now"
    and other: "call_ok s h p" and excl: "resolving p \<Longrightarrow> h = host \<Longrightarrow> \<not> resolving pc"
  shows "call_ok (stepped s who host pc LookupIP now pc' d') h p"
proof -
  let ?s = "stepped s who host pc LookupIP now pc' d'"
  note keep = answered_mono [OF _ now, where who = who and host = host and pc = pc and LookupIP = LookupIP and pc' = pc' and d' = d']
  have expired: "\<exists>e'. dn_cache d' h = Some e' \<and> de_expiry e' \<le> now" if "\<exists>e. dn_cache (ds_dns s) h = Some e \<and> de_expiry e \<le> ds_now s" "resolving p"
    using step_keeps_entries [OF st] that excl now by fastforce
  have ips: "\<exists>e'. dn_cache d' h = Some e' \<and> de_ips e' = ips" if "\<exists>e. dn_cache (ds_dns s) h = Some e \<and> de_ips e = ips" "resolving p" for ips
    using step_keeps_entries [OF st] that excl by fastforce
  have fast: "\<exists>e'. dn_cache d' h = Some e' \<and> answered ?s h (de_ips e')" if "dn_cache (ds_dns s) h = Some e" "answered s h (de_ips e)" for e
    using step_keeps_entries [OF st that(1)] that(2) own keep by (auto simp: call_ok_def)
  show ?thesis
    using other expired ips fast keep by (cases p) (auto simp: call_ok_def resolving_def split: res.splits)
qed

lemma step_entry_ok:
  assumes st: "resolve_step LookupIP who host now pc (ds_dns s) = Some (pc', d')" and ok: "dns_ok s" and own: "call_ok s host pc" and now: "ds_now s \<le> now"
    and d': "dn_cache d' h = Some e'"
  shows "entry_ok (stepped s who host pc LookupIP now pc' d') h e'"
proof (cases "dn_cache (ds_dns s) h")
  case None
  then show ?thesis using step_entries [OF st d'] ok now by (auto simp: entry_ok_def current_ok_def dns_ok_def)
next
  case (Some e)
  then have e: "entry_ok s h e" using ok by (simp add: dns_ok_def)
  note keep = answered_mono [OF _ now, where who = who and host = host and pc = pc and LookupIP = LookupIP and pc' = pc' and d' = d']
  consider "de_expiry e' = de_expiry e" "de_ips e' = de_ips e"
    | "de_expiry e' = de_expiry e" "h = host" "pc = RStoreIPs (de_ips e')"
    | ips where "de_expiry e' = now + dn_ttl (ds_dns s)" "de_ips e' = de_ips e" "h = host" "pc = RStoreExpiry ips"
    using step_entries [OF st d'] Some by auto
  then show ?thesis
  proof cases
    case 1
    have "current_ok (stepped s who host pc LookupIP now pc' d') h e'"
    proof (cases "de_expiry e \<le> ds_now s")
      case False
      then obtain t where "t \<le> ds_now s" "(h, de_ips e, t) \<in> ds_stored s" "de_expiry e = t + dn_ttl (ds_dns s)"
        using e by (auto simp: entry_ok_def current_ok_def)
      then show ?thesis using 1 now log_mono(2) [of h "de_ips e" t "ds_stored s" host pc now]
        by (auto simp: current_ok_def step_ttl [OF st] intro: exI [of _ t])
    qed (use 1 now in \<open>simp add: current_ok_def\<close>)
    then show ?thesis using e 1 keep by (auto simp: entry_ok_def)
  next
    case 2
    then have "answered s h (de_ips e')" "de_expiry e \<le> ds_now s" using own Some by (auto simp: call_ok_def)
    then show ?thesis using 2 keep now by (auto simp: entry_ok_def current_ok_def)
  next
    case 3
    then have "answered s h (de_ips e')" "de_ips e' = ips" using own Some by (auto simp: call_ok_def)
    then show ?thesis using 3 keep by (auto simp: entry_ok_def current_ok_def step_ttl [OF st] stored_step_def)
  qed
qed

lemma step_stored_ok:
  assumes ok: "dns_ok s" and own: "call_ok s host pc" and now: "ds_now s \<le> now" and "(h, ips, t) \<in> stored_step host pc now (ds_stored s)"
  shows "\<exists>t' \<le> t. (h, ips, t') \<in> log_step host pc LookupIP now (ds_log s)"
proof (cases "(h, ips, t) \<in> ds_stored s")
  case True
  then obtain t' where "t' \<le> t" "(h, ips, t') \<in> ds_log s" using ok unfolding dns_ok_def by blast
  then show ?thesis using log_mono(1) [of h ips t' "ds_log s" host pc LookupIP now] by blast
next
  case False
  then have "pc = RStoreExpiry ips" and "h = host" and "t = now" using assms(4) by (auto simp: stored_step_def split: resolve_pc.splits)
  moreover obtain t' where "t' \<le> ds_now s" "(host, ips, t') \<in> ds_log s" using own calculation(1) by (auto simp: call_ok_def answered_def)
  ultimately show ?thesis using now log_mono(1) [of h ips t' "ds_log s" host pc LookupIP now] by (auto intro!: exI [of _ t'])
qed

lemma reach_dns_ok: "dns_reach ttl s \<Longrightarrow> dns_ok s \<and> dn_ttl (ds_dns s) = ttl"
proof (induction rule: dns_reach.induct)
  case (dns_call s who host)
  then show ?case by (auto simp: dns_ok_def entry_ok_def current_ok_def answered_def call_ok_def split: resolve_pc.splits res.splits)
next
  case (dns_step s who host pc now LookupIP pc' d')
  let ?s = "stepped s who host pc LookupIP now pc' d'"
  have ok: "dns_ok s" using dns_step.IH by simp
  then have own: "call_ok s host pc" using dns_step.hyps(2) by (auto simp: dns_ok_def)
  note st = dns_step.hyps(4) and now = dns_step.hyps(3)
  have calls: "call_ok ?s h p" if "ds_calls ?s i = Some (h, p)" for i h p
  proof (cases "i = who")
    case True
    then show ?thesis using that step_call_ok [OF st ok own now reach_lock [OF dns_step.hyps(1,2)]] by simp
  next
    case False
    then have i: "ds_calls s i = Some (h, p)" using that by simp
    have "\<not> (resolving p \<and> h = host \<and> resolving pc)"
      using False reach_lock [OF dns_step.hyps(1) i] reach_lock [OF dns_step.hyps(1,2)] by (auto simp: holds_lock_def)
    then show ?thesis using other_call_ok [OF st own now, of h p] i ok by (auto simp: dns_ok_def)
  qed
  show ?case
    using calls step_entry_ok [OF st ok own now] step_stored_ok [OF ok own now, where LookupIP = LookupIP] ok now dns_step.IH step_ttl [OF st]
    by (simp add: dns_ok_def)
qed (simp add: dns_ok_def)

text \<open>C25: Whatever the interleaving of concurrent calls of \<^verbatim>\<open>resolve\<close>: at most one of them is resolving a host, so that no two lookups for one host
  overlap; an answer that a call returns is one that the resolver gave earlier for that very host; and an entry that is still current was stored less than the
  lifetime of the cache ago, with an answer that the resolver had given by then. (Steps are atomic; the code has a data race between the fast
  path and the assignments.)\<close>

theorem dns_single_flight:
  assumes "dns_reach ttl s"
  shows "(ds_calls s i = Some (host, pc) \<and> ds_calls s j = Some (host, pc') \<and> resolving pc \<and> resolving pc' \<longrightarrow> i = j)
    \<and> (ds_calls s i = Some (host, RReturn (Ok ips)) \<longrightarrow> (\<exists>t \<le> ds_now s. (host, ips, t) \<in> ds_log s))
    \<and> (dns_get (ds_dns s) (ds_now s) host = Some ips \<longrightarrow>
        (\<exists>t t'. (host, ips, t) \<in> ds_log s \<and> (host, ips, t') \<in> ds_stored s \<and> t \<le> t' \<and> t' \<le> ds_now s \<and> ds_now s < t' + ttl))"
proof (intro conjI impI)
  assume "ds_calls s i = Some (host, pc) \<and> ds_calls s j = Some (host, pc') \<and> resolving pc \<and> resolving pc'"
  then have "holds_lock i host (ds_dns s)" "holds_lock j host (ds_dns s)" using reach_lock [OF assms] by blast+
  then show "i = j" by (auto simp: holds_lock_def)
next
  assume "ds_calls s i = Some (host, RReturn (Ok ips))"
  then have "call_ok s host (RReturn (Ok ips))" using reach_dns_ok [OF assms] by (auto simp: dns_ok_def)
  then show "\<exists>t \<le> ds_now s. (host, ips, t) \<in> ds_log s" by (simp add: call_ok_def answered_def)
next
  assume "dns_get (ds_dns s) (ds_now s) host = Some ips"
  then obtain e where e: "dn_cache (ds_dns s) host = Some e" "ds_now s < de_expiry e" "ips = de_ips e"
    by (auto simp: dns_get_def split: option.splits if_splits)
  have ok: "dns_ok s" "dn_ttl (ds_dns s) = ttl" using reach_dns_ok [OF assms] by simp_all
  then have "current_ok s host e" using e(1) by (simp add: dns_ok_def entry_ok_def)
  then obtain t' where t': "t' \<le> ds_now s" "(host, ips, t') \<in> ds_stored s" "ds_now s < t' + ttl"
    using e ok(2) by (auto simp: current_ok_def)
  then obtain t where "t \<le> t'" "(host, ips, t) \<in> ds_log s" using ok(1) unfolding dns_ok_def by blast
  then show "\<exists>t t'. (host, ips, t) \<in> ds_log s \<and> (host, ips, t') \<in> ds_stored s \<and> t \<le> t' \<and> t' \<le> ds_now s \<and> ds_now s < t' + ttl"
    using t' by blast
qed

text \<open>Runs as lists of events: a new call, or a step of a call at a time and with a resolver.\<close>

datatype dns_event = Call nat string | Step nat time "string \<Rightarrow> ip list res"

fun dns_exec :: "dns_event list \<Rightarrow> dns_state \<Rightarrow> dns_state option" where
  "dns_exec [] s = Some s"
| "dns_exec (Call who host # es) s =
     (if ds_calls s who = None then dns_exec es (s\<lparr>ds_calls := (ds_calls s)(who \<mapsto> (host, RStart))\<rparr>) else None)"
| "dns_exec (Step who now LookupIP # es) s =
     (case ds_calls s who of
        Some (host, pc) \<Rightarrow>
          if ds_now s \<le> now then
            (case resolve_step LookupIP who host now pc (ds_dns s) of
               Some (pc', d') \<Rightarrow>
                 dns_exec es (stepped s who host pc LookupIP now pc' d')
             | None \<Rightarrow> None)
          else None
      | None \<Rightarrow> None)"

lemma dns_exec_reach: "dns_reach ttl s \<Longrightarrow> dns_exec es s = Some s' \<Longrightarrow> dns_reach ttl s'"
proof (induction es arbitrary: s)
  case (Cons ev es)
  then show ?case
  proof (cases ev)
    case (Call who host)
    then show ?thesis using Cons.prems Cons.IH [OF dns_call [OF Cons.prems(1)]] by (auto split: if_splits)
  next
    case (Step who now LookupIP)
    then show ?thesis using Cons.prems Cons.IH [OF dns_step [OF Cons.prems(1)]] by (fastforce split: if_splits option.splits)
  qed
qed simp

definition dns_start :: dns_state where
  "dns_start = \<lparr>ds_dns = dnsCache, ds_calls = Map.empty, ds_now = 1, ds_log = {}, ds_stored = {}\<rparr>"

definition two_calls :: "dns_event list" where
  "two_calls =
     [Call 0 ''h'', Call 1 ''h'', Step 0 2 (\<lambda>_. Err ErrEOF), Step 1 2 (\<lambda>_. Err ErrEOF), Step 0 3 (\<lambda>_. Err ErrEOF), Step 1 3 (\<lambda>_. Err ErrEOF),
      Step 0 4 (\<lambda>_. Err ErrEOF), Step 0 5 (\<lambda>_. Err ErrEOF), Step 0 6 (\<lambda>_. Ok [[127, 0, 0, 1]]), Step 0 7 (\<lambda>_. Err ErrEOF), Step 0 8 (\<lambda>_. Err ErrEOF),
      Step 1 9 (\<lambda>_. Err ErrEOF), Step 1 10 (\<lambda>_. Ok [[1, 1, 1, 1]])]"

text \<open>The second call waited for the lock and finds the answer of the first.\<close>

theorem dns_single_flight_witness:
  "\<exists>s. dns_reach (5 * minute) s \<and> ds_calls s 1 = Some (''h'', RReturn (Ok [[127, 0, 0, 1]])) \<and> dns_get (ds_dns s) (ds_now s) ''h'' = Some [[127, 0, 0, 1]]
     \<and> (\<exists>t'. (''h'', [[127, 0, 0, 1]], t') \<in> ds_stored s \<and> ds_now s < t' + 5 * minute)"
proof -
  have run: "map_option (\<lambda>s. (ds_calls s 1, dns_get (ds_dns s) (ds_now s) ''h'')) (dns_exec two_calls dns_start)
      = Some (Some (''h'', RReturn (Ok [[127, 0, 0, 1]])), Some [[127, 0, 0, 1]])"
    by (simp add: two_calls_def dns_start_def dnsCache_def zero_entry_def zero_time_def second_def minute_def unlock_def update_entry_def dns_get_def)
  obtain s where s: "dns_exec two_calls dns_start = Some s" "ds_calls s 1 = Some (''h'', RReturn (Ok [[127, 0, 0, 1]]))"
    "dns_get (ds_dns s) (ds_now s) ''h'' = Some [[127, 0, 0, 1]]"
    using run by (auto simp only: map_option_eq_Some prod.inject)
  have "dns_reach (5 * minute) dns_start"
    unfolding dns_start_def dnsCache_def by (rule dns_init) (simp add: zero_time_def second_def)
  then have r: "dns_reach (5 * minute) s" using s(1) by (rule dns_exec_reach)
  from dns_single_flight [OF r, where host = "''h''" and ips = "[[127, 0, 0, 1]]"] r s(2,3) show ?thesis by blast
qed

section \<open>Every call returns\<close>

text \<open>The lock of an entry belongs to a call that is resolving this host, and a call beyond the creation of the entry finds it.\<close>

lemma step_owner:
  assumes "resolve_step LookupIP who host now pc d = Some (pc', d')" and "holds_lock j h d'"
  shows "holds_lock j h d \<and> (j = who \<and> h = host \<longrightarrow> resolving pc' \<or> \<not> resolving pc) \<or> j = who \<and> h = host \<and> resolving pc'"
  using assms
  by (cases pc) (auto simp: resolving_def holds_lock_def unlock_def update_entry_def zero_entry_def split: option.splits res.splits if_splits)

lemma reach_owner: "dns_reach ttl s \<Longrightarrow> holds_lock j h (ds_dns s) \<Longrightarrow> \<exists>pc. ds_calls s j = Some (h, pc) \<and> resolving pc"
proof (induction arbitrary: j h rule: dns_reach.induct)
  case (dns_init t)
  then show ?case by (simp add: holds_lock_def)
next
  case (dns_call s who host)
  then show ?case by fastforce
next
  case (dns_step s who host pc now LookupIP pc' d')
  have own: "holds_lock j h (ds_dns s) \<Longrightarrow> \<exists>pc. ds_calls s j = Some (h, pc) \<and> resolving pc" by (rule dns_step.IH)
  show ?case using step_owner [OF dns_step.hyps(4), of j h] dns_step.prems own dns_step.hyps(2) by (auto split: if_splits)
qed

definition entered :: "resolve_pc \<Rightarrow> bool" where
  "entered pc \<longleftrightarrow> pc \<noteq> RStart \<and> pc \<noteq> RCreate \<and> (\<forall>r. pc \<noteq> RReturn r)"

lemma step_entered:
  assumes "resolve_step LookupIP who host now pc d = Some (pc', d')" and "entered pc'" and "entered pc \<Longrightarrow> dn_cache d host \<noteq> None"
  shows "dn_cache d' host \<noteq> None"
  using assms
  by (cases pc) (auto simp: entered_def unlock_def update_entry_def split: option.splits res.splits if_splits)

lemma reach_entered: "dns_reach ttl s \<Longrightarrow> ds_calls s i = Some (host, pc) \<Longrightarrow> entered pc \<Longrightarrow> dn_cache (ds_dns s) host \<noteq> None"
proof (induction arbitrary: i host pc rule: dns_reach.induct)
  case (dns_call s who host')
  then show ?case by (auto simp: entered_def split: if_splits)
next
  case (dns_step s who host' pc' now LookupIP pc'' d')
  show ?case
  proof (cases "i = who")
    case True
    then have "host = host'" "pc = pc''" using dns_step.prems(1) by auto
    then show ?thesis using step_entered [OF dns_step.hyps(4)] dns_step.prems(2) dns_step.IH [OF dns_step.hyps(2)] by simp
  next
    case False
    then have "dn_cache (ds_dns s) host \<noteq> None" using dns_step.IH dns_step.prems by simp
    then obtain e where "dn_cache (ds_dns s) host = Some e" by blast
    from step_keeps_entries [OF dns_step.hyps(4) this] show ?thesis by auto
  qed
qed simp

text \<open>The number of steps a call still makes at most.\<close>

definition steps_left :: "resolve_pc \<Rightarrow> nat" where
  "steps_left pc =
     (case pc of RStart \<Rightarrow> 7 | RCreate \<Rightarrow> 6 | RLock \<Rightarrow> 5 | RCheck \<Rightarrow> 4 | RLookup \<Rightarrow> 3 | RStoreIPs _ \<Rightarrow> 2 | RStoreExpiry _ \<Rightarrow> 1 | RFast \<Rightarrow> 1 | RReturn _ \<Rightarrow> 0)"

lemma step_less: "resolve_step LookupIP who host now pc d = Some (pc', d') \<Longrightarrow> steps_left pc' < steps_left pc"
  by (cases pc) (auto simp: steps_left_def split: option.splits res.splits if_splits)

lemma unblocked:
  assumes "entered pc \<Longrightarrow> dn_cache d host \<noteq> None" and "\<forall>r. pc \<noteq> RReturn r" and "pc = RLock \<Longrightarrow> \<forall>j. \<not> holds_lock j host d"
  shows "\<exists>pc' d'. resolve_step LookupIP who host now pc d = Some (pc', d')"
  using assms by (cases pc) (auto simp: entered_def holds_lock_def split: option.splits)

text \<open>C26: No call of \<^verbatim>\<open>resolve\<close> waits forever. In every reachable state, for a call that has not returned, that call or the call that holds the lock of
  its host can make a step, whatever the time and the resolver's answer, and each step brings its call nearer to its end: there are at most seven.\<close>

theorem resolve_returns:
  assumes "dns_reach ttl s" and "ds_calls s i = Some (host, pc)" and "\<forall>r. pc \<noteq> RReturn r"
  shows "\<exists>j pcj. ds_calls s j = Some (host, pcj) \<and> (j = i \<or> holds_lock j host (ds_dns s)) \<and> steps_left pcj \<le> 7
    \<and> (\<forall>now LookupIP. \<exists>pc' d'. resolve_step LookupIP j host now pcj (ds_dns s) = Some (pc', d') \<and> steps_left pc' < steps_left pcj)"
proof -
  have bound: "steps_left p \<le> 7" for p by (cases p) (simp_all add: steps_left_def)
  have go: "\<exists>pc' d'. resolve_step LookupIP j host now p (ds_dns s) = Some (pc', d') \<and> steps_left pc' < steps_left p"
    if "ds_calls s j = Some (host, p)" "\<forall>r. p \<noteq> RReturn r" "p = RLock \<Longrightarrow> \<forall>j. \<not> holds_lock j host (ds_dns s)" for j p now LookupIP
    using unblocked [OF reach_entered [OF assms(1) that(1)] that(2,3)] step_less by blast
  show ?thesis
  proof (cases "pc = RLock \<and> (\<exists>j. holds_lock j host (ds_dns s))")
    case True
    then obtain j pcj where j: "holds_lock j host (ds_dns s)" "ds_calls s j = Some (host, pcj)" "resolving pcj"
      using reach_owner [OF assms(1)] by blast
    then have "\<forall>r. pcj \<noteq> RReturn r" "pcj \<noteq> RLock" by (auto simp: resolving_def)
    then show ?thesis using go [OF j(2)] bound j(1,2) by blast
  next
    case False
    then show ?thesis using go [OF assms(2,3)] assms(2) bound by blast
  qed
qed

theorem resolve_returns_witness:
  "\<exists>s. dns_exec [Call 0 ''h'', Call 1 ''h'', Step 0 2 (\<lambda>_. Err ErrEOF), Step 0 3 (\<lambda>_. Err ErrEOF), Step 0 4 (\<lambda>_. Err ErrEOF),
        Step 1 5 (\<lambda>_. Err ErrEOF), Step 1 6 (\<lambda>_. Err ErrEOF)] dns_start = Some s
     \<and> ds_calls s 1 = Some (''h'', RLock)
     \<and> (\<exists>j pcj. ds_calls s j = Some (''h'', pcj) \<and> (\<forall>now LookupIP. resolve_step LookupIP j ''h'' now pcj (ds_dns s) \<noteq> None))"
proof -
  let ?run = "dns_exec [Call 0 ''h'', Call 1 ''h'', Step 0 2 (\<lambda>_. Err ErrEOF), Step 0 3 (\<lambda>_. Err ErrEOF), Step 0 4 (\<lambda>_. Err ErrEOF),
        Step 1 5 (\<lambda>_. Err ErrEOF), Step 1 6 (\<lambda>_. Err ErrEOF)] dns_start"
  have "map_option (\<lambda>s. ds_calls s 1) ?run = Some (Some (''h'', RLock))"
    by (simp add: dns_start_def dnsCache_def zero_entry_def zero_time_def second_def minute_def unlock_def update_entry_def)
  then obtain s where s: "?run = Some s" "ds_calls s 1 = Some (''h'', RLock)" by (auto simp only: map_option_eq_Some)
  have "dns_reach (5 * minute) s"
    using dns_exec_reach [OF _ s(1)] dns_init [of 1 "5 * minute"] by (simp add: dns_start_def dnsCache_def zero_time_def second_def)
  from resolve_returns [OF this s(2)] s show ?thesis by fastforce
qed

section \<open>The transports\<close>

record tls_config =
  tl_MinVersion :: int
  tl_SessionTicketsDisabled :: bool
  tl_ClientSessionCache :: nat

text \<open>The settings of \<^verbatim>\<open>net.Dialer\<close> and \<^verbatim>\<open>http.Transport\<close>; \<open>tr_TLSNextProto\<close> is the map's keys, \<open>None\<close> for a nil map.\<close>

record http_transport =
  tr_DialTimeout :: duration
  tr_DialKeepAlive :: duration
  tr_DualStack :: bool
  tr_ForceAttemptHTTP2 :: bool
  tr_MaxIdleConns :: int
  tr_MaxIdleConnsPerHost :: int
  tr_MaxConnsPerHost :: int
  tr_IdleConnTimeout :: duration
  tr_TLSHandshakeTimeout :: duration
  tr_ExpectContinueTimeout :: duration
  tr_DisableCompression :: bool
  tr_DisableKeepAlives :: bool
  tr_ResponseHeaderTimeout :: duration
  tr_TLSClientConfig :: tls_config
  tr_TLSNextProto :: "string list option"
  tr_WriteBufferSize :: int
  tr_ReadBufferSize :: int

definition millisecond :: duration where
  "millisecond = 1000000"

definition NewFastHTTPTransport :: "int \<Rightarrow> http_transport" where
  "NewFastHTTPTransport procs =
     \<lparr>tr_DialTimeout = 200 * millisecond, tr_DialKeepAlive = 5 * second, tr_DualStack = True, tr_ForceAttemptHTTP2 = True,
      tr_MaxIdleConns = procs * 2000, tr_MaxIdleConnsPerHost = procs * 400, tr_MaxConnsPerHost = procs * 400,
      tr_IdleConnTimeout = 90 * second, tr_TLSHandshakeTimeout = 500 * millisecond, tr_ExpectContinueTimeout = 200 * millisecond,
      tr_DisableCompression = True, tr_DisableKeepAlives = False, tr_ResponseHeaderTimeout = 1 * second,
      tr_TLSClientConfig = \<lparr>tl_MinVersion = 0x0303, tl_SessionTicketsDisabled = False, tl_ClientSessionCache = 1000\<rparr>,
      tr_TLSNextProto = Some [], tr_WriteBufferSize = 2048 * 1024, tr_ReadBufferSize = 2048 * 1024\<rparr>"

definition GetSDKOptimizedTransport :: "int \<Rightarrow> http_transport" where
  "GetSDKOptimizedTransport procs =
     \<lparr>tr_DialTimeout = 250 * millisecond, tr_DialKeepAlive = 15 * second, tr_DualStack = True, tr_ForceAttemptHTTP2 = True,
      tr_MaxIdleConns = procs * 4000, tr_MaxIdleConnsPerHost = procs * 800, tr_MaxConnsPerHost = procs * 800,
      tr_IdleConnTimeout = 120 * second, tr_TLSHandshakeTimeout = 500 * millisecond, tr_ExpectContinueTimeout = 250 * millisecond,
      tr_DisableCompression = True, tr_DisableKeepAlives = False, tr_ResponseHeaderTimeout = 1 * second,
      tr_TLSClientConfig = \<lparr>tl_MinVersion = 0x0303, tl_SessionTicketsDisabled = False, tl_ClientSessionCache = 2000\<rparr>,
      tr_TLSNextProto = Some [], tr_WriteBufferSize = 4096 * 1024, tr_ReadBufferSize = 4096 * 1024\<rparr>"

text \<open>The pool: \<^verbatim>\<open>Get\<close> takes any stored transport or makes one; a transport is put back without its idle connections, which \<open>closeIdle\<close> closes.\<close>

definition GetPooledTransport :: "int \<Rightarrow> nat option \<Rightarrow> http_transport list \<Rightarrow> http_transport \<times> http_transport list" where
  "GetPooledTransport procs pick pool =
     (case pick of
        Some i \<Rightarrow> if i < length pool then (pool ! i, take i pool @ drop (Suc i) pool) else (NewFastHTTPTransport procs, pool)
      | None \<Rightarrow> (NewFastHTTPTransport procs, pool))"

definition ReturnPooledTransport :: "(http_transport \<Rightarrow> http_transport) \<Rightarrow> http_transport \<Rightarrow> http_transport list \<Rightarrow> http_transport list" where
  "ReturnPooledTransport closeIdle t pool = pool @ [closeIdle t]"

text \<open>\<^verbatim>\<open>net/http\<close> sets HTTP/2 up unless \<^verbatim>\<open>TLSNextProto\<close> is a non-nil map; an empty map turns it off, also with \<^verbatim>\<open>ForceAttemptHTTP2\<close>.\<close>

definition http2_configured :: "http_transport \<Rightarrow> bool" where
  "http2_configured t \<longleftrightarrow> (case tr_TLSNextProto t of None \<Rightarrow> tr_ForceAttemptHTTP2 t | Some protos \<Rightarrow> ''h2'' \<in> set protos)"

lemma no_http2: "\<not> http2_configured (NewFastHTTPTransport procs)" "\<not> http2_configured (GetSDKOptimizedTransport procs)"
  by (simp_all add: http2_configured_def NewFastHTTPTransport_def GetSDKOptimizedTransport_def)

section \<open>Socket options\<close>

text \<open>The constants of the package \<^verbatim>\<open>syscall\<close>; \<open>linux\<close> are those of Linux. The options are set in this order and their errors ignored.\<close>

record sys_consts =
  IPPROTO_TCP :: int
  SOL_SOCKET :: int
  TCP_NODELAY :: int
  SO_SNDBUF :: int
  SO_RCVBUF :: int
  SO_KEEPALIVE :: int

definition linux :: sys_consts where
  "linux = \<lparr>IPPROTO_TCP = 6, SOL_SOCKET = 1, TCP_NODELAY = 1, SO_SNDBUF = 7, SO_RCVBUF = 8, SO_KEEPALIVE = 9\<rparr>"

definition setTCPOptions_linux :: "string \<Rightarrow> (int \<times> int \<times> int) list" where
  "setTCPOptions_linux address =
     (let tcp = IPPROTO_TCP linux; sock = SOL_SOCKET linux in
      (if Contains address '':'' then [(tcp, 3, 1)] else []) @
      [(tcp, TCP_NODELAY linux, 1), (tcp, 12, 1), (sock, SO_SNDBUF linux, 2 * 1024 * 1024), (sock, SO_RCVBUF linux, 2 * 1024 * 1024),
       (sock, 15, 1), (sock, SO_KEEPALIVE linux, 1), (tcp, 4, 10), (tcp, 5, 2), (tcp, 6, 2), (tcp, 18, 1000), (sock, 2, 1), (tcp, 25, 1024)])"

definition setTCPOptions_others :: "sys_consts \<Rightarrow> string \<Rightarrow> (int \<times> int \<times> int) list" where
  "setTCPOptions_others c address =
     [(IPPROTO_TCP c, TCP_NODELAY c, 1), (SOL_SOCKET c, SO_SNDBUF c, 4 * 1024 * 1024), (SOL_SOCKET c, SO_RCVBUF c, 4 * 1024 * 1024),
      (SOL_SOCKET c, SO_KEEPALIVE c, 1)]"

text \<open>The condition on the cork holds for every address the dialer makes: it does not tell connections apart.\<close>

lemma dialed_is_corked: "(6, 3, 1) \<in> set (setTCPOptions_linux (JoinHostPort host port))"
  using JoinHostPort_colon [of host port] by (auto simp: setTCPOptions_linux_def linux_def Contains_iff Let_def dest: split_list)

end
