(* ===== verification/S3proxy_Main.thy ===== *)
theory S3proxy_Main
  imports Proxy_Server Config
begin

text \<open>
  \<^verbatim>\<open>cmd/s3proxy/main.go\<close>: the flags, what \<^verbatim>\<open>run\<close> sets up from them with \<open>Load\<close> and \<open>NewServer\<close>, and the life of the server until it has been
  shut down. \<^verbatim>\<open>logrus.ParseLevel\<close> is an argument; log output is left out. Proved: a server that starts has a complete configuration; the program ends
  without an error only after a signal, with no connection left or after the shutdown has failed; and which settings have no effect.
\<close>

section \<open>Flags and set-up\<close>

definition flag_defaults :: smap where
  "flag_defaults = [(''config'', ''''), (''listen'', '':8080''), (''log-level'', ''info'')]"

definition GetString :: "smap \<Rightarrow> string \<Rightarrow> string" where
  "GetString args name = (case map_of args name of Some v \<Rightarrow> v | None \<Rightarrow> sm_get flag_defaults name)"

text \<open>logrus numbers its levels from \<^verbatim>\<open>PanicLevel\<close> 0 over \<^verbatim>\<open>ErrorLevel\<close> 2, \<^verbatim>\<open>WarnLevel\<close> 3 and \<^verbatim>\<open>InfoLevel\<close> 4 to \<^verbatim>\<open>TraceLevel\<close> 6.\<close>

definition WarnLevel :: nat where
  "WarnLevel = 3"

definition run_level :: "nat \<Rightarrow> nat" where
  "run_level level = (if level < WarnLevel then WarnLevel else level)"

definition override_listen :: "string \<Rightarrow> app_config \<Rightarrow> app_config" where
  "override_listen listenAddr cfg =
     (if listenAddr \<noteq> '''' then cfg\<lparr>cf_Server := (cf_Server cfg)\<lparr>sv_Listen := listenAddr\<rparr>\<rparr> else cfg)"

record http_server =
  hs_Addr :: string
  hs_ReadTimeout :: duration
  hs_WriteTimeout :: duration
  hs_IdleTimeout :: duration
  hs_MaxHeaderBytes :: int
  hs_ReadHeaderTimeout :: duration

definition new_http_server :: "app_config \<Rightarrow> http_server" where
  "new_http_server cfg =
     \<lparr>hs_Addr = sv_Listen (cf_Server cfg), hs_ReadTimeout = 30 * second, hs_WriteTimeout = 300 * second, hs_IdleTimeout = 300 * second,
      hs_MaxHeaderBytes = 2 ^ 20, hs_ReadHeaderTimeout = 2 * second\<rparr>"

text \<open>\<^verbatim>\<open>run\<close> up to the start of the server: the level, the configuration, the proxy and the HTTP server.\<close>

definition run_setup ::
  "(string \<Rightarrow> nat res) \<Rightarrow> (string \<Rightarrow> app_config res) \<Rightarrow> (app_config \<Rightarrow> 'p res) \<Rightarrow> smap \<Rightarrow> (nat \<times> app_config \<times> 'p \<times> http_server) res" where
  "run_setup ParseLevel load newServer args =
     res_bind (wrap_err ''invalid log level: '' (ParseLevel (GetString args ''log-level''))) (\<lambda>level.
     res_bind (wrap_err ''failed to load config: '' (load (GetString args ''config''))) (\<lambda>cfg0.
     let cfg = override_listen (GetString args ''listen'') cfg0 in
     res_bind (wrap_err ''failed to create proxy server: '' (newServer cfg)) (\<lambda>proxyServer.
     Ok (run_level level, cfg, proxyServer, new_http_server cfg))))"

text \<open>What a new connection gets, if it is a TCP connection.\<close>

datatype conn_option = SetNoDelay bool | SetKeepAlive bool | SetKeepAlivePeriod duration

definition ConnState :: "bool \<Rightarrow> bool \<Rightarrow> conn_option list" where
  "ConnState is_new is_tcp = (if is_new \<and> is_tcp then [SetNoDelay True, SetKeepAlive True, SetKeepAlivePeriod (30 * second)] else [])"

text \<open>What \<^verbatim>\<open>main\<close> makes of the result of \<^verbatim>\<open>run\<close>: the exit status, and what it prints on standard error.\<close>

definition main_exit :: "go_error option \<Rightarrow> int \<times> string" where
  "main_exit err = (case err of Some e \<Rightarrow> (1, ''Error: '' @ error_msg e @ [CHR 0x0A]) | None \<Rightarrow> (0, []))"

section \<open>Serving and shutting down\<close>

text \<open>The main goroutine serves, waits for the shutdown to end, and returns; the other one waits for a signal and shuts the server down.
  \<open>Shutdown\<close> closes the listener, which makes \<^verbatim>\<open>ListenAndServe\<close> return \<^verbatim>\<open>ErrServerClosed\<close> at once, and then waits for the connections to become idle,
  until its context times out. At most one signal is buffered.\<close>

datatype main_pc = Serving | WaitDone | Returned "go_error option"
datatype signal_pc = WaitSignal | ShuttingDown | SignalDone "go_error option"

record main_state =
  mn_main :: main_pc
  mn_signal :: signal_pc
  mn_buffered :: nat
  mn_cancelled :: bool
  mn_active :: nat

definition main_init :: main_state where
  "main_init = \<lparr>mn_main = Serving, mn_signal = WaitSignal, mn_buffered = 0, mn_cancelled = False, mn_active = 0\<rparr>"

inductive main_step :: "main_state \<Rightarrow> main_state \<Rightarrow> bool" where
  signal: "main_step s (s\<lparr>mn_buffered := 1\<rparr>)"
| accept: "mn_main s = Serving \<Longrightarrow> mn_signal s = WaitSignal \<Longrightarrow> main_step s (s\<lparr>mn_active := Suc (mn_active s)\<rparr>)"
| finish: "mn_active s = Suc n \<Longrightarrow> main_step s (s\<lparr>mn_active := n\<rparr>)"
| take_signal: "mn_signal s = WaitSignal \<Longrightarrow> 0 < mn_buffered s \<Longrightarrow> main_step s (s\<lparr>mn_signal := ShuttingDown, mn_buffered := 0\<rparr>)"
| shutdown_idle: "mn_signal s = ShuttingDown \<Longrightarrow> mn_active s = 0 \<Longrightarrow> main_step s (s\<lparr>mn_signal := SignalDone None, mn_cancelled := True\<rparr>)"
| shutdown_error: "mn_signal s = ShuttingDown \<Longrightarrow> main_step s (s\<lparr>mn_signal := SignalDone (Some e), mn_cancelled := True\<rparr>)"
| serve_closed: "mn_main s = Serving \<Longrightarrow> mn_signal s \<noteq> WaitSignal \<Longrightarrow> main_step s (s\<lparr>mn_main := WaitDone\<rparr>)"
| serve_error: "mn_main s = Serving \<Longrightarrow> main_step s (s\<lparr>mn_main := Returned (Some (ErrWrap ''server error: '' e)), mn_cancelled := True\<rparr>)"
| main_done: "mn_main s = WaitDone \<Longrightarrow> mn_cancelled s \<Longrightarrow> main_step s (s\<lparr>mn_main := Returned None\<rparr>)"

inductive main_reach :: "main_state \<Rightarrow> bool" where
  reach_init: "main_reach main_init"
| reach_step: "main_reach s \<Longrightarrow> main_step s s' \<Longrightarrow> main_reach s'"

inductive_cases main_stepE: "main_step s s'"

section \<open>What is proved\<close>

text \<open>When \<open>Returned\<close> without an error, the shutdown has ended; when it ended well, no connection is left.\<close>

definition main_ok :: "main_state \<Rightarrow> bool" where
  "main_ok s \<longleftrightarrow>
     (mn_signal s = SignalDone None \<longrightarrow> mn_active s = 0)
     \<and> (mn_cancelled s \<longrightarrow> (\<exists>r. mn_signal s = SignalDone r) \<or> (\<exists>e. mn_main s = Returned (Some e)))
     \<and> ((\<exists>r. mn_signal s = SignalDone r) \<longrightarrow> mn_cancelled s)
     \<and> (mn_main s = WaitDone \<longrightarrow> mn_signal s \<noteq> WaitSignal)
     \<and> (mn_main s = Returned None \<longrightarrow> (\<exists>r. mn_signal s = SignalDone r))"

lemma main_step_ok: "main_step s s' \<Longrightarrow> main_ok s \<Longrightarrow> main_ok s'"
  by (erule main_stepE) (auto simp: main_ok_def)

lemma main_reach_ok: "main_reach s \<Longrightarrow> main_ok s"
proof (induction rule: main_reach.induct)
  case reach_init
  then show ?case by (simp add: main_ok_def main_init_def)
next
  case (reach_step s s')
  then show ?case using main_step_ok by blast
qed

lemma waiting_returns:
  assumes "main_ok s" and w: "mn_main s = WaitDone"
  shows "\<exists>s'. main_step\<^sup>*\<^sup>* s s' \<and> mn_main s' = Returned None"
proof (cases "mn_cancelled s")
  case True
  then have "main_step\<^sup>*\<^sup>* s (s\<lparr>mn_main := Returned None\<rparr>)" using main_done [OF w] by simp
  moreover have "mn_main (s\<lparr>mn_main := Returned None\<rparr>) = Returned None" by simp
  ultimately show ?thesis by blast
next
  case False
  then have "mn_signal s = ShuttingDown" using assms by (cases "mn_signal s") (auto simp: main_ok_def)
  let ?s = "s\<lparr>mn_signal := SignalDone (Some ErrEOF), mn_cancelled := True\<rparr>"
  have "main_step s ?s" using \<open>mn_signal s = ShuttingDown\<close> by (rule shutdown_error)
  moreover have "main_step ?s (?s\<lparr>mn_main := Returned None\<rparr>)" by (rule main_done) (simp_all add: w)
  ultimately have "main_step\<^sup>*\<^sup>* s (?s\<lparr>mn_main := Returned None\<rparr>)" by (meson r_into_rtranclp rtranclp_trans)
  moreover have "mn_main (?s\<lparr>mn_main := Returned None\<rparr>) = Returned None" by simp
  ultimately show ?thesis by blast
qed

text \<open>C39: The program ends without an error only after a signal has been taken and the shutdown of the server has ended, and then no connection is
  left unless the shutdown has reported an error (its thirty seconds were over). And it does end: once the server has been closed, the main goroutine
  can always go on to return without an error.\<close>

theorem graceful_exit:
  assumes "main_reach s"
  shows "(mn_main s = Returned None \<longrightarrow> mn_signal s = SignalDone None \<and> mn_active s = 0 \<or> (\<exists>e. mn_signal s = SignalDone (Some e)))
    \<and> (mn_main s = WaitDone \<longrightarrow> (\<exists>s'. main_step\<^sup>*\<^sup>* s s' \<and> mn_main s' = Returned None))"
proof -
  have ok: "main_ok s" using assms by (rule main_reach_ok)
  have "mn_signal s = SignalDone None \<and> mn_active s = 0 \<or> (\<exists>e. mn_signal s = SignalDone (Some e))" if ret: "mn_main s = Returned None"
  proof -
    obtain r where "mn_signal s = SignalDone r" using ok ret unfolding main_ok_def by blast
    then show ?thesis using ok by (cases r) (simp_all add: main_ok_def)
  qed
  then show ?thesis using waiting_returns [OF ok] by blast
qed

definition served_one :: main_state where
  "served_one = \<lparr>mn_main = WaitDone, mn_signal = ShuttingDown, mn_buffered = 0, mn_cancelled = False, mn_active = 1\<rparr>"

lemma served_one_reach: "main_reach served_one"
proof -
  let ?a = "main_init\<lparr>mn_active := Suc 0\<rparr>"
  have "main_step main_init (main_init\<lparr>mn_active := Suc (mn_active main_init)\<rparr>)" by (rule accept) (simp_all add: main_init_def)
  then have 1: "main_reach ?a" using reach_step [OF reach_init] by (simp add: main_init_def)
  have 2: "main_reach (?a\<lparr>mn_buffered := 1\<rparr>)" using reach_step [OF 1 signal] .
  have "main_step (?a\<lparr>mn_buffered := 1\<rparr>) (?a\<lparr>mn_buffered := 1\<rparr>\<lparr>mn_signal := ShuttingDown, mn_buffered := 0\<rparr>)"
    by (rule take_signal) (simp_all add: main_init_def)
  then have 3: "main_reach (?a\<lparr>mn_buffered := 1\<rparr>\<lparr>mn_signal := ShuttingDown, mn_buffered := 0\<rparr>)" using reach_step [OF 2] by blast
  have "main_step (?a\<lparr>mn_buffered := 1\<rparr>\<lparr>mn_signal := ShuttingDown, mn_buffered := 0\<rparr>)
      (?a\<lparr>mn_buffered := 1\<rparr>\<lparr>mn_signal := ShuttingDown, mn_buffered := 0\<rparr>\<lparr>mn_main := WaitDone\<rparr>)"
    by (rule serve_closed) (simp_all add: main_init_def)
  then have "main_reach (?a\<lparr>mn_buffered := 1\<rparr>\<lparr>mn_signal := ShuttingDown, mn_buffered := 0\<rparr>\<lparr>mn_main := WaitDone\<rparr>)" using reach_step [OF 3] by blast
  then show ?thesis by (simp add: main_init_def served_one_def)
qed

theorem graceful_exit_witness: "\<exists>s'. main_step\<^sup>*\<^sup>* served_one s' \<and> mn_main s' = Returned None"
  using graceful_exit [OF served_one_reach] by (simp add: served_one_def)

text \<open>What \<^verbatim>\<open>run\<close> starts is well formed: the configuration selects a storage provider and has its section, so that the backend's constructor does not
  meet a nil pointer, the credentials of the environment have replaced those of the file, the log level is at least that of warnings, the HTTP server listens on the address
  of the configuration, and the proxy was made from that configuration.\<close>

theorem started_well_formed:
  assumes "run_setup ParseLevel (Load read_file unmarshal process_env zero_cfg) newServer args = Ok (level, cfg, proxyServer, srv)"
  shows "storage_ready cfg \<and> WarnLevel \<le> level \<and> hs_Addr srv = sv_Listen (cf_Server cfg) \<and> newServer cfg = Ok proxyServer
    \<and> (ac_AWSAccessKeyID (cf_Auth cfg) \<noteq> '''' \<longrightarrow> ac_Identity (cf_Auth cfg) = ac_AWSAccessKeyID (cf_Auth cfg))"
proof -
  obtain l cfg0 where c: "Load read_file unmarshal process_env zero_cfg (GetString args ''config'') = Ok cfg0"
    "cfg = override_listen (GetString args ''listen'') cfg0" "newServer cfg = Ok proxyServer" "level = run_level l" "srv = new_http_server cfg"
    using assms by (auto simp: run_setup_def Let_def)
  have same: "cf_Storage cfg = cf_Storage cfg0" "cf_Auth cfg = cf_Auth cfg0" by (simp_all add: c(2) override_listen_def)
  show ?thesis using Load_Ok [OF c(1)] c(3,4,5) same by (simp add: storage_ready_def run_level_def new_http_server_def)
qed

text \<open>A set-up on the model's own server: a file system backend and no cache.\<close>

definition blank_config :: app_config where
  "blank_config =
     \<lparr>cf_Server = \<lparr>sv_Listen = '''', sv_ReadTimeout = 0, sv_WriteTimeout = 0, sv_IdleTimeout = 0, sv_MaxBodySize = 0\<rparr>,
      cf_S3 = \<lparr>s3c_Region = '''', s3c_VirtualHost = False, s3c_PathStyle = False, s3c_ServicePath = '''', s3c_IgnoreUnknownHeaders = False\<rparr>,
      cf_Storage = \<lparr>sc_Provider = ''filesystem'', sc_Azure = None, sc_S3 = None, sc_FileSystem = Some \<lparr>fc_BaseDir = ''/d''\<rparr>\<rparr>,
      cf_Auth = \<lparr>ac_Type = ''none'', ac_Identity = '''', ac_Credential = '''', ac_AWSAccessKeyID = '''', ac_AWSSecretAccessKey = ''''\<rparr>,
      cf_Encryption = \<lparr>ec_Enabled = False, ec_Algorithm = '''', ec_KeyProvider = '''', ec_Local = None, ec_KMS = None, ec_AzureKV = None, ec_Custom = None,
        ec_KeyProviders = [], ec_Policies = []\<rparr>\<rparr>"

abbreviation "demo_server \<equiv> NewServer (\<lambda>_. '''') Ok (\<lambda>_. Ok ()) (\<lambda>_. Ok ()) list_prom [] 0"
abbreviation "demo_load \<equiv> Load (\<lambda>_. Err ErrEOF) (\<lambda>() c. Ok c) Ok blank_config"

theorem started_well_formed_witness:
  "\<exists>cfg p srv. run_setup (\<lambda>_. Ok 2) demo_load demo_server [] = Ok (3, cfg, p, srv) \<and> storage_ready cfg \<and> hs_Addr srv = '':8080''"
proof -
  let ?cfg = "override_listen '':8080'' blank_config"
  have l: "demo_load '''' = Ok blank_config"
    by (simp add: Load_def blank_config_def aws_env_precedence_def validate_def Let_def)
  have f: "GetString [] ''config'' = ''''" "GetString [] ''listen'' = '':8080''" "GetString [] ''log-level'' = ''info''"
    by (simp_all add: GetString_def flag_defaults_def sm_get_def)
  obtain p where p: "demo_server ?cfg = Ok p"
    by (simp add: NewServer_def server_cache_def NewAuthProvider_def override_listen_def blank_config_def NewMetrics_def list_prom_def metric_descs_def Let_def)
  have r: "run_setup (\<lambda>_. Ok 2) demo_load demo_server [] = Ok (3, ?cfg, p, new_http_server ?cfg)"
    by (simp add: run_setup_def f l p run_level_def WarnLevel_def Let_def)
  have "hs_Addr (new_http_server ?cfg) = '':8080''" by (simp add: new_http_server_def override_listen_def)
  then show ?thesis using started_well_formed [OF r] r by blast
qed

text \<open>The flag \<^verbatim>\<open>listen\<close> has a default that is never empty: without the flag the server listens there, whatever the file and the environment say; and
  the timeouts of the configuration are not used.\<close>

lemma configured_server_ignored:
  assumes "run_setup ParseLevel load newServer args = Ok (level, cfg, proxyServer, srv)" and "map_of args ''listen'' = None"
  shows "srv = \<lparr>hs_Addr = '':8080'', hs_ReadTimeout = 30 * second, hs_WriteTimeout = 300 * second, hs_IdleTimeout = 300 * second,
                hs_MaxHeaderBytes = 2 ^ 20, hs_ReadHeaderTimeout = 2 * second\<rparr>"
proof -
  have "GetString args ''listen'' = '':8080''" using assms(2) by (simp add: GetString_def flag_defaults_def sm_get_def)
  then show ?thesis using assms(1) by (auto simp: run_setup_def Let_def override_listen_def new_http_server_def)
qed

text \<open>The level \<^verbatim>\<open>error\<close> of the flag's help is raised to warnings.\<close>

lemma error_level_logs_warnings: "run_level 2 = WarnLevel"
  by (simp add: run_level_def WarnLevel_def)

end
