(* ===== verification/Spec2Isabelle.thy ===== *)
theory Spec2Isabelle
  imports Config KMS_Envelope KMS_Providers Enc_Keys Enc_Manager Storage_Backend Storage_FileSystem Storage_Encrypted
    Object_Cache Auth_Provider Proxy_RateLimit S3_Handler Metrics Proxy_Server Storage_S3 S3_Handler_KMS Azure_Encrypted
    Enc_Stream Stream_Progress Encrypted_HTTP Transport S3proxy_Main
begin

text \<open>
  A verification development for \<^verbatim>\<open>s3proxy-go\<close>, a proxy in Go that serves the S3 protocol over several kinds of
  storage, with optional encryption, caching and rate limiting. Paths below are relative to the repository.

  \<^bold>\<open>The program.\<close> A request reaches \<^verbatim>\<open>internal/proxy/server.go\<close>, which repairs the authorization header of MinIO clients,
  runs the metrics middleware (\<^verbatim>\<open>internal/metrics\<close>), authenticates (\<^verbatim>\<open>internal/auth\<close>) and passes the request to the handlers of
  \<^verbatim>\<open>pkg/s3/handler.go\<close>. They call a storage backend (\<^verbatim>\<open>internal/storage/backend.go\<close>): the file system, S3 or Azure,
  possibly behind the object cache (\<^verbatim>\<open>internal/cache\<close>). The encrypting backend (\<^verbatim>\<open>internal/storage/encrypted.go\<close>) wraps
  any backend with an encryption manager (\<^verbatim>\<open>internal/encryption\<close>), whose keys come from a local key, from AWS KMS or from a
  KMS provider (\<^verbatim>\<open>internal/kms\<close>).

  \<^bold>\<open>The theories\<close>, with the code they model.

  \<^item> \<open>Go_Base\<close>, \<open>Go_UTF8\<close>, \<open>Go_Crypto\<close>, \<open>Go_JSON\<close>, \<open>Go_OS\<close>, \<open>Go_HTTP\<close>, \<open>Go_Stream\<close>, \<open>Go_Net\<close>: what the code uses of the Go language and its
    standard library. Calls return a value, an error or a panic (\<open>res\<close>); readers are their bytes and their final error, or, where the sizes of the reads
    matter, the pieces a source delivers (\<open>Go_Stream\<close>, whose locale \<open>byte_reader\<close> says that a reader delivers what it holds, so that reading it to the end
    ends with all of it); AES-GCM, SHA-256, HMAC, MD5, hex and base64 are executable; the file system is a tree of files and directories with
    modification times; JSON is printed and parsed (the parser has the length of its input as fuel, which every step shortens), and a string that is not valid UTF-8 is changed on
    the way, so that the round trips of metadata have the validity of names and values as a hypothesis; HTTP requests and
    responses are records; addresses are split and joined. The locale \<open>aead\<close> states what the components need of an authenticated cipher
    and is interpreted on AES-GCM.
  \<^item> \<open>Config\<close>: \<^verbatim>\<open>internal/config/config.go\<close>. A loaded configuration has the structure its provider needs.
  \<^item> \<open>TTL_Cache\<close>: the contracts \<open>ttl_store\<close> and \<open>ttl_cache\<close> of the caches whose entries expire, interpreted on the data key cache, the metadata
    cache of the S3 backend and the DNS cache.
  \<^item> \<open>KMS_Cache\<close>, \<open>KMS_Manager\<close>, \<open>KMS_Envelope\<close>, \<open>KMS_Providers\<close>: \<^verbatim>\<open>internal/kms\<close>. The data keys are
    references into a heap of byte slices, so that clearing a key is seen by everyone who shares it. Invariants of the cache under any
    interleaving of its operations, what an envelope and an encrypted stream hold, soundness and completeness of key validation. A
    call of the AWS client gets a context that may be nil, as \<^verbatim>\<open>envelope.go\<close> passes it: then it panics.
  \<^item> \<open>Enc_Keys\<close>, \<open>Enc_Manager\<close>: \<^verbatim>\<open>internal/encryption\<close> (key providers, adapter, simple AES-GCM encryptor, manager, factory).
    A manager decrypts what it encrypted.
  \<^item> \<open>Enc_Stream\<close>: \<^verbatim>\<open>internal/encryption/stream\<close>, the chunked encryptor and the wrapper of readers. Nonces are not reused, chunks decrypt; what happens with
    other buffer sizes and truncated streams.
  \<^item> \<open>Storage_Backend\<close>: \<^verbatim>\<open>internal/storage/backend.go\<close>. The interface is a record of operations over a state; the locale
    \<open>object_store\<close> is the contract of a backend: what a lookup returns after a store.
  \<^item> \<open>Storage_FileSystem\<close>: \<^verbatim>\<open>internal/storage/filesystem.go\<close>. Interprets \<open>object_store\<close>; multipart uploads concatenate.
  \<^item> \<open>Storage_Encrypted\<close>: \<^verbatim>\<open>internal/storage/encrypted.go\<close>. A sublocale shows that encrypting refines the contract: the wrapped
    backend is again an object store. The locale \<open>encrypting_manager\<close> is what it needs of a manager. Interpreted over the file system with a local
    key and with the KMS adapter.
  \<^item> \<open>Storage_S3\<close>: \<^verbatim>\<open>internal/storage/s3.go\<close> over a client that is an argument: bucket mapping and prefixes, the decoding of chunked bodies, uploads
    in parts, the metadata cache.
  \<^item> \<open>Azure_Readers\<close>, \<open>Storage_Azure\<close>: \<^verbatim>\<open>internal/storage/azure.go\<close> over a client that is an argument: the buffering readers (three interpretations of
    \<open>byte_reader\<close>), the names of metadata, uploads, listings and parts. \<open>Azure_Encrypted\<close>: the encrypting backend over it. Here and in \<open>Storage_S3\<close> the body of an object is
    what a client gets who reads it with buffers of given sizes, an argument, because the readers of the code treat reads of different sizes differently.
  \<^item> \<open>Storage_Stream\<close>, \<open>Storage_Writer\<close>: \<^verbatim>\<open>internal/storage/stream.go\<close>. The prefetching reader and the parallel writer, with their goroutines and
    channels, as functions from lists of actions to states, so that a theorem about all lists is about all interleavings. \<open>Stream_Progress\<close>: their calls return, by
    progress and a measure.
  \<^item> \<open>Object_Cache\<close>: \<^verbatim>\<open>internal/cache/cache.go\<close>. A step relation of reads, stores and deletes; the cache is coherent in every
    reachable state, so a caching backend is transparent.
  \<^item> \<open>Auth_Provider\<close>: \<^verbatim>\<open>internal/auth/provider.go\<close>. Which requests are accepted; the caching provider as a step relation with a log of its checks.
  \<^item> \<open>Proxy_RateLimit\<close>: \<^verbatim>\<open>internal/proxy/ratelimit.go\<close>. The rate limiter, and the concurrency limiter as a step relation.
  \<^item> \<open>S3_Handler\<close>: \<^verbatim>\<open>pkg/s3/handler.go\<close>. All handlers over any backend. The locale \<open>object_reader\<close> is what a backend
    promises to the handlers that read; range responses are compared with the meaning of the three range forms of HTTP.
    \<open>Encrypted_HTTP\<close>: a sublocale carries \<open>object_reader\<close> over to the encrypting backend, so that the handlers serve ranges of the plaintext.
  \<^item> \<open>S3_Handler_KMS\<close>: \<^verbatim>\<open>pkg/s3/handler_kms.go\<close>. How the kind of encryption and the key get from the KMS manager to the storage service, over a service that logs its inputs.
  \<^item> \<open>Metrics\<close>: \<^verbatim>\<open>internal/metrics/metrics.go\<close>. The middleware is transparent and its counters are exact; the wrapped writer records the status and the size of the response for a handler that sets the status once and first.
  \<^item> \<open>Proxy_Server\<close>: \<^verbatim>\<open>internal/proxy/server.go\<close>. The composition: authentication gate, handlers, metrics, and the whole path of
    a stored object through the server.
  \<^item> \<open>Transport\<close>: \<^verbatim>\<open>internal/transport\<close>. The DNS cache as a step relation of concurrent calls, the dialer, the transports and socket options.
  \<^item> \<open>S3proxy_Main\<close>: \<^verbatim>\<open>cmd/s3proxy/main.go\<close>. The set-up from flags and configuration, and the shutdown as a step relation.

  \<^bold>\<open>Conventions.\<close> Definitions carry the names of the source, with the receiver as a prefix where two types share a method name.
  A Go map is an association list in the order a loop visits it; results hold for every order. \<^verbatim>\<open>time.Now\<close>, the source of
  randomness, the router of \<^verbatim>\<open>gorilla/mux\<close>, the AWS and Azure clients, the resolver and the dialer, the two-queue caches, the token buckets and the Prometheus
  client are arguments. Arithmetic is exact with the wrap-around of \<^verbatim>\<open>int64\<close> and \<^verbatim>\<open>uint64\<close> written out where the code can
  reach it. Loops are structural recursions, or have a termination proof. Fuel is used for loops over readers and pages: the loop that
  reads a cached body has one step more than its length, \<open>drain_with\<close> as many reads as the source can answer and one more (\<open>body_reader_returns\<close>, \<open>decoded_body_returns\<close>), \<open>list_containers\<close> one page
  more than the service has, a call of the DNS cache the seven steps it can make; each is proved to be enough. Logging is left out.

  \<^bold>\<open>Flaws.\<close> Some theorems state what the code does where it does not do what it means to: a data key that is cleared while it is
  still in the cache, keys that cannot be decrypted, signatures that are not checked, a suffix range longer than the object, an
  access control list that overwrites its object, encryption settings without effect, buffers that come back from a pool with another type,
  reads that reorder bytes, nil contexts with which envelopes cannot be opened, an encryption context that is not sent, a reader that is done before its buffer is
  empty, metadata that JSON changes, and others.

  \<^bold>\<open>Not modelled:\<close> the interfaces and constant
  names of \<^verbatim>\<open>internal/encryption/types\<close>, which appear as the constructors and strings of the theories above; constructors that only
  fill a structure; tests and benchmarks; log output. The operating system has no names that are too long or forbidden, no missing permissions and no full
  disk. Steps of concurrent components are atomic, so that data races on single values (the fast path of the DNS cache has one) are not represented.
\<close>

end
